(* ===== verification/Lpc.thy ===== *)
theory Lpc
  imports Main "HOL-Library.Word"
begin

text \<open>
  The prelude: what the LPC language gives every source file.

  \<^item> An LPC string is a string of bytes (\<open>bytes\<close>); \<open>str ''abc''\<close> is the literal.
  \<^item> An LPC integer is 32 bits wide in the default build of the platform (the code has
    remarks and preprocessor branches for that case), so it is a \<open>32 word\<close>: \<open>+\<close> wraps,
    \<open><<\<close> is \<open>push_bit\<close>, \<open>>>\<close> is the logical \<open>drop_bit\<close> (vacated bits are zero), and
    comparisons are signed (\<open>sint\<close>).
  \<^item> \<open>error(...)\<close> and the errors the run-time system raises itself (an index out of range, a
    bad range, a nil where a string is needed) are values of \<open>lpc_error\<close>; code that can raise
    one returns a \<open>result\<close>, whose \<open>Inl\<close> is the error.  \<open>rbind\<close> is sequencing: the first
    error ends the computation.
\<close>

unbundle bit_operations_syntax

type_synonym byte = "8 word"
type_synonym bytes = "byte list"
type_synonym lpcint = "32 word"

definition str :: "string \<Rightarrow> bytes" where
  "str s = map of_char s"

lemma str_Nil [simp]: "str [] = []"
  and str_append: "str (s @ t) = str s @ str t"
  and length_str [simp]: "length (str s) = length s"
  by (simp_all add: str_def)

lemma unat_of_char_byte: "unat (of_char c :: byte) = of_char c"
proof -
  have "(of_char c :: byte) = of_nat (of_char c)" by (simp add: of_nat_of_char)
  then show ?thesis by (simp add: unat_of_nat)
qed

lemma of_char_byte_inj: "(of_char c :: byte) = of_char d \<longleftrightarrow> c = d"
  by (metis unat_of_char_byte of_char_eqI)

lemma str_inj [simp]: "str s = str t \<longleftrightarrow> s = t"
  unfolding str_def by (rule inj_map_eq_map) (simp add: inj_def of_char_byte_inj)

section \<open>Errors as values\<close>

datatype lpc_error = Error string | Bad_index | Bad_range | Bad_argument | Not_enough_fuel

type_synonym 'a result = "lpc_error + 'a"

definition rbind :: "'a result \<Rightarrow> ('a \<Rightarrow> 'b result) \<Rightarrow> 'b result" where
  "rbind m f = (case m of Inl e \<Rightarrow> Inl e | Inr a \<Rightarrow> f a)"

lemma rbind_simps [simp]:
  "rbind (Inl e) f = Inl e"
  "rbind (Inr a) f = f a"
  by (simp_all add: rbind_def)

lemma rbind_cong [fundef_cong]:
  assumes "m = n" and "\<And>a. n = Inr a \<Longrightarrow> f a = g a"
  shows "rbind m f = rbind n g"
  using assms by (cases n) simp_all

lemma rbind_eq_Inr [simp]: "rbind m f = Inr b \<longleftrightarrow> (\<exists>a. m = Inr a \<and> f a = Inr b)"
  by (cases m) simp_all

lemma rbind_assoc: "rbind (rbind m f) g = rbind m (\<lambda>a. rbind (f a) g)"
  by (cases m) simp_all

lemma rbind_split: "P (rbind m f) \<longleftrightarrow> (\<forall>e. m = Inl e \<longrightarrow> P (Inl e)) \<and> (\<forall>a. m = Inr a \<longrightarrow> P (f a))"
  by (cases m) simp_all

lemma rbind_split_asm:
  "P (rbind m f) \<longleftrightarrow> \<not> ((\<exists>e. m = Inl e \<and> \<not> P (Inl e)) \<or> (\<exists>a. m = Inr a \<and> \<not> P (f a)))"
  by (cases m) simp_all

definition rmap :: "('a \<Rightarrow> 'b) \<Rightarrow> 'a result \<Rightarrow> 'b result" where
  "rmap f m = rbind m (\<lambda>a. Inr (f a))"

lemma rmap_simps [simp]:
  "rmap f (Inl e) = Inl e"
  "rmap f (Inr a) = Inr (f a)"
  by (simp_all add: rmap_def)

text \<open>A loop that collects one result per element, stopping at the first error.\<close>

fun rmapM :: "('a \<Rightarrow> 'b result) \<Rightarrow> 'a list \<Rightarrow> 'b list result" where
  "rmapM f [] = Inr []"
| "rmapM f (x # xs) = rbind (f x) (\<lambda>y. rbind (rmapM f xs) (\<lambda>ys. Inr (y # ys)))"

lemma rmapM_Inr: "(\<And>x. x \<in> set xs \<Longrightarrow> f x = Inr (g x)) \<Longrightarrow> rmapM f xs = Inr (map g xs)"
  by (induction xs) simp_all

lemma rmapM_length: "rmapM f xs = Inr ys \<Longrightarrow> length ys = length xs"
  by (induction xs arbitrary: ys) auto

lemma rmapM_nth: "rmapM f xs = Inr ys \<Longrightarrow> i < length xs \<Longrightarrow> f (xs ! i) = Inr (ys ! i)"
  by (induction xs arbitrary: ys i) (auto simp: nth_Cons split: nat.splits)

section \<open>Indexing and ranges\<close>

text \<open>
  \<open>s[i]\<close> is an error outside the string, \<open>s[from .. to]\<close> unless \<open>0 \<le> from \<le> to + 1\<close> and
  \<open>to < strlen(s)\<close>; a missing bound is the first or the last index.
\<close>

definition lpc_index :: "'a list \<Rightarrow> nat \<Rightarrow> 'a result" where
  "lpc_index s i = (if i < length s then Inr (s ! i) else Inl Bad_index)"

definition lpc_range :: "'a list \<Rightarrow> int \<Rightarrow> int \<Rightarrow> 'a list result" where
  "lpc_range s a b =
     (if a < 0 \<or> b + 1 < a \<or> int (length s) \<le> b then Inl Bad_range
      else Inr (take (nat (b + 1 - a)) (drop (nat a) s)))"

lemma lpc_index_lt [simp]: "i < length s \<Longrightarrow> lpc_index s i = Inr (s ! i)"
  by (simp add: lpc_index_def)

lemma lpc_range_nat:
  "n \<le> m \<Longrightarrow> m \<le> length s \<Longrightarrow> lpc_range s (int n) (int m - 1) = Inr (take (m - n) (drop n s))"
  by (simp add: lpc_range_def nat_diff_distrib)

lemma lpc_range_length: "lpc_range s a b = Inr t \<Longrightarrow> int (length t) = b + 1 - a"
  by (auto simp: lpc_range_def split: if_splits)

section \<open>Bits of bytes and integers\<close>

named_theorems masks \<open>the bit masks of the code as \<open>mask\<close> and \<open>push_bit\<close> terms\<close>

lemma mask7 [masks]: "(0x7f :: 'a::len word) = mask 7"
  by (simp add: mask_eq_exp_minus_1)

lemma mask_not7 [masks]: "(- 128 :: 'a::len word) = NOT (mask 7)"
  by (simp add: mask_eq_exp_minus_1 not_eq_complement)

lemma bit80 [masks]: "(0x80 :: 'a::len word) = push_bit 7 1"
  by (simp add: push_bit_eq_mult)

lemma bit_0x7f: "bit (0x7f :: int) n \<longleftrightarrow> n < 7" "bit (0x7f :: nat) n \<longleftrightarrow> n < 7"
proof -
  have "(0x7f :: int) = mask 7" "(0x7f :: nat) = mask 7" by (simp_all add: mask_eq_exp_minus_1)
  then show "bit (0x7f :: int) n \<longleftrightarrow> n < 7" "bit (0x7f :: nat) n \<longleftrightarrow> n < 7"
    by (simp_all only: bit_mask_iff) simp_all
qed

lemma bit_0x80: "bit (0x80 :: int) n \<longleftrightarrow> n = 7" "bit (0x80 :: nat) n \<longleftrightarrow> n = 7"
proof -
  have "(0x80 :: int) = 2 ^ 7" "(0x80 :: nat) = 2 ^ 7" by simp_all
  then show "bit (0x80 :: int) n \<longleftrightarrow> n = 7" "bit (0x80 :: nat) n \<longleftrightarrow> n = 7"
    by (simp_all only: bit_exp_iff) auto
qed

lemmas bit_masks = bit_0x7f bit_0x80

lemma split7: "v = (v AND 0x7f) OR push_bit 7 (drop_bit 7 v)" for v :: "'a::len word"
  by (rule bit_word_eqI, case_tac "n < 7") (auto simp: bit_simps bit_masks not_less)

lemma and_not127_eq_0_iff: "v AND (-128) = 0 \<longleftrightarrow> v AND 0x7f = v" for v :: "'a::len word"
  unfolding mask_not7 mask7 by (auto simp: bit_eq_iff bit_simps)

end
