(* ===== verification/Asn.thy ===== *)
theory Asn
  imports Lpc
begin

text \<open>
  Arbitrary-precision numbers, LPC style: a string read as a big-endian two's complement
  number.  The built-in functions \<open>asn_add\<close>, \<open>asn_sub\<close>, \<open>asn_mult\<close>, \<open>asn_div\<close>, \<open>asn_mod\<close>,
  \<open>asn_lshift\<close> and \<open>asn_rshift\<close> of the language are defined here on the value
  (\<open>asn_val\<close>) and deliver the shortest encoding of their result (\<open>asn_num\<close>); with a modulus,
  the result has the sign of the exact value and is smaller than the modulus in magnitude.

  The helper functions \<open>asn::encode\<close>, \<open>asn::decode\<close>, \<open>asn::extend\<close>,
  \<open>asn::unsignedExtend\<close> and \<open>asn::reverse\<close> come from the host framework and are not part
  of the repository: they are the fields of the parameter \<open>asn_lib\<close>, and the locale
  \<open>asn_library\<close> states what the code relies on.  \<open>std_asn_lib\<close> is an implementation of that
  contract.
\<close>

section \<open>Values and shortest encodings\<close>

definition asn_uval :: "bytes \<Rightarrow> nat" where
  "asn_uval bs = foldl (\<lambda>a b. a * 256 + unat b) 0 bs"

definition asn_val :: "bytes \<Rightarrow> int" where
  "asn_val bs =
     (if bs = [] then 0
      else if bit (hd bs) 7 then - int (asn_uval (map NOT bs)) - 1
      else int (asn_uval bs))"

fun asn_unum :: "nat \<Rightarrow> bytes" where
  "asn_unum n = (if n = 0 then [] else asn_unum (n div 256) @ [of_nat n])"

declare asn_unum.simps [simp del]

definition asn_pad :: "bytes \<Rightarrow> bytes" where
  "asn_pad bs = (if bs = [] \<or> bit (hd bs) 7 then 0 # bs else bs)"

definition asn_num :: "int \<Rightarrow> bytes" where
  "asn_num i =
     (if 0 \<le> i then asn_pad (asn_unum (nat i))
      else map NOT (asn_pad (asn_unum (nat (- i - 1)))))"

lemma asn_uval_Nil [simp]: "asn_uval [] = 0"
  and asn_uval_snoc: "asn_uval (bs @ [b]) = asn_uval bs * 256 + unat b"
  by (simp_all add: asn_uval_def)

lemma asn_uval_append: "asn_uval (xs @ ys) = asn_uval xs * 256 ^ length ys + asn_uval ys"
proof (induction ys rule: rev_induct)
  case (snoc y ys)
  then show ?case
    unfolding append_assoc [symmetric] asn_uval_snoc by (simp add: algebra_simps)
qed simp

lemma asn_uval_Cons: "asn_uval (b # bs) = unat b * 256 ^ length bs + asn_uval bs"
  using asn_uval_append [of "[b]" bs] by (simp add: asn_uval_def)

lemma asn_uval_zeros [simp]: "asn_uval (replicate n 0) = 0"
  by (induction n) (simp_all add: asn_uval_Cons)

lemma asn_uval_zero_Cons [simp]: "asn_uval (0 # bs) = asn_uval bs"
  by (simp add: asn_uval_Cons)

lemma asn_uval_pad [simp]: "asn_uval (replicate n 0 @ bs) = asn_uval bs"
  by (simp add: asn_uval_append)

lemma asn_uval_lt: "asn_uval bs < 256 ^ length bs"
proof (induction bs rule: rev_induct)
  case (snoc b bs)
  have "unat b < 256" using unsigned_less [of b] by simp
  with snoc show ?case by (simp add: asn_uval_snoc)
qed simp

lemma asn_uval_unum [simp]: "asn_uval (asn_unum n) = n"
proof (induction n rule: asn_unum.induct)
  case (1 n)
  show ?case
  proof (cases "n = 0")
    case False
    with "1.IH" show ?thesis
      by (subst asn_unum.simps) (simp add: asn_uval_snoc unat_of_nat div_mult_mod_eq)
  qed (simp add: asn_unum.simps)
qed

lemma asn_unum_eq_Nil [simp]: "asn_unum n = [] \<longleftrightarrow> n = 0"
  by (subst asn_unum.simps) simp

lemma asn_unum_0 [simp]: "asn_unum 0 = []"
  by simp

lemma asn_uval_inj_len:
  "length xs = length ys \<Longrightarrow> asn_uval xs = asn_uval ys \<Longrightarrow> xs = ys"
proof (induction xs arbitrary: ys rule: rev_induct)
  case (snoc x xs)
  then obtain zs z where ys: "ys = zs @ [z]"
    by (cases ys rule: rev_cases) auto
  have lt: "unat x < 256" "unat z < 256"
    using unsigned_less [of x] unsigned_less [of z] by simp_all
  have eq: "asn_uval xs * 256 + unat x = asn_uval zs * 256 + unat z"
    using snoc.prems(2) by (simp add: ys asn_uval_snoc)
  have "asn_uval xs = asn_uval zs"
    using arg_cong [OF eq, of "\<lambda>n. n div 256"] lt by simp
  moreover have "unat x = unat z"
    using arg_cong [OF eq, of "\<lambda>n. n mod 256"] lt by simp
  ultimately show ?case using snoc.IH [of zs] snoc.prems(1) by (simp add: ys word_unat_eq_iff)
qed simp

lemma length_asn_unum_le_iff: "length (asn_unum n) \<le> k \<longleftrightarrow> n < 256 ^ k"
proof (induction n arbitrary: k rule: asn_unum.induct)
  case (1 n)
  show ?case
  proof (cases "n = 0")
    case n: False
    show ?thesis
    proof (cases k)
      case 0
      with n show ?thesis by simp
    next
      case (Suc j)
      have "length (asn_unum n) \<le> k \<longleftrightarrow> length (asn_unum (n div 256)) \<le> j"
        using n Suc by (subst asn_unum.simps) simp
      also have "\<dots> \<longleftrightarrow> n div 256 < 256 ^ j"
        using "1.IH" [OF n] .
      finally show ?thesis by (simp add: Suc div_less_iff_less_mult mult.commute)
    qed
  qed simp
qed

lemma asn_unum_uval: "bs = [] \<or> hd bs \<noteq> 0 \<Longrightarrow> asn_unum (asn_uval bs) = bs"
proof (induction bs rule: rev_induct)
  case (snoc b bs)
  have b: "unat b < 256" using unsigned_less [of b] by simp
  have nz: "asn_uval (bs @ [b]) \<noteq> 0"
  proof (cases bs)
    case Nil
    with snoc.prems show ?thesis by (simp add: asn_uval_Cons unat_gt_0)
  next
    case (Cons c cs)
    with snoc.prems have "unat c \<noteq> 0" by (simp add: unat_eq_zero)
    then show ?thesis by (simp add: Cons asn_uval_snoc asn_uval_Cons)
  qed
  have "asn_unum (asn_uval (bs @ [b]))
      = asn_unum (asn_uval bs) @ [of_nat (asn_uval bs * 256 + unat b)]"
    using nz b by (subst asn_unum.simps) (simp add: asn_uval_snoc)
  moreover have "(of_nat (asn_uval bs * 256 + unat b) :: byte) = b"
  proof -
    have "unat (of_nat (asn_uval bs * 256 + unat b) :: byte) = (asn_uval bs * 256 + unat b) mod 256"
      by (simp only: unat_of_nat) simp
    then show ?thesis using b by (simp add: word_unat_eq_iff)
  qed
  moreover have "asn_unum (asn_uval bs) = bs"
    using snoc by (cases bs) auto
  ultimately show ?case by simp
qed simp

lemma asn_unum_strip: "asn_unum (asn_uval bs) = dropWhile (\<lambda>b. b = 0) bs"
proof (induction bs)
  case (Cons b bs)
  show ?case
  proof (cases "b = 0")
    case False
    then show ?thesis using asn_unum_uval [of "b # bs"] by simp
  qed (simp add: Cons.IH)
qed simp

lemma unat_minus_one_word_8: "unat (- 1 :: byte) = 255"
  by (simp add: unsigned_minus_1_eq_mask mask_eq_exp_minus_1)

lemma asn_uval_not:
  "asn_uval (map NOT bs) + asn_uval bs + 1 = 256 ^ length bs"
proof (induction bs rule: rev_induct)
  case (snoc b bs)
  have "NOT b = - 1 - b" by (simp add: not_eq_complement)
  then have "unat (NOT b) = 255 - unat b"
    by (simp add: unat_sub unat_minus_one_word_8)
  moreover have "unat b < 256" using unsigned_less [of b] by simp
  ultimately show ?case using snoc by (simp add: asn_uval_snoc)
qed simp

lemma bit7_iff: "bit b 7 \<longleftrightarrow> 128 \<le> unat b" for b :: byte
proof -
  have "unat b < 256" using unsigned_less [of b] by simp
  moreover have "bit b 7 \<longleftrightarrow> odd (unat b div 128)"
    using bit_unsigned_iff [of b 7, where 'a = nat] by (simp add: bit_iff_odd)
  moreover have "unat b div 128 < 2" using \<open>unat b < 256\<close> by simp
  moreover have "odd k \<longleftrightarrow> 1 \<le> k" if "k < 2" for k :: nat
    using that by (cases k) simp_all
  ultimately have "bit b 7 \<longleftrightarrow> 1 \<le> unat b div 128" by simp
  then show ?thesis by (simp add: le_div_geq Suc_le_eq div_greater_zero_iff)
qed

lemma bit7_hd_iff: "bs \<noteq> [] \<Longrightarrow> bit (hd bs) 7 \<longleftrightarrow> 128 * 256 ^ (length bs - 1) \<le> asn_uval bs"
proof (cases bs)
  case (Cons b bs')
  have lt: "asn_uval bs' < 256 ^ length bs'" by (rule asn_uval_lt)
  show ?thesis
  proof (cases "128 \<le> unat b")
    case True
    then show ?thesis
      by (auto simp: Cons bit7_iff asn_uval_Cons intro: trans_le_add1 mult_right_mono)
  next
    case False
    define X where "X = (256::nat) ^ length bs'"
    from False have "(unat b + 1) * X \<le> 128 * X" by (intro mult_le_mono1) simp
    then have "unat b * X + X \<le> 128 * X" by (simp only: add_mult_distrib mult_1)
    with lt have "unat b * X + asn_uval bs' < 128 * X" unfolding X_def [symmetric] by linarith
    with False show ?thesis by (simp add: Cons bit7_iff asn_uval_Cons X_def [symmetric])
  qed
qed simp

lemma asn_pad_ne [simp]: "asn_pad bs \<noteq> []"
  by (auto simp: asn_pad_def)

lemma asn_pad_bit7 [simp]: "\<not> bit (hd (asn_pad bs)) 7"
  by (auto simp: asn_pad_def)

lemma asn_uval_asn_pad [simp]: "asn_uval (asn_pad bs) = asn_uval bs"
  by (simp add: asn_pad_def)

lemma asn_num_ne [simp]: "asn_num i \<noteq> []"
  by (simp add: asn_num_def)

lemma asn_val_num [simp]: "asn_val (asn_num i) = i"
proof -
  have "hd (map NOT (asn_pad bs)) = NOT (hd (asn_pad bs))" for bs
    by (simp add: hd_map)
  then show ?thesis
    by (auto simp: asn_val_def asn_num_def comp_def bit_not_iff)
qed

lemma asn_val_nonneg: "asn_val (0 # bs) = int (asn_uval bs)"
  by (simp add: asn_val_def)

lemma asn_val_uval: "\<not> bit (hd bs) 7 \<Longrightarrow> asn_val bs = int (asn_uval bs)"
  by (simp add: asn_val_def)

section \<open>The built-in arithmetic\<close>

definition asn_trunc :: "int \<Rightarrow> int \<Rightarrow> int" where
  "asn_trunc x m = sgn x * (\<bar>x\<bar> mod \<bar>m\<bar>)"

definition asn_add :: "bytes \<Rightarrow> bytes \<Rightarrow> bytes \<Rightarrow> bytes" where
  "asn_add a b m = asn_num (asn_trunc (asn_val a + asn_val b) (asn_val m))"

definition asn_sub :: "bytes \<Rightarrow> bytes \<Rightarrow> bytes \<Rightarrow> bytes" where
  "asn_sub a b m = asn_num (asn_trunc (asn_val a - asn_val b) (asn_val m))"

definition asn_mult :: "bytes \<Rightarrow> bytes \<Rightarrow> bytes \<Rightarrow> bytes" where
  "asn_mult a b m = asn_num (asn_trunc (asn_val a * asn_val b) (asn_val m))"

definition asn_mod :: "bytes \<Rightarrow> bytes \<Rightarrow> bytes" where
  "asn_mod a m = asn_num (asn_trunc (asn_val a) (asn_val m))"

definition asn_div :: "bytes \<Rightarrow> bytes \<Rightarrow> bytes \<Rightarrow> bytes" where
  "asn_div a b m =
     asn_num (asn_trunc (sgn (asn_val a) * sgn (asn_val b) * (\<bar>asn_val a\<bar> div \<bar>asn_val b\<bar>)) (asn_val m))"

definition asn_lshift :: "bytes \<Rightarrow> nat \<Rightarrow> bytes \<Rightarrow> bytes" where
  "asn_lshift a s m = asn_num (asn_trunc (asn_val a * 2 ^ s) (asn_val m))"

definition asn_rshift :: "bytes \<Rightarrow> nat \<Rightarrow> bytes" where
  "asn_rshift a s = asn_num (asn_val a div 2 ^ s)"

lemma asn_trunc_nonneg: "0 \<le> x \<Longrightarrow> 0 < m \<Longrightarrow> asn_trunc x m = x mod m"
  by (cases "x = 0") (simp_all add: asn_trunc_def)


section \<open>The framework's helper functions: a parameter\<close>

record asn_lib =
  lib_encode :: "lpcint \<Rightarrow> bytes"
  lib_decode :: "bytes \<Rightarrow> lpcint"
  lib_extend :: "bytes \<Rightarrow> nat \<Rightarrow> bytes"
  lib_unsigned_extend :: "bytes \<Rightarrow> nat \<Rightarrow> bytes"
  lib_reverse :: "bytes \<Rightarrow> bytes"

locale asn_library =
  fixes A :: asn_lib
  assumes encode: "lib_encode A i = asn_num (sint i)"
    and decode: "\<lbrakk> s \<noteq> []; - (2 ^ 31) \<le> asn_val s; asn_val s < 2 ^ 31 \<rbrakk>
      \<Longrightarrow> lib_decode A s = word_of_int (asn_val s)"
    and extend: "\<lbrakk> s \<noteq> []; length s \<le> n \<rbrakk>
      \<Longrightarrow> lib_extend A s n = replicate (n - length s) (if bit (hd s) 7 then 0xff else 0) @ s"
    and unsigned_extend: "length s \<le> n \<Longrightarrow> lib_unsigned_extend A s n = replicate (n - length s) 0 @ s"
    and reverse: "lib_reverse A s = rev s"
begin

lemma length_extend: "s \<noteq> [] \<Longrightarrow> length s \<le> n \<Longrightarrow> length (lib_extend A s n) = n"
  by (simp add: extend)

lemma length_unsigned_extend: "length s \<le> n \<Longrightarrow> length (lib_unsigned_extend A s n) = n"
  by (simp add: unsigned_extend)

lemma uval_unsigned_extend: "length s \<le> n \<Longrightarrow> asn_uval (lib_unsigned_extend A s n) = asn_uval s"
  by (simp add: unsigned_extend)

lemma unsigned_extend_unique:
  "\<lbrakk> length s \<le> n; length t = n; asn_uval s = asn_uval t \<rbrakk> \<Longrightarrow> lib_unsigned_extend A s n = t"
  by (rule asn_uval_inj_len) (simp_all add: length_unsigned_extend uval_unsigned_extend)

lemma encode_decode: "lib_decode A (lib_encode A i) = i"
proof -
  have "- (2 ^ 31) \<le> sint i" "sint i < 2 ^ 31"
    using sint_ge [of i] sint_lt [of i] by simp_all
  then show ?thesis by (subst decode) (simp_all add: encode)
qed

end

definition std_asn_lib :: asn_lib where
  "std_asn_lib = \<lparr>
     lib_encode = (\<lambda>n. asn_num (sint n)),
     lib_decode = (\<lambda>s. word_of_int (asn_val s)),
     lib_extend = (\<lambda>s n. replicate (n - length s) (if bit (hd s) 7 then 0xff else 0) @ s),
     lib_unsigned_extend = (\<lambda>s n. replicate (n - length s) 0 @ s),
     lib_reverse = rev \<rparr>"

interpretation std_asn: asn_library std_asn_lib
  by unfold_locales (simp_all add: std_asn_lib_def)

end
