(* ===== verification/Zkp.thy ===== *)
theory Zkp
  imports Asn "HOL-Library.AList"
begin

text \<open>
  The zero-knowledge proof library: stateful hash objects (\<^verbatim>\<open>src/lib/Sho.c\<close>,
  \<^verbatim>\<open>ShoHmacSha256.c\<close>, \<^verbatim>\<open>ShoSha256.c\<close>) and \<^verbatim>\<open>src/lib/zkp\<close>: scalars, points, proofs and
  statements.

  What the code calls outside the repository is a parameter, the record \<open>zlib\<close>: the
  platform's \<open>ristretto255_*\<close> functions on encoded points, \<open>HMAC\<close> and \<open>hash_string\<close> (the
  algorithm's name is an argument, as in the code), and the \<open>asn::\<close> helpers.  A mapping of
  arguments is an association list without a key twice; \<open>map_sizeof\<close> is its length.
\<close>

record zlib =
  z_asn :: asn_lib
  z_hmac :: "bytes \<Rightarrow> bytes \<Rightarrow> string \<Rightarrow> bytes"
  z_hash :: "string \<Rightarrow> bytes \<Rightarrow> bytes"
  r_add :: "bytes \<Rightarrow> bytes \<Rightarrow> bytes"
  r_sub :: "bytes \<Rightarrow> bytes \<Rightarrow> bytes"
  r_neg :: "bytes \<Rightarrow> bytes"
  r_mult :: "bytes \<Rightarrow> bytes \<Rightarrow> bytes"
  r_map :: "bytes \<Rightarrow> bytes"
  r_base :: bytes

section \<open>Scalars\<close>

text \<open>A scalar is its internal number, big-endian, reduced modulo the group's order.\<close>

type_synonym scalar = bytes

definition ELL :: bytes where
  "ELL = [0x10, 0, 0, 0, 0, 0, 0, 0, 0, 0, 0, 0, 0, 0, 0, 0, 0x14, 0xde, 0xf9, 0xde,
          0xa2, 0xf7, 0x9c, 0xd6, 0x58, 0x12, 0x63, 0x1a, 0x5c, 0xf5, 0xd3, 0xed]"

definition Scalar :: "zlib \<Rightarrow> bytes \<Rightarrow> scalar" where
  "Scalar Z s = asn_mod (0 # lib_reverse (z_asn Z) s) ELL"

definition scalar_add :: "scalar \<Rightarrow> scalar \<Rightarrow> scalar" where
  "scalar_add a b = asn_add a b ELL"

definition scalar_sub :: "scalar \<Rightarrow> scalar \<Rightarrow> scalar" where
  "scalar_sub a b =
     (let s = asn_sub a b ELL in if hd s AND 0x80 \<noteq> 0 then asn_add s ELL ELL else s)"

definition scalar_neg :: "scalar \<Rightarrow> scalar" where
  "scalar_neg a = asn_sub ELL a ELL"

definition scalar_mult :: "scalar \<Rightarrow> scalar \<Rightarrow> scalar" where
  "scalar_mult a b = asn_mult a b ELL"

definition scalar_equals :: "scalar \<Rightarrow> scalar \<Rightarrow> bool" where
  "scalar_equals a b \<longleftrightarrow> a = b"

definition scalar_bytes :: "zlib \<Rightarrow> scalar \<Rightarrow> bytes" where
  "scalar_bytes Z a = lib_reverse (z_asn Z) (lib_extend (z_asn Z) a 32)"

section \<open>Points\<close>

type_synonym point = bytes

definition point_add :: "zlib \<Rightarrow> point \<Rightarrow> point \<Rightarrow> point" where
  "point_add Z p q = r_add Z p q"

definition point_sub :: "zlib \<Rightarrow> point \<Rightarrow> point \<Rightarrow> point" where
  "point_sub Z p q = r_sub Z p q"

definition point_neg :: "zlib \<Rightarrow> point \<Rightarrow> point" where
  "point_neg Z p = r_neg Z p"

definition point_mult :: "zlib \<Rightarrow> point \<Rightarrow> scalar \<Rightarrow> point" where
  "point_mult Z p s = r_mult Z p (scalar_bytes Z s)"

definition point_equals :: "point \<Rightarrow> point \<Rightarrow> bool" where
  "point_equals p q \<longleftrightarrow> p = q"

section \<open>Stateful hash objects\<close>

record sho_hash =
  hashRatchet :: "bytes \<Rightarrow> bytes \<Rightarrow> bytes"
  hashSqueeze1 :: "bytes \<Rightarrow> bytes \<Rightarrow> bytes"
  hashSqueeze2 :: "bytes \<Rightarrow> bytes \<Rightarrow> bytes"

definition ShoHmacSha256 :: "zlib \<Rightarrow> sho_hash" where
  "ShoHmacSha256 Z = \<lparr>
     hashRatchet = (\<lambda>cv input. z_hmac Z cv (input @ [0]) ''SHA256''),
     hashSqueeze1 = (\<lambda>cv input. z_hmac Z cv (input @ [1]) ''SHA256''),
     hashSqueeze2 = (\<lambda>cv input. z_hmac Z cv (input @ [2]) ''SHA256'') \<rparr>"

definition BLOCK63 :: bytes where
  "BLOCK63 = replicate 63 0"

definition ShoSha256 :: "zlib \<Rightarrow> sho_hash" where
  "ShoSha256 Z = \<lparr>
     hashRatchet = (\<lambda>cv input. z_hash Z ''SHA256'' (z_hash Z ''SHA256'' (BLOCK63 @ [0] @ cv @ input))),
     hashSqueeze1 = (\<lambda>cv input. z_hash Z ''SHA256'' (BLOCK63 @ [1] @ cv @ input)),
     hashSqueeze2 = (\<lambda>cv input. z_hash Z ''SHA256'' (BLOCK63 @ [2] @ cv @ input)) \<rparr>"

record sho =
  sho_hash :: sho_hash
  sho_cv :: bytes
  sho_input :: "bytes option"

definition absorb :: "bytes \<Rightarrow> sho \<Rightarrow> sho" where
  "absorb s sho =
     sho\<lparr>sho_input := Some (case sho_input sho of None \<Rightarrow> s | Some i \<Rightarrow> i @ s)\<rparr>"

definition ratchet :: "sho \<Rightarrow> sho" where
  "ratchet sho =
     (case sho_input sho of
        None \<Rightarrow> sho
      | Some i \<Rightarrow> sho\<lparr>sho_cv := hashRatchet (sho_hash sho) (sho_cv sho) i, sho_input := None\<rparr>)"

text \<open>The counter and the length are 32-bit integers, encoded in eight bytes.\<close>

definition int8 :: "zlib \<Rightarrow> nat \<Rightarrow> bytes" where
  "int8 Z n = lib_extend (z_asn Z) (lib_encode (z_asn Z) (of_nat n)) 8"

text \<open>
  The loop of \<open>squeeze\<close>.  It ends only when the hash produces output, which is known of the
  parameter and not of the code; each round that does makes the output longer, so \<open>length\<close>
  rounds are enough fuel.
\<close>

fun squeeze_loop :: "zlib \<Rightarrow> nat \<Rightarrow> sho \<Rightarrow> nat \<Rightarrow> nat \<Rightarrow> bytes \<Rightarrow> bytes result" where
  "squeeze_loop Z fuel sho len i output =
     (if length output < len
      then (case fuel of
              0 \<Rightarrow> Inl Not_enough_fuel
            | Suc fuel \<Rightarrow> squeeze_loop Z fuel sho len (i + 1)
                (output @ hashSqueeze1 (sho_hash sho) (sho_cv sho) (int8 Z i)))
      else Inr output)"

declare squeeze_loop.simps [simp del]

definition squeeze :: "zlib \<Rightarrow> nat \<Rightarrow> sho \<Rightarrow> (bytes \<times> sho) result" where
  "squeeze Z len sho =
     (if sho_input sho \<noteq> None then Inl (Error ''Not ratcheted'')
      else rbind (squeeze_loop Z len sho len 0 []) (\<lambda>output.
        rbind (lpc_range output 0 (int len - 1)) (\<lambda>out.
          Inr (out, sho\<lparr>sho_cv := hashSqueeze2 (sho_hash sho) (sho_cv sho) (int8 Z len), sho_input := None\<rparr>))))"

definition Sho :: "sho_hash \<Rightarrow> bytes \<Rightarrow> sho" where
  "Sho H label = ratchet (absorb label \<lparr>sho_hash = H, sho_cv = replicate 32 0, sho_input = None\<rparr>)"

definition getScalar :: "zlib \<Rightarrow> sho \<Rightarrow> (scalar \<times> sho) result" where
  "getScalar Z sho = rbind (squeeze Z 64 sho) (\<lambda>(s, sho). Inr (Scalar Z s, sho))"

definition getPoint :: "zlib \<Rightarrow> sho \<Rightarrow> (point \<times> sho) result" where
  "getPoint Z sho =
     rbind (squeeze Z 64 sho) (\<lambda>(s, sho).
       rbind (lpc_range s 0 31) (\<lambda>a.
         rbind (lpc_range s 32 (int (length s) - 1)) (\<lambda>b.
           Inr (r_add Z (r_map Z a) (r_map Z b), sho))))"

definition getPointSingleElligator :: "zlib \<Rightarrow> sho \<Rightarrow> (point \<times> sho) result" where
  "getPointSingleElligator Z sho = rbind (squeeze Z 32 sho) (\<lambda>(s, sho). Inr (r_map Z s, sho))"

section \<open>Proofs\<close>

record zkproof =
  challenge :: scalar
  response :: "scalar list"

definition proof_transport :: "zlib \<Rightarrow> zkproof \<Rightarrow> bytes" where
  "proof_transport Z p = scalar_bytes Z (challenge p) @ concat (map (scalar_bytes Z) (response p))"

definition RemoteProof :: "zlib \<Rightarrow> bytes \<Rightarrow> zkproof result" where
  "RemoteProof Z blob =
     (let len = length blob; num = len div 32 in
      if num < 2 \<or> 256 < num \<or> len mod 32 \<noteq> 0 then Inl (Error ''Bad proof'')
      else rbind (lpc_range blob 0 31) (\<lambda>c.
        rbind (rmapM (\<lambda>i. rmap (Scalar Z) (lpc_range blob (int i * 32) (int i * 32 + 31))) [1..<num]) (\<lambda>rs.
          Inr \<lparr>challenge = Scalar Z c, response = rs\<rparr>)))"

section \<open>Statements\<close>

record statement =
  equations :: "bytes list"
  scalarMap :: "string \<Rightarrow> nat option"
  scalars :: "string list"
  pointMap :: "string \<Rightarrow> nat option"
  points :: "string list"

definition Statement :: statement where
  "Statement = \<lparr>equations = [], scalarMap = (\<lambda>_. None), scalars = [],
     pointMap = [''G'' \<mapsto> 0], points = [''G'']\<rparr>"

definition addScalar :: "string \<Rightarrow> statement \<Rightarrow> (nat \<times> statement) result" where
  "addScalar nm st =
     (case scalarMap st nm of
        None \<Rightarrow>
          (let index = length (scalars st) in
           if 255 < index then Inl (Error ''Too many scalars'')
           else Inr (index, st\<lparr>scalarMap := (scalarMap st)(nm \<mapsto> index), scalars := scalars st @ [nm]\<rparr>))
      | Some v \<Rightarrow> Inr (v, st))"

definition addPoint :: "string \<Rightarrow> statement \<Rightarrow> (nat \<times> statement) result" where
  "addPoint nm st =
     (case pointMap st nm of
        None \<Rightarrow>
          (let index = length (points st) in
           if 255 < index then Inl (Error ''Too many points'')
           else Inr (index, st\<lparr>pointMap := (pointMap st)(nm \<mapsto> index), points := points st @ [nm]\<rparr>))
      | Some v \<Rightarrow> Inr (v, st))"

text \<open>The loop over the pairs of \<open>rhs\<close>; a name, then the point it multiplies.\<close>

fun add_terms :: "string list \<Rightarrow> statement \<Rightarrow> (bytes list \<times> statement) result" where
  "add_terms (s # p # rhs) st =
     rbind (addScalar s st) (\<lambda>(i, st).
       rbind (addPoint p st) (\<lambda>(j, st).
         rbind (add_terms rhs st) (\<lambda>(terms, st).
           Inr ([of_nat i, of_nat j] # terms, st))))"
| "add_terms _ st = Inr ([], st)"

definition add_equation :: "string \<Rightarrow> string list \<Rightarrow> statement \<Rightarrow> statement result" where
  "add_equation lhs rhs st =
     (let size = length rhs in
      if size = 0 \<or> odd size \<or> 255 * 2 < size then Inl (Error ''Bad arguments'')
      else if 255 \<le> length (equations st) then Inl (Error ''Too many equations'')
      else
        (let size = size div 2 in
         rbind (addPoint lhs st) (\<lambda>(l, st).
           rbind (add_terms rhs st) (\<lambda>(terms, st).
             Inr (st\<lparr>equations := equations st @ [[of_nat l, of_nat size] @ concat terms]\<rparr>)))))"

definition description :: "statement \<Rightarrow> bytes" where
  "description st = [of_nat (length (equations st))] @ concat (equations st)"

type_synonym scalar_args = "(string \<times> scalar) list"
type_synonym point_args = "(string \<times> point) list"

definition lookup_arg :: "string \<Rightarrow> (string \<times> 'a) list \<Rightarrow> string \<Rightarrow> 'a result" where
  "lookup_arg msg args nm = (case map_of args nm of None \<Rightarrow> Inl (Error msg) | Some v \<Rightarrow> Inr v)"

definition getScalars :: "statement \<Rightarrow> scalar_args \<Rightarrow> scalar list result" where
  "getScalars st scalarArgs =
     (if length scalarArgs \<noteq> length (scalars st) then Inl (Error ''Bad scalar arguments'')
      else rmapM (lookup_arg ''Missing scalar argument'' scalarArgs) (scalars st))"

definition getPoints :: "zlib \<Rightarrow> statement \<Rightarrow> point_args \<Rightarrow> point list result" where
  "getPoints Z st pointArgs =
     (let pointArgs = AList.update ''G'' (r_base Z) pointArgs in
      if length pointArgs \<noteq> length (points st) then Inl (Error ''Bad point arguments'')
      else rmapM (lookup_arg ''Missing point argument'' pointArgs) (points st))"

text \<open>One term: \<open>points[equation[2 * j + 3]] * g1[equation[2 * j + 2]]\<close>.\<close>

definition eq_term :: "zlib \<Rightarrow> scalar list \<Rightarrow> point list \<Rightarrow> bytes \<Rightarrow> nat \<Rightarrow> point result" where
  "eq_term Z g1 ps equation j =
     rbind (lpc_index equation (2 * j + 3)) (\<lambda>pn.
       rbind (lpc_index ps (unat pn)) (\<lambda>p.
         rbind (lpc_index equation (2 * j + 2)) (\<lambda>sn.
           rbind (lpc_index g1 (unat sn)) (\<lambda>s.
             Inr (point_mult Z p s)))))"

fun eq_loop :: "zlib \<Rightarrow> scalar list \<Rightarrow> point list \<Rightarrow> bytes \<Rightarrow> nat list \<Rightarrow> point \<Rightarrow> point result" where
  "eq_loop Z g1 ps equation [] point = Inr point"
| "eq_loop Z g1 ps equation (j # js) point =
     rbind (eq_term Z g1 ps equation j) (\<lambda>t. eq_loop Z g1 ps equation js (point_add Z point t))"

definition homomorphism :: "zlib \<Rightarrow> statement \<Rightarrow> scalar list \<Rightarrow> point list \<Rightarrow> point list result" where
  "homomorphism Z st g1 ps =
     rmapM (\<lambda>equation.
       rbind (eq_term Z g1 ps equation 0) (\<lambda>point.
         rbind (lpc_index equation 1) (\<lambda>esize.
           eq_loop Z g1 ps equation [1..<unat esize] point))) (equations st)"

definition absorb_all :: "bytes list \<Rightarrow> sho \<Rightarrow> sho" where
  "absorb_all xs sho = fold absorb xs sho"

text \<open>The common start of \<open>prove\<close> and \<open>verify\<close>.\<close>

definition transcript :: "zlib \<Rightarrow> statement \<Rightarrow> point list \<Rightarrow> sho" where
  "transcript Z st ps =
     ratchet (absorb_all ps (absorb (description st)
       (Sho (ShoHmacSha256 Z) (str ''POKSHO_Ristretto_SHOHMACSHA256''))))"

definition prove :: "zlib \<Rightarrow> statement \<Rightarrow> scalar_args \<Rightarrow> point_args \<Rightarrow> bytes \<Rightarrow> bytes \<Rightarrow> bytes result" where
  "prove Z st scalarArgs pointArgs message randomBytes =
     rbind (getScalars st scalarArgs) (\<lambda>g1.
     rbind (getPoints Z st pointArgs) (\<lambda>ps.
       let sho = transcript Z st ps;
           sho2 = absorb_all (map (scalar_bytes Z) g1) (absorb randomBytes sho);
           sho2 = ratchet (absorb message (ratchet sho2));
           size = length g1 in
       rbind (squeeze Z (size * 64) sho2) (\<lambda>(data, sho2).
       rbind (rmapM (\<lambda>i. rmap (Scalar Z) (lpc_range data (int i * 64) (int i * 64 + 63))) [0..<size]) (\<lambda>nonce.
       rbind (homomorphism Z st nonce ps) (\<lambda>commitment.
         let sho = ratchet (absorb message (absorb_all commitment sho)) in
         rbind (squeeze Z 64 sho) (\<lambda>(c, sho).
           let challenge = Scalar Z c in
           Inr (proof_transport Z
             \<lparr>challenge = challenge,
              response = map2 (\<lambda>a n. scalar_add (scalar_mult a challenge) n) g1 nonce\<rparr>)))))))"

definition verify_commitment ::
    "zlib \<Rightarrow> statement \<Rightarrow> point list \<Rightarrow> scalar \<Rightarrow> point list \<Rightarrow> point list result" where
  "verify_commitment Z st ps chal commitment =
     rmapM (\<lambda>(c, equation).
       rbind (lpc_index equation 0) (\<lambda>l.
         rbind (lpc_index ps (unat l)) (\<lambda>p.
           Inr (point_sub Z c (point_mult Z p chal))))) (zip commitment (equations st))"

definition verify :: "zlib \<Rightarrow> statement \<Rightarrow> bytes \<Rightarrow> point_args \<Rightarrow> bytes \<Rightarrow> bool result" where
  "verify Z st proofBytes pointArgs message =
     rbind (RemoteProof Z proofBytes) (\<lambda>prf.
       if length (response prf) \<noteq> length (scalars st) then Inr False
       else
         rbind (getPoints Z st pointArgs) (\<lambda>ps.
         rbind (homomorphism Z st (response prf) ps) (\<lambda>commitment.
         rbind (verify_commitment Z st ps (challenge prf) commitment) (\<lambda>commitment.
           let sho = ratchet (absorb message (absorb_all commitment (transcript Z st ps))) in
           rbind (squeeze Z 64 sho) (\<lambda>(c, sho).
             Inr (scalar_equals (challenge prf) (Scalar Z c)))))))"

end
