(* ===== verification/ZkpSpec.thy ===== *)
theory ZkpSpec
  imports Zkp
begin

text \<open>
  The algebra of the proof library and the completeness of its proofs.  The locale
  \<open>zkp_library\<close> states what the platform promises (a group of prime order with canonical
  encodings, hashes of 32 bytes); inside it every operation of the model on scalars and points
  is arithmetic modulo the order, so that an equation between points is one between integers.
  A statement is shown to encode the equations it was built from, \<open>homomorphism\<close> to evaluate
  them, and \<open>verify\<close> to accept what \<open>prove\<close> made for arguments that satisfy them.
\<close>

section \<open>Scalars are the integers modulo the group's order\<close>

definition ell :: int where
  "ell = 7237005577332262213973186563042994240857116359379907606001950938285454250989"

lemma asn_val_ELL: "asn_val ELL = ell"
  by (simp add: asn_val_def ELL_def asn_uval_Cons ell_def bit_simps)

lemma ell_pos [simp]: "0 < ell" "ell \<noteq> 0" "\<not> ell < 0"
  by (simp_all add: ell_def)

definition scalar_ok :: "scalar \<Rightarrow> bool" where
  "scalar_ok a \<longleftrightarrow> (\<exists>n. 0 \<le> n \<and> n < ell \<and> a = asn_num n)"

lemma scalar_okD:
  assumes "scalar_ok a"
  shows "0 \<le> asn_val a" "asn_val a < ell" "a = asn_num (asn_val a)"
  using assms by (auto simp: scalar_ok_def)

lemma scalar_ok_num [simp]: "scalar_ok (asn_num (n mod ell))"
  by (auto simp: scalar_ok_def intro!: exI [of _ "n mod ell"])

lemma scalar_eqI: "scalar_ok a \<Longrightarrow> scalar_ok b \<Longrightarrow> asn_val a = asn_val b \<Longrightarrow> a = b"
  by (metis scalar_okD(3))

lemma scalar_add_num:
  assumes "scalar_ok a" "scalar_ok b"
  shows "scalar_add a b = asn_num ((asn_val a + asn_val b) mod ell)"
  using assms by (simp add: scalar_add_def asn_add_def asn_val_ELL asn_trunc_nonneg scalar_okD)

lemma scalar_mult_num:
  assumes "scalar_ok a" "scalar_ok b"
  shows "scalar_mult a b = asn_num (asn_val a * asn_val b mod ell)"
  using assms by (simp add: scalar_mult_def asn_mult_def asn_val_ELL asn_trunc_nonneg scalar_okD)

lemma hd_asn_num: "bit (hd (asn_num i)) 7 \<longleftrightarrow> i < 0"
proof (cases "i < 0")
  case True
  have "hd (map NOT (asn_pad bs)) = NOT (hd (asn_pad bs))" for bs by (simp add: hd_map)
  with True show ?thesis by (auto simp: asn_num_def comp_def bit_not_iff)
qed (simp add: asn_num_def)

lemma and_0x80: "b AND 0x80 \<noteq> 0 \<longleftrightarrow> bit b 7" for b :: byte
proof
  assume "b AND 0x80 \<noteq> 0"
  then obtain n where "bit (b AND 0x80) n" by (metis bit_eqI bit_0_eq bot_apply bot_bool_def)
  then show "bit b 7" by (auto simp: bit_simps bit_masks)
next
  assume b: "bit b 7"
  show "b AND 0x80 \<noteq> 0"
  proof
    assume "b AND 0x80 = 0"
    then have "\<not> bit (b AND 0x80) 7" by simp
    with b show False by (simp add: bit_simps bit_masks)
  qed
qed

lemma scalar_sub_num:
  assumes "scalar_ok a" "scalar_ok b"
  shows "scalar_sub a b = asn_num ((asn_val a - asn_val b) mod ell)"
proof -
  define d where "d = asn_val a - asn_val b"
  have d: "- ell < d" "d < ell" using scalar_okD [OF assms(1)] scalar_okD [OF assms(2)] by (simp_all add: d_def)
  then have t: "asn_trunc d ell = d"
    by (cases "0 \<le> d") (simp_all add: asn_trunc_def sgn_if)
  show ?thesis
  proof (cases "d < 0")
    case True
    with d have "asn_trunc (d + ell) ell = d mod ell"
      by (simp add: asn_trunc_nonneg)
    with True show ?thesis
      by (simp add: scalar_sub_def asn_sub_def asn_add_def asn_val_ELL t flip: d_def)
        (simp add: and_0x80 hd_asn_num asn_add_def asn_val_ELL)
  next
    case False
    with d show ?thesis
      by (simp add: scalar_sub_def asn_sub_def asn_val_ELL t flip: d_def)
        (simp add: and_0x80 hd_asn_num)
  qed
qed

lemma scalar_neg_num:
  assumes "scalar_ok a"
  shows "scalar_neg a = asn_num (- asn_val a mod ell)"
proof -
  have "0 \<le> ell - asn_val a" using scalar_okD [OF assms] by simp
  then have "asn_trunc (ell - asn_val a) ell = - asn_val a mod ell"
    by (simp add: asn_trunc_nonneg mod_diff_left_eq [symmetric] del: mod_diff_left_eq) 
  then show ?thesis by (simp add: scalar_neg_def asn_sub_def asn_val_ELL)
qed

lemmas scalar_nums = scalar_add_num scalar_mult_num scalar_sub_num scalar_neg_num

lemma scalar_ops_ok [simp]:
  assumes "scalar_ok a" "scalar_ok b"
  shows "scalar_ok (scalar_add a b)" "scalar_ok (scalar_mult a b)" "scalar_ok (scalar_sub a b)"
    "scalar_ok (scalar_neg a)"
  using assms by (simp_all add: scalar_nums)

lemma asn_val_scalar_ops:
  assumes "scalar_ok a" "scalar_ok b"
  shows "asn_val (scalar_add a b) = (asn_val a + asn_val b) mod ell"
    "asn_val (scalar_mult a b) = asn_val a * asn_val b mod ell"
    "asn_val (scalar_sub a b) = (asn_val a - asn_val b) mod ell"
    "asn_val (scalar_neg a) = - asn_val a mod ell"
  using assms by (simp_all add: scalar_nums)

text \<open>The value of a little-endian string.\<close>

definition le_val :: "bytes \<Rightarrow> int" where
  "le_val s = int (asn_uval (rev s))"

section \<open>What the library and the group promise\<close>

text \<open>
  ristretto255 is a group of prime order \<open>ell\<close> whose elements have one canonical encoding each:
  \<open>valid\<close> is the set of encodings and \<open>dlog\<close> the isomorphism to the integers modulo \<open>ell\<close>.  The
  hashes have 32 bytes.
\<close>

locale zkp_library = asn_library "z_asn Z"
  for Z :: zlib +
  fixes valid :: "bytes \<Rightarrow> bool" and dlog :: "bytes \<Rightarrow> int"
  assumes length_hmac: "length (z_hmac Z k m ''SHA256'') = 32"
    and length_hash: "length (z_hash Z ''SHA256'' m) = 32"
    and valid_base: "valid (r_base Z)"
    and valid_map: "length s = 32 \<Longrightarrow> valid (r_map Z s)"
    and valid_add: "valid p \<Longrightarrow> valid q \<Longrightarrow> valid (r_add Z p q)"
    and valid_sub: "valid p \<Longrightarrow> valid q \<Longrightarrow> valid (r_sub Z p q)"
    and valid_neg: "valid p \<Longrightarrow> valid (r_neg Z p)"
    and valid_mult: "valid p \<Longrightarrow> length s = 32 \<Longrightarrow> valid (r_mult Z p s)"
    and length_valid: "valid p \<Longrightarrow> length p = 32"
    and dlog_range: "valid p \<Longrightarrow> 0 \<le> dlog p \<and> dlog p < ell"
    and dlog_inj: "valid p \<Longrightarrow> valid q \<Longrightarrow> dlog p = dlog q \<Longrightarrow> p = q"
    and dlog_add: "valid p \<Longrightarrow> valid q \<Longrightarrow> dlog (r_add Z p q) = (dlog p + dlog q) mod ell"
    and dlog_sub: "valid p \<Longrightarrow> valid q \<Longrightarrow> dlog (r_sub Z p q) = (dlog p - dlog q) mod ell"
    and dlog_neg: "valid p \<Longrightarrow> dlog (r_neg Z p) = - dlog p mod ell"
    and dlog_mult: "valid p \<Longrightarrow> length s = 32 \<Longrightarrow> dlog (r_mult Z p s) = dlog p * le_val s mod ell"
begin

lemma scalar_bytes_eq:
  assumes "scalar_ok a"
  shows "scalar_bytes Z a = rev (replicate (32 - length a) 0 @ a) \<and> length a \<le> 32"
proof -
  have a: "\<not> asn_val a < 0" "a = asn_num (asn_val a)" "asn_val a < ell" using scalar_okD [OF assms] by simp_all
  have neg: "\<not> bit (hd a) 7" by (subst a(2), subst hd_asn_num) (use a(1) in simp)
  have "length a \<le> 32"
  proof -
    have a': "a = asn_pad (asn_unum (nat (asn_val a)))" using a(1,2) by (simp add: asn_num_def)
    have "nat (asn_val a) < 256 ^ 31 * 128" using a(3) by (simp add: ell_def)
    then have "asn_unum (nat (asn_val a)) = [] \<or> length (asn_unum (nat (asn_val a))) \<le> 31
        \<or> length (asn_unum (nat (asn_val a))) = 32 \<and> \<not> bit (hd (asn_unum (nat (asn_val a)))) 7"
      using length_asn_unum_le_iff [of "nat (asn_val a)" 32] bit7_hd_iff [of "asn_unum (nat (asn_val a))"]
      by (cases "asn_unum (nat (asn_val a)) = []") (auto simp: le_less)
    then have "length (asn_pad (asn_unum (nat (asn_val a)))) \<le> 32"
      by (auto simp: asn_pad_def)
    with a' show ?thesis by simp
  qed
  moreover have "a \<noteq> []" by (subst a(2)) simp
  ultimately show ?thesis
    using neg by (simp add: scalar_bytes_def reverse extend)
qed

lemma length_scalar_bytes [simp]: "scalar_ok a \<Longrightarrow> length (scalar_bytes Z a) = 32"
  using scalar_bytes_eq [of a] by simp

lemma asn_val_uval_ok: "scalar_ok a \<Longrightarrow> asn_val a = int (asn_uval a)"
  using scalar_okD [of a] by (intro asn_val_uval) (metis hd_asn_num not_less)

lemma le_val_scalar_bytes: "scalar_ok a \<Longrightarrow> le_val (scalar_bytes Z a) = asn_val a"
  using scalar_bytes_eq [of a] by (simp add: le_val_def asn_val_uval_ok)

lemma Scalar_num: "Scalar Z s = asn_num (le_val s mod ell)"
proof -
  have "asn_val (0 # rev s) = le_val s" by (simp add: asn_val_nonneg le_val_def)
  then show ?thesis
    by (simp add: Scalar_def reverse asn_mod_def asn_val_ELL asn_trunc_nonneg le_val_def)
qed

lemma Scalar_ok [simp]: "scalar_ok (Scalar Z s)"
  by (simp add: Scalar_num)

lemma Scalar_bytes [simp]:
  assumes "scalar_ok a"
  shows "Scalar Z (scalar_bytes Z a) = a"
proof -
  have "asn_val a mod ell = asn_val a" using scalar_okD(1,2) [OF assms] by simp
  then show ?thesis
    using assms by (simp add: Scalar_num le_val_scalar_bytes scalar_okD(3) [symmetric])
qed

lemma point_add_ok [simp]: "valid p \<Longrightarrow> valid q \<Longrightarrow> valid (point_add Z p q)"
  and point_sub_ok [simp]: "valid p \<Longrightarrow> valid q \<Longrightarrow> valid (point_sub Z p q)"
  and point_neg_ok [simp]: "valid p \<Longrightarrow> valid (point_neg Z p)"
  and point_mult_ok [simp]: "valid p \<Longrightarrow> scalar_ok a \<Longrightarrow> valid (point_mult Z p a)"
  by (simp_all add: point_add_def point_sub_def point_neg_def point_mult_def
      valid_add valid_sub valid_neg valid_mult)

lemma dlog_point [simp]:
  "valid p \<Longrightarrow> valid q \<Longrightarrow> dlog (point_add Z p q) = (dlog p + dlog q) mod ell"
  "valid p \<Longrightarrow> valid q \<Longrightarrow> dlog (point_sub Z p q) = (dlog p - dlog q) mod ell"
  "valid p \<Longrightarrow> dlog (point_neg Z p) = - dlog p mod ell"
  "valid p \<Longrightarrow> scalar_ok a \<Longrightarrow> dlog (point_mult Z p a) = dlog p * asn_val a mod ell"
  by (simp_all add: point_add_def point_sub_def point_neg_def point_mult_def
      dlog_add dlog_sub dlog_neg dlog_mult le_val_scalar_bytes)

lemma dlog_mod: "valid p \<Longrightarrow> dlog p mod ell = dlog p"
  using dlog_range [of p] by simp

lemma point_eqI: "valid p \<Longrightarrow> valid q \<Longrightarrow> dlog p mod ell = dlog q mod ell \<Longrightarrow> p = q"
  by (rule dlog_inj) (simp_all add: dlog_mod)

end

section \<open>Squeezing\<close>

lemma squeeze_loop_length:
  "0 < k \<Longrightarrow> (\<And>cv i. length (hashSqueeze1 (sho_hash sho) cv i) = k) \<Longrightarrow> len \<le> fuel + length out \<Longrightarrow>
    \<exists>out'. squeeze_loop Z fuel sho len i out = Inr out' \<and> len \<le> length out'"
proof (induction fuel arbitrary: i out)
  case 0
  then show ?case by (subst squeeze_loop.simps) simp
next
  case (Suc fuel)
  then show ?case by (subst squeeze_loop.simps) simp
qed

lemma squeeze_ok:
  assumes "sho_input sho = None" "0 < k" "\<And>cv i. length (hashSqueeze1 (sho_hash sho) cv i) = k"
  obtains out cv where "squeeze Z len sho = Inr (out, sho\<lparr>sho_cv := cv, sho_input := None\<rparr>)" "length out = len"
proof -
  obtain out where out: "squeeze_loop Z len sho len 0 [] = Inr out" "len \<le> length out"
    using squeeze_loop_length [of k sho len len "[]" Z 0] assms(2,3) by auto
  have "lpc_range out 0 (int len - 1) = Inr (take len out)"
    using lpc_range_nat [of 0 len out] out(2) by simp
  with out assms(1) show thesis
    by (intro that [of "take len out"]) (simp_all add: squeeze_def)
qed

lemma sho_hash_simps [simp]:
  "sho_hash (absorb s sho) = sho_hash sho"
  "sho_hash (ratchet sho) = sho_hash sho"
  by (simp_all add: absorb_def ratchet_def split: option.splits)

lemma sho_hash_absorb_all [simp]: "sho_hash (absorb_all xs sho) = sho_hash sho"
  by (induction xs arbitrary: sho) (simp_all add: absorb_all_def)

lemma sho_hash_Sho [simp]: "sho_hash (Sho H l) = H"
  by (simp add: Sho_def)

lemma sho_input_ratchet [simp]: "sho_input (ratchet sho) = None"
  by (simp add: ratchet_def split: option.splits)

lemma sho_input_Sho [simp]: "sho_input (Sho H l) = None"
  by (simp add: Sho_def)

lemma sho_hash_transcript [simp]: "sho_hash (transcript Z st ps) = ShoHmacSha256 Z"
  by (simp add: transcript_def)

context zkp_library begin

definition "known_hash H \<longleftrightarrow> H = ShoHmacSha256 Z \<or> H = ShoSha256 Z"

lemma known_hash [simp]: "known_hash (ShoHmacSha256 Z)" "known_hash (ShoSha256 Z)"
  by (simp_all add: known_hash_def)

lemma squeeze_known:
  assumes "sho_input sho = None" "known_hash (sho_hash sho)"
  obtains out cv where "squeeze Z len sho = Inr (out, sho\<lparr>sho_cv := cv, sho_input := None\<rparr>)" "length out = len"
proof -
  have "length (hashSqueeze1 (sho_hash sho) cv i) = 32" for cv i
    using assms(2) by (auto simp: known_hash_def ShoHmacSha256_def ShoSha256_def length_hmac length_hash)
  with assms(1) show thesis by (elim squeeze_ok [where k = 32 and Z = Z and len = len]) (simp_all add: that)
qed

lemma getScalar_known:
  assumes "sho_input sho = None" "known_hash (sho_hash sho)"
  obtains a sho' where "getScalar Z sho = Inr (a, sho')" "scalar_ok a" "sho_input sho' = None"
    "sho_hash sho' = sho_hash sho"
proof -
  from squeeze_known [OF assms, of 64] obtain out cv
    where "squeeze Z 64 sho = Inr (out, sho\<lparr>sho_cv := cv, sho_input := None\<rparr>)" .
  then show thesis
    by (intro that [of "Scalar Z out" "sho\<lparr>sho_cv := cv, sho_input := None\<rparr>"]) (simp_all add: getScalar_def)
qed

lemma getPoint_known:
  assumes "sho_input sho = None" "known_hash (sho_hash sho)"
  obtains p sho' where "getPoint Z sho = Inr (p, sho')" "valid p" "sho_input sho' = None"
    "sho_hash sho' = sho_hash sho"
proof -
  from squeeze_known [OF assms, of 64] obtain out cv
    where out: "squeeze Z 64 sho = Inr (out, sho\<lparr>sho_cv := cv, sho_input := None\<rparr>)" "length out = 64" .
  have "lpc_range out 0 31 = Inr (take 32 out)" "lpc_range out 32 63 = Inr (drop 32 out)"
    using out(2) by (simp_all add: lpc_range_def)
  with out show thesis
    by (intro that [of "r_add Z (r_map Z (take 32 out)) (r_map Z (drop 32 out))" "sho\<lparr>sho_cv := cv, sho_input := None\<rparr>"])
      (simp_all add: getPoint_def valid_add valid_map)
qed

lemma getPointSingle_known:
  assumes "sho_input sho = None" "known_hash (sho_hash sho)"
  obtains p sho' where "getPointSingleElligator Z sho = Inr (p, sho')" "valid p" "sho_input sho' = None"
    "sho_hash sho' = sho_hash sho"
proof -
  from squeeze_known [OF assms, of 32] obtain out cv
    where "squeeze Z 32 sho = Inr (out, sho\<lparr>sho_cv := cv, sho_input := None\<rparr>)" "length out = 32" .
  then show thesis
    by (intro that [of "r_map Z out" "sho\<lparr>sho_cv := cv, sho_input := None\<rparr>"])
      (simp_all add: getPointSingleElligator_def valid_map)
qed

end

section \<open>Proof blobs\<close>

lemma blocks_nth:
  "(\<And>x. x \<in> set xs \<Longrightarrow> length x = k) \<Longrightarrow> i < length xs \<Longrightarrow>
    take k (drop (i * k) (concat xs)) = xs ! i"
proof (induction xs arbitrary: i)
  case (Cons x xs)
  then show ?case by (cases i) (simp_all add: add.commute)
qed simp

lemma length_blocks: "(\<And>x. x \<in> set xs \<Longrightarrow> length x = k) \<Longrightarrow> length (concat xs) = length xs * k"
  by (induction xs) simp_all

lemma block_range:
  assumes "\<And>x. x \<in> set xs \<Longrightarrow> length x = k" "i < length xs" "0 < k"
  shows "lpc_range (concat xs) (int i * int k) (int i * int k + (int k - 1)) = Inr (xs ! i)"
proof -
  have "(i + 1) * k \<le> length xs * k" using assms(2) by (intro mult_le_mono1) simp
  then have "i * k + k \<le> length (concat xs)" using length_blocks [of xs k] assms(1) by simp
  then show ?thesis
    using lpc_range_nat [of "i * k" "i * k + k" "concat xs"] blocks_nth [of xs k i] assms
    by (simp add: algebra_simps)
qed

context zkp_library begin

lemma RemoteProof_transport:
  assumes "scalar_ok (challenge p)" "\<And>r. r \<in> set (response p) \<Longrightarrow> scalar_ok r"
    "1 \<le> length (response p)" "length (response p) \<le> 255"
  shows "RemoteProof Z (proof_transport Z p) = Inr p"
proof -
  define xs where "xs = map (scalar_bytes Z) (challenge p # response p)"
  have xs: "\<And>x. x \<in> set xs \<Longrightarrow> length x = 32" "length xs = length (response p) + 1"
    using assms(1,2) by (auto simp: xs_def)
  have blob: "proof_transport Z p = concat xs" by (simp add: proof_transport_def xs_def)
  have len: "length (concat xs) = length xs * 32" by (rule length_blocks) (rule xs)
  have rng: "lpc_range (concat xs) (int i * 32) (int i * 32 + 31) = Inr (xs ! i)" if "i < length xs" for i
    using block_range [of xs 32 i] xs(1) that by simp
  have rs: "rmapM (\<lambda>i. rmap (Scalar Z) (lpc_range (concat xs) (int i * 32) (int i * 32 + 31)))
      [1..<length xs] = Inr (map (\<lambda>i. Scalar Z (xs ! i)) [1..<length xs])"
    by (rule rmapM_Inr) (simp add: rng)
  have "map (\<lambda>i. Scalar Z (xs ! i)) [1..<length xs] = response p"
  proof (rule nth_equalityI)
    fix i assume "i < length (map (\<lambda>i. Scalar Z (xs ! i)) [1..<length xs])"
    then have "i < length (response p)" using xs(2) assms(3) by simp
    then show "map (\<lambda>i. Scalar Z (xs ! i)) [1..<length xs] ! i = response p ! i"
      using xs(2) assms(2) by (simp add: xs_def del: upt_Suc)
  qed (use xs(2) assms(3) in simp)
  moreover have "Scalar Z (xs ! 0) = challenge p" using assms(1) by (simp add: xs_def)
  ultimately show ?thesis
    unfolding RemoteProof_def blob Let_def len
    using rng [of 0] rs xs(2) assms(3,4) by (auto simp del: upt_Suc)
qed

end

section \<open>What a statement encodes\<close>

text \<open>An equation by its names: the point on the left, and the scalar and point of each term.\<close>

type_synonym equation = "string \<times> (string \<times> string) list"

definition flat_terms :: "(string \<times> string) list \<Rightarrow> string list" where
  "flat_terms ts = concat (map (\<lambda>(s, p). [s, p]) ts)"

lemma flat_terms_simps [simp]:
  "flat_terms [] = []"
  "flat_terms ((s, p) # ts) = s # p # flat_terms ts"
  by (simp_all add: flat_terms_def)

lemma length_flat_terms [simp]: "length (flat_terms ts) = 2 * length ts"
  by (induction ts) auto

definition names_ok :: "(string \<Rightarrow> nat option) \<Rightarrow> string list \<Rightarrow> bool" where
  "names_ok m xs \<longleftrightarrow> length xs \<le> 256 \<and> (\<forall>n i. m n = Some i \<longleftrightarrow> i < length xs \<and> xs ! i = n)"

definition term_bytes :: "statement \<Rightarrow> string \<times> string \<Rightarrow> bytes" where
  "term_bytes st = (\<lambda>(s, p). [of_nat (the (scalarMap st s)), of_nat (the (pointMap st p))])"

definition term_known :: "statement \<Rightarrow> string \<times> string \<Rightarrow> bool" where
  "term_known st = (\<lambda>(s, p). scalarMap st s \<noteq> None \<and> pointMap st p \<noteq> None)"

definition encodes :: "statement \<Rightarrow> bytes \<Rightarrow> equation \<Rightarrow> bool" where
  "encodes st e = (\<lambda>(lhs, ts). pointMap st lhs \<noteq> None \<and> (\<forall>t\<in>set ts. term_known st t)
     \<and> 0 < length ts \<and> length ts \<le> 255
     \<and> e = [of_nat (the (pointMap st lhs)), of_nat (length ts)] @ concat (map (term_bytes st) ts))"

definition st_ok :: "statement \<Rightarrow> equation list \<Rightarrow> bool" where
  "st_ok st eqs \<longleftrightarrow> names_ok (scalarMap st) (scalars st) \<and> names_ok (pointMap st) (points st)
     \<and> points st \<noteq> [] \<and> hd (points st) = ''G'' \<and> list_all2 (encodes st) (equations st) eqs"

text \<open>A statement only ever learns names.\<close>

definition extends :: "statement \<Rightarrow> statement \<Rightarrow> bool" where
  "extends st st' \<longleftrightarrow> scalarMap st \<subseteq>\<^sub>m scalarMap st' \<and> pointMap st \<subseteq>\<^sub>m pointMap st'
     \<and> equations st' = equations st"

lemma extends_refl [simp]: "extends st st"
  by (simp add: extends_def)

lemma extends_trans: "extends st st1 \<Longrightarrow> extends st1 st2 \<Longrightarrow> extends st st2"
  by (auto simp: extends_def intro: map_le_trans)

lemma map_le_the: "m \<subseteq>\<^sub>m m' \<Longrightarrow> m k \<noteq> None \<Longrightarrow> m' k = m k"
  by (metis domIff map_le_def)

lemma term_known_extends: "extends st st' \<Longrightarrow> term_known st t \<Longrightarrow> term_known st' t \<and> term_bytes st' t = term_bytes st t"
  by (auto simp: extends_def term_known_def term_bytes_def dest: map_le_the)

lemma encodes_extends:
  assumes "extends st st'" "encodes st e eq"
  shows "encodes st' e eq"
proof -
  obtain lhs ts where eq: "eq = (lhs, ts)" by (cases eq)
  have m: "map (term_bytes st') ts = map (term_bytes st) ts" and k: "\<forall>t\<in>set ts. term_known st' t"
    using assms term_known_extends by (auto simp: encodes_def eq)
  have l: "pointMap st' lhs = pointMap st lhs"
    using assms by (auto simp: encodes_def eq extends_def dest: map_le_the)
  show ?thesis
    using assms(2) k unfolding encodes_def eq prod.case m l by simp
qed

lemma names_ok_add:
  assumes "names_ok m xs" "m nm = None" "length xs < 256"
  shows "names_ok (m(nm \<mapsto> length xs)) (xs @ [nm])"
proof -
  have "nm \<notin> set xs"
  proof
    assume "nm \<in> set xs"
    then obtain i where "i < length xs" "xs ! i = nm" by (auto simp: in_set_conv_nth)
    then have "m nm = Some i" using assms(1) by (simp add: names_ok_def)
    with assms(2) show False by simp
  qed
  then show ?thesis
    using assms by (auto simp: names_ok_def nth_append less_Suc_eq)
qed

text \<open>Both tables of names are filled the same way.\<close>

definition base_ok :: "statement \<Rightarrow> bool" where
  "base_ok st \<longleftrightarrow> names_ok (scalarMap st) (scalars st) \<and> names_ok (pointMap st) (points st)
     \<and> points st \<noteq> [] \<and> hd (points st) = ''G''"

lemma addScalar_ok:
  assumes "addScalar nm st = Inr (i, st')" "base_ok st"
  shows "base_ok st' \<and> extends st st' \<and> scalarMap st' nm = Some i"
  using assms names_ok_add [of "scalarMap st" "scalars st" nm]
  by (auto simp: addScalar_def base_ok_def extends_def map_le_def Let_def split: option.splits if_splits)

lemma addPoint_ok:
  assumes "addPoint nm st = Inr (i, st')" "base_ok st"
  shows "base_ok st' \<and> extends st st' \<and> pointMap st' nm = Some i"
  using assms names_ok_add [of "pointMap st" "points st" nm]
  by (auto simp: addPoint_def base_ok_def extends_def map_le_def Let_def split: option.splits if_splits)

lemma add_terms_ok:
  "add_terms (flat_terms ts) st = Inr (terms, st') \<Longrightarrow> base_ok st \<Longrightarrow>
    base_ok st' \<and> extends st st' \<and> (\<forall>t\<in>set ts. term_known st' t) \<and> terms = map (term_bytes st') ts"
proof (induction ts arbitrary: st terms)
  case (Cons t ts)
  obtain s p where t: "t = (s, p)" by (cases t)
  from Cons.prems obtain i st1 j st2 terms' where
    1: "addScalar s st = Inr (i, st1)" and 2: "addPoint p st1 = Inr (j, st2)"
    and 3: "add_terms (flat_terms ts) st2 = Inr (terms', st')" and 4: "terms = [of_nat i, of_nat j] # terms'"
    by (auto simp: t)
  have A: "base_ok st1" "extends st st1" "scalarMap st1 s = Some i"
    using addScalar_ok [OF 1 Cons.prems(2)] by simp_all
  have B: "base_ok st2" "extends st1 st2" "pointMap st2 p = Some j"
    using addPoint_ok [OF 2 A(1)] by simp_all
  have C: "base_ok st'" "extends st2 st'" "\<forall>t\<in>set ts. term_known st' t" "terms' = map (term_bytes st') ts"
    using Cons.IH [OF 3 B(1)] by simp_all
  have "scalarMap st' s = Some i" "pointMap st' p = Some j"
    using A(3) B(2,3) C(2) by (auto simp: extends_def dest!: map_le_the)
  then show ?case
    using A(2) B(2) C 4 by (auto simp: t term_known_def term_bytes_def intro: extends_trans)
qed simp

lemma add_equation_ok:
  assumes "add_equation lhs (flat_terms ts) st = Inr st'" "st_ok st eqs"
  shows "st_ok st' (eqs @ [(lhs, ts)])"
proof -
  from assms(1) have size: "0 < length ts" "length ts \<le> 255"
    by (auto simp: add_equation_def Let_def split: if_splits)
  from assms(1) obtain l st1 terms st2 where
    1: "addPoint lhs st = Inr (l, st1)" and 2: "add_terms (flat_terms ts) st1 = Inr (terms, st2)"
    and st': "st' = st2\<lparr>equations := equations st2 @ [[of_nat l, of_nat (length ts)] @ concat terms]\<rparr>"
    by (auto simp: add_equation_def Let_def split: if_splits)
  have base: "base_ok st" using assms(2) by (simp add: st_ok_def base_ok_def)
  have A: "base_ok st1" "extends st st1" "pointMap st1 lhs = Some l"
    using addPoint_ok [OF 1 base] by simp_all
  have B: "base_ok st2" "extends st1 st2" "\<forall>t\<in>set ts. term_known st2 t" "terms = map (term_bytes st2) ts"
    using add_terms_ok [OF 2 A(1)] by simp_all
  have ext: "extends st st2" by (rule extends_trans [OF A(2) B(2)])
  have lhs: "pointMap st2 lhs = Some l"
    using A(3) B(2) by (auto simp: extends_def dest!: map_le_the)
  have same: "encodes st' = encodes st2"
    by (rule HOL.ext, rule HOL.ext) (simp add: encodes_def st' term_known_def term_bytes_def)
  have "list_all2 (encodes st2) (equations st) eqs"
    using assms(2) encodes_extends [OF ext] unfolding st_ok_def by (auto elim: list_all2_mono)
  moreover have "encodes st2 ([of_nat l, of_nat (length ts)] @ concat terms) (lhs, ts)"
    using lhs B size by (simp add: encodes_def)
  ultimately have "list_all2 (encodes st') (equations st') (eqs @ [(lhs, ts)])"
    using ext unfolding same by (simp add: st' extends_def list_all2_appendI)
  moreover have "base_ok st'" using B(1) by (simp add: st' base_ok_def)
  ultimately show ?thesis by (simp add: st_ok_def base_ok_def)
qed

lemma Statement_ok: "st_ok Statement []"
  by (auto simp: st_ok_def Statement_def names_ok_def)

fun build :: "equation list \<Rightarrow> statement \<Rightarrow> statement result" where
  "build [] st = Inr st"
| "build ((lhs, ts) # eqs) st = rbind (add_equation lhs (flat_terms ts) st) (build eqs)"

lemma build_ok: "build eqs st = Inr st' \<Longrightarrow> st_ok st eqs0 \<Longrightarrow> st_ok st' (eqs0 @ eqs)"
proof (induction eqs arbitrary: st eqs0)
  case (Cons eq eqs)
  obtain lhs ts where eq: "eq = (lhs, ts)" by (cases eq)
  from Cons.prems(1) obtain st1 where 1: "add_equation lhs (flat_terms ts) st = Inr st1" "build eqs st1 = Inr st'"
    by (auto simp: eq)
  from Cons.IH [OF 1(2) add_equation_ok [OF 1(1) Cons.prems(2)]] show ?case by (simp add: eq)
qed simp

section \<open>Evaluating a statement\<close>

lemma nth_pairs:
  "i < length ts \<Longrightarrow> concat (map (\<lambda>t. [f t, g t]) ts) ! (2 * i) = f (ts ! i)
    \<and> concat (map (\<lambda>t. [f t, g t]) ts) ! (2 * i + 1) = g (ts ! i)"
proof (induction ts arbitrary: i)
  case (Cons t ts)
  then show ?case by (cases i) auto
qed simp

lemma length_pairs: "length (concat (map (\<lambda>t. [f t, g t]) ts)) = 2 * length ts"
  by (induction ts) simp_all

context zkp_library begin

definition term_val :: "statement \<Rightarrow> scalar list \<Rightarrow> point list \<Rightarrow> string \<times> string \<Rightarrow> int" where
  "term_val st g1 ps =
     (\<lambda>(s, p). dlog (ps ! the (pointMap st p)) * asn_val (g1 ! the (scalarMap st s)))"

definition args_ok :: "statement \<Rightarrow> scalar list \<Rightarrow> point list \<Rightarrow> bool" where
  "args_ok st g1 ps \<longleftrightarrow> length g1 = length (scalars st) \<and> length ps = length (points st)
     \<and> (\<forall>a\<in>set g1. scalar_ok a) \<and> (\<forall>p\<in>set ps. valid p)"

lemma unat_index: "names_ok m xs \<Longrightarrow> m n = Some i \<Longrightarrow> unat (of_nat i :: byte) = i \<and> i < length xs"
  by (auto simp: names_ok_def unat_of_nat)

lemma eq_term_val:
  assumes "st_ok st eqs" "args_ok st g1 ps" "encodes st e (lhs, ts)" "j < length ts"
  obtains p where "eq_term Z g1 ps e j = Inr p" "valid p" "dlog p = term_val st g1 ps (ts ! j) mod ell"
proof -
  obtain sn pn where t: "ts ! j = (sn, pn)" by (cases "ts ! j")
  have "term_known st (sn, pn)" using assms(3,4) t nth_mem by (force simp: encodes_def)
  then obtain i k where ik: "scalarMap st sn = Some i" "pointMap st pn = Some k"
    by (auto simp: term_known_def)
  have i: "unat (of_nat i :: byte) = i" "i < length g1"
    using unat_index [of "scalarMap st" "scalars st" sn i] ik(1) assms(1,2) by (auto simp: st_ok_def args_ok_def)
  have k: "unat (of_nat k :: byte) = k" "k < length ps"
    using unat_index [of "pointMap st" "points st" pn k] ik(2) assms(1,2) by (auto simp: st_ok_def args_ok_def)
  define f where "f = (\<lambda>t. of_nat (the (scalarMap st (fst (t :: string \<times> string)))) :: byte)"
  define g where "g = (\<lambda>t. of_nat (the (pointMap st (snd (t :: string \<times> string)))) :: byte)"
  have e: "e = [of_nat (the (pointMap st lhs)), of_nat (length ts)] @ concat (map (\<lambda>t. [f t, g t]) ts)"
    using assms(3) by (simp add: encodes_def term_bytes_def f_def g_def case_prod_unfold)
  have "e ! (2 * j + 2) = f (ts ! j)" "e ! (2 * j + 3) = g (ts ! j)"
    using nth_pairs [OF assms(4), of f g] by (simp_all add: e nth_append numeral_2_eq_2 numeral_3_eq_3)
  then have idx: "e ! (2 * j + 2) = of_nat i" "e ! (2 * j + 3) = of_nat k"
    by (simp_all add: f_def g_def t ik)
  have len: "2 * j + 3 < length e" using assms(4) length_pairs [of f g ts] by (simp add: e)
  have "eq_term Z g1 ps e j = Inr (point_mult Z (ps ! k) (g1 ! i))"
    using len idx i k by (simp add: eq_term_def)
  moreover have "valid (ps ! k)" "scalar_ok (g1 ! i)"
    using assms(2) i k by (simp_all add: args_ok_def)
  ultimately show thesis
    by (intro that [of "point_mult Z (ps ! k) (g1 ! i)"]) (simp_all add: term_val_def t ik)
qed

lemma eq_loop_val:
  assumes "st_ok st eqs" "args_ok st g1 ps" "encodes st e (lhs, ts)" "\<forall>j\<in>set js. j < length ts" "valid p"
  shows "\<exists>q. eq_loop Z g1 ps e js p = Inr q \<and> valid q
    \<and> dlog q = (dlog p + (\<Sum>j\<leftarrow>js. term_val st g1 ps (ts ! j))) mod ell"
  using assms(4,5)
proof (induction js arbitrary: p)
  case Nil
  then show ?case by (simp add: dlog_mod)
next
  case (Cons j js)
  then obtain t where t: "eq_term Z g1 ps e j = Inr t" "valid t" "dlog t = term_val st g1 ps (ts ! j) mod ell"
    using eq_term_val [OF assms(1-3)] by (metis list.set_intros(1))
  then obtain q where "eq_loop Z g1 ps e js (point_add Z p t) = Inr q" "valid q"
    "dlog q = (dlog (point_add Z p t) + (\<Sum>j\<leftarrow>js. term_val st g1 ps (ts ! j))) mod ell"
    using Cons.IH [of "point_add Z p t"] Cons.prems by auto
  then show ?case using t Cons.prems by (simp add: mod_simps add.assoc)
qed

definition eq_val :: "statement \<Rightarrow> scalar list \<Rightarrow> point list \<Rightarrow> equation \<Rightarrow> int" where
  "eq_val st g1 ps = (\<lambda>(lhs, ts). (\<Sum>t\<leftarrow>ts. term_val st g1 ps t))"

lemma homomorphism_val:
  assumes "st_ok st eqs" "args_ok st g1 ps"
  obtains cs where "homomorphism Z st g1 ps = Inr cs"
    "list_all2 (\<lambda>c eq. valid c \<and> dlog c = eq_val st g1 ps eq mod ell) cs eqs"
proof -
  have one: "\<exists>c. rbind (eq_term Z g1 ps e 0) (\<lambda>point. rbind (lpc_index e 1) (\<lambda>esize.
        eq_loop Z g1 ps e [1..<unat esize] point)) = Inr c \<and> valid c \<and> dlog c = eq_val st g1 ps eq mod ell"
    if "encodes st e eq" for e eq
  proof -
    obtain lhs ts where eq: "eq = (lhs, ts)" by (cases eq)
    with that have enc: "encodes st e (lhs, ts)" and ts: "0 < length ts" "length ts \<le> 255"
      by (auto simp: encodes_def)
    have "1 < length e" "unat (e ! 1) = length ts"
      using enc ts(2) by (auto simp: encodes_def unat_of_nat)
    moreover obtain t where t: "eq_term Z g1 ps e 0 = Inr t" "valid t" "dlog t = term_val st g1 ps (ts ! 0) mod ell"
      using eq_term_val [OF assms enc ts(1)] .
    moreover obtain q where "eq_loop Z g1 ps e [1..<length ts] t = Inr q" "valid q"
      "dlog q = (dlog t + (\<Sum>j\<leftarrow>[1..<length ts]. term_val st g1 ps (ts ! j))) mod ell"
      using eq_loop_val [OF assms enc _ t(2), of "[1..<length ts]"] by auto
    moreover have "(\<Sum>t\<leftarrow>ts. term_val st g1 ps t)
        = term_val st g1 ps (ts ! 0) + (\<Sum>j\<leftarrow>[1..<length ts]. term_val st g1 ps (ts ! j))"
    proof -
      have "map (term_val st g1 ps) ts = map (\<lambda>j. term_val st g1 ps (ts ! j)) [0..<length ts]"
        by (rule nth_equalityI) simp_all
      also have "\<dots> = term_val st g1 ps (ts ! 0) # map (\<lambda>j. term_val st g1 ps (ts ! j)) [1..<length ts]"
        using ts(1) by (simp add: upt_conv_Cons)
      finally show ?thesis by (simp del: upt_conv_Cons)
    qed
    ultimately show ?thesis by (simp add: eq_val_def eq mod_simps)
  qed
  have "\<exists>cs. rmapM (\<lambda>e. rbind (eq_term Z g1 ps e 0) (\<lambda>point. rbind (lpc_index e 1) (\<lambda>esize.
        eq_loop Z g1 ps e [1..<unat esize] point))) es = Inr cs
      \<and> list_all2 (\<lambda>c eq. valid c \<and> dlog c = eq_val st g1 ps eq mod ell) cs qs"
    if "list_all2 (encodes st) es qs" for es qs
    using that
  proof induction
    case (Cons e es q qs)
    then show ?case using one [OF Cons.hyps(1)] by auto
  qed simp
  from this [of "equations st" eqs] that assms(1) show thesis
    by (auto simp: homomorphism_def st_ok_def)
qed

end

section \<open>Completeness\<close>

lemma sum_list_mod_cong:
  "(\<And>t. t \<in> set ts \<Longrightarrow> f t mod m = g t mod m) \<Longrightarrow> (\<Sum>t\<leftarrow>ts. f t) mod m = (\<Sum>t\<leftarrow>ts. g t) mod (m :: int)"
  by (induction ts) (auto intro: mod_add_cong)

lemma rmapM_rel:
  assumes "\<And>x. x \<in> set xs \<Longrightarrow> \<exists>y. f x = Inr y \<and> R x y"
  obtains ys where "rmapM f xs = Inr ys" "list_all2 R xs ys"
proof -
  have "\<exists>ys. rmapM f xs = Inr ys \<and> list_all2 R xs ys"
    using assms by (induction xs) fastforce+
  then show thesis using that by blast
qed

lemma rmapM_all_nth:
  "length ys = length xs \<Longrightarrow> (\<And>i. i < length xs \<Longrightarrow> f (xs ! i) = Inr (ys ! i)) \<Longrightarrow> rmapM f xs = Inr ys"
proof (induction xs arbitrary: ys)
  case (Cons x xs)
  then obtain y ys' where ys: "ys = y # ys'" by (cases ys) auto
  with Cons.prems(2) [of 0] Cons.prems(2) [of "Suc i" for i] Cons.prems(1) show ?case
    using Cons.IH [of ys'] by fastforce
qed simp

context zkp_library begin

lemma nonce_ok:
  assumes "length data = k * 64"
  obtains ns where
    "rmapM (\<lambda>i. rmap (Scalar Z) (lpc_range data (int i * 64) (int i * 64 + 63))) [0..<k] = Inr ns"
    "length ns = k" "\<forall>a\<in>set ns. scalar_ok a"
proof -
  have "\<exists>a. rmap (Scalar Z) (lpc_range data (int i * 64) (int i * 64 + 63)) = Inr a \<and> scalar_ok a"
    if "i \<in> set [0..<k]" for i
  proof -
    have "i * 64 + 64 \<le> length data" using that assms mult_le_mono1 [of "Suc i" k 64] by simp
    then show ?thesis by (auto simp: lpc_range_def)
  qed
  then obtain ns where ns: "rmapM (\<lambda>i. rmap (Scalar Z) (lpc_range data (int i * 64) (int i * 64 + 63))) [0..<k] = Inr ns"
    "list_all2 (\<lambda>i a. scalar_ok a) [0..<k] ns"
    by (elim rmapM_rel)
  then have "length ns = k" "\<forall>a\<in>set ns. scalar_ok a"
    by (auto simp: list_all2_conv_all_nth in_set_conv_nth)
  with ns(1) show thesis by (rule that)
qed

definition responses :: "scalar \<Rightarrow> scalar list \<Rightarrow> scalar list \<Rightarrow> scalar list" where
  "responses c g1 ns = map2 (\<lambda>a n. scalar_add (scalar_mult a c) n) g1 ns"

lemma responses_ok:
  assumes "scalar_ok c" "\<forall>a\<in>set g1. scalar_ok a" "\<forall>a\<in>set ns. scalar_ok a"
  shows "\<forall>a\<in>set (responses c g1 ns). scalar_ok a"
  using assms by (auto simp: responses_def in_set_zip)

lemma responses_val:
  assumes "scalar_ok c" "\<forall>a\<in>set g1. scalar_ok a" "\<forall>a\<in>set ns. scalar_ok a" "length ns = length g1" "i < length g1"
  shows "asn_val (responses c g1 ns ! i) mod ell = (asn_val (g1 ! i) * asn_val c + asn_val (ns ! i)) mod ell"
  using assms by (simp add: responses_def asn_val_scalar_ops mod_simps)

lemma eq_val_responses:
  assumes "st_ok st eqs" "args_ok st g1 ps" "args_ok st ns ps" "scalar_ok c"
    "encodes st e (lhs, ts)"
  shows "eq_val st (responses c g1 ns) ps (lhs, ts) mod ell
    = (asn_val c * eq_val st g1 ps (lhs, ts) + eq_val st ns ps (lhs, ts)) mod ell"
proof -
  have "term_val st (responses c g1 ns) ps t mod ell
      = (asn_val c * term_val st g1 ps t + term_val st ns ps t) mod ell" if t_in: "t \<in> set ts" for t
  proof -
    obtain sn pn where t: "t = (sn, pn)" by (cases t)
    then obtain i where i: "scalarMap st sn = Some i"
      using t_in assms(5) by (force simp: encodes_def term_known_def)
    then have "i < length g1"
      using unat_index [of "scalarMap st" "scalars st" sn i] assms(1,2) by (auto simp: st_ok_def args_ok_def)
    then have "asn_val (responses c g1 ns ! i) mod ell = (asn_val (g1 ! i) * asn_val c + asn_val (ns ! i)) mod ell"
      using assms by (intro responses_val) (auto simp: args_ok_def)
    then have "dlog (ps ! the (pointMap st pn)) * asn_val (responses c g1 ns ! i) mod ell
      = dlog (ps ! the (pointMap st pn)) * (asn_val (g1 ! i) * asn_val c + asn_val (ns ! i)) mod ell"
      by (metis mod_mult_right_eq)
    then show ?thesis by (simp add: term_val_def t i algebra_simps)
  qed
  then have "(\<Sum>t\<leftarrow>ts. term_val st (responses c g1 ns) ps t) mod ell
      = (\<Sum>t\<leftarrow>ts. asn_val c * term_val st g1 ps t + term_val st ns ps t) mod ell"
    by (rule sum_list_mod_cong)
  then show ?thesis
    by (simp add: eq_val_def sum_list_addf sum_list_const_mult)
qed

definition sat :: "statement \<Rightarrow> scalar list \<Rightarrow> point list \<Rightarrow> equation \<Rightarrow> bool" where
  "sat st g1 ps = (\<lambda>(lhs, ts). dlog (ps ! the (pointMap st lhs)) = eq_val st g1 ps (lhs, ts) mod ell)"

text \<open>What an equation lacks: its right side less its left side.\<close>

definition gap_at :: "statement \<Rightarrow> scalar list \<Rightarrow> point list \<Rightarrow> equation \<Rightarrow> int" where
  "gap_at st g1 ps q = eq_val st g1 ps q - dlog (ps ! the (pointMap st (fst q)))"

text \<open>
  From the responses, \<open>verify\<close> recomputes the commitments of \<open>prove\<close>, each moved by what its
  equation lacks, times the challenge.
\<close>

lemma recommit:
  assumes "st_ok st eqs" "args_ok st g1 ps" "args_ok st ns ps" "scalar_ok c"
    "homomorphism Z st ns ps = Inr cs"
  obtains cs0 cs' where "homomorphism Z st (responses c g1 ns) ps = Inr cs0"
    "verify_commitment Z st ps c cs0 = Inr cs'" "length cs = length eqs" "length cs' = length eqs"
    "\<And>i. i < length eqs \<Longrightarrow> valid (cs ! i) \<and> valid (cs' ! i)
       \<and> dlog (cs' ! i) mod ell = (dlog (cs ! i) + asn_val c * gap_at st g1 ps (eqs ! i)) mod ell"
proof -
  have rs: "args_ok st (responses c g1 ns) ps"
    using assms(2-4) responses_ok [of c g1 ns] by (auto simp: args_ok_def responses_def)
  obtain cs' where cs': "homomorphism Z st (responses c g1 ns) ps = Inr cs'"
    "list_all2 (\<lambda>d q. valid d \<and> dlog d = eq_val st (responses c g1 ns) ps q mod ell) cs' eqs"
    by (rule homomorphism_val [OF assms(1) rs])
  have cs: "list_all2 (\<lambda>d q. valid d \<and> dlog d = eq_val st ns ps q mod ell) cs eqs"
    using homomorphism_val [OF assms(1,3)] assms(5) by auto
  have es: "list_all2 (encodes st) (equations st) eqs" using assms(1) by (simp add: st_ok_def)
  have len: "length cs' = length (equations st)" "length cs = length (equations st)" "length eqs = length (equations st)"
    using list_all2_lengthD [OF cs] list_all2_lengthD [OF cs'(2)] list_all2_lengthD [OF es] by simp_all
  define f :: "bytes \<times> bytes \<Rightarrow> bytes result" where "f = (\<lambda>(c', equation). rbind (lpc_index equation 0) (\<lambda>l. rbind (lpc_index ps (unat l)) (\<lambda>p.
      Inr (point_sub Z c' (point_mult Z p c)))))"
  define cs2 where "cs2 = map (\<lambda>(c', q). point_sub Z c' (point_mult Z (ps ! the (pointMap st (fst q))) c)) (zip cs' eqs)"
  have at: "f (zip cs' (equations st) ! i) = Inr (cs2 ! i) \<and> valid (cs ! i) \<and> valid (cs2 ! i)
       \<and> dlog (cs2 ! i) mod ell = (dlog (cs ! i) + asn_val c * gap_at st g1 ps (eqs ! i)) mod ell"
    if "i < length (equations st)" for i
  proof -
    obtain lhs ts where q: "eqs ! i = (lhs, ts)" by (cases "eqs ! i")
    have e: "encodes st (equations st ! i) (lhs, ts)"
      using es that q by (auto simp: list_all2_conv_all_nth)
    then obtain l where l: "pointMap st lhs = Some l" by (auto simp: encodes_def)
    then have li: "unat (of_nat l :: byte) = l" "l < length ps"
      using unat_index [of "pointMap st" "points st" lhs l] assms(1,2) by (auto simp: st_ok_def args_ok_def)
    have hd: "lpc_index (equations st ! i) 0 = Inr (of_nat l)"
      using e l by (auto simp: encodes_def)
    have v: "valid (cs' ! i)" "valid (cs ! i)" "valid (ps ! l)"
      "dlog (cs' ! i) = eq_val st (responses c g1 ns) ps (lhs, ts) mod ell"
      "dlog (cs ! i) = eq_val st ns ps (lhs, ts) mod ell"
      using cs cs'(2) that q len assms(2) li by (auto simp: list_all2_conv_all_nth args_ok_def)
    have c2: "cs2 ! i = point_sub Z (cs' ! i) (point_mult Z (ps ! l) c)"
      using that len q l by (simp add: cs2_def)
    have g: "gap_at st g1 ps (eqs ! i) = eq_val st g1 ps (lhs, ts) - dlog (ps ! l)" by (simp add: gap_at_def q l)
    have "dlog (cs2 ! i) mod ell
        = (asn_val c * eq_val st g1 ps (lhs, ts) + eq_val st ns ps (lhs, ts) - dlog (ps ! l) * asn_val c) mod ell"
      using v assms(4) by (simp add: c2 eq_val_responses [OF assms(1-4) e] mod_simps)
    also have "asn_val c * eq_val st g1 ps (lhs, ts) + eq_val st ns ps (lhs, ts) - dlog (ps ! l) * asn_val c
        = eq_val st ns ps (lhs, ts) + asn_val c * gap_at st g1 ps (eqs ! i)"
      by (simp add: g algebra_simps)
    finally have "dlog (cs2 ! i) mod ell = (dlog (cs ! i) + asn_val c * gap_at st g1 ps (eqs ! i)) mod ell"
      by (simp only: v(5) mod_add_left_eq)
    moreover have "valid (cs2 ! i)" using v assms(4) by (simp add: c2)
    ultimately show ?thesis using that len hd li v(2) c2 by (simp add: f_def)
  qed
  have "rmapM f (zip cs' (equations st)) = Inr cs2"
    using len at by (intro rmapM_all_nth) (simp_all add: cs2_def)
  then have "verify_commitment Z st ps c cs' = Inr cs2" by (simp add: verify_commitment_def f_def)
  moreover have "length cs2 = length eqs" using len by (simp add: cs2_def)
  ultimately show thesis using at len by (intro that [OF cs'(1), of cs2]) simp_all
qed

end

text \<open>The arguments by name.\<close>

definition scalar_named :: "scalar_args \<Rightarrow> string \<Rightarrow> int" where
  "scalar_named args n = asn_val (the (map_of args n))"

definition point_named :: "zlib \<Rightarrow> point_args \<Rightarrow> string \<Rightarrow> point" where
  "point_named Z args n = (if n = ''G'' then r_base Z else the (map_of args n))"

text \<open>
  The parts of \<open>verify\<close>: the commitments it recomputes from a proof, and the challenge that goes with a
  list of commitments.
\<close>

definition recomputed :: "zlib \<Rightarrow> statement \<Rightarrow> point list \<Rightarrow> zkproof \<Rightarrow> point list result" where
  "recomputed Z st ps pr =
     rbind (homomorphism Z st (response pr) ps) (\<lambda>commitment. verify_commitment Z st ps (challenge pr) commitment)"

definition challenge_for :: "zlib \<Rightarrow> statement \<Rightarrow> point list \<Rightarrow> bytes \<Rightarrow> point list \<Rightarrow> scalar result" where
  "challenge_for Z st ps msg commitment =
     rmap (\<lambda>(c, sho). Scalar Z c)
       (squeeze Z 64 (ratchet (absorb msg (absorb_all commitment (transcript Z st ps)))))"

lemma names_ok_nth: "names_ok m xs \<Longrightarrow> m n = Some i \<Longrightarrow> i < length xs \<and> xs ! i = n"
  by (simp add: names_ok_def)

lemma map_of_update_base:
  "map_of (AList.update ''G'' b pargs) n = (if n = ''G'' then Some b else map_of pargs n)"
  by (simp add: update_conv)

context zkp_library begin

lemma getScalars_ok:
  assumes "length sargs = length (scalars st)"
    "\<forall>n\<in>set (scalars st). \<exists>a. map_of sargs n = Some a \<and> scalar_ok a"
  obtains g1 where "getScalars st sargs = Inr g1" "length g1 = length (scalars st)" "\<forall>a\<in>set g1. scalar_ok a"
    "\<And>i. i < length g1 \<Longrightarrow> asn_val (g1 ! i) = scalar_named sargs (scalars st ! i)"
proof -
  let ?g = "map (\<lambda>n. the (map_of sargs n)) (scalars st)"
  have "rmapM (lookup_arg ''Missing scalar argument'' sargs) (scalars st) = Inr ?g"
    using assms(2) by (intro rmapM_Inr) (auto simp: lookup_arg_def)
  moreover have "\<forall>a\<in>set ?g. scalar_ok a" using assms(2) by force
  ultimately show thesis
    using assms(1) by (intro that [of ?g]) (auto simp: getScalars_def scalar_named_def)
qed

lemma getPoints_ok:
  assumes "length (AList.update ''G'' (r_base Z) pargs) = length (points st)"
    "\<forall>n\<in>set (points st). n \<noteq> ''G'' \<longrightarrow> (\<exists>p. map_of pargs n = Some p \<and> valid p)"
  obtains ps where "getPoints Z st pargs = Inr ps" "length ps = length (points st)" "\<forall>p\<in>set ps. valid p"
    "\<And>i. i < length ps \<Longrightarrow> ps ! i = point_named Z pargs (points st ! i)"
proof -
  let ?ps = "map (point_named Z pargs) (points st)"
  have "rmapM (lookup_arg ''Missing point argument'' (AList.update ''G'' (r_base Z) pargs)) (points st) = Inr ?ps"
    using assms(2) by (intro rmapM_Inr) (auto simp: lookup_arg_def map_of_update_base point_named_def)
  moreover have "\<forall>p\<in>set ?ps. valid p" using assms(2) valid_base by (force simp: point_named_def)
  ultimately show thesis
    using assms(1) by (intro that [of ?ps]) (auto simp: getPoints_def Let_def)
qed

text \<open>\<open>prove\<close> returns a proof for any arguments of the right form.\<close>

lemma prove_ok:
  assumes st: "st_ok st eqs" and g1: "getScalars st sargs = Inr g1" and ps: "getPoints Z st pargs = Inr ps"
    and args: "args_ok st g1 ps"
  obtains chal ns cs c sho' where
    "prove Z st sargs pargs msg rnd = Inr (proof_transport Z \<lparr>challenge = chal, response = responses chal g1 ns\<rparr>)"
    "chal = Scalar Z c" "scalar_ok chal" "length ns = length g1" "\<forall>a\<in>set ns. scalar_ok a"
    "homomorphism Z st ns ps = Inr cs"
    "squeeze Z 64 (ratchet (absorb msg (absorb_all cs (transcript Z st ps)))) = Inr (c, sho')"
proof -
  define sho where "sho = transcript Z st ps"
  define sho2 where "sho2 = ratchet (absorb msg (ratchet
      (absorb_all (map (scalar_bytes Z) g1) (absorb rnd sho))))"
  have "sho_input sho2 = None" "known_hash (sho_hash sho2)" by (simp_all add: sho2_def sho_def)
  then obtain data cv where data: "squeeze Z (length g1 * 64) sho2 = Inr (data, sho2\<lparr>sho_cv := cv, sho_input := None\<rparr>)"
    "length data = length g1 * 64"
    by (rule squeeze_known)
  obtain ns where ns: "rmapM (\<lambda>i. rmap (Scalar Z) (lpc_range data (int i * 64) (int i * 64 + 63))) [0..<length g1] = Inr ns"
    "length ns = length g1" "\<forall>a\<in>set ns. scalar_ok a"
    by (rule nonce_ok [OF data(2)])
  have nargs: "args_ok st ns ps" using args ns by (simp add: args_ok_def)
  obtain cs where cs: "homomorphism Z st ns ps = Inr cs"
    by (rule homomorphism_val [OF st nargs])
  define sho3 where "sho3 = ratchet (absorb msg (absorb_all cs sho))"
  have "sho_input sho3 = None" "known_hash (sho_hash sho3)" by (simp_all add: sho3_def sho_def)
  then obtain c cv' where c: "squeeze Z 64 sho3 = Inr (c, sho3\<lparr>sho_cv := cv', sho_input := None\<rparr>)"
    by (rule squeeze_known)
  define chal where "chal = Scalar Z c"
  have "prove Z st sargs pargs msg rnd = Inr (proof_transport Z \<lparr>challenge = chal, response = responses chal g1 ns\<rparr>)"
    unfolding prove_def g1 ps rbind_simps Let_def
    using data(1) ns(1) cs c
    by (simp add: sho2_def sho3_def sho_def chal_def responses_def)
  then show thesis
    using ns(2,3) cs c [unfolded sho3_def sho_def] by (intro that [of chal ns c cs]) (simp_all add: chal_def)
qed

text \<open>
  What \<open>verify\<close> makes of the proof \<open>prove\<close> returns, whether the equations hold or not: it recomputes the
  commitments \<open>cs'\<close> and compares their challenge with that of the proof's own commitments \<open>cs\<close>.
\<close>

lemma verify_of_prove:
  assumes st: "st_ok st eqs" "eqs \<noteq> []" "length (scalars st) \<le> 255"
    and g1: "getScalars st sargs = Inr g1" and ps: "getPoints Z st pargs = Inr ps" and args: "args_ok st g1 ps"
  obtains pf pr cs cs' c' where "prove Z st sargs pargs msg rnd = Inr pf"
    "length pf = 32 * Suc (length (scalars st))" "RemoteProof Z pf = Inr pr"
    "recomputed Z st ps pr = Inr cs'"
    "challenge_for Z st ps msg cs = Inr (challenge pr)" "challenge_for Z st ps msg cs' = Inr c'"
    "verify Z st pf pargs msg = Inr (challenge pr = c')"
    "length cs = length eqs" "length cs' = length eqs"
    "\<And>i. i < length eqs \<Longrightarrow> valid (cs ! i) \<and> valid (cs' ! i)
       \<and> dlog (cs' ! i) mod ell = (dlog (cs ! i) + asn_val (challenge pr) * gap_at st g1 ps (eqs ! i)) mod ell"
proof -
  obtain chal ns cs c sho' where
    "prove Z st sargs pargs msg rnd = Inr (proof_transport Z \<lparr>challenge = chal, response = responses chal g1 ns\<rparr>)"
    and chal_def: "chal = Scalar Z c" and ok: "scalar_ok chal" and ns: "length ns = length g1" "\<forall>a\<in>set ns. scalar_ok a"
    and cs: "homomorphism Z st ns ps = Inr cs"
    and c: "squeeze Z 64 (ratchet (absorb msg (absorb_all cs (transcript Z st ps)))) = Inr (c, sho')"
    by (rule prove_ok [OF st(1) g1 ps args])
  define pf where "pf = \<lparr>challenge = chal, response = responses chal g1 ns\<rparr>"
  have proves: "prove Z st sargs pargs msg rnd = Inr (proof_transport Z pf)" by (simp add: pf_def) fact
  have nargs: "args_ok st ns ps" using args ns by (simp add: args_ok_def)
  obtain cs0 cs' where cs': "homomorphism Z st (responses chal g1 ns) ps = Inr cs0"
    "verify_commitment Z st ps chal cs0 = Inr cs'" "length cs = length eqs" "length cs' = length eqs"
    and moved: "\<And>i. i < length eqs \<Longrightarrow> valid (cs ! i) \<and> valid (cs' ! i)
       \<and> dlog (cs' ! i) mod ell = (dlog (cs ! i) + asn_val chal * gap_at st g1 ps (eqs ! i)) mod ell"
    by (rule recommit [OF st(1) args nargs ok cs]) blast
  let ?sho' = "ratchet (absorb msg (absorb_all cs' (transcript Z st ps)))"
  have "sho_input ?sho' = None" "known_hash (sho_hash ?sho')" by simp_all
  then obtain d cv where d: "squeeze Z 64 ?sho' = Inr (d, ?sho'\<lparr>sho_cv := cv, sho_input := None\<rparr>)"
    by (rule squeeze_known)
  have len: "length (responses chal g1 ns) = length (scalars st)"
    using args ns(1) by (simp add: responses_def args_ok_def)
  have "scalars st \<noteq> []"
  proof -
    obtain e q where "encodes st e q" using st(1,2)
      by (cases eqs; cases "equations st") (auto simp: st_ok_def)
    then obtain n i where "scalarMap st n = Some i"
      by (cases q) (force simp: encodes_def term_known_def neq_Nil_conv)
    then show ?thesis using st(1) names_ok_nth [of "scalarMap st" "scalars st" n i] by (auto simp: st_ok_def)
  qed
  then have parsed: "RemoteProof Z (proof_transport Z pf) = Inr pf"
    using responses_ok [of chal g1 ns] args ns(2) ok len st(3)
    by (intro RemoteProof_transport) (auto simp: pf_def args_ok_def Suc_le_eq)
  have verified: "verify Z st (proof_transport Z pf) pargs msg = Inr (challenge pf = Scalar Z d)"
    unfolding verify_def parsed rbind_simps ps
    using cs'(1,2) len d by (simp add: pf_def scalar_equals_def)
  have "length (proof_transport Z pf) = 32 * Suc (length (scalars st))"
  proof -
    have "\<forall>a\<in>set (response pf). scalar_ok a"
      using responses_ok [of chal g1 ns] args ns(2) ok by (simp add: pf_def args_ok_def)
    then have "length x = 32" if "x \<in> set (map (scalar_bytes Z) (response pf))" for x
      using that by auto
    then have "length (concat (map (scalar_bytes Z) (response pf))) = length (response pf) * 32"
      using length_blocks [of "map (scalar_bytes Z) (response pf)" 32] by simp
    then show ?thesis using ok len by (simp add: proof_transport_def pf_def)
  qed
  then show thesis
    using cs' moved c d chal_def
    by (intro that [OF proves _ parsed _ _ _ verified, of cs' cs])
      (simp_all add: pf_def recomputed_def challenge_for_def)
qed

text \<open>Where an equation holds, the recomputed commitment is the one of the proof.\<close>

lemma same_commitment:
  assumes "valid c \<and> valid c' \<and> dlog c' mod ell = (dlog c + a * g) mod ell" "g mod ell = 0"
  shows "c' = c"
proof (rule point_eqI)
  have "(dlog c + a * g) mod ell = (dlog c + a * (g mod ell)) mod ell" by (metis mod_add_right_eq mod_mult_right_eq)
  then show "dlog c' mod ell = dlog c mod ell" using assms by simp
qed (use assms in simp_all)

lemma sat_gap: "sat st g1 ps q \<Longrightarrow> gap_at st g1 ps q mod ell = 0"
  by (cases q) (simp add: sat_def gap_at_def mod_simps)

lemma verify_prove_ok:
  assumes st: "st_ok st eqs" "eqs \<noteq> []" "length (scalars st) \<le> 255"
    and g1: "getScalars st sargs = Inr g1" and ps: "getPoints Z st pargs = Inr ps"
    and args: "args_ok st g1 ps" "\<forall>q\<in>set eqs. sat st g1 ps q"
  shows "\<exists>pf. prove Z st sargs pargs msg rnd = Inr pf \<and> verify Z st pf pargs msg = Inr True
    \<and> length pf = 32 * Suc (length (scalars st))"
proof (rule verify_of_prove [OF st g1 ps args(1), where msg = msg and rnd = rnd])
  fix pf pr cs cs' c'
  assume *: "prove Z st sargs pargs msg rnd = Inr pf" "length pf = 32 * Suc (length (scalars st))"
    "challenge_for Z st ps msg cs = Inr (challenge pr)" "challenge_for Z st ps msg cs' = Inr c'"
    "verify Z st pf pargs msg = Inr (challenge pr = c')" "length cs = length eqs" "length cs' = length eqs"
    and moved: "\<And>i. i < length eqs \<Longrightarrow> valid (cs ! i) \<and> valid (cs' ! i)
       \<and> dlog (cs' ! i) mod ell = (dlog (cs ! i) + asn_val (challenge pr) * gap_at st g1 ps (eqs ! i)) mod ell"
  have "cs' ! i = cs ! i" if "i < length eqs" for i
    using same_commitment [OF moved [OF that]] sat_gap args(2) that by simp
  then have "cs' = cs" using * by (intro nth_equalityI) simp_all
  then show ?thesis using * by auto
qed

definition holds :: "scalar_args \<Rightarrow> point_args \<Rightarrow> equation \<Rightarrow> bool" where
  "holds sargs pargs = (\<lambda>(lhs, ts). dlog (point_named Z pargs lhs)
     = (\<Sum>(s, p)\<leftarrow>ts. dlog (point_named Z pargs p) * scalar_named sargs s) mod ell)"

lemma named_args:
  assumes st: "st_ok st eqs"
    and sargs: "length sargs = length (scalars st)"
      "\<forall>n\<in>set (scalars st). \<exists>a. map_of sargs n = Some a \<and> scalar_ok a"
    and pargs: "length (AList.update ''G'' (r_base Z) pargs) = length (points st)"
      "\<forall>n\<in>set (points st). n \<noteq> ''G'' \<longrightarrow> (\<exists>p. map_of pargs n = Some p \<and> valid p)"
  obtains g1 ps where "getScalars st sargs = Inr g1" "getPoints Z st pargs = Inr ps" "args_ok st g1 ps"
    "\<And>lhs ts. (lhs, ts) \<in> set eqs \<Longrightarrow> ps ! the (pointMap st lhs) = point_named Z pargs lhs
       \<and> eq_val st g1 ps (lhs, ts) = (\<Sum>(s, p)\<leftarrow>ts. dlog (point_named Z pargs p) * scalar_named sargs s)"
proof -
  obtain g1 where g1: "getScalars st sargs = Inr g1" "length g1 = length (scalars st)" "\<forall>a\<in>set g1. scalar_ok a"
    "\<And>i. i < length g1 \<Longrightarrow> asn_val (g1 ! i) = scalar_named sargs (scalars st ! i)"
    by (rule getScalars_ok [OF sargs]) blast
  obtain ps where ps: "getPoints Z st pargs = Inr ps" "length ps = length (points st)" "\<forall>p\<in>set ps. valid p"
    "\<And>i. i < length ps \<Longrightarrow> ps ! i = point_named Z pargs (points st ! i)"
    by (rule getPoints_ok [OF pargs]) blast
  have args: "args_ok st g1 ps" using g1 ps by (simp add: args_ok_def)
  have P: "ps ! the (pointMap st p) = point_named Z pargs p" if "pointMap st p \<noteq> None" for p
    using that st(1) ps(2,4) names_ok_nth [of "pointMap st" "points st" p] by (auto simp: st_ok_def)
  have S: "asn_val (g1 ! the (scalarMap st s)) = scalar_named sargs s" if "scalarMap st s \<noteq> None" for s
    using that st(1) g1(2,4) names_ok_nth [of "scalarMap st" "scalars st" s] by (auto simp: st_ok_def)
  have "ps ! the (pointMap st lhs) = point_named Z pargs lhs
       \<and> eq_val st g1 ps (lhs, ts) = (\<Sum>(s, p)\<leftarrow>ts. dlog (point_named Z pargs p) * scalar_named sargs s)"
    if q_in: "(lhs, ts) \<in> set eqs" for lhs ts
  proof -
    obtain e where e: "encodes st e (lhs, ts)"
      using q_in st(1) by (auto simp: st_ok_def list_all2_conv_all_nth in_set_conv_nth)
    have "term_val st g1 ps (s, p) = dlog (point_named Z pargs p) * scalar_named sargs s"
      if "(s, p) \<in> set ts" for s p
    proof -
      have "term_known st (s, p)" using e that by (auto simp: encodes_def)
      then show ?thesis using P [of p] S [of s] by (auto simp: term_known_def term_val_def)
    qed
    then have m: "map (term_val st g1 ps) ts = map (\<lambda>(s, p). dlog (point_named Z pargs p) * scalar_named sargs s) ts"
      by (auto simp del: split_paired_All)
    have "ps ! the (pointMap st lhs) = point_named Z pargs lhs" using e P by (simp add: encodes_def)
    then show ?thesis by (simp only: eq_val_def prod.case m)
  qed
  then show thesis by (rule that [OF g1(1) ps(1) args])
qed

text \<open>What an equation lacks, by name; it holds when that is nothing.\<close>

definition gap :: "scalar_args \<Rightarrow> point_args \<Rightarrow> equation \<Rightarrow> int" where
  "gap sargs pargs = (\<lambda>(lhs, ts). (\<Sum>(s, p)\<leftarrow>ts. dlog (point_named Z pargs p) * scalar_named sargs s)
     - dlog (point_named Z pargs lhs))"

lemma holds_gap: "holds sargs pargs q \<Longrightarrow> gap sargs pargs q mod ell = 0"
  by (cases q) (simp add: holds_def gap_def mod_simps)

lemma verify_prove_named:
  assumes st: "st_ok st eqs" "eqs \<noteq> []" "length (scalars st) \<le> 255"
    and sargs: "length sargs = length (scalars st)"
      "\<forall>n\<in>set (scalars st). \<exists>a. map_of sargs n = Some a \<and> scalar_ok a"
    and pargs: "length (AList.update ''G'' (r_base Z) pargs) = length (points st)"
      "\<forall>n\<in>set (points st). n \<noteq> ''G'' \<longrightarrow> (\<exists>p. map_of pargs n = Some p \<and> valid p)"
    and holds: "\<forall>q\<in>set eqs. holds sargs pargs q"
  shows "\<exists>pf. prove Z st sargs pargs msg rnd = Inr pf \<and> verify Z st pf pargs msg = Inr True
    \<and> length pf = 32 * Suc (length (scalars st))"
proof -
  obtain g1 ps where args: "getScalars st sargs = Inr g1" "getPoints Z st pargs = Inr ps" "args_ok st g1 ps"
    and named: "\<And>lhs ts. (lhs, ts) \<in> set eqs \<Longrightarrow> ps ! the (pointMap st lhs) = point_named Z pargs lhs
       \<and> eq_val st g1 ps (lhs, ts) = (\<Sum>(s, p)\<leftarrow>ts. dlog (point_named Z pargs p) * scalar_named sargs s)"
    by (rule named_args [OF st(1) sargs pargs]) blast
  have "sat st g1 ps q" if "q \<in> set eqs" for q
    using holds that named [of "fst q" "snd q"] by (cases q) (auto simp: sat_def holds_def)
  then show ?thesis
    by (intro verify_prove_ok [OF st args]) blast
qed

text \<open>The proof for arguments of the right form, whatever the equations that do not hold.\<close>

lemma verify_of_prove_named:
  assumes st: "st_ok st eqs" "eqs \<noteq> []" "length (scalars st) \<le> 255"
    and sargs: "length sargs = length (scalars st)"
      "\<forall>n\<in>set (scalars st). \<exists>a. map_of sargs n = Some a \<and> scalar_ok a"
    and pargs: "length (AList.update ''G'' (r_base Z) pargs) = length (points st)"
      "\<forall>n\<in>set (points st). n \<noteq> ''G'' \<longrightarrow> (\<exists>p. map_of pargs n = Some p \<and> valid p)"
  obtains pf pr ps cs cs' c' where "prove Z st sargs pargs msg rnd = Inr pf" "RemoteProof Z pf = Inr pr"
    "getPoints Z st pargs = Inr ps" "recomputed Z st ps pr = Inr cs'"
    "challenge_for Z st ps msg cs = Inr (challenge pr)" "challenge_for Z st ps msg cs' = Inr c'"
    "verify Z st pf pargs msg = Inr (challenge pr = c')"
    "length cs = length eqs" "length cs' = length eqs"
    "\<And>i. i < length eqs \<Longrightarrow> valid (cs ! i) \<and> valid (cs' ! i)
       \<and> dlog (cs' ! i) mod ell = (dlog (cs ! i) + asn_val (challenge pr) * gap sargs pargs (eqs ! i)) mod ell"
proof -
  obtain g1 ps where args: "getScalars st sargs = Inr g1" "getPoints Z st pargs = Inr ps" "args_ok st g1 ps"
    and named: "\<And>lhs ts. (lhs, ts) \<in> set eqs \<Longrightarrow> ps ! the (pointMap st lhs) = point_named Z pargs lhs
       \<and> eq_val st g1 ps (lhs, ts) = (\<Sum>(s, p)\<leftarrow>ts. dlog (point_named Z pargs p) * scalar_named sargs s)"
    by (rule named_args [OF st(1) sargs pargs]) blast
  have "gap_at st g1 ps q = gap sargs pargs q" if "q \<in> set eqs" for q
    using that named [of "fst q" "snd q"] by (cases q rule: prod.exhaust) (simp add: gap_at_def gap_def)
  then have g: "gap_at st g1 ps (eqs ! i) = gap sargs pargs (eqs ! i)" if "i < length eqs" for i
    using that by simp
  show thesis
  proof (rule verify_of_prove [OF st args, where msg = msg and rnd = rnd])
    fix pf pr cs cs' c'
    assume "prove Z st sargs pargs msg rnd = Inr pf" "RemoteProof Z pf = Inr pr"
      "recomputed Z st ps pr = Inr cs'" "challenge_for Z st ps msg cs = Inr (challenge pr)"
      "challenge_for Z st ps msg cs' = Inr c'" "verify Z st pf pargs msg = Inr (challenge pr = c')"
      "length cs = length eqs" "length cs' = length eqs"
    note pf = this
    assume moved: "\<And>i. i < length eqs \<Longrightarrow> valid (cs ! i) \<and> valid (cs' ! i)
       \<and> dlog (cs' ! i) mod ell = (dlog (cs ! i) + asn_val (challenge pr) * gap_at st g1 ps (eqs ! i)) mod ell"
    show thesis
      by (rule that [OF pf(1,2) args(2) pf(3-8)]) (use moved g in simp)
  qed
qed

end

section \<open>A reference library\<close>

text \<open>
  The group as the integers modulo \<open>ell\<close>, an element encoded as its 32 little-endian bytes:
  it meets the contract, so the theorems that assume it are not vacuous.
\<close>

definition le32 :: "int \<Rightarrow> bytes" where
  "le32 n = rev (replicate (32 - length (asn_unum (nat n))) 0 @ asn_unum (nat n))"

definition std_zlib :: zlib where
  "std_zlib = \<lparr>
     z_asn = std_asn_lib,
     z_hmac = (\<lambda>k m alg. take 32 (rev m @ k @ replicate 32 0)),
     z_hash = (\<lambda>alg m. take 32 (rev m @ replicate 32 0)),
     r_add = (\<lambda>p q. le32 ((le_val p + le_val q) mod ell)),
     r_sub = (\<lambda>p q. le32 ((le_val p - le_val q) mod ell)),
     r_neg = (\<lambda>p. le32 (- le_val p mod ell)),
     r_mult = (\<lambda>p s. le32 (le_val p * le_val s mod ell)),
     r_map = (\<lambda>s. le32 (le_val s mod ell)),
     r_base = le32 1 \<rparr>"

definition std_valid :: "bytes \<Rightarrow> bool" where
  "std_valid p \<longleftrightarrow> length p = 32 \<and> le_val p < ell"

lemma length_unum_ell: "0 \<le> n \<Longrightarrow> n < ell \<Longrightarrow> length (asn_unum (nat n)) \<le> 32"
  unfolding length_asn_unum_le_iff by (simp add: ell_def)

lemma length_le32: "0 \<le> n \<Longrightarrow> n < ell \<Longrightarrow> length (le32 n) = 32"
  using length_unum_ell [of n] by (simp add: le32_def)

lemma le_val_le32: "0 \<le> n \<Longrightarrow> le_val (le32 n) = n"
  by (simp add: le32_def le_val_def)

lemma le_val_mod [simp]: "le_val (le32 (n mod ell)) = n mod ell" "length (le32 (n mod ell)) = 32"
  by (simp_all add: le_val_le32 length_le32)

lemma le_val_nonneg: "0 \<le> le_val s"
  by (simp add: le_val_def)

interpretation std_zkp: zkp_library std_zlib std_valid le_val
proof
  fix p q :: bytes
  assume "std_valid p" "std_valid q" "le_val p = le_val q"
  then show "p = q"
    using asn_uval_inj_len [of "rev p" "rev q"] by (simp add: std_valid_def le_val_def)
next
  have "length (le32 1) = 32" by (rule length_le32) (simp_all add: ell_def)
  then show "std_valid (r_base std_zlib)"
    using le_val_le32 [of 1] by (simp add: std_zlib_def std_valid_def ell_def)
qed (simp_all add: std_zlib_def std_valid_def le_val_nonneg std_asn.asn_library_axioms
    std_asn.encode std_asn.decode std_asn.extend std_asn.unsigned_extend std_asn.reverse)

section \<open>Properties\<close>

lemma scalar_ok_asn_num: "0 \<le> n \<Longrightarrow> n < ell \<Longrightarrow> scalar_ok (asn_num n)"
  by (auto simp: scalar_ok_def)

text \<open>
  C23.  Completeness.  For every statement built by \<open>add\<close>, of at most 255 scalars, and all
  arguments that satisfy its equations, \<open>prove\<close> returns a proof that \<open>verify\<close> accepts, whatever
  the message and the random bytes; it has 32 bytes for the challenge and for each scalar.
\<close>

theorem verify_prove:
  assumes "zkp_library Z valid dlog"
    and "build eqs Statement = Inr st" "eqs \<noteq> []" "length (scalars st) \<le> 255"
    and "length sargs = length (scalars st)"
      "\<forall>n\<in>set (scalars st). \<exists>a. map_of sargs n = Some a \<and> scalar_ok a"
    and "length (AList.update ''G'' (r_base Z) pargs) = length (points st)"
      "\<forall>n\<in>set (points st). n \<noteq> ''G'' \<longrightarrow> (\<exists>p. map_of pargs n = Some p \<and> valid p)"
    and "\<forall>(lhs, ts)\<in>set eqs. dlog (point_named Z pargs lhs)
      = (\<Sum>(s, p)\<leftarrow>ts. dlog (point_named Z pargs p) * scalar_named sargs s) mod ell"
  shows "\<exists>pf. prove Z st sargs pargs msg rnd = Inr pf \<and> verify Z st pf pargs msg = Inr True
    \<and> length pf = 32 * Suc (length (scalars st))"
proof (rule zkp_library.verify_prove_named [OF assms(1) _ assms(3-8)])
  show "st_ok st eqs" using build_ok [OF assms(2) Statement_ok] by simp
  show "\<forall>q\<in>set eqs. zkp_library.holds Z dlog sargs pargs q"
    using assms(9) unfolding zkp_library.holds_def [OF assms(1)] .
qed

theorem verify_prove_witness:
  "\<exists>st. build [(''P'', [(''x'', ''G'')])] Statement = Inr st
    \<and> (\<exists>pf. prove std_zlib st [(''x'', asn_num 2)] [(''P'', le32 2)] [7] [9] = Inr pf
         \<and> verify std_zlib st pf [(''P'', le32 2)] [7] = Inr True
         \<and> length pf = 32 * Suc (length (scalars st)))"
proof -
  let ?st = "\<lparr>equations = [[1, 1, 0, 0]], scalarMap = [''x'' \<mapsto> 0], scalars = [''x''],
     pointMap = [''G'' \<mapsto> 0, ''P'' \<mapsto> 1], points = [''G'', ''P'']\<rparr>"
  have st: "build [(''P'', [(''x'', ''G'')])] Statement = Inr ?st"
    by (simp add: add_equation_def addPoint_def addScalar_def Statement_def Let_def)
  have le2: "std_valid (le32 2)" "le_val (le32 2) = 2" "le_val (le32 1) = 1"
    by (simp_all add: std_valid_def length_le32 le_val_le32 ell_def)
  have ok2: "scalar_ok (asn_num 2)" by (simp add: scalar_ok_asn_num ell_def)
  have "\<exists>pf. prove std_zlib ?st [(''x'', asn_num 2)] [(''P'', le32 2)] [7] [9] = Inr pf
         \<and> verify std_zlib ?st pf [(''P'', le32 2)] [7] = Inr True
         \<and> length pf = 32 * Suc (length (scalars ?st))"
    by (rule verify_prove [OF std_zkp.zkp_library_axioms st])
      (use le2 ok2 in \<open>simp_all add: point_named_def scalar_named_def ell_def std_zlib_def\<close>)
  with st show ?thesis by blast
qed

text \<open>
  Scalars are kept canonical: every operation on reduced scalars gives the reduced scalar of
  the sum, difference, negation or product modulo the order, so \<open>equals\<close>, which compares the
  strings, is equality of the numbers; exporting and importing a scalar gives it back.
\<close>

theorem scalar_arithmetic:
  assumes "zkp_library Z valid dlog" "0 \<le> m" "m < ell" "0 \<le> n" "n < ell"
  shows "scalar_add (asn_num m) (asn_num n) = asn_num ((m + n) mod ell)
    \<and> scalar_sub (asn_num m) (asn_num n) = asn_num ((m - n) mod ell)
    \<and> scalar_neg (asn_num m) = asn_num (- m mod ell)
    \<and> scalar_mult (asn_num m) (asn_num n) = asn_num (m * n mod ell)
    \<and> scalar_equals (asn_num m) (asn_num n) = (m = n)
    \<and> length (scalar_bytes Z (asn_num m)) = 32
    \<and> Scalar Z (scalar_bytes Z (asn_num m)) = asn_num m"
proof -
  have ok: "scalar_ok (asn_num m)" "scalar_ok (asn_num n)" using assms(2-5) by (simp_all add: scalar_ok_asn_num)
  have "asn_num m = asn_num n \<longleftrightarrow> m = n" by (metis asn_val_num)
  then show ?thesis
    using scalar_add_num [OF ok] scalar_sub_num [OF ok] scalar_mult_num [OF ok] scalar_neg_num [OF ok(1)] ok(1)
      zkp_library.length_scalar_bytes [OF assms(1)] zkp_library.Scalar_bytes [OF assms(1)]
    by (simp add: scalar_equals_def)
qed

theorem scalar_arithmetic_witness:
  "scalar_add (asn_num 5) (asn_num 3) = asn_num ((5 + 3) mod ell)
    \<and> scalar_sub (asn_num 5) (asn_num 3) = asn_num ((5 - 3) mod ell)
    \<and> scalar_neg (asn_num 5) = asn_num (- 5 mod ell)
    \<and> scalar_mult (asn_num 5) (asn_num 3) = asn_num (5 * 3 mod ell)
    \<and> scalar_equals (asn_num 5) (asn_num 3) = ((5::int) = 3)
    \<and> length (scalar_bytes std_zlib (asn_num 5)) = 32
    \<and> Scalar std_zlib (scalar_bytes std_zlib (asn_num 5)) = asn_num 5"
  by (rule scalar_arithmetic [OF std_zkp.zkp_library_axioms]) (simp_all add: ell_def)

text \<open>
  On a ratcheted object whose hash gives \<open>k > 0\<close> bytes, \<open>squeeze\<close> ends and returns exactly
  the number of bytes asked for, and the object is ready to be squeezed again.
\<close>

theorem squeeze_returns:
  assumes "sho_input sho = None" "0 < k" "\<And>cv i. length (hashSqueeze1 (sho_hash sho) cv i) = k"
  shows "\<exists>out sho'. squeeze Z len sho = Inr (out, sho') \<and> length out = len
    \<and> sho_input sho' = None \<and> sho_hash sho' = sho_hash sho"
  by (rule squeeze_ok [OF assms, of Z len]) auto

theorem squeeze_returns_witness:
  "\<exists>out sho'. squeeze std_zlib 64 (Sho (ShoHmacSha256 std_zlib) [1]) = Inr (out, sho') \<and> length out = 64
    \<and> sho_input sho' = None \<and> sho_hash sho' = sho_hash (Sho (ShoHmacSha256 std_zlib) [1])"
  by (rule squeeze_returns [of _ 32]) (simp_all add: ShoHmacSha256_def std_zlib_def)

text \<open>
  C39.  \<open>RemoteProof\<close> reads back what \<open>transport\<close> wrote for 1 to 255 responses, and refuses a proof
  of 256: a statement can have that many scalars (\<open>addScalar\<close> allows index 255), so the proof of
  such a statement cannot be verified.
\<close>

theorem RemoteProof_bound:
  assumes "zkp_library Z valid dlog" "scalar_ok (challenge p)" "\<forall>r\<in>set (response p). scalar_ok r"
    "1 \<le> length (response p)"
  shows "RemoteProof Z (proof_transport Z p)
    = (if length (response p) \<le> 255 then Inr p else Inl (Error ''Bad proof''))"
proof (cases "length (response p) \<le> 255")
  case True
  then show ?thesis using assms zkp_library.RemoteProof_transport [of Z valid dlog p] by simp
next
  case False
  define xs where "xs = map (scalar_bytes Z) (challenge p # response p)"
  have "length x = 32" if "x \<in> set xs" for x
    using that assms(2,3) zkp_library.length_scalar_bytes [OF assms(1)] by (auto simp: xs_def)
  then have "length (concat xs) = length xs * 32" by (rule length_blocks)
  moreover have "proof_transport Z p = concat xs" by (simp add: proof_transport_def xs_def)
  ultimately show ?thesis using False by (simp add: RemoteProof_def xs_def)
qed

theorem RemoteProof_bound_witness:
  "RemoteProof std_zlib (proof_transport std_zlib
      \<lparr>challenge = asn_num 1, response = replicate 256 (asn_num 2)\<rparr>)
    = (if length (response \<lparr>challenge = asn_num 1, response = replicate 256 (asn_num 2)\<rparr>) \<le> 255
       then Inr \<lparr>challenge = asn_num 1, response = replicate 256 (asn_num 2)\<rparr> else Inl (Error ''Bad proof''))"
proof (rule RemoteProof_bound [OF std_zkp.zkp_library_axioms])
  have "scalar_ok (asn_num 1)" "scalar_ok (asn_num 2)" by (simp_all add: scalar_ok_asn_num ell_def)
  then show "scalar_ok (challenge \<lparr>challenge = asn_num 1, response = replicate 256 (asn_num 2)\<rparr>)"
    "\<forall>r\<in>set (response \<lparr>challenge = asn_num 1, response = replicate 256 (asn_num 2)\<rparr>). scalar_ok r"
    by simp_all
qed simp

end
