(* ===== verification/Uuid.thy ===== *)
theory Uuid
  imports ZkpSpec
begin

text \<open>
  UUIDs (\<^verbatim>\<open>src/lib/uuid.c\<close>), times (\<^verbatim>\<open>src/lib/time.c\<close>), system parameters
  (\<^verbatim>\<open>src/sys/params.c\<close>) and token hashes (\<^verbatim>\<open>src/lib/hash.c\<close>).

  The \<open>hex::\<close> functions and \<open>HKDF\<close> come from outside the repository and are parameters; a
  random string is an argument.  A \<open>nil\<close> argument that the code tests for is an option.
\<close>

section \<open>Hexadecimal strings: a parameter\<close>

record hex_lib =
  hex_format :: "bytes \<Rightarrow> bytes"
  hex_decode :: "bytes \<Rightarrow> bytes result"

locale hex_library =
  fixes X :: hex_lib
  assumes length_format: "length (hex_format X s) = 2 * length s"
    and decode_format: "hex_decode X (hex_format X s) = Inr s"

definition hex_digit :: "nat \<Rightarrow> byte" where
  "hex_digit n = (if n < 10 then of_nat (48 + n) else of_nat (87 + n))"

definition hex_value :: "byte \<Rightarrow> nat option" where
  "hex_value c = (let n = unat c in
     if 48 \<le> n \<and> n \<le> 57 then Some (n - 48)
     else if 97 \<le> n \<and> n \<le> 102 then Some (n - 87)
     else if 65 \<le> n \<and> n \<le> 70 then Some (n - 55) else None)"

fun std_hex_decode :: "bytes \<Rightarrow> bytes result" where
  "std_hex_decode [] = Inr []"
| "std_hex_decode [c] = Inl (Error ''Bad hex string'')"
| "std_hex_decode (c # d # s) =
     (case (hex_value c, hex_value d) of
        (Some h, Some l) \<Rightarrow> rmap (\<lambda>r. of_nat (16 * h + l) # r) (std_hex_decode s)
      | _ \<Rightarrow> Inl (Error ''Bad hex string''))"

definition std_hex_format :: "bytes \<Rightarrow> bytes" where
  "std_hex_format s = concat (map (\<lambda>b. [hex_digit (unat b div 16), hex_digit (unat b mod 16)]) s)"

definition std_hex :: hex_lib where
  "std_hex = \<lparr>hex_format = std_hex_format, hex_decode = std_hex_decode\<rparr>"

lemma hex_value_digit: "n < 16 \<Longrightarrow> hex_value (hex_digit n) = Some n"
proof -
  have "\<forall>n\<in>set [0..<16]. hex_value (hex_digit n) = Some n" by code_simp
  then show "n < 16 \<Longrightarrow> hex_value (hex_digit n) = Some n" by simp
qed

interpretation std_hex: hex_library std_hex
proof
  fix s
  show "length (hex_format std_hex s) = 2 * length s"
    by (induction s) (simp_all add: std_hex_def std_hex_format_def)
  show "hex_decode std_hex (hex_format std_hex s) = Inr s"
  proof (induction s)
    case (Cons b s)
    have "unat b div 16 < 16" using unsigned_less [of b, where 'a = nat] by (simp add: less_mult_imp_div_less)
    then show ?case
      using Cons by (simp add: std_hex_def std_hex_format_def hex_value_digit)
  qed (simp add: std_hex_def std_hex_format_def)
qed

section \<open>UUIDs\<close>

definition uuid_generate :: "bytes \<Rightarrow> bytes result" where
  "uuid_generate random =
     rbind (lpc_index random 6) (\<lambda>b6.
       let uuid = random[6 := 0x40 + (b6 AND 0x0f)] in
       rbind (lpc_index uuid 8) (\<lambda>b8.
         Inr (uuid[8 := 0x80 + (b8 AND 0x3f)])))"

definition uuid_encode :: "hex_lib \<Rightarrow> bytes option \<Rightarrow> bytes result" where
  "uuid_encode X uuid =
     (case uuid of
        None \<Rightarrow> Inl (Error ''Bad UUID'')
      | Some uuid \<Rightarrow>
          if length uuid \<noteq> 16 then Inl (Error ''Bad UUID'')
          else
            rbind (lpc_range uuid 0 3) (\<lambda>a.
            rbind (lpc_range uuid 4 5) (\<lambda>b.
            rbind (lpc_range uuid 6 7) (\<lambda>c.
            rbind (lpc_range uuid 8 9) (\<lambda>d.
            rbind (lpc_range uuid 10 (int (length uuid) - 1)) (\<lambda>e.
              Inr (hex_format X a @ str ''-'' @ hex_format X b @ str ''-'' @ hex_format X c @ str ''-''
                @ hex_format X d @ str ''-'' @ hex_format X e)))))))"

definition dash :: byte where
  "dash = of_char (CHR ''-'')"

definition uuid_decode :: "hex_lib \<Rightarrow> bytes option \<Rightarrow> bytes result" where
  "uuid_decode X uuid =
     (case uuid of
        None \<Rightarrow> Inl (Error ''Bad UUID'')
      | Some uuid \<Rightarrow>
          if length uuid \<noteq> 36 \<or> uuid ! 8 \<noteq> dash \<or> uuid ! 13 \<noteq> dash \<or> uuid ! 18 \<noteq> dash \<or> uuid ! 23 \<noteq> dash
          then Inl (Error ''Bad UUID'')
          else
            rbind (rbind (lpc_range uuid 0 7) (hex_decode X)) (\<lambda>a.
            rbind (rbind (lpc_range uuid 9 12) (hex_decode X)) (\<lambda>b.
            rbind (rbind (lpc_range uuid 14 17) (hex_decode X)) (\<lambda>c.
            rbind (rbind (lpc_range uuid 19 22) (hex_decode X)) (\<lambda>d.
            rbind (rbind (lpc_range uuid 24 (int (length uuid) - 1)) (hex_decode X)) (\<lambda>e.
              Inr (a @ b @ c @ d @ e)))))))"

text \<open>The mapping of a UUID to two points of the group (\<open>points\<close>); \<open>sho\<close> is \<open>PARAMS->uuidSho()\<close>.\<close>

definition uuidSho :: "zlib \<Rightarrow> sho" where
  "uuidSho Z = Sho (ShoHmacSha256 Z) (str ''Signal_ZKGroup_20200424_UID_CalcM1'')"

definition uuid_points :: "zlib \<Rightarrow> bytes \<Rightarrow> point list result" where
  "uuid_points Z uuid =
     rbind (getPoint Z (ratchet (absorb uuid (uuidSho Z)))) (\<lambda>(M1, sho).
       let b = z_hash Z ''SHA256'' uuid in
       rbind (lpc_range b 0 7) (\<lambda>b1.
       rbind (lpc_range b 24 31) (\<lambda>b2.
         let b = b1 @ uuid @ b2 in
         rbind (lpc_index b 0) (\<lambda>c0.
         rbind (lpc_index b 31) (\<lambda>c31.
           let b = (b[0 := c0 AND 0xfe])[31 := c31 AND 0x3f] in
           Inr [M1, r_map Z b])))))"

section \<open>Times\<close>

lemma length_asn_pad_le: "n < 128 * 256 ^ k \<Longrightarrow> length (asn_pad (asn_unum n)) \<le> Suc k"
proof (cases "asn_unum n = []")
  case False
  assume n: "n < 128 * 256 ^ k"
  then have "n < 256 ^ Suc k" by simp
  then have len: "length (asn_unum n) \<le> Suc k" by (simp only: length_asn_unum_le_iff)
  show ?thesis
  proof (cases "length (asn_unum n) = Suc k")
    case True
    with n False have "\<not> bit (hd (asn_unum n)) 7" by (simp add: bit7_hd_iff)
    with len show ?thesis by (simp add: asn_pad_def)
  next
    case False
    with len show ?thesis by (simp add: asn_pad_def)
  qed
qed (simp add: asn_pad_def)

lemma length_asn_num_le:
  assumes "- (128 * 256 ^ k) \<le> i" "i < 128 * 256 ^ k"
  shows "length (asn_num i) \<le> Suc k"
proof -
  have "nat i < 128 * 256 ^ k"
    using assms by (cases "0 \<le> i") (simp_all add: nat_less_iff)
  moreover have "nat (- i - 1) < 128 * 256 ^ k"
    using assms by (cases "0 \<le> - i - 1") (simp_all add: nat_less_iff)
  ultimately show ?thesis by (simp add: asn_num_def length_asn_pad_le)
qed

text \<open>Sign extension keeps the value, so the bytes are the number modulo their range.\<close>

lemma asn_uval_extended:
  assumes "s \<noteq> []" "length s \<le> n"
  shows "int (asn_uval (replicate (n - length s) (if bit (hd s) 7 then 0xff else 0) @ s))
    = asn_val s mod 256 ^ n"
proof (cases "bit (hd s) 7")
  case False
  have "asn_uval s < 256 ^ n"
    using asn_uval_lt [of s] power_increasing [OF assms(2), of "256 :: nat"] by (rule order.strict_trans2) simp
  then show ?thesis using False by (simp add: asn_val_def flip: of_nat_power)
next
  case True
  let ?t = "replicate (n - length s) (0xff :: byte) @ s"
  have "asn_uval (map NOT ?t) + asn_uval ?t + 1 = 256 ^ n"
    using asn_uval_not [of ?t] assms(2) by simp
  moreover have "asn_uval (map NOT ?t) = asn_uval (map NOT s)"
  proof -
    have z: "(- 256 :: byte) = 0" by simp
    show ?thesis by (simp add: map_replicate z)
  qed
  ultimately have "int (asn_uval (map NOT s) + asn_uval ?t + 1) = int (256 ^ n)"
    by (simp only:)
  then have eq: "int (asn_uval ?t) = 256 ^ n + asn_val s"
    using True assms(1) by (simp add: asn_val_def)
  have "length ?t = n" using assms(2) by simp
  with asn_uval_lt [of ?t] have "asn_uval ?t < 256 ^ n" by (simp only:)
  then have "int (asn_uval ?t) < int (256 ^ n)" by (simp only: of_nat_less_iff)
  then have "int (asn_uval ?t) mod 256 ^ n = int (asn_uval ?t)" by simp
  moreover have "asn_val s mod 256 ^ n = (256 ^ n + asn_val s) mod 256 ^ n" by simp
  ultimately show ?thesis using True eq by (simp only: if_True)
qed

definition timeBytes :: "asn_lib \<Rightarrow> lpcint \<Rightarrow> bytes" where
  "timeBytes A time = lib_unsigned_extend A (lib_extend A (lib_encode A time) 4) 8"

definition timeSho :: "zlib \<Rightarrow> sho" where
  "timeSho Z = Sho (ShoHmacSha256 Z) (str ''Signal_ZKGroup_20220524_Timestamp_Calc_m'')"

definition timeScalar :: "zlib \<Rightarrow> lpcint \<Rightarrow> scalar result" where
  "timeScalar Z time = rmap fst (getScalar Z (ratchet (absorb (timeBytes (z_asn Z) time) (timeSho Z))))"

text \<open>\<open>%\<close> on a number that is not negative: after the shift, \<open>time\<close> is below \<open>2 ^ 25\<close>.\<close>

definition timeDay :: "lpcint \<Rightarrow> lpcint" where
  "timeDay time = (let time = drop_bit 7 time in push_bit 7 (time - time mod 675))"

section \<open>Token hashes\<close>

text \<open>\<open>HKDF(token, "authtoken", 32, "SHA256", salt)\<close> is a parameter; \<open>random\<close> are 16 random bytes.\<close>

type_synonym hkdf = "bytes \<Rightarrow> bytes \<Rightarrow> nat \<Rightarrow> string \<Rightarrow> bytes \<Rightarrow> bytes"

definition hash_token :: "hex_lib \<Rightarrow> hkdf \<Rightarrow> bytes \<Rightarrow> bytes \<Rightarrow> bytes option \<Rightarrow> bytes \<times> bytes" where
  "hash_token X HKDF random token salt =
     (let salt = (case salt of None \<Rightarrow> hex_format X random | Some s \<Rightarrow> s) in
      (str ''2.'' @ hex_format X (HKDF token (str ''authtoken'') 32 ''SHA256'' salt), salt))"

section \<open>Properties\<close>

text \<open>
  An encoded UUID has the 36 characters of the usual form and is decoded to the same 16
  bytes.
\<close>

theorem uuid_decode_encode:
  assumes "hex_library X" "length u = 16"
  shows "\<exists>s. uuid_encode X (Some u) = Inr s \<and> length s = 36 \<and> uuid_decode X (Some s) = Inr u"
proof -
  define p q r t v where "p = take 4 u" and "q = take 2 (drop 4 u)" and "r = take 2 (drop 6 u)"
    and "t = take 2 (drop 8 u)" and "v = drop 10 u"
  note parts = p_def q_def r_def t_def v_def
  have u: "u = p @ q @ r @ t @ v"
    by (rule nth_equalityI) (use assms(2) in \<open>auto simp: parts nth_append\<close>)
  let ?h = "hex_format X"
  have len: "length (?h p) = 8" "length (?h q) = 4" "length (?h r) = 4" "length (?h t) = 4" "length (?h v) = 12"
    using assms by (simp_all add: parts hex_library.length_format)
  have dash: "str ''-'' = [dash]" by (simp add: str_def dash_def)
  define s where "s = ?h p @ [dash] @ ?h q @ [dash] @ ?h r @ [dash] @ ?h t @ [dash] @ ?h v"
  have enc: "uuid_encode X (Some u) = Inr s"
    using assms(2) by (simp add: uuid_encode_def lpc_range_def s_def parts dash)
  have rng: "lpc_range s 0 7 = Inr (?h p)" "lpc_range s 9 12 = Inr (?h q)" "lpc_range s 14 17 = Inr (?h r)"
    "lpc_range s 19 22 = Inr (?h t)" "lpc_range s 24 35 = Inr (?h v)"
    using len by (simp_all add: lpc_range_def s_def)
  have s: "length s = 36" "s ! 8 = dash" "s ! 13 = dash" "s ! 18 = dash" "s ! 23 = dash"
    using len by (simp_all add: s_def nth_append)
  have "uuid_decode X (Some s) = Inr (p @ q @ r @ t @ v)"
    using s rng by (simp add: uuid_decode_def hex_library.decode_format [OF assms(1)])
  then show ?thesis using s(1) enc u by metis
qed

theorem uuid_decode_encode_witness:
  "\<exists>s. uuid_encode std_hex (Some (replicate 16 7)) = Inr s \<and> length s = 36
    \<and> uuid_decode std_hex (Some s) = Inr (replicate 16 7)"
  by (rule uuid_decode_encode [OF std_hex.hex_library_axioms]) simp

lemma version_bits: "(0x40 + (b AND 0x0f)) AND 0xf0 = (0x40 :: byte)"
  "(0x80 + (b AND 0x3f)) AND 0xc0 = (0x80 :: byte)" for b :: byte
proof -
  have "0x40 AND (b AND 0x0f) = 0" "0x80 AND (b AND 0x3f) = 0"
    by (simp_all add: and.left_commute [of _ b])
  then have "0x40 + (b AND 0x0f) = 0x40 OR (b AND 0x0f)" "0x80 + (b AND 0x3f) = 0x80 OR (b AND 0x3f)"
    by (simp_all only: disjunctive_add_eq_or)
  then show "(0x40 + (b AND 0x0f)) AND 0xf0 = (0x40 :: byte)" "(0x80 + (b AND 0x3f)) AND 0xc0 = (0x80 :: byte)"
    by (simp_all add: bit.conj_disj_distrib2 and.assoc)
qed

text \<open>
  A generated UUID has version 4 and the standard variant, and takes all its other bytes
  from the random string.
\<close>

theorem uuid_generate_version:
  assumes "length random = 16"
  shows "\<exists>u. uuid_generate random = Inr u \<and> length u = 16
    \<and> u ! 6 AND 0xf0 = 0x40 \<and> u ! 8 AND 0xc0 = 0x80
    \<and> (\<forall>i. i \<noteq> 6 \<and> i \<noteq> 8 \<longrightarrow> u ! i = random ! i)"
  using assms by (auto simp: uuid_generate_def Let_def version_bits)

theorem uuid_generate_version_witness:
  "\<exists>u. uuid_generate (replicate 16 0xff) = Inr u \<and> length u = 16
    \<and> u ! 6 AND 0xf0 = 0x40 \<and> u ! 8 AND 0xc0 = 0x80
    \<and> (\<forall>i. i \<noteq> 6 \<and> i \<noteq> 8 \<longrightarrow> u ! i = replicate 16 0xff ! i)"
  by (rule uuid_generate_version) simp

text \<open>
  \<open>timeDay\<close> rounds a time down to the start of its day, reading the integer as unsigned, so
  that times after 2038, which are negative integers, are rounded the same way; \<open>timeBytes\<close> is
  the unsigned time in eight bytes, big-endian.
\<close>

theorem timeDay_timeBytes:
  assumes "asn_library A"
  shows "unat (timeDay time) = unat time div 86400 * 86400
    \<and> length (timeBytes A time) = 8 \<and> asn_uval (timeBytes A time) = unat time"
proof -
  have lt: "unat time < 2 ^ 32" using unsigned_less [of time, where 'a = nat] by simp
  define d where "d = drop_bit 7 time"
  have d: "unat d = unat time div 128" by (simp add: d_def unat_drop_bit_eq drop_bit_nat_def)
  have "unat (d - d mod 675) = unat d - unat d mod 675"
    by (subst unat_sub) (simp_all add: word_le_nat_alt unat_mod)
  then have e: "unat (d - d mod 675) = unat d div 675 * 675"
    by (simp only: minus_mod_eq_div_mult)
  have "unat (timeDay time) = unat d div 675 * 675 * 128 mod 2 ^ 32"
    unfolding timeDay_def Let_def d_def [symmetric]
    by (simp only: unsigned_push_bit_eq e push_bit_nat_def take_bit_eq_mod) simp
  also have "unat d div 675 * 675 * 128 = unat time div 86400 * 86400"
    by (simp add: d div_mult2_eq [symmetric])
  also have "\<dots> mod 2 ^ 32 = unat time div 86400 * 86400"
    using lt by (simp add: le_less_trans [OF div_times_less_eq_dividend])
  finally have day: "unat (timeDay time) = unat time div 86400 * 86400" .
  have r: "- (2 ^ 31) \<le> sint time" "sint time < 2 ^ 31" using sint_ge [of time] sint_lt [of time] by simp_all
  define s where "s = asn_num (sint time)"
  have "length s \<le> 4" using length_asn_num_le [of 3 "sint time"] r by (simp add: s_def)
  moreover have "int (asn_uval (replicate (4 - length s) (if bit (hd s) 7 then 0xff else 0) @ s)) = sint time mod 2 ^ 32"
    using asn_uval_extended [of s 4] calculation by (simp add: s_def)
  moreover have "sint time mod 2 ^ 32 = int (unat time)"
    by (simp add: uint_sint take_bit_eq_mod)
  ultimately have "asn_uval (replicate (4 - length s) (if bit (hd s) 7 then 0xff else 0) @ s) = unat time"
    by (simp only: of_nat_eq_iff)
  moreover have "timeBytes A time = replicate 4 0 @ replicate (4 - length s) (if bit (hd s) 7 then 0xff else 0) @ s"
  proof -
    have "s \<noteq> []" by (simp add: s_def)
    then have "lib_extend A s 4 = replicate (4 - length s) (if bit (hd s) 7 then 0xff else 0) @ s"
      using \<open>length s \<le> 4\<close> by (rule asn_library.extend [OF assms])
    moreover from this have "length (lib_extend A s 4) = 4" using \<open>length s \<le> 4\<close> by simp
    ultimately show ?thesis
      using asn_library.unsigned_extend [OF assms, of "lib_extend A s 4" 8]
      by (simp add: timeBytes_def asn_library.encode [OF assms] flip: s_def)
  qed
  ultimately show ?thesis
    using day \<open>length s \<le> 4\<close> by (simp only: asn_uval_pad length_append length_replicate) simp
qed

theorem timeDay_timeBytes_witness:
  "unat (timeDay 0xfffffff0) = unat (0xfffffff0 :: lpcint) div 86400 * 86400
    \<and> length (timeBytes std_asn_lib 0xfffffff0) = 8
    \<and> asn_uval (timeBytes std_asn_lib 0xfffffff0) = unat (0xfffffff0 :: lpcint)"
  by (rule timeDay_timeBytes [OF std_asn.asn_library_axioms])

end
