(* ===== verification/Text.thy ===== *)
theory Text
  imports Lpc
begin

text \<open>
  Text functions of the LPC language that the server's code uses on requests: conversions between
  integers and decimal strings, \<open>explode\<close>, \<open>lower_case\<close> and the conversions of \<open>sscanf\<close>.

  \<^item> \<open>int_str i\<close> is \<open>(string) i\<close>, and what \<open>i + s\<close> puts before a string \<open>s\<close>.
  \<^item> \<open>scan_int\<close> is the conversion \<open>%d\<close>: an optional sign and at least one digit; a number that does
    not fit an integer is no match.  \<open>cast_int s\<close> is \<open>(int) s\<close>, which accepts the empty string.
  \<^item> \<open>scan_upto sep\<close> is the conversion \<open>%s\<close> followed by the text \<open>sep\<close>: it ends at the first
    occurrence.  Where there is none nothing is assigned.
  \<^item> \<open>explode\<close> ignores one leading and one trailing separator.
\<close>

section \<open>Decimal numbers\<close>

function dec :: "nat \<Rightarrow> bytes" where
  "dec n = (if n < 10 then [of_nat (48 + n)] else dec (n div 10) @ [of_nat (48 + n mod 10)])"
  by auto
termination by (relation "measure id") auto

declare dec.simps [simp del]

definition int_str :: "lpcint \<Rightarrow> bytes" where
  "int_str i = (if sint i < 0 then of_char (CHR ''-'') # dec (nat (- sint i)) else dec (nat (sint i)))"

definition is_digit :: "byte \<Rightarrow> bool" where
  "is_digit c \<longleftrightarrow> 48 \<le> unat c \<and> unat c \<le> 57"

definition undec :: "bytes \<Rightarrow> nat" where
  "undec s = foldl (\<lambda>n c. 10 * n + (unat c - 48)) 0 s"

definition scan_int :: "bytes \<Rightarrow> (lpcint \<times> bytes) option" where
  "scan_int s =
     (let neg = (s \<noteq> [] \<and> hd s = of_char (CHR ''-''));
          t = (if neg then tl s else s);
          ds = takeWhile is_digit t;
          n = undec ds
      in if ds = [] \<or> (if neg then 2 ^ 31 < n else 2 ^ 31 \<le> n) then None
         else Some (if neg then - of_nat n else of_nat n, dropWhile is_digit t))"

definition cast_int :: "bytes \<Rightarrow> lpcint result" where
  "cast_int s =
     (if s = [] then Inr 0
      else case scan_int s of
             Some (i, []) \<Rightarrow> Inr i
           | _ \<Rightarrow> Inl (Error ''Not a number''))"

lemma unat_digit: "n < 10 \<Longrightarrow> unat (of_nat (48 + n) :: byte) = 48 + n"
  by (simp add: unat_of_nat del: of_nat_add)

lemma dec_not_Nil [simp]: "dec n \<noteq> []"
  by (subst dec.simps) simp

lemma dec_digits: "c \<in> set (dec n) \<Longrightarrow> is_digit c"
proof (induction n rule: dec.induct)
  case (1 n)
  then show ?case
    using unat_digit [of "n mod 10"] unat_digit [of n]
    by (subst (asm) dec.simps) (auto simp: is_digit_def split: if_splits)
qed

lemma undec_snoc: "undec (s @ [c]) = 10 * undec s + (unat c - 48)"
  by (simp add: undec_def)

lemma undec_dec [simp]: "undec (dec n) = n"
proof (induction n rule: dec.induct)
  case (1 n)
  show ?case
  proof (cases "n < 10")
    case True
    then show ?thesis using unat_digit [of n] by (subst dec.simps) (simp add: undec_def del: of_nat_add)
  next
    case False
    then show ?thesis
      using 1 unat_digit [of "n mod 10"] by (subst dec.simps) (simp add: undec_snoc del: of_nat_add)
  qed
qed

lemma dec_inj [simp]: "dec m = dec n \<longleftrightarrow> m = n"
  by (metis undec_dec)

lemma minus_not_digit: "\<not> is_digit (of_char (CHR ''-''))"
  by (simp add: is_digit_def unat_of_char_byte)

lemma hd_dec: "is_digit (hd (dec n))"
  by (rule dec_digits [of _ n]) simp

lemma takeWhile_dec:
  assumes "t = [] \<or> \<not> is_digit (hd t)"
  shows "takeWhile is_digit (dec n @ t) = dec n \<and> dropWhile is_digit (dec n @ t) = t"
  using assms by (cases t) (auto simp: takeWhile_append2 dropWhile_append2 dec_digits)

lemma scan_int_str:
  assumes "t = [] \<or> \<not> is_digit (hd t)"
  shows "scan_int (int_str i @ t) = Some (i, t)"
proof (cases "sint i < 0")
  case True
  have "- sint i \<le> 2 ^ 31" using sint_ge [of i] by simp
  then have n: "nat (- sint i) \<le> 2 ^ 31" by (simp add: nat_le_iff)
  have "- (of_nat (nat (- sint i)) :: lpcint) = - of_int (- sint i)" using True by simp
  also have "\<dots> = i" by simp
  finally have "- (of_nat (nat (- sint i)) :: lpcint) = i" .
  then show ?thesis
    using True n takeWhile_dec [OF assms] by (simp add: scan_int_def int_str_def)
next
  case False
  have "sint i < 2 ^ 31" using sint_lt [of i] by simp
  then have n: "nat (sint i) < 2 ^ 31" using False by (simp add: nat_less_iff)
  have "hd (dec (nat (sint i)) @ t) \<noteq> of_char (CHR ''-'')"
    using hd_dec minus_not_digit by (metis dec_not_Nil hd_append2)
  moreover have "(of_nat (nat (sint i)) :: lpcint) = i" using False by simp
  ultimately show ?thesis
    using False n takeWhile_dec [OF assms] by (simp add: scan_int_def int_str_def)
qed

lemma cast_int_str [simp]: "cast_int (int_str i) = Inr i"
  using scan_int_str [of "[]" i] by (simp add: cast_int_def int_str_def)

lemma int_str_inj [simp]: "int_str i = int_str j \<longleftrightarrow> i = j"
  by (metis cast_int_str sum.inject(2))

text \<open>Integers that are not negative.\<close>

lemma uint_small: "unat (a :: lpcint) < 2 ^ 31 \<Longrightarrow> uint a < 2 ^ 31"
proof -
  assume "unat a < 2 ^ 31"
  then have "int (unat a) < int (2 ^ 31)" by (simp only: of_nat_less_iff)
  then show ?thesis by simp
qed

lemma sint_small: "unat (a :: lpcint) < 2 ^ 31 \<Longrightarrow> sint a = uint a"
proof -
  assume "unat a < 2 ^ 31"
  then have "uint a < 2 ^ 31" by (rule uint_small)
  then have "signed_take_bit 31 (uint a) = uint a"
    by (intro signed_take_bit_int_eq_self order.trans [OF _ uint_ge_0]) simp_all
  then show ?thesis by (simp add: sint_uint)
qed

section \<open>Searching and splitting\<close>

fun scan_upto :: "bytes \<Rightarrow> bytes \<Rightarrow> (bytes \<times> bytes) option" where
  "scan_upto sep s =
     (if take (length sep) s = sep then Some ([], drop (length sep) s)
      else case s of
             [] \<Rightarrow> None
           | c # s \<Rightarrow> map_option (\<lambda>(a, b). (c # a, b)) (scan_upto sep s))"

declare scan_upto.simps [simp del]

lemma scan_upto_Some: "scan_upto sep s = Some (a, b) \<Longrightarrow> s = a @ sep @ b"
proof (induction s arbitrary: a)
  case Nil
  then show ?case by (subst (asm) scan_upto.simps) (auto split: if_splits)
next
  case (Cons c s)
  have "take (length sep) (c # s) = sep \<Longrightarrow> c # s = sep @ drop (length sep) (c # s)"
    by (metis append_take_drop_id)
  then show ?case
    using Cons by (subst (asm) scan_upto.simps) (auto split: if_splits)
qed

lemma scan_upto_char: "c \<notin> set a \<Longrightarrow> scan_upto [c] (a @ c # b) = Some (a, b)"
  by (induction a) (subst scan_upto.simps, auto)+

lemma scan_upto_char_None: "c \<notin> set s \<Longrightarrow> scan_upto [c] s = None"
  by (induction s) (subst scan_upto.simps, auto)+

fun split_at :: "byte \<Rightarrow> bytes \<Rightarrow> bytes list" where
  "split_at c [] = [[]]"
| "split_at c (x # xs) =
     (if x = c then [] # split_at c xs
      else case split_at c xs of
             [] \<Rightarrow> [[x]]
           | p # ps \<Rightarrow> (x # p) # ps)"

definition explode :: "bytes \<Rightarrow> byte \<Rightarrow> bytes list" where
  "explode s c =
     (if s = [] then []
      else let s = (if hd s = c then tl s else s);
               s = (if s \<noteq> [] \<and> last s = c then butlast s else s)
           in split_at c s)"

lemma split_at_not_Nil [simp]: "split_at c s \<noteq> []"
  by (induction s) (auto split: list.splits)

lemma split_at_append:
  "split_at c (a @ c # b) = split_at c a @ split_at c b"
proof (induction a)
  case (Cons x a)
  then show ?case by (cases "split_at c a") auto
qed simp

lemma split_at_free: "c \<notin> set a \<Longrightarrow> split_at c a = [a]"
  by (induction a) auto

text \<open>A path of segments without a slash is split into its segments.\<close>

definition join :: "byte \<Rightarrow> bytes list \<Rightarrow> bytes" where
  "join c ps = concat (map (\<lambda>p. c # p) ps)"

lemma split_at_join:
  "ps \<noteq> [] \<Longrightarrow> \<forall>p\<in>set ps. c \<notin> set p \<Longrightarrow> split_at c (tl (join c ps)) = ps"
proof (induction ps rule: list_nonempty_induct)
  case (single p)
  then show ?case by (simp add: join_def split_at_free)
next
  case (cons p ps)
  have "tl (join c (p # ps)) = p @ c # tl (join c ps)"
    using cons.hyps by (cases ps) (simp_all add: join_def)
  then show ?case using cons by (simp add: split_at_append split_at_free)
qed

lemma explode_join:
  assumes "ps \<noteq> []" "\<forall>p\<in>set ps. c \<notin> set p"
  shows "explode (join c ps @ [c]) c = ps"
proof -
  obtain t where t: "join c ps = c # t" using assms(1) by (cases ps) (simp_all add: join_def)
  have "split_at c t = ps" using split_at_join [OF assms] t by simp
  then show ?thesis by (simp add: explode_def t)
qed

definition lower_case :: "bytes \<Rightarrow> bytes" where
  "lower_case s = map (\<lambda>c. if 65 \<le> unat c \<and> unat c \<le> 90 then c + 32 else c) s"

end
