(* ===== verification/Phone.thy ===== *)
theory Phone
  imports Uuid Text "HOL-Library.Signed_Division"
begin

text \<open>
  Phone numbers as 8-byte keys (\<^verbatim>\<open>src/lib/phone.c\<close>, in the build with 32-bit integers) and
  millisecond timestamps (\<^verbatim>\<open>src/lib/Timestamp.c\<close>).

  The floats of a timestamp hold a number of milliseconds below 1000; they are modelled by that
  number, without rounding.  \<open>timeDay\<close> is in theory Uuid; the base class \<open>Time\<close> of the platform
  only keeps the two values.
\<close>

section \<open>Phone numbers\<close>

definition LIMIT :: bytes where
  "LIMIT = [1, 0, 0, 0, 0, 0, 0, 0, 0]"

definition TEN_MILLION :: bytes where
  "TEN_MILLION = [0x00, 0x98, 0x96, 0x80]"

definition asn_cmp :: "bytes \<Rightarrow> bytes \<Rightarrow> int" where
  "asn_cmp a b = sgn (asn_val a - asn_val b)"

text \<open>The loop takes seven digits at a time from the end.\<close>

function phone_loop :: "asn_lib \<Rightarrow> bytes \<Rightarrow> bytes \<Rightarrow> bytes \<Rightarrow> (bytes \<times> bytes \<times> bytes) result" where
  "phone_loop A s num multiplier =
     (if length s \<le> 7 then Inr (s, num, multiplier)
      else
        rbind (lpc_range s (int (length s) - 7) (int (length s) - 1)) (\<lambda>d.
        rbind (cast_int d) (\<lambda>i.
        rbind (lpc_range s 0 (int (length s) - 8)) (\<lambda>s'.
          phone_loop A s' (asn_add num (asn_mult (lib_encode A i) multiplier LIMIT) LIMIT)
            (asn_mult multiplier TEN_MILLION LIMIT)))))"
  by auto
termination
  by (relation "measure (\<lambda>(A, s, num, m). length s)") (auto dest!: lpc_range_length)

declare phone_loop.simps [simp del]

definition phoneToNum :: "asn_lib \<Rightarrow> bytes option \<Rightarrow> bytes result" where
  "phoneToNum A phone =
     (case phone of
        None \<Rightarrow> Inl Bad_argument
      | Some s \<Rightarrow>
          rbind (lpc_range s 1 (int (length s) - 1)) (\<lambda>s.
          rbind (phone_loop A s [0] [1]) (\<lambda>(s, num, multiplier).
          rbind (cast_int s) (\<lambda>i.
            Inr (lib_extend A (asn_add num (asn_mult (lib_encode A i) multiplier LIMIT) LIMIT) 8)))))"

lemma asn_val_LIMIT [simp]: "asn_val LIMIT = 2 ^ 64"
  by (simp add: LIMIT_def asn_val_uval asn_uval_Cons bit7_iff)

lemma asn_val_TEN_MILLION [simp]: "asn_val TEN_MILLION = 10000000"
  by (simp add: TEN_MILLION_def asn_val_uval asn_uval_Cons bit7_iff)

lemma asn_trunc_less: "0 \<le> x \<Longrightarrow> x < m \<Longrightarrow> asn_trunc x m = x"
  by (cases "x = 0") (simp_all add: asn_trunc_def)

text \<open>The digits before the last seven, by repeated division; the numbers are unsigned.\<close>

lemma asn_div_smaller:
  assumes "10000000 \<le> asn_val s"
  shows "asn_val (asn_div s TEN_MILLION s) = asn_val s div 10000000" "asn_val (asn_mod s TEN_MILLION) = asn_val s mod 10000000"
proof -
  have "asn_val s div 10000000 < asn_val s" using assms by (intro int_div_less_self) simp_all
  moreover have "0 \<le> asn_val s div 10000000" using assms by (intro pos_imp_zdiv_nonneg_iff [THEN iffD2]) simp_all
  ultimately show "asn_val (asn_div s TEN_MILLION s) = asn_val s div 10000000"
    using assms by (simp add: asn_div_def asn_trunc_less)
  show "asn_val (asn_mod s TEN_MILLION) = asn_val s mod 10000000"
    using assms by (simp add: asn_mod_def asn_trunc_nonneg)
qed

function numToPhone_loop :: "bytes \<Rightarrow> bytes \<Rightarrow> (bytes \<times> bytes) result" where
  "numToPhone_loop s num =
     (if 0 \<le> asn_cmp s TEN_MILLION then
        let d = asn_mod s TEN_MILLION in
        rbind (lpc_index d 0) (\<lambda>d0.
        rbind (lpc_index d 1) (\<lambda>d1.
        rbind (lpc_index d 2) (\<lambda>d2.
          let n = 10000000 + push_bit 16 (ucast d0) + push_bit 8 (ucast d1) + ucast d2 :: lpcint in
          rbind (lpc_range (int_str n) 1 (int (length (int_str n)) - 1)) (\<lambda>t.
            numToPhone_loop (asn_div s TEN_MILLION s) (t @ num)))))
      else Inr (s, num))"
  by auto
termination
proof (relation "measure (\<lambda>(s, num). nat (asn_val s))")
  fix s num d a b c n t
  assume "0 \<le> asn_cmp s TEN_MILLION"
  then have "10000000 \<le> asn_val s" by (auto simp: asn_cmp_def sgn_if split: if_splits)
  then show "((asn_div s TEN_MILLION s, t @ num), s, num) \<in> measure (\<lambda>(s, num). nat (asn_val s))"
    using int_div_less_self [of "asn_val s" 10000000] by (simp add: asn_div_smaller)
qed simp

declare numToPhone_loop.simps [simp del]

definition numToPhone :: "bytes \<Rightarrow> bytes result" where
  "numToPhone s =
     rbind (numToPhone_loop s []) (\<lambda>(s, num).
       let n = foldl (\<lambda>n c. push_bit 8 n + ucast c) (0 :: lpcint) s in
       Inr (of_char (CHR ''+'') # int_str n @ num))"

section \<open>Digits and numbers\<close>

lemma undec_append: "undec (a @ b) = undec a * 10 ^ length b + undec b"
proof (induction b rule: rev_induct)
  case (snoc c b)
  have "undec (a @ b @ [c]) = undec ((a @ b) @ [c])" by simp
  then show ?case using snoc by (simp only: undec_snoc) (simp add: algebra_simps)
qed (simp add: undec_def)

lemma undec_less: "(\<And>c. c \<in> set s \<Longrightarrow> is_digit c) \<Longrightarrow> undec s < 10 ^ length s"
proof (induction s rule: rev_induct)
  case (snoc c s)
  have "undec s < 10 ^ length s" by (rule snoc.IH) (simp add: snoc.prems)
  moreover have "unat c - 48 < 10" using snoc.prems [of c] by (auto simp: is_digit_def)
  ultimately show ?case by (simp add: undec_snoc)
qed (simp add: undec_def)

lemma cast_int_undec:
  assumes "\<And>c. c \<in> set s \<Longrightarrow> is_digit c" "undec s < 2 ^ 31"
  shows "cast_int s = Inr (of_nat (undec s)) \<and> sint (of_nat (undec s) :: lpcint) = int (undec s)"
proof -
  have t: "takeWhile is_digit s = s" "dropWhile is_digit s = []"
    using assms(1) by (simp_all add: takeWhile_eq_all_conv dropWhile_eq_Nil_conv)
  have "s \<noteq> [] \<Longrightarrow> hd s \<noteq> of_char (CHR ''-'')"
    using assms(1) minus_not_digit by (metis list.set_sel(1))
  then have "cast_int s = Inr (of_nat (undec s))"
    using assms(2) t by (cases "s = []") (simp add: cast_int_def undec_def, simp add: cast_int_def scan_int_def Let_def t)
  moreover have u: "unat (of_nat (undec s) :: lpcint) = undec s" using assms(2) by (simp add: unat_of_nat)
  then have "sint (of_nat (undec s) :: lpcint) = uint (of_nat (undec s) :: lpcint)"
    using assms(2) by (intro sint_small) simp
  then have "sint (of_nat (undec s) :: lpcint) = int (undec s)" using u by (simp only: uint_nat)
  ultimately show ?thesis by simp
qed

lemma cast_int_digits:
  assumes "\<And>c. c \<in> set s \<Longrightarrow> is_digit c" "length s \<le> 7"
  shows "cast_int s = Inr (of_nat (undec s)) \<and> sint (of_nat (undec s) :: lpcint) = int (undec s)"
proof (rule cast_int_undec [OF assms(1)])
  have "undec s < 10 ^ length s" by (rule undec_less) (rule assms(1))
  also have "(10 :: nat) ^ length s \<le> 10 ^ 7" using assms(2) by (intro power_increasing) simp_all
  finally show "undec s < 2 ^ 31" by simp
qed

lemma sub_range: "n \<le> length s \<Longrightarrow> lpc_range s (int (length s) - int n) (int (length s) - 1) = Inr (drop (length s - n) s)"
  "n < length s \<Longrightarrow> lpc_range s 0 (int (length s) - int n - 1) = Inr (take (length s - n) s)"
  by (simp_all add: lpc_range_def nat_diff_distrib)

lemma phone_loop_ok:
  assumes "asn_library A" and d: "\<And>c. c \<in> set s \<Longrightarrow> is_digit c"
    and "asn_val num = int n" "asn_val m = 10 ^ k" "n < 10 ^ k" "length s + k \<le> 18"
  shows "\<exists>s' num' m' n' k'. phone_loop A s num m = Inr (s', num', m')
    \<and> (\<forall>c\<in>set s'. is_digit c) \<and> length s' \<le> 7 \<and> asn_val num' = int n' \<and> asn_val m' = 10 ^ k'
    \<and> n' < 10 ^ k' \<and> length s' + k' \<le> 18 \<and> n' + undec s' * 10 ^ k' = n + undec s * 10 ^ k"
  using assms
proof (induction s arbitrary: num m n k rule: length_induct)
  case (1 s)
  show ?case
  proof (cases "length s \<le> 7")
    case True
    then show ?thesis
      using 1(3-)
      by (rule_tac exI [of _ s], rule_tac exI [of _ num], rule_tac exI [of _ m], rule_tac exI [of _ n], rule_tac exI [of _ k])
        (auto simp: phone_loop.simps)
  next
    case False
    define a b where "a = take (length s - 7) s" and "b = drop (length s - 7) s"
    have s: "s = a @ b" "length b = 7" using False by (simp_all add: a_def b_def)
    then have len: "length s = length a + 7" by simp
    have rng: "lpc_range s (int (length s) - 7) (int (length s) - 1) = Inr b" "lpc_range s 0 (int (length s) - 8) = Inr a"
      using sub_range [of 7 s] False by (simp_all add: a_def b_def)
    have dig: "is_digit c" if "c \<in> set a \<or> c \<in> set b" for c using 1(3) that s(1) by auto
    then have b: "cast_int b = Inr (of_nat (undec b))" "sint (of_nat (undec b) :: lpcint) = int (undec b)"
      using cast_int_digits [of b] s(2) by simp_all
    have ub: "undec b < 10 ^ 7" using undec_less [of b] dig s(2) by simp
    have k: "k \<le> 10" using 1(7) False by linarith
    have p: "(10 :: int) ^ k \<le> 10 ^ 10" "(10 :: nat) ^ k \<le> 10 ^ 10" using k by (rule power_increasing, simp)+
    define n' where "n' = n + undec b * 10 ^ k"
    have "undec b * 10 ^ k < 10 ^ 7 * 10 ^ k" using ub by simp
    have "n + undec b * 10 ^ k < 10 ^ k + undec b * 10 ^ k" using 1(6) by simp
    also have "\<dots> = Suc (undec b) * 10 ^ k" by simp
    also have "\<dots> \<le> 10 ^ 7 * 10 ^ k" using ub by (intro mult_right_mono) simp_all
    finally have n': "n' < 10 ^ (k + 7)" by (simp add: n'_def power_add mult.commute)
    have "(10 :: nat) ^ (k + 7) \<le> 10 ^ 17" using k by (intro power_increasing) simp_all
    then have n17: "n' < 10 ^ 17" using n' by linarith
    have un: "undec b * 10 ^ k < 10 ^ 17" using n17 by (simp add: n'_def)
    have i: "int (undec b) * 10 ^ k = int (undec b * 10 ^ k)" by simp
    let ?num = "asn_add num (asn_mult (lib_encode A (of_nat (undec b))) m LIMIT) LIMIT"
    let ?m = "asn_mult m TEN_MILLION LIMIT"
    have num: "asn_val ?num = int n'"
    proof -
      have "asn_val (asn_mult (lib_encode A (of_nat (undec b))) m LIMIT) = int (undec b * 10 ^ k)"
        using un by (simp add: asn_mult_def asn_library.encode [OF 1(2)] b(2) 1(5) asn_trunc_less i del: of_nat_mult of_nat_power)
      then show ?thesis using n17 1(4) by (simp add: asn_add_def n'_def asn_trunc_less flip: of_nat_add of_nat_mult of_nat_power)
    qed
    have m: "asn_val ?m = 10 ^ (k + 7)"
      using p(1) by (simp add: asn_mult_def 1(5) asn_trunc_less power_add)
    have step: "phone_loop A s num m = phone_loop A a ?num ?m"
      using False by (subst phone_loop.simps) (simp add: rng b(1))
    have "length a < length s" "length a + (k + 7) \<le> 18" using len 1(7) by simp_all
    note IH = 1(1) [rule_format, OF this(1) 1(2) _ num m n' this(2)]
    have "n' + undec a * 10 ^ (k + 7) = n + undec s * 10 ^ k"
      using s by (simp add: n'_def undec_append power_add algebra_simps)
    then show ?thesis using IH dig step by simp
  qed
qed

lemma asn_num_sign: "\<not> bit (hd (asn_num (int n))) 7"
  by (simp add: asn_num_def)

lemma asn_val_pad: "asn_val (replicate k 0 @ asn_num (int n)) = int n"
proof -
  have "asn_uval (asn_num (int n)) = n"
    using asn_val_uval [OF asn_num_sign [of n]] by simp
  moreover have "\<not> bit (hd (replicate k 0 @ asn_num (int n))) 7"
    by (cases k) (simp_all add: asn_num_sign)
  ultimately show ?thesis by (simp add: asn_val_uval)
qed

lemma dec_undec:
  "s \<noteq> [] \<Longrightarrow> (\<And>c. c \<in> set s \<Longrightarrow> is_digit c) \<Longrightarrow> length s = 1 \<or> hd s \<noteq> of_char (CHR ''0'') \<Longrightarrow> dec (undec s) = s"
proof (induction s rule: rev_induct)
  case (snoc c s)
  have c: "48 \<le> unat c" "unat c - 48 < 10" using snoc.prems(2) [of c] by (auto simp: is_digit_def)
  then have cc: "of_nat (48 + (unat c - 48)) = c" by (simp del: of_nat_add)
  show ?case
  proof (cases "s = []")
    case True
    then show ?thesis using c cc by (subst dec.simps) (simp add: undec_def del: of_nat_add)
  next
    case False
    have h: "hd s \<noteq> of_char (CHR ''0'')" "is_digit (hd s)" using False snoc.prems(2,3) by simp_all
    have IH: "dec (undec s) = s" by (rule snoc.IH) (use False h(1) snoc.prems(2) in simp_all)
    have "undec s \<noteq> 0"
    proof
      assume "undec s = 0"
      then have "s = [48]" using IH by (simp add: dec.simps)
      then show False using h(1) by simp
    qed
    then have "\<not> 10 * undec s + (unat c - 48) < 10" by simp
    moreover have "(10 * undec s + (unat c - 48)) div 10 = undec s" "(10 * undec s + (unat c - 48)) mod 10 = unat c - 48"
      using c(2) by simp_all
    ultimately show ?thesis using IH cc by (subst dec.simps) (simp add: undec_snoc del: of_nat_add)
  qed
qed simp

lemma int_str_dec: "n < 2 ^ 31 \<Longrightarrow> int_str (of_nat n) = dec n"
proof -
  assume n: "n < 2 ^ 31"
  then have u: "unat (of_nat n :: lpcint) = n" by (simp add: unat_of_nat)
  then have "sint (of_nat n :: lpcint) = int n"
    using n sint_small [of "of_nat n"] by (simp only: uint_nat)
  then show ?thesis by (simp add: int_str_def)
qed

lemma fold_bytes: "foldl (\<lambda>n c. push_bit 8 n + ucast c) (of_nat a :: lpcint) s = of_nat (a * 256 ^ length s + asn_uval s)"
proof (induction s arbitrary: a)
  case (Cons c s)
  have "push_bit 8 (of_nat a) + ucast c = (of_nat (a * 256 + unat c) :: lpcint)"
    by (simp add: push_bit_eq_mult)
  then show ?case using Cons [of "a * 256 + unat c"] by (simp add: asn_uval_Cons algebra_simps)
qed (simp add: asn_uval_def)

lemma asn_uval_num: "asn_uval (asn_num (int n)) = n"
  using asn_val_uval [OF asn_num_sign [of n]] by simp

lemma length_asn_num_3:
  assumes "2 ^ 15 \<le> n" "n < 2 ^ 23"
  shows "length (asn_num (int n)) = 3"
proof -
  have "length (asn_num (int n)) \<le> 3" using length_asn_num_le [of 2 "int n"] assms by simp
  moreover have "3 \<le> length (asn_num (int n))"
  proof (rule ccontr)
    assume "\<not> 3 \<le> length (asn_num (int n))"
    then have l: "length (asn_num (int n)) \<le> 2" by simp
    have "\<not> 128 * 256 ^ (length (asn_num (int n)) - 1) \<le> n"
      using asn_num_sign [of n] bit7_hd_iff [OF asn_num_ne, of "int n"] by (simp add: asn_uval_num)
    moreover have "(256 :: nat) ^ (length (asn_num (int n)) - 1) \<le> 256 ^ 1"
      using l by (intro power_increasing) simp_all
    ultimately show False using assms(1) by simp
  qed
  ultimately show ?thesis by simp
qed

section \<open>Timestamps\<close>

record timestamp =
  ts_time :: lpcint
  ts_ms :: lpcint

text \<open>Division and remainder of integers truncate.\<close>

definition lpc_div :: "lpcint \<Rightarrow> lpcint \<Rightarrow> lpcint" where
  "lpc_div a b = word_of_int (sint a sdiv sint b)"

definition lpc_mod :: "lpcint \<Rightarrow> lpcint \<Rightarrow> lpcint" where
  "lpc_mod a b = word_of_int (sint a smod sint b)"

text \<open>
  The value a timestamp is created from: an integer, a string of milliseconds, \<open>nil\<close>, or a value
  of another type, for which the switch has no case and the variables keep the value 0.
\<close>

datatype ts_arg = Ts_int lpcint | Ts_string bytes | Ts_nil | Ts_other

definition Timestamp :: "lpcint \<times> lpcint \<Rightarrow> ts_arg \<Rightarrow> bool \<Rightarrow> timestamp result" where
  "Timestamp millitime val day =
     (if day then
        (case val of
           Ts_int i \<Rightarrow> Inr \<lparr>ts_time = timeDay i, ts_ms = 0\<rparr>
         | _ \<Rightarrow> Inl Bad_argument)
      else
        (case val of
           Ts_int i \<Rightarrow> Inr \<lparr>ts_time = lpc_div i 1000, ts_ms = lpc_mod i 1000\<rparr>
         | Ts_string s \<Rightarrow>
             rbind (rbind (lpc_range s 0 (int (length s) - 4)) cast_int) (\<lambda>time.
             rbind (rbind (lpc_range s (int (length s) - 3) (int (length s) - 1)) cast_int) (\<lambda>ms.
               Inr \<lparr>ts_time = time, ts_ms = ms\<rparr>))
         | Ts_nil \<Rightarrow> Inr \<lparr>ts_time = fst millitime, ts_ms = snd millitime\<rparr>
         | Ts_other \<Rightarrow> Inr \<lparr>ts_time = 0, ts_ms = 0\<rparr>))"

definition ts_transport :: "timestamp \<Rightarrow> bytes" where
  "ts_transport t =
     (let ftime = (if sint (ts_time t) < 0 then sint (ts_time t) + 4294967296 else sint (ts_time t));
          tail = str ''00000'' @ dec (nat (ftime mod 1000 * 1000 + sint (ts_ms t)))
      in dec (nat (ftime div 1000)) @ drop (length tail - 6) tail)"

section \<open>From phone numbers to keys and back\<close>

lemma phoneToNum_ok:
  assumes "asn_library A" "\<forall>c\<in>set ds. is_digit c" "length ds \<le> 18"
  shows "\<exists>num. phoneToNum A (Some (of_char (CHR ''+'') # ds)) = Inr num \<and> length num = 8 \<and> asn_val num = int (undec ds)"
proof -
  have rng: "lpc_range (of_char (CHR ''+'') # ds) 1 (int (length (of_char (CHR ''+'') # ds)) - 1) = Inr ds"
    by (simp add: lpc_range_def)
  obtain s num m n k where l: "phone_loop A ds [0] [1] = Inr (s, num, m)" "\<forall>c\<in>set s. is_digit c" "length s \<le> 7"
    "asn_val num = int n" "asn_val m = 10 ^ k" "n < 10 ^ k" "length s + k \<le> 18" "n + undec s * 10 ^ k = undec ds"
    using phone_loop_ok [OF assms(1), of ds "[0]" 0 "[1]" 0] assms(2,3)
    by (auto simp: asn_val_uval asn_uval_Cons bit7_iff)
  have c: "cast_int s = Inr (of_nat (undec s))" "sint (of_nat (undec s) :: lpcint) = int (undec s)"
    using cast_int_digits [of s] l(2,3) by simp_all
  have "undec ds < 10 ^ length ds" by (rule undec_less) (use assms(2) in simp)
  also have "(10 :: nat) ^ length ds \<le> 10 ^ 18" using assms(3) by (intro power_increasing) simp_all
  finally have lt: "undec ds < 10 ^ 18" .
  have i: "int (undec s) * 10 ^ k = int (undec s * 10 ^ k)" by simp
  let ?num = "asn_add num (asn_mult (lib_encode A (of_nat (undec s))) m LIMIT) LIMIT"
  have "asn_val (asn_mult (lib_encode A (of_nat (undec s))) m LIMIT) = int (undec s * 10 ^ k)"
    using lt l(8) by (simp add: asn_mult_def asn_library.encode [OF assms(1)] c(2) l(5) asn_trunc_less i del: of_nat_mult of_nat_power)
  then have e: "?num = asn_num (int (undec ds))"
    using lt l(4) l(8) [symmetric] by (simp add: asn_add_def asn_trunc_less flip: of_nat_add of_nat_mult of_nat_power)
  have len: "length ?num \<le> 8"
    unfolding e using length_asn_num_le [of 7 "int (undec ds)"] lt by simp
  have "lib_extend A ?num 8 = replicate (8 - length ?num) 0 @ asn_num (int (undec ds))"
    using len asn_num_sign [of "undec ds"] by (simp add: asn_library.extend [OF assms(1)] e)
  then have "asn_val (lib_extend A ?num 8) = int (undec ds)" "length (lib_extend A ?num 8) = 8"
    using len by (simp_all add: asn_val_pad e)
  then show ?thesis by (simp add: phoneToNum_def rng [simplified] l(1) c(1))
qed

lemma numToPhone_cases:
  assumes "asn_library A" "\<forall>c\<in>set ds. is_digit c" "hd ds \<noteq> of_char (CHR ''0'')" "8 \<le> length ds" "length ds \<le> 14"
    and "phoneToNum A (Some (of_char (CHR ''+'') # ds)) = Inr num"
  shows "undec (drop (length ds - 7) ds) < 0x8000 \<Longrightarrow> numToPhone num = Inl Bad_index"
    and "0x8000 \<le> undec (drop (length ds - 7) ds) \<Longrightarrow> undec (drop (length ds - 7) ds) < 0x800000
      \<Longrightarrow> numToPhone num = Inr (of_char (CHR ''+'') # ds)"
proof -
  define a b where "a = take (length ds - 7) ds" and "b = drop (length ds - 7) ds"
  have ds: "ds = a @ b" "length b = 7" "a \<noteq> []" using assms(4) by (auto simp: a_def b_def)
  have dig: "\<forall>c\<in>set a. is_digit c" "\<forall>c\<in>set b. is_digit c" using assms(2) ds(1) by auto
  have val: "asn_val num = int (undec ds)"
    using phoneToNum_ok [OF assms(1,2)] assms(5,6) by auto
  have ub: "undec b < 10000000" using undec_less [of b] dig ds(2) by simp
  have "undec a < 10 ^ length a" by (rule undec_less) (simp add: dig)
  also have "(10 :: nat) ^ length a \<le> 10 ^ 7" using assms(5) ds by (intro power_increasing) simp_all
  finally have ua: "undec a < 10000000" by simp
  have dec_a: "dec (undec a) = a" by (rule dec_undec) (use ds dig assms(3) in simp_all)
  have "undec a \<noteq> 0"
  proof
    assume "undec a = 0"
    then have "a = [48]" using dec_a by (simp add: dec.simps)
    then show False using assms(3) ds(1) by simp
  qed
  then have big: "10000000 \<le> asn_val num"
    using val ds(2) by (simp add: ds(1) undec_append)
  have dm: "asn_val num div 10000000 = int (undec a)" "asn_val num mod 10000000 = int (undec b)"
    using val ub ds(2) by (simp_all add: ds(1) undec_append)
  have d: "asn_mod num TEN_MILLION = asn_num (int (undec b))"
    using big dm by (simp add: asn_mod_def asn_trunc_nonneg)
  have c: "0 \<le> asn_cmp num TEN_MILLION" using big by (simp add: asn_cmp_def sgn_if)
  {
    assume "undec b < 0x8000"
    then have "length (asn_num (int (undec b))) \<le> 2" using length_asn_num_le [of 1 "int (undec b)"] by simp
    then have "lpc_index (asn_num (int (undec b))) 2 = Inl Bad_index" by (simp add: lpc_index_def)
    then show "numToPhone num = Inl Bad_index"
      using c by (subst numToPhone_def, subst numToPhone_loop.simps) (simp add: d Let_def lpc_index_def)
  }
  {
    assume lo: "0x8000 \<le> undec b" and hi: "undec b < 0x800000"
    define e where "e = asn_num (int (undec b))"
    have "length e = 3" using length_asn_num_3 [of "undec b"] lo hi by (simp add: e_def)
    then obtain d0 d1 d2 where e: "e = [d0, d1, d2]"
      by (metis (no_types, opaque_lifting) length_0_conv length_Suc_conv numeral_3_eq_3)
    have "asn_uval e = undec b" by (simp add: e_def asn_uval_num)
    then have "push_bit 16 (ucast d0) + push_bit 8 (ucast d1) + ucast d2 = (of_nat (undec b) :: lpcint)"
      using fold_bytes [of 0 e] by (simp add: e push_bit_eq_mult algebra_simps)
    then have n: "10000000 + push_bit 16 (ucast d0) + push_bit 8 (ucast d1) + ucast d2 = (of_nat (10000000 + undec b) :: lpcint)"
      by (simp add: add.assoc)
    have "dec (undec (of_char (CHR ''1'') # b)) = of_char (CHR ''1'') # b"
      by (rule dec_undec) (use dig in \<open>auto simp: is_digit_def\<close>)
    moreover have "undec (of_char (CHR ''1'') # b) = 10000000 + undec b"
      using undec_append [of "[of_char (CHR ''1'')]" b] ds(2) by (simp add: undec_def)
    ultimately have "int_str (of_nat (10000000 + undec b)) = of_char (CHR ''1'') # b"
      using int_str_dec [of "10000000 + undec b"] ub by simp
    then have t: "lpc_range (int_str (of_nat (10000000 + undec b))) 1
        (int (length (int_str (of_nat (10000000 + undec b)))) - 1) = Inr b"
      by (simp add: lpc_range_def)
    have q: "asn_div num TEN_MILLION num = asn_num (int (undec a))"
    proof -
      have "int (undec a) < asn_val num" using dm(1) big int_div_less_self [of "asn_val num" 10000000] by simp
      then show ?thesis using big dm(1) by (simp add: asn_div_def asn_trunc_less)
    qed
    have "\<not> 0 \<le> asn_cmp (asn_num (int (undec a))) TEN_MILLION" using ua by (simp add: asn_cmp_def sgn_if)
    then have "numToPhone_loop (asn_num (int (undec a))) b = Inr (asn_num (int (undec a)), b)"
      by (subst numToPhone_loop.simps) simp
    then have l: "numToPhone_loop num [] = Inr (asn_num (int (undec a)), b)"
      using c by (subst numToPhone_loop.simps) (simp add: d e_def [symmetric] e n t q Let_def del: of_nat_add)
    have "foldl (\<lambda>n c. push_bit 8 n + ucast c) (0 :: lpcint) (asn_num (int (undec a))) = of_nat (undec a)"
      using fold_bytes [of 0 "asn_num (int (undec a))"] by (simp add: asn_uval_num)
    then show "numToPhone num = Inr (of_char (CHR ''+'') # ds)"
      using int_str_dec [of "undec a"] ua by (simp add: numToPhone_def l dec_a ds(1))
  }
qed

section \<open>Properties\<close>

text \<open>
  The key of a phone number of at most 18 digits is the number itself in 8 bytes, so different
  numbers have different keys.
\<close>

theorem phoneToNum_value:
  assumes "asn_library A" "\<forall>c\<in>set ds. is_digit c" "length ds \<le> 18"
  shows "\<exists>num. phoneToNum A (Some (of_char (CHR ''+'') # ds)) = Inr num \<and> length num = 8 \<and> asn_val num = int (undec ds)"
  using phoneToNum_ok [OF assms] .

theorem phoneToNum_value_witness:
  "\<exists>num. phoneToNum std_asn_lib (Some (of_char (CHR ''+'') # str ''15551234567'')) = Inr num
    \<and> length num = 8 \<and> asn_val num = int (undec (str ''15551234567''))"
  by (rule phoneToNum_value [OF std_asn.asn_library_axioms]) (simp_all add: str_def is_digit_def)

text \<open>
  \<open>numToPhone\<close> gives back a number of 8 to 14 digits when its last seven digits are between
  32768 and 8388607; when they are below 32768 it raises an error, because \<open>asn_mod\<close> returns fewer
  than the three bytes that are read.
\<close>

theorem numToPhone_phoneToNum:
  assumes "asn_library A" "\<forall>c\<in>set ds. is_digit c" "hd ds \<noteq> of_char (CHR ''0'')" "8 \<le> length ds" "length ds \<le> 14"
  shows "\<exists>num. phoneToNum A (Some (of_char (CHR ''+'') # ds)) = Inr num
    \<and> (let r = undec (drop (length ds - 7) ds) in
        (r < 0x8000 \<longrightarrow> numToPhone num = Inl Bad_index)
      \<and> (0x8000 \<le> r \<and> r < 0x800000 \<longrightarrow> numToPhone num = Inr (of_char (CHR ''+'') # ds)))"
proof -
  have "length ds \<le> 18" using assms(5) by simp
  from phoneToNum_ok [OF assms(1,2) this] obtain num
    where "phoneToNum A (Some (of_char (CHR ''+'') # ds)) = Inr num" by auto
  then show ?thesis using numToPhone_cases [OF assms] by (auto simp: Let_def)
qed

theorem numToPhone_phoneToNum_witness:
  "\<exists>num. phoneToNum std_asn_lib (Some (of_char (CHR ''+'') # str ''15550000007'')) = Inr num
    \<and> numToPhone num = Inl Bad_index"
proof -
  have "undec (drop (length (str ''15550000007'') - 7) (str ''15550000007'')) < 0x8000"
    by (simp add: str_def undec_def)
  moreover have "\<forall>c\<in>set (str ''15550000007''). is_digit c" "hd (str ''15550000007'') \<noteq> of_char (CHR ''0'')"
    by (simp_all add: str_def is_digit_def)
  ultimately show ?thesis
    using numToPhone_phoneToNum [OF std_asn.asn_library_axioms, of "str ''15550000007''"] by (auto simp: Let_def)
qed

lemma length_dec_le: "0 < k \<Longrightarrow> n < 10 ^ k \<Longrightarrow> length (dec n) \<le> k"
proof (induction k arbitrary: n)
  case (Suc k)
  show ?case
  proof (cases "n < 10")
    case False
    then have "0 < k" using Suc.prems by (cases k) simp_all
    moreover have "n div 10 < 10 ^ k" using Suc.prems(2) by (simp add: less_mult_imp_div_less mult.commute)
    ultimately have "length (dec (n div 10)) \<le> k" by (rule Suc.IH)
    then show ?thesis using False by (subst dec.simps) simp
  qed (subst dec.simps, simp)
qed simp

lemma undec_zeros: "undec (replicate k (of_char (CHR ''0'')) @ s) = undec s"
  by (induction k) (simp_all add: undec_def)

text \<open>
  The text form of a timestamp (seconds and milliseconds as one number of milliseconds) is
  read back as the same timestamp; seconds from 2038 on do not fit the integer that is read.
\<close>

theorem Timestamp_transport:
  assumes "unat (ts_time t) < 2 ^ 31" "unat (ts_ms t) < 1000"
  shows "Timestamp millitime (Ts_string (ts_transport t)) False = Inr t"
proof -
  define u where "u = unat (ts_time t)"
  define v where "v = u mod 1000 * 1000 + unat (ts_ms t)"
  have s: "sint (ts_time t) = int u" "sint (ts_ms t) = int (unat (ts_ms t))"
    using assms by (simp_all add: u_def sint_small)
  then have ge: "\<not> sint (ts_time t) < 0" by simp
  have "u mod 1000 \<le> 999" using mod_less_divisor [of 1000 u] by linarith
  then have v: "v < 1000000" using assms(2) unfolding v_def by linarith
  have len: "length (dec v) \<le> 6" by (rule length_dec_le) (use v in simp_all)
  define q where "q = replicate (6 - length (dec v)) (of_char (CHR ''0'')) @ dec v"
  have z: "str ''00000'' = replicate 5 (of_char (CHR ''0''))" by (simp add: str_def eval_nat_numeral)
  have "1 \<le> length (dec v)" by (simp add: Suc_le_eq)
  then have "drop (length (str ''00000'' @ dec v) - 6) (str ''00000'' @ dec v) = q"
    using len by (simp add: z q_def)
  moreover have "nat (int u mod 1000 * 1000 + int (unat (ts_ms t))) = v" "nat (int u div 1000) = u div 1000"
    by (simp_all add: v_def nat_add_distrib nat_mult_distrib nat_mod_distrib nat_div_distrib)
  ultimately have tr: "ts_transport t = dec (u div 1000) @ q"
    by (simp add: ts_transport_def s Let_def)
  have q: "length q = 6" "undec q = v" "\<And>c. c \<in> set q \<Longrightarrow> is_digit c"
    using len dec_digits undec_zeros [of "6 - length (dec v)" "dec v"]
    by (auto simp: q_def is_digit_def unat_of_char_byte)
  define a b where "a = take 3 q" and "b = drop 3 q"
  have ab: "q = a @ b" "length a = 3" "length b = 3" using q(1) by (simp_all add: a_def b_def)
  have dig: "is_digit c" if "c \<in> set a \<or> c \<in> set b" for c using q(3) [of c] that ab(1) by auto
  have "undec b < 10 ^ length b" by (rule undec_less) (simp add: dig)
  then have ub: "undec b < 1000" using ab(3) by simp
  have "v = undec a * 1000 + undec b" using q(2) ab by (simp add: undec_append)
  then have "undec b = v mod 1000" "undec a = v div 1000" using ub by simp_all
  moreover have "v mod 1000 = unat (ts_ms t)" "v div 1000 = u mod 1000" using assms(2) by (simp_all add: v_def)
  ultimately have "undec b = unat (ts_ms t)" and a: "undec a = u mod 1000" by simp_all
  then have b: "cast_int b = Inr (ts_ms t)"
    using cast_int_undec [of b] dig assms(2) by simp
  let ?s = "dec (u div 1000) @ a"
  have "undec ?s = u" using ab(2) a by (simp add: undec_append)
  then have c: "cast_int ?s = Inr (ts_time t)"
    using cast_int_undec [of ?s] dig dec_digits assms(1) by (auto simp: u_def)
  have r: "lpc_range (?s @ b) 0 (int (length (?s @ b)) - 4) = Inr ?s"
    "lpc_range (?s @ b) (int (length (?s @ b)) - 3) (int (length (?s @ b)) - 1) = Inr b"
    using ab(3) by (simp_all add: lpc_range_def)
  have "ts_transport t = ?s @ b" using tr ab(1) by simp
  then show ?thesis using r b c by (simp add: Timestamp_def)
qed

theorem Timestamp_transport_witness:
  "Timestamp (0, 0) (Ts_string (ts_transport \<lparr>ts_time = 1700000000, ts_ms = 57\<rparr>)) False
    = Inr \<lparr>ts_time = 1700000000, ts_ms = 57\<rparr>"
  by (rule Timestamp_transport) simp_all

end
