(* ===== verification/Stores.thy ===== *)
theory Stores
  imports Text
begin

text \<open>
  The key-value stores (\<^verbatim>\<open>src/lib/KVstoreExp.c\<close>, \<^verbatim>\<open>src/lib/KVstoreObj.c\<close>,
  \<^verbatim>\<open>src/obj/kvnode_exp.c\<close>, \<^verbatim>\<open>src/obj/kvnode_obj.c\<close>).

  The tree \<open>KVstore\<close> itself is a library of the platform and a parameter: a record of its
  operations, whose laws are the locale \<open>kvstore\<close>.  A node of the tree passes what it holds
  through \<open>keyValue\<close>, which \<open>kvnode_exp\<close> and \<open>kvnode_obj\<close> override: it is the argument \<open>h\<close> of
  \<open>kv_get\<close>, \<open>kv_add\<close> and \<open>kv_change\<close>.  Objects, arrays and mappings in a store are references:
  \<open>kv_modify s k f\<close> is the store after a change \<open>f\<close> of the value it holds under \<open>k\<close> through such
  a reference.  \<open>store[k]\<close> and \<open>store[k] = v\<close> are \<open>get\<close> and \<open>set\<close>.
\<close>

record ('s, 'v, 'w) kvlib =
  kv_new :: "nat \<Rightarrow> 's"
  kv_get :: "('v \<Rightarrow> 'w option) \<Rightarrow> 's \<Rightarrow> bytes \<Rightarrow> 'w option"
  kv_set :: "'s \<Rightarrow> bytes \<Rightarrow> 'v option \<Rightarrow> 's"
  kv_add :: "('v \<Rightarrow> 'w option) \<Rightarrow> 's \<Rightarrow> bytes \<Rightarrow> 'v \<Rightarrow> 's result"
  kv_change :: "('v \<Rightarrow> 'w option) \<Rightarrow> 's \<Rightarrow> bytes \<Rightarrow> 'v \<Rightarrow> 's result"
  kv_modify :: "'s \<Rightarrow> bytes \<Rightarrow> ('v \<Rightarrow> 'v) \<Rightarrow> 's"

locale kvstore =
  fixes KV :: "('s, 'v, 'w) kvlib"
    and kv :: "'s \<Rightarrow> bytes \<Rightarrow> 'v option"
  assumes new [simp]: "kv (kv_new KV n) = Map.empty"
    and get [simp]: "kv_get KV h s k = Option.bind (kv s k) h"
    and set [simp]: "kv (kv_set KV s k x) = (kv s)(k := x)"
    and add_absent: "kv s k = None \<Longrightarrow> \<exists>t. kv_add KV h s k v = Inr t"
    and add_present: "Option.bind (kv s k) h \<noteq> None \<Longrightarrow> \<exists>e. kv_add KV h s k v = Inl e"
    and add: "kv_add KV h s k v = Inr t \<Longrightarrow> kv t = (kv s)(k \<mapsto> v)"
    and change: "kv_change KV h s k v = Inr t \<Longrightarrow> kv t = (kv s)(k \<mapsto> v)"
    and modify [simp]: "kv (kv_modify KV s k f) = (kv s)(k := map_option f (kv s k))"

text \<open>A store with the default \<open>keyValue\<close>, which returns the value.\<close>

abbreviation plain_get :: "('s, 'v, 'v) kvlib \<Rightarrow> 's \<Rightarrow> bytes \<Rightarrow> 'v option" where
  "plain_get KV \<equiv> kv_get KV Some"

abbreviation plain_add :: "('s, 'v, 'v) kvlib \<Rightarrow> 's \<Rightarrow> bytes \<Rightarrow> 'v \<Rightarrow> 's result" where
  "plain_add KV \<equiv> kv_add KV Some"

section \<open>A store with expiration\<close>

text \<open>
  A stored value is the pair \<open>({ time() + duration, value })\<close>; \<open>nil\<close> is stored as such a pair,
  too.  The time is an argument of every operation.  Times are 32-bit integers that wrap; the
  test \<open>value[0] - time() > 0\<close> is signed.
\<close>

type_synonym 'v timed = "lpcint \<times> 'v option"

definition exp_keyValue :: "lpcint \<Rightarrow> 'v timed \<Rightarrow> 'v timed option" where
  "exp_keyValue now v = (if 0 < sint (fst v - now) then Some v else None)"

definition exp_get :: "('s, 'v timed, 'v timed) kvlib \<Rightarrow> lpcint \<Rightarrow> 's \<Rightarrow> bytes \<Rightarrow> 'v option" where
  "exp_get KV now s k =
     (case kv_get KV (exp_keyValue now) s k of
        Some v \<Rightarrow> snd v
      | None \<Rightarrow> None)"

definition exp_getDuration :: "('s, 'v timed, 'v timed) kvlib \<Rightarrow> lpcint \<Rightarrow> 's \<Rightarrow> bytes \<Rightarrow> lpcint" where
  "exp_getDuration KV now s k =
     (case kv_get KV (exp_keyValue now) s k of
        Some v \<Rightarrow> fst v - now
      | None \<Rightarrow> 0)"

definition exp_set ::
    "('s, 'v timed, 'v timed) kvlib \<Rightarrow> lpcint \<Rightarrow> lpcint \<Rightarrow> 's \<Rightarrow> bytes \<Rightarrow> 'v option \<Rightarrow> 's" where
  "exp_set KV duration now s k v = kv_set KV s k (Some (now + duration, v))"

definition exp_add ::
    "('s, 'v timed, 'v timed) kvlib \<Rightarrow> lpcint \<Rightarrow> lpcint \<Rightarrow> 's \<Rightarrow> bytes \<Rightarrow> 'v option \<Rightarrow> 's result" where
  "exp_add KV duration now s k v = kv_add KV (exp_keyValue now) s k (now + duration, v)"

definition exp_change ::
    "('s, 'v timed, 'v timed) kvlib \<Rightarrow> lpcint \<Rightarrow> lpcint \<Rightarrow> 's \<Rightarrow> bytes \<Rightarrow> 'v option \<Rightarrow> 's result" where
  "exp_change KV duration now s k v = kv_change KV (exp_keyValue now) s k (now + duration, v)"

text \<open>A change of the value itself, through a reference, keeps the time it expires at.\<close>

definition exp_modify :: "('s, 'v timed, 'v timed) kvlib \<Rightarrow> 's \<Rightarrow> bytes \<Rightarrow> ('v \<Rightarrow> 'v) \<Rightarrow> 's" where
  "exp_modify KV s k f = kv_modify KV s k (map_prod id (map_option f))"

text \<open>A pair seen at the time \<open>now\<close>, and the whole store.\<close>

definition fresh_value :: "lpcint \<Rightarrow> 'v timed \<Rightarrow> 'v option" where
  "fresh_value now v = (if 0 < sint (fst v - now) then snd v else None)"

definition seen :: "lpcint \<Rightarrow> (bytes \<Rightarrow> 'v timed option) \<Rightarrow> bytes \<Rightarrow> 'v option" where
  "seen now m k = Option.bind (m k) (fresh_value now)"

lemma seen_upd [simp]:
  "seen now (m(k := None)) = (seen now m)(k := None)"
  "seen now (m(k \<mapsto> v)) = (seen now m)(k := fresh_value now v)"
  "seen now (m(k := Some v)) = (seen now m)(k := fresh_value now v)"
  by (auto simp: seen_def)

text \<open>A value is fresh from the moment it is stored until its duration has passed.\<close>

lemma fresh_value_elapsed:
  assumes "unat (duration :: lpcint) < 2 ^ 31" "unat elapsed < 2 ^ 31"
  shows "fresh_value (now + elapsed) (now + duration, v) = (if elapsed < duration then v else None)"
proof -
  have e: "now + duration - (now + elapsed) = duration - elapsed" by simp
  have s: "sint duration = uint duration" "sint elapsed = uint elapsed"
    using assms by (simp_all only: sint_small)
  have "sint (duration - elapsed) = signed_take_bit 31 (sint duration - sint elapsed)"
    by (simp add: sint_word_ariths)
  also have "\<dots> = sint duration - sint elapsed"
  proof (rule signed_take_bit_int_eq_self)
    have d: "uint duration < 2147483648" "uint elapsed < 2147483648"
      using assms [THEN uint_small] by simp_all
    have "0 \<le> uint duration" "0 \<le> uint elapsed" by (rule uint_ge_0)+
    then have "- 2147483648 \<le> uint duration - uint elapsed" "uint duration - uint elapsed < 2147483648"
      using d by linarith+
    then show "- (2 ^ 31) \<le> sint duration - sint elapsed" "sint duration - sint elapsed < 2 ^ 31"
      by (simp_all only: s) simp_all
  qed
  finally have "0 < sint (duration - elapsed) \<longleftrightarrow> elapsed < duration"
    by (simp add: s word_less_def)
  then show ?thesis by (simp add: fresh_value_def e)
qed

text \<open>What the operations do to the values seen at a time, by the laws of the tree.\<close>

locale expiring_store = kvstore KV kv
  for KV :: "('s, 'v timed, 'v timed) kvlib" and kv :: "'s \<Rightarrow> bytes \<Rightarrow> 'v timed option"
begin

lemma exp_get: "exp_get KV now s k = seen now (kv s) k"
  by (cases "kv s k") (simp_all add: exp_get_def seen_def fresh_value_def exp_keyValue_def)

lemma exp_set [simp]: "kv (exp_set KV duration now s k v) = (kv s)(k \<mapsto> (now + duration, v))"
  by (simp add: exp_set_def)

lemma exp_add: "exp_add KV duration now s k v = Inr t \<Longrightarrow> kv t = (kv s)(k \<mapsto> (now + duration, v))"
  unfolding exp_add_def by (rule add)

lemma exp_add_absent: "kv s k = None \<Longrightarrow> \<exists>t. exp_add KV duration now s k v = Inr t"
  unfolding exp_add_def by (rule add_absent)

lemma exp_add_present: "seen now (kv s) k \<noteq> None \<Longrightarrow> \<exists>e. exp_add KV duration now s k v = Inl e"
  unfolding exp_add_def
  by (rule add_present) (auto simp: seen_def fresh_value_def exp_keyValue_def bind_eq_Some_conv split: if_splits)

lemma exp_modify [simp]:
  "kv (exp_modify KV s k f) = (kv s)(k := map_option (map_prod id (map_option f)) (kv s k))"
  by (simp add: exp_modify_def)

lemma seen_modify:
  "seen now (kv (exp_modify KV s k f)) = (seen now (kv s))(k := map_option f (seen now (kv s) k))"
  by (cases "kv s k") (auto simp: seen_def fresh_value_def fun_eq_iff)

lemma exp_getDuration:
  "exp_getDuration KV now s k = (case kv s k of Some v \<Rightarrow> if 0 < sint (fst v - now) then fst v - now else 0 | None \<Rightarrow> 0)"
  by (cases "kv s k") (simp_all add: exp_getDuration_def exp_keyValue_def)

end

section \<open>A store with object values\<close>

text \<open>
  A stored value is the array \<open>({ value })\<close>.  A reference to an object that was destructed reads
  as \<open>nil\<close>; \<open>alive\<close> says which objects exist.
\<close>

definition obj_keyValue :: "('o \<Rightarrow> bool) \<Rightarrow> 'o option \<Rightarrow> 'o option" where
  "obj_keyValue alive v = (case v of Some ob \<Rightarrow> if alive ob then Some ob else None | None \<Rightarrow> None)"

definition obj_get :: "('s, 'o option, 'o) kvlib \<Rightarrow> ('o \<Rightarrow> bool) \<Rightarrow> 's \<Rightarrow> bytes \<Rightarrow> 'o option" where
  "obj_get KV alive = kv_get KV (obj_keyValue alive)"

definition obj_set :: "('s, 'o option, 'o) kvlib \<Rightarrow> 's \<Rightarrow> bytes \<Rightarrow> 'o option \<Rightarrow> 's" where
  "obj_set KV s k v = kv_set KV s k (Some v)"

definition obj_add ::
    "('s, 'o option, 'o) kvlib \<Rightarrow> ('o \<Rightarrow> bool) \<Rightarrow> 's \<Rightarrow> bytes \<Rightarrow> 'o option \<Rightarrow> 's result" where
  "obj_add KV alive = kv_add KV (obj_keyValue alive)"

definition obj_change ::
    "('s, 'o option, 'o) kvlib \<Rightarrow> ('o \<Rightarrow> bool) \<Rightarrow> 's \<Rightarrow> bytes \<Rightarrow> 'o option \<Rightarrow> 's result" where
  "obj_change KV alive = kv_change KV (obj_keyValue alive)"

section \<open>A reference instance\<close>

text \<open>A map, which shows that the laws can hold.  A present key is one whose value is not \<open>nil\<close>.\<close>

definition std_kv :: "(bytes \<Rightarrow> 'v option, 'v, 'w) kvlib" where
  "std_kv = \<lparr>kv_new = (\<lambda>n. Map.empty),
     kv_get = (\<lambda>h s k. Option.bind (s k) h),
     kv_set = (\<lambda>s k v. s(k := v)),
     kv_add = (\<lambda>h s k v. if Option.bind (s k) h = None then Inr (s(k \<mapsto> v)) else Inl (Error ''Key already exists'')),
     kv_change = (\<lambda>h s k v. if Option.bind (s k) h = None then Inl (Error ''No such key'') else Inr (s(k \<mapsto> v))),
     kv_modify = (\<lambda>s k f. s(k := map_option f (s k)))\<rparr>"

interpretation std_kv: kvstore std_kv id
  by unfold_locales (auto simp: std_kv_def split: if_splits)

interpretation std_exp: expiring_store std_kv id
  by unfold_locales

section \<open>Properties\<close>

text \<open>
  What was stored in a store with expiration is returned until its duration has passed and
  not afterwards; the end of the signed 32-bit range in 2038 makes no difference.
\<close>

theorem exp_get_elapsed:
  assumes "kvstore KV kv" "unat duration < 2 ^ 31" "unat elapsed < 2 ^ 31"
  shows "exp_get KV (now + elapsed) (exp_set KV duration now s k v) k = (if elapsed < duration then v else None)"
proof -
  have "expiring_store KV kv" by (rule expiring_store.intro) (rule assms(1))
  then show ?thesis
    by (simp add: expiring_store.exp_get expiring_store.exp_set seen_def fresh_value_elapsed [OF assms(2,3)])
qed

theorem exp_get_elapsed_witness:
  "exp_get std_kv (2147483000 + 86400) (exp_set std_kv 2592000 2147483000 Map.empty [1] (Some (7 :: nat))) [1] = Some 7"
  using exp_get_elapsed [OF std_kv.kvstore_axioms, of 2592000 86400 2147483000 Map.empty "[1]" "Some (7 :: nat)"]
  by simp

end
