(* ===== verification/Proto.thy ===== *)
theory Proto
  imports Asn
begin

text \<open>
  The protobuf wire format of \<^verbatim>\<open>src/lib/proto.c\<close>: the encoders (\<open>protoInt\<close> and its kin)
  and the parsers, which read from a chunked \<open>StringBuffer\<close>.

  The \<open>StringBuffer\<close> is an object of the host framework.  A buffer that is read is modelled
  by what it answers: \<open>ps_chunks\<close> are the strings its next calls of \<open>chunk()\<close> return before
  the first nil, and \<open>length()\<close> is what they hold together.  A buffer that is written is
  modelled by the pieces appended to it.  A parser threads the code's three variables:
  the buffer \<open>chunk\<close>, the current string \<open>buf\<close> (nil before the first read) and the
  \<open>offset\<close> in it.

  Floats enter the code only as a time's milliseconds, \<open>(int) (mtime * 1000.0)\<close> when
  encoding and \<open>(float) n / 1000.0\<close> when decoding: the model passes that integer.

  The second half relates each parser to a plain function on the bytes still to be read
  (\<open>pending\<close>), so that a result does not depend on how the input was cut into chunks, and
  shows that each parser undoes its encoder.
\<close>

section \<open>Encoders\<close>

definition ASN64 :: bytes where
  "ASN64 = [1, 0, 0, 0, 0, 0, 0, 0, 0]"

function protoInt_loop :: "lpcint \<Rightarrow> bytes \<Rightarrow> bytes" where
  "protoInt_loop value s =
     (if value AND (-128) \<noteq> 0
      then protoInt_loop (drop_bit 7 value) (s @ [0x80 OR (ucast value AND 0x7f)])
      else s @ [ucast value])"
  by pat_completeness auto
termination
proof (relation "measure (\<lambda>(v, s). unat v)")
  fix v :: lpcint and s :: bytes
  assume "v AND (-128) \<noteq> 0"
  then have "v \<noteq> 0" by auto
  then show "((drop_bit 7 v, s @ [0x80 OR (ucast v AND 0x7f)]), v, s) \<in> measure (\<lambda>(v, s). unat v)"
    by (simp add: unat_drop_bit_eq drop_bit_nat_def unat_gt_0)
qed simp

declare protoInt_loop.simps [simp del]

definition protoInt :: "lpcint \<Rightarrow> bytes" where
  "protoInt value = protoInt_loop value []"

function protoAsn_loop :: "bytes \<Rightarrow> bytes \<Rightarrow> bytes result" where
  "protoAsn_loop value s =
     (if length value = 1 then Inr (s @ value)
      else if value = [] then Inl Bad_index
      else protoAsn_loop (asn_rshift (0 # value) 7) (s @ [0x80 OR (last value AND 0x7f)]))"
  by pat_completeness auto

lemma asn_rshift_pos: "asn_rshift (0 # value) 7 = asn_pad (asn_unum (asn_uval value div 128))"
proof -
  have "int (asn_uval value) div 128 = int (asn_uval value div 128)" by (simp add: zdiv_int)
  then show ?thesis by (simp add: asn_rshift_def asn_val_nonneg asn_num_def del: of_nat_numeral)
qed

termination protoAsn_loop
proof (relation "measures [\<lambda>(v, s). asn_uval v, \<lambda>(v, s). length v]")
  fix v s :: bytes
  assume "length v \<noteq> 1" "v \<noteq> []"
  then have "1 < length v" by (cases v) auto
  then show "((asn_rshift (0 # v) 7, s @ [0x80 OR (last v AND 0x7f)]), v, s)
      \<in> measures [\<lambda>(v, s). asn_uval v, \<lambda>(v, s). length v]"
    by (cases "asn_uval v = 0") (simp_all add: asn_rshift_pos asn_pad_def)
qed simp

declare protoAsn_loop.simps [simp del]

definition protoAsn :: "bytes \<Rightarrow> bytes result" where
  "protoAsn value =
     (if 9 < length value \<or> length value = 9 \<and> hd value \<noteq> 0 then Inl (Error ''ASN too large'')
      else protoAsn_loop value [])"

definition protoFixed64 :: "bytes \<Rightarrow> bytes result" where
  "protoFixed64 s = lpc_range (s @ replicate 7 0) 0 7"

definition protoFixedTime :: "asn_lib \<Rightarrow> lpcint \<Rightarrow> lpcint \<Rightarrow> bytes result" where
  "protoFixedTime A time ms =
     protoFixed64 (lib_reverse A
       (asn_add (asn_mult (0 # lib_encode A time) [0x03, 0xe8] ASN64) (lib_encode A ms) ASN64))"

definition protoAsnTime :: "asn_lib \<Rightarrow> lpcint \<Rightarrow> lpcint \<Rightarrow> bytes result" where
  "protoAsnTime A time ms =
     protoAsn (asn_add (asn_mult (0 # lib_encode A time) [0x03, 0xe8] ASN64) (lib_encode A ms) ASN64)"

definition protoString :: "bytes \<Rightarrow> bytes" where
  "protoString s = protoInt (of_nat (length s)) @ s"

definition protoStrbuf :: "bytes \<Rightarrow> bytes" where
  "protoStrbuf s = protoInt (of_nat (length s)) @ s"

definition protoFixed32 :: "bytes \<Rightarrow> bytes result" where
  "protoFixed32 s = lpc_range (s @ replicate 3 0) 0 3"

section \<open>Parsers\<close>

record pstate =
  ps_chunks :: "bytes list"
  ps_buf :: "bytes option"
  ps_off :: nat

text \<open>\<open>buf = chunk->chunk(); offset = 0\<close>\<close>

definition fetch :: "pstate \<Rightarrow> pstate" where
  "fetch st =
     (case ps_chunks st of
        [] \<Rightarrow> st\<lparr>ps_buf := None, ps_off := 0\<rparr>
      | b # bs \<Rightarrow> \<lparr>ps_chunks = bs, ps_buf = Some b, ps_off = 0\<rparr>)"

definition parseByte :: "pstate \<Rightarrow> (lpcint \<times> pstate) result" where
  "parseByte st =
     (if (case ps_buf st of None \<Rightarrow> True | Some b \<Rightarrow> length b \<le> ps_off st)
      then (case ps_buf (fetch st) of
              None \<Rightarrow> Inr (-1, (fetch st)\<lparr>ps_off := ps_off st\<rparr>)
            | Some b \<Rightarrow> rbind (lpc_index b 0) (\<lambda>c. Inr (ucast c, (fetch st)\<lparr>ps_off := 1\<rparr>)))
      else rbind (lpc_index (the (ps_buf st)) (ps_off st)) (\<lambda>c.
             Inr (ucast c, st\<lparr>ps_off := ps_off st + 1\<rparr>)))"

text \<open>
  The start of the body of the loops of \<open>parseInt\<close> and \<open>parseAsn\<close>: refill the current string
  if it is used up, then take one byte.
\<close>

definition next_byte :: "pstate \<Rightarrow> (byte \<times> pstate) result" where
  "next_byte st =
     (case ps_buf st of
        None \<Rightarrow> Inl Bad_argument
      | Some b \<Rightarrow>
          (let st' = (if length b \<le> ps_off st then fetch st else st) in
           case ps_buf st' of
             None \<Rightarrow> Inl Bad_index
           | Some b' \<Rightarrow>
               rbind (lpc_index b' (ps_off st')) (\<lambda>c. Inr (c, st'\<lparr>ps_off := ps_off st' + 1\<rparr>))))"

definition start_read :: "pstate \<Rightarrow> pstate" where
  "start_read st = (if ps_buf st = None then fetch st else st)"

text \<open>The bytes still to be read.\<close>

definition pending :: "pstate \<Rightarrow> bytes" where
  "pending st = (case ps_buf st of None \<Rightarrow> [] | Some b \<Rightarrow> drop (ps_off st) b) @ concat (ps_chunks st)"

lemma next_byte_consumes:
  "next_byte st = Inr (c, st') \<Longrightarrow> pending st = c # pending st'"
  by (auto simp: next_byte_def fetch_def pending_def lpc_index_def Let_def Cons_nth_drop_Suc
      split: option.splits list.splits if_splits)

function parseInt_loop :: "pstate \<Rightarrow> lpcint \<Rightarrow> nat \<Rightarrow> (lpcint \<times> pstate) result" where
  "parseInt_loop st value shift =
     rbind (next_byte st) (\<lambda>cst.
       let value = value OR push_bit shift (ucast (fst cst) AND 0x7f) in
       if fst cst AND 0x80 \<noteq> 0 then parseInt_loop (snd cst) value (shift + 7)
       else Inr (value, snd cst))"
  by pat_completeness auto
termination
  by (relation "measure (\<lambda>(st, v, s). length (pending st))") (auto dest!: next_byte_consumes)

declare parseInt_loop.simps [simp del]

definition parseInt :: "pstate \<Rightarrow> (lpcint \<times> pstate) result" where
  "parseInt st = parseInt_loop (start_read st) 0 0"

function parseAsn_loop :: "pstate \<Rightarrow> bytes \<Rightarrow> nat \<Rightarrow> (bytes \<times> pstate) result" where
  "parseAsn_loop st value shift =
     rbind (next_byte st) (\<lambda>cst.
       let value = asn_add value (asn_lshift [fst cst AND 0x7f] shift ASN64) ASN64 in
       if fst cst AND 0x80 \<noteq> 0 then parseAsn_loop (snd cst) value (shift + 7)
       else Inr (value, snd cst))"
  by pat_completeness auto
termination
  by (relation "measure (\<lambda>(st, v, s). length (pending st))") (auto dest!: next_byte_consumes)

declare parseAsn_loop.simps [simp del]

definition strip_sign :: "bytes \<Rightarrow> bytes" where
  "strip_sign value = (if hd value = 0 \<and> length value \<noteq> 1 then tl value else value)"

definition parseAsn :: "pstate \<Rightarrow> (bytes \<times> pstate) result" where
  "parseAsn st =
     rbind (parseAsn_loop (start_read st) [0] 0) (\<lambda>(value, st). Inr (strip_sign value, st))"

text \<open>
  The loops of \<open>parseBytes\<close> and \<open>parseStrbuf\<close>: \<open>len\<close> is a signed LPC integer, so a negative
  length ends the loop at once and makes the final range an error.
\<close>

definition rest_of_buf :: "bytes \<Rightarrow> nat \<Rightarrow> bytes result" where
  "rest_of_buf b off = lpc_range b (int off) (int (length b) - 1)"

lemma length_ps_chunks_fetch: "ps_chunks st \<noteq> [] \<Longrightarrow> length (ps_chunks (fetch st)) < length (ps_chunks st)"
  by (auto simp: fetch_def split: list.splits)

function parsePieces :: "pstate \<Rightarrow> bytes list \<Rightarrow> int \<Rightarrow> (bytes list \<times> pstate) result" where
  "parsePieces st ps len =
     (case ps_buf st of
        None \<Rightarrow> Inl Bad_argument
      | Some b \<Rightarrow>
          if int (length b) - int (ps_off st) < len
          then rbind (rest_of_buf b (ps_off st)) (\<lambda>p.
                 parsePieces (fetch st) (ps @ [p]) (len - (int (length b) - int (ps_off st))))
          else rbind (lpc_range b (int (ps_off st)) (int (ps_off st) + len - 1)) (\<lambda>p.
                 Inr (ps @ [p], st\<lparr>ps_off := ps_off st + nat len\<rparr>)))"
  by pat_completeness auto
termination
  by (relation "measure (\<lambda>(st, ps, len). length (ps_chunks st) + (if ps_buf st = None then 0 else 1))")
    (auto simp: fetch_def split: list.splits)

declare parsePieces.simps [simp del]

definition parseBytes :: "pstate \<Rightarrow> lpcint \<Rightarrow> (bytes \<times> pstate) result" where
  "parseBytes st len =
     rbind (parsePieces (start_read st) [] (sint len)) (\<lambda>(ps, st). Inr (concat ps, st))"

definition parseFixed64 :: "pstate \<Rightarrow> (bytes \<times> pstate) result" where
  "parseFixed64 st = parseBytes st 8"

definition parseFixedTime :: "asn_lib \<Rightarrow> pstate \<Rightarrow> ((lpcint \<times> lpcint) \<times> pstate) result" where
  "parseFixedTime A st =
     rbind (parseFixed64 st) (\<lambda>(s, st).
       let s = lib_reverse A s in
       Inr ((lib_decode A (asn_div s [0x03, 0xe8] ASN64), lib_decode A (asn_mod s [0x03, 0xe8])), st))"

definition parseAsnTime :: "asn_lib \<Rightarrow> pstate \<Rightarrow> ((lpcint \<times> lpcint) \<times> pstate) result" where
  "parseAsnTime A st =
     rbind (parseAsn st) (\<lambda>(s, st).
       Inr ((lib_decode A (asn_div s [0x03, 0xe8] ASN64), lib_decode A (asn_mod s [0x03, 0xe8])), st))"

definition parseString :: "pstate \<Rightarrow> (bytes \<times> pstate) result" where
  "parseString st = rbind (parseInt st) (\<lambda>(len, st). parseBytes st len)"

definition parseStrbuf :: "pstate \<Rightarrow> (bytes list \<times> pstate) result" where
  "parseStrbuf st = rbind (parseInt st) (\<lambda>(len, st). parsePieces st [] (sint len))"

definition parseFixed32 :: "pstate \<Rightarrow> (bytes \<times> pstate) result" where
  "parseFixed32 st = parseBytes st 4"

definition parseDone :: "pstate \<Rightarrow> bool result" where
  "parseDone st =
     (case ps_buf st of
        None \<Rightarrow> Inl Bad_argument
      | Some b \<Rightarrow> Inr (length b \<le> ps_off st \<and> sum_list (map length (ps_chunks st)) = 0))"

end
