(* ===== verification/Account.thy ===== *)
theory Account
  imports Phone Stores Proto "HOL-Library.AList"
begin

text \<open>
  Devices, accounts, profiles and message envelopes (\<^verbatim>\<open>src/lib/Device.c\<close>, \<^verbatim>\<open>src/lib/Account.c\<close>,
  \<^verbatim>\<open>src/lib/Profile.c\<close>, \<^verbatim>\<open>src/lib/Envelope.c\<close>).

  A value that may be \<open>nil\<close> is an option.  The time, as seconds and as the pair of \<open>millitime()\<close>,
  and random strings are arguments.  An object that an account refers to (its devices) is part
  of the account; a change of it through a reference is written back with \<open>set_device\<close>.
\<close>

type_synonym clock = "lpcint \<times> (lpcint \<times> lpcint)"

section \<open>Devices\<close>

definition FETCHES_MESSAGES :: nat where "FETCHES_MESSAGES = 0"
definition ANNOUNCEMENT_GROUP :: nat where "ANNOUNCEMENT_GROUP = 1"
definition CHANGE_NUMBER :: nat where "CHANGE_NUMBER = 2"
definition GIFT_BADGES :: nat where "GIFT_BADGES = 3"
definition PAYMENT_ACTIVATION :: nat where "PAYMENT_ACTIVATION = 4"
definition PNI :: nat where "PNI = 5"
definition SENDER_KEY :: nat where "SENDER_KEY = 6"
definition STORAGE :: nat where "STORAGE = 7"
definition STORIES :: nat where "STORIES = 8"
definition CAP_UUID :: nat where "CAP_UUID = 9"

lemmas cap_defs = FETCHES_MESSAGES_def ANNOUNCEMENT_GROUP_def CHANGE_NUMBER_def GIFT_BADGES_def
  PAYMENT_ACTIVATION_def PNI_def SENDER_KEY_def STORAGE_def STORIES_def CAP_UUID_def

record device =
  dv_id :: lpcint
  dv_registrationId :: lpcint
  dv_authToken :: bytes
  dv_salt :: bytes
  dv_name :: "bytes option"
  dv_agent :: "bytes option"
  dv_pkId :: lpcint
  dv_preKey :: "bytes option"
  dv_pkSignature :: "bytes option"
  dv_pniPkId :: lpcint
  dv_pniPreKey :: "bytes option"
  dv_pniPkSignature :: "bytes option"
  dv_gcmId :: "bytes option"
  dv_cap :: lpcint
  dv_created :: "timestamp option"
  dv_lastSeen :: "timestamp option"

definition setLastSeen :: "clock \<Rightarrow> device \<Rightarrow> device" where
  "setLastSeen clk d =
     d\<lparr>dv_created := (case dv_created d of
          None \<Rightarrow> Some \<lparr>ts_time = fst (snd clk), ts_ms = snd (snd clk)\<rparr>
        | Some t \<Rightarrow> Some t),
       dv_lastSeen := Some \<lparr>ts_time = timeDay (fst clk), ts_ms = 0\<rparr>\<rparr>"

definition Device :: "hex_lib \<Rightarrow> hkdf \<Rightarrow> bytes \<Rightarrow> clock \<Rightarrow> lpcint \<Rightarrow> bytes \<Rightarrow> device" where
  "Device X HKDF random clk deviceId password =
     (let (token, salt) = hash_token X HKDF random password None in
      setLastSeen clk \<lparr>dv_id = deviceId, dv_registrationId = 0, dv_authToken = token, dv_salt = salt,
        dv_name = None, dv_agent = None, dv_pkId = 0, dv_preKey = None, dv_pkSignature = None,
        dv_pniPkId = 0, dv_pniPreKey = None, dv_pniPkSignature = None, dv_gcmId = None, dv_cap = 0,
        dv_created = None, dv_lastSeen = None\<rparr>)"

text \<open>The nine capabilities in the order of the parameters.\<close>

record capabilities =
  c_announcementGroup :: lpcint
  c_changeNumber :: lpcint
  c_giftBadges :: lpcint
  c_paymentActivation :: lpcint
  c_pni :: lpcint
  c_senderKey :: lpcint
  c_storage :: lpcint
  c_stories :: lpcint
  c_uuid :: lpcint

definition updateCapabilities :: "capabilities \<Rightarrow> device \<Rightarrow> device" where
  "updateCapabilities c d =
     (let cap = dv_cap d AND push_bit FETCHES_MESSAGES 1;
          cap = cap OR push_bit ANNOUNCEMENT_GROUP (c_announcementGroup c);
          cap = cap OR push_bit CHANGE_NUMBER (c_changeNumber c);
          cap = cap OR push_bit GIFT_BADGES (c_giftBadges c);
          cap = cap OR push_bit PAYMENT_ACTIVATION (c_paymentActivation c);
          cap = cap OR push_bit PNI (c_pni c);
          cap = cap OR push_bit SENDER_KEY (c_senderKey c);
          cap = cap OR push_bit STORAGE (c_storage c);
          cap = cap OR push_bit STORIES (c_stories c);
          cap = cap OR push_bit CAP_UUID (c_uuid c)
      in d\<lparr>dv_cap := cap\<rparr>)"

definition device_update ::
    "bytes option \<Rightarrow> lpcint \<Rightarrow> bytes option \<Rightarrow> lpcint \<Rightarrow> capabilities \<Rightarrow> device \<Rightarrow> device" where
  "device_update name registrationId agent fetchesMessages c d =
     updateCapabilities c (d\<lparr>dv_name := name, dv_registrationId := registrationId, dv_agent := agent,
       dv_cap := push_bit FETCHES_MESSAGES fetchesMessages\<rparr>)"

definition verifyPassword :: "hex_lib \<Rightarrow> hkdf \<Rightarrow> clock \<Rightarrow> bytes \<Rightarrow> device \<Rightarrow> bool \<times> device" where
  "verifyPassword X HKDF clk password d =
     (let d = setLastSeen clk d in
      (dv_authToken d = fst (hash_token X HKDF [] password (Some (dv_salt d))), d))"

definition setFetchesMessages :: "lpcint \<Rightarrow> device \<Rightarrow> device" where
  "setFetchesMessages fetchesMessages d =
     d\<lparr>dv_cap := (dv_cap d AND NOT (push_bit FETCHES_MESSAGES 1)) OR push_bit FETCHES_MESSAGES fetchesMessages\<rparr>"

definition setGcmId :: "bytes option \<Rightarrow> device \<Rightarrow> device" where
  "setGcmId gcmId d = d\<lparr>dv_gcmId := gcmId\<rparr>"

definition setRegistrationId :: "lpcint \<Rightarrow> device \<Rightarrow> device" where
  "setRegistrationId i d = d\<lparr>dv_registrationId := i\<rparr>"

definition updateSignedPreKey :: "lpcint \<Rightarrow> bytes option \<Rightarrow> bytes option \<Rightarrow> device \<Rightarrow> device" where
  "updateSignedPreKey keyId key signature d =
     (let d = (if dv_pkId d \<noteq> keyId then d\<lparr>dv_pkId := keyId\<rparr> else d);
          d = (if dv_preKey d \<noteq> key then d\<lparr>dv_preKey := key\<rparr> else d)
      in if dv_pkSignature d \<noteq> signature then d\<lparr>dv_pkSignature := signature\<rparr> else d)"

definition updateSignedPniPreKey :: "lpcint \<Rightarrow> bytes option \<Rightarrow> bytes option \<Rightarrow> device \<Rightarrow> device" where
  "updateSignedPniPreKey keyId key signature d =
     (let d = (if dv_pniPkId d \<noteq> keyId then d\<lparr>dv_pniPkId := keyId\<rparr> else d);
          d = (if dv_pniPreKey d \<noteq> key then d\<lparr>dv_pniPreKey := key\<rparr> else d)
      in if dv_pniPkSignature d \<noteq> signature then d\<lparr>dv_pniPkSignature := signature\<rparr> else d)"

type_synonym signed_key = "lpcint \<times> bytes option \<times> bytes option"

definition signedPreKey :: "device \<Rightarrow> signed_key" where
  "signedPreKey d = (dv_pkId d, dv_preKey d, dv_pkSignature d)"

definition signedPniPreKey :: "device \<Rightarrow> signed_key" where
  "signedPniPreKey d = (dv_pniPkId d, dv_pniPreKey d, dv_pniPkSignature d)"

text \<open>\<open>(cap >> BIT) & 1\<close>: \<open>fetchesMessages()\<close> and \<open>capAnnouncementGroup()\<close> to \<open>capUuid()\<close>.\<close>

definition capability :: "nat \<Rightarrow> device \<Rightarrow> lpcint" where
  "capability i d = drop_bit i (dv_cap d) AND 1"

section \<open>Accounts\<close>

definition DISCOVERABLE :: nat where "DISCOVERABLE = 0"
definition UNRESTRICTED_ACCESS :: nat where "UNRESTRICTED_ACCESS = 1"
definition VIDEO :: nat where "VIDEO = 2"
definition VOICE :: nat where "VOICE = 3"

lemmas flag_defs = DISCOVERABLE_def UNRESTRICTED_ACCESS_def VIDEO_def VOICE_def

record account =
  ac_id :: "bytes option"
  ac_devices :: "(lpcint \<times> device) list"
  ac_phoneNumber :: "bytes option"
  ac_pni :: "bytes option"
  ac_pin :: "bytes option"
  ac_pniRegistrationId :: lpcint
  ac_recoveryPassword :: "bytes option"
  ac_registrationLock :: "bytes option"
  ac_signalingKey :: "bytes option"
  ac_unidentifiedAccessKey :: "bytes option"
  ac_identityKey :: "bytes option"
  ac_pniKey :: "bytes option"
  ac_flags :: lpcint

definition Account :: "bytes option \<Rightarrow> bytes option \<Rightarrow> device \<Rightarrow> account" where
  "Account phoneNumber pni d =
     \<lparr>ac_id = None, ac_devices = [(dv_id d, d)], ac_phoneNumber = phoneNumber, ac_pni = pni,
      ac_pin = None, ac_pniRegistrationId = 0, ac_recoveryPassword = None, ac_registrationLock = None,
      ac_signalingKey = None, ac_unidentifiedAccessKey = None, ac_identityKey = None, ac_pniKey = None,
      ac_flags = 0\<rparr>"

text \<open>The parameters of \<open>update\<close>.\<close>

record account_attributes =
  aa_discoverable :: lpcint
  aa_pin :: "bytes option"
  aa_pniRegistrationId :: lpcint
  aa_recoveryPassword :: "bytes option"
  aa_registrationLock :: "bytes option"
  aa_signalingKey :: "bytes option"
  aa_unidentifiedAccessKey :: "bytes option"
  aa_unrestrictedAccess :: lpcint
  aa_video :: lpcint
  aa_voice :: lpcint

definition account_update :: "account_attributes \<Rightarrow> account \<Rightarrow> account" where
  "account_update a ac =
     (let flags = 0;
          flags = flags OR push_bit DISCOVERABLE (aa_discoverable a);
          flags = flags OR push_bit UNRESTRICTED_ACCESS (aa_unrestrictedAccess a);
          flags = flags OR push_bit VIDEO (aa_video a);
          flags = flags OR push_bit VOICE (aa_voice a)
      in ac\<lparr>ac_pin := aa_pin a, ac_pniRegistrationId := aa_pniRegistrationId a,
           ac_recoveryPassword := aa_recoveryPassword a, ac_registrationLock := aa_registrationLock a,
           ac_signalingKey := aa_signalingKey a, ac_unidentifiedAccessKey := aa_unidentifiedAccessKey a,
           ac_flags := flags\<rparr>)"

text \<open>\<open>setId\<close>; the caller is the account server, which the code checks.\<close>

definition setId :: "bytes \<Rightarrow> account \<Rightarrow> account" where
  "setId accountId ac = ac\<lparr>ac_id := Some accountId\<rparr>"

definition account_device :: "lpcint \<Rightarrow> account \<Rightarrow> device option" where
  "account_device deviceId ac = map_of (ac_devices ac) deviceId"

text \<open>\<open>for (id = 1; id < max; id++)\<close>, ended by the first unused ID: \<open>n\<close> steps are left.\<close>

fun next_id :: "nat \<Rightarrow> lpcint \<Rightarrow> account \<Rightarrow> lpcint" where
  "next_id 0 i ac = i"
| "next_id (Suc n) i ac = (if account_device i ac = None then i else next_id n (i + 1) ac)"

definition nextDeviceId :: "account \<Rightarrow> lpcint" where
  "nextDeviceId ac = next_id (length (ac_devices ac)) 1 ac"

definition addDevice :: "device \<Rightarrow> account \<Rightarrow> account" where
  "addDevice d ac = ac\<lparr>ac_devices := AList.update (dv_id d) d (ac_devices ac)\<rparr>"

definition account_devices :: "account \<Rightarrow> device list" where
  "account_devices ac = map snd (ac_devices ac)"

definition set_device :: "device \<Rightarrow> account \<Rightarrow> account" where
  "set_device d ac = ac\<lparr>ac_devices := AList.update (dv_id d) d (ac_devices ac)\<rparr>"

definition updateIdentityKey :: "bytes option \<Rightarrow> account \<Rightarrow> account" where
  "updateIdentityKey key ac = (if ac_identityKey ac \<noteq> key then ac\<lparr>ac_identityKey := key\<rparr> else ac)"

definition updatePniKey :: "bytes option \<Rightarrow> account \<Rightarrow> account" where
  "updatePniKey key ac = (if ac_pniKey ac \<noteq> key then ac\<lparr>ac_pniKey := key\<rparr> else ac)"

text \<open>\<open>(flags >> FLAG) & 1\<close>: \<open>discoverable()\<close>, \<open>unrestrictedAccess()\<close>, \<open>video()\<close>, \<open>voice()\<close>.\<close>

definition account_flag :: "nat \<Rightarrow> account \<Rightarrow> lpcint" where
  "account_flag i ac = drop_bit i (ac_flags ac) AND 1"

section \<open>Profiles\<close>

record profile =
  pf_version :: bytes
  pf_name :: "bytes option"
  pf_avatar :: "bytes option"
  pf_aboutEmoji :: "bytes option"
  pf_about :: "bytes option"
  pf_paymentAddress :: "bytes option"
  pf_commitment :: "bytes option"

definition Profile :: "bytes \<Rightarrow> profile" where
  "Profile version = \<lparr>pf_version = version, pf_name = None, pf_avatar = None, pf_aboutEmoji = None,
     pf_about = None, pf_paymentAddress = None, pf_commitment = None\<rparr>"

definition profile_update ::
    "bytes option \<Rightarrow> bytes option \<Rightarrow> bytes option \<Rightarrow> bytes option \<Rightarrow> bytes option \<Rightarrow> bytes option
      \<Rightarrow> profile \<Rightarrow> profile" where
  "profile_update name avatar aboutEmoji about paymentAddress commitment p =
     p\<lparr>pf_name := name, pf_avatar := avatar, pf_aboutEmoji := aboutEmoji, pf_about := about,
       pf_paymentAddress := paymentAddress, pf_commitment := commitment\<rparr>"

section \<open>Envelopes\<close>

text \<open>\<open>'o\<close> are the objects of the system; the originating endpoint is one of them.\<close>

record 'o envelope =
  ev_origin :: 'o
  ev_type :: lpcint
  ev_timestamp :: timestamp
  ev_sourceDeviceId :: lpcint
  ev_content :: "bytes option"
  ev_guid :: bytes
  ev_serverTimestamp :: timestamp
  ev_sourceId :: "bytes option"
  ev_destinationId :: "bytes option"
  ev_destinationDeviceId :: lpcint
  ev_urgent :: lpcint

definition Envelope ::
    "bytes \<Rightarrow> clock \<Rightarrow> 'o \<Rightarrow> bytes option \<Rightarrow> lpcint \<Rightarrow> lpcint \<Rightarrow> bytes option \<Rightarrow> timestamp \<Rightarrow> bytes option
      \<Rightarrow> lpcint \<Rightarrow> lpcint \<Rightarrow> 'o envelope result" where
  "Envelope random clk origin sourceId sourceDeviceId ty content timestamp destinationId destinationDeviceId urgent =
     rbind (uuid_generate random) (\<lambda>guid.
       Inr \<lparr>ev_origin = origin, ev_type = ty, ev_timestamp = timestamp, ev_sourceDeviceId = sourceDeviceId,
            ev_content = content, ev_guid = guid,
            ev_serverTimestamp = \<lparr>ts_time = fst (snd clk), ts_ms = snd (snd clk)\<rparr>,
            ev_sourceId = sourceId, ev_destinationId = destinationId,
            ev_destinationDeviceId = destinationDeviceId, ev_urgent = urgent\<rparr>)"

definition envelope_transport :: "asn_lib \<Rightarrow> hex_lib \<Rightarrow> 'o envelope \<Rightarrow> bytes result" where
  "envelope_transport A X e =
     rbind (protoAsnTime A (ts_time (ev_timestamp e)) (ts_ms (ev_timestamp e))) (\<lambda>timestamp.
     rbind (uuid_encode X (Some (ev_guid e))) (\<lambda>guid.
     rbind (protoAsnTime A (ts_time (ev_serverTimestamp e)) (ts_ms (ev_serverTimestamp e))) (\<lambda>serverTimestamp.
     rbind (uuid_encode X (ev_sourceId e)) (\<lambda>sourceId.
     rbind (uuid_encode X (ev_destinationId e)) (\<lambda>destinationId.
       Inr ([0x08] @ protoInt (ev_type e)
         @ [0x28] @ timestamp
         @ [0x38] @ protoInt (ev_sourceDeviceId e)
         @ (case ev_content e of None \<Rightarrow> [] | Some content \<Rightarrow> [0x42] @ protoStrbuf content)
         @ [0x4a] @ protoString guid
         @ [0x50] @ serverTimestamp
         @ [0x5a] @ protoString sourceId
         @ [0x6a] @ protoString destinationId
         @ [0x70] @ protoInt (ev_urgent e)))))))"

section \<open>Properties\<close>

lemma next_id_spec:
  assumes "unat i + n < 2 ^ 32"
  shows "\<exists>k\<le>n. next_id n i ac = i + of_nat k \<and> (\<forall>j<k. account_device (i + of_nat j) ac \<noteq> None)
    \<and> (k < n \<longrightarrow> account_device (i + of_nat k) ac = None)"
  using assms
proof (induction n arbitrary: i)
  case (Suc n)
  show ?case
  proof (cases "account_device i ac = None")
    case True
    then show ?thesis by (intro exI [of _ 0]) simp
  next
    case False
    have "unat (i + 1) = unat i + 1" using Suc.prems by (simp add: unat_word_ariths)
    then obtain k where k: "k \<le> n" "next_id n (i + 1) ac = i + 1 + of_nat k"
      "\<forall>j<k. account_device (i + 1 + of_nat j) ac \<noteq> None"
      "k < n \<longrightarrow> account_device (i + 1 + of_nat k) ac = None"
      using Suc.IH [of "i + 1"] Suc.prems by auto
    have "account_device (i + of_nat j) ac \<noteq> None" if "j < Suc k" for j
      using that k(3) False by (cases j) (auto simp: add.assoc)
    moreover have "account_device (i + of_nat (Suc k)) ac = None" if "Suc k < Suc n"
      using k(4) that by (simp add: add.assoc)
    moreover have "next_id (Suc n) i ac = i + of_nat (Suc k)" using k(2) False by (auto simp: add.assoc)
    ultimately show ?thesis using k(1) by (intro exI [of _ "Suc k"]) blast
  qed
qed simp

text \<open>
  \<open>nextDeviceId\<close> returns the least positive device ID that is not in use.
\<close>

theorem nextDeviceId_least_free:
  assumes "distinct (map fst (ac_devices ac))" "length (ac_devices ac) < 2 ^ 31"
  shows "account_device (nextDeviceId ac) ac = None \<and> 1 \<le> unat (nextDeviceId ac)
    \<and> unat (nextDeviceId ac) \<le> length (ac_devices ac) + 1
    \<and> (\<forall>j. 1 \<le> unat j \<and> unat j < unat (nextDeviceId ac) \<longrightarrow> account_device j ac \<noteq> None)"
proof -
  let ?n = "length (ac_devices ac)"
  obtain k where k: "k \<le> ?n" "nextDeviceId ac = 1 + of_nat k"
    "\<forall>j<k. account_device (1 + of_nat j) ac \<noteq> None" "k < ?n \<longrightarrow> account_device (1 + of_nat k) ac = None"
    using next_id_spec [of 1 ?n ac] assms(2) by (auto simp: nextDeviceId_def)
  have u: "unat (1 + of_nat j :: lpcint) = Suc j" if "j \<le> ?n" for j
    using that assms(2) unat_of_nat [of "Suc j", where 'a = 32] by simp
  have used: "account_device j ac \<noteq> None" if "1 \<le> unat j" "unat j < Suc k" for j
  proof -
    have "unat j - 1 < k" using that by linarith
    moreover have "1 + of_nat (unat j - 1) = j" using that(1) by (simp add: of_nat_diff)
    ultimately show ?thesis using k(3) by metis
  qed
  have "account_device (1 + of_nat k) ac = None"
  proof (cases "k < ?n")
    case False
    then have kn: "k = ?n" using k(1) by simp
    let ?K = "fst ` set (ac_devices ac)"
    let ?J = "(\<lambda>j. 1 + of_nat j :: lpcint) ` {..<k}"
    have "inj_on (\<lambda>j. 1 + of_nat j :: lpcint) {..<k}"
      by (rule inj_on_inverseI [of _ "\<lambda>w. unat w - 1"]) (use u k(1) in simp)
    then have "card ?J = k" by (simp add: card_image)
    moreover have "?J \<subseteq> ?K"
      using k(3) by (auto simp: account_device_def map_of_eq_None_iff)
    moreover have "card ?K = k" using assms(1) kn by (simp add: distinct_card flip: set_map)
    ultimately have "?J = ?K" by (intro card_subset_eq) simp_all
    moreover have "1 + of_nat k \<notin> ?J" using u k(1) by (auto dest: arg_cong [of _ _ unat])
    ultimately show ?thesis by (simp add: account_device_def map_of_eq_None_iff)
  qed (use k(4) in simp)
  then show ?thesis using k(1,2) u [of k] used by simp
qed

theorem nextDeviceId_least_free_witness:
  "let d = Device std_hex (\<lambda>_ _ _ _ _. []) [] (0, 0, 0) 1 []; ac = Account None None d
   in account_device (nextDeviceId ac) ac = None \<and> 1 \<le> unat (nextDeviceId ac)
    \<and> unat (nextDeviceId ac) \<le> length (ac_devices ac) + 1
    \<and> (\<forall>j. 1 \<le> unat j \<and> unat j < unat (nextDeviceId ac) \<longrightarrow> account_device j ac \<noteq> None)"
  unfolding Let_def by (rule nextDeviceId_least_free) (simp_all add: Account_def)

lemma and_1_bit: "v AND 1 = (if bit v 0 then 1 else 0)" for v :: lpcint
  by (rule bit_word_eqI) (auto simp: bit_simps intro: gr0I)

lemma account_flag_iff: "account_flag i ac = 1 \<longleftrightarrow> bit (ac_flags ac) i"
  by (simp add: account_flag_def and_1_bit bit_drop_bit_eq)

lemma capability_bit: "capability i d = (if bit (dv_cap d) i then 1 else 0)"
  by (simp add: capability_def and_1_bit bit_drop_bit_eq)

lemma bit_push_shift: "bit (push_bit m v) n \<longleftrightarrow> m \<le> n \<and> n < 32 \<and> bit v (n - m)" for v :: lpcint
  by (simp add: bit_push_bit_iff)

lemma flags_update:
  "ac_flags (account_update a ac) = ((push_bit DISCOVERABLE (aa_discoverable a)
     OR push_bit UNRESTRICTED_ACCESS (aa_unrestrictedAccess a)) OR push_bit VIDEO (aa_video a)) OR push_bit VOICE (aa_voice a)"
  by (simp add: account_update_def Let_def)

lemma cap_update:
  "dv_cap (updateCapabilities c d) = (((((((((dv_cap d AND push_bit FETCHES_MESSAGES 1)
     OR push_bit ANNOUNCEMENT_GROUP (c_announcementGroup c)) OR push_bit CHANGE_NUMBER (c_changeNumber c))
     OR push_bit GIFT_BADGES (c_giftBadges c)) OR push_bit PAYMENT_ACTIVATION (c_paymentActivation c))
     OR push_bit PNI (c_pni c)) OR push_bit SENDER_KEY (c_senderKey c)) OR push_bit STORAGE (c_storage c))
     OR push_bit STORIES (c_stories c)) OR push_bit CAP_UUID (c_uuid c)"
  by (simp add: updateCapabilities_def Let_def)

text \<open>
  What an account's flags read after an update, for all arguments: with arguments 0 and 1
  each flag is its argument, a larger argument sets the flags that follow it, too.
\<close>

theorem account_flags_update:
  "(account_flag DISCOVERABLE (account_update a ac) = 1 \<longleftrightarrow> bit (aa_discoverable a) 0)
   \<and> (account_flag UNRESTRICTED_ACCESS (account_update a ac) = 1 \<longleftrightarrow>
        bit (aa_unrestrictedAccess a) 0 \<or> bit (aa_discoverable a) 1)
   \<and> (account_flag VIDEO (account_update a ac) = 1 \<longleftrightarrow>
        bit (aa_video a) 0 \<or> bit (aa_unrestrictedAccess a) 1 \<or> bit (aa_discoverable a) 2)
   \<and> (account_flag VOICE (account_update a ac) = 1 \<longleftrightarrow>
        bit (aa_voice a) 0 \<or> bit (aa_video a) 1 \<or> bit (aa_unrestrictedAccess a) 2 \<or> bit (aa_discoverable a) 3)"
  unfolding account_flag_iff flags_update flag_defs bit_or_iff bit_push_shift by auto

lemma one_bit: "v = 0 \<or> v = 1 \<Longrightarrow> bit v n \<longleftrightarrow> n = 0 \<and> v = 1" for v :: lpcint
  by (auto simp: bit_simps)

text \<open>
  C40.  With arguments 0 and 1, each capability of a device reads as it was set, and an update of
  the capabilities alone keeps the flag that says whether the device fetches messages.
\<close>

theorem capabilities_read_back:
  assumes "\<forall>v\<in>{c_announcementGroup c, c_changeNumber c, c_giftBadges c, c_paymentActivation c, c_pni c,
      c_senderKey c, c_storage c, c_stories c, c_uuid c}. v = 0 \<or> v = 1"
  shows "map (\<lambda>i. capability i (updateCapabilities c d)) [0..<10]
    = [capability FETCHES_MESSAGES d, c_announcementGroup c, c_changeNumber c, c_giftBadges c,
       c_paymentActivation c, c_pni c, c_senderKey c, c_storage c, c_stories c, c_uuid c]"
proof -
  have one: "bit v n \<longleftrightarrow> n = 0 \<and> v = 1" if "v = 0 \<or> v = 1" for v :: lpcint and n
    using that by (auto simp: bit_simps)
  have flag: "(if v = 1 then 1 else 0) = v" if "v = 0 \<or> v = 1" for v :: lpcint
    using that by auto
  have u: "[0..<10] = [0, 1, 2, 3, 4, 5, 6, 7, 8, 9 :: nat]" by (simp add: upt_rec)
  have b: "bit (c_announcementGroup c) n \<longleftrightarrow> n = 0 \<and> c_announcementGroup c = 1"
    "bit (c_changeNumber c) n \<longleftrightarrow> n = 0 \<and> c_changeNumber c = 1"
    "bit (c_giftBadges c) n \<longleftrightarrow> n = 0 \<and> c_giftBadges c = 1"
    "bit (c_paymentActivation c) n \<longleftrightarrow> n = 0 \<and> c_paymentActivation c = 1"
    "bit (c_pni c) n \<longleftrightarrow> n = 0 \<and> c_pni c = 1"
    "bit (c_senderKey c) n \<longleftrightarrow> n = 0 \<and> c_senderKey c = 1"
    "bit (c_storage c) n \<longleftrightarrow> n = 0 \<and> c_storage c = 1"
    "bit (c_stories c) n \<longleftrightarrow> n = 0 \<and> c_stories c = 1"
    "bit (c_uuid c) n \<longleftrightarrow> n = 0 \<and> c_uuid c = 1"
    "bit (1 :: lpcint) n \<longleftrightarrow> n = 0" for n
    by (rule one, use assms in simp)+ (simp add: bit_simps)
  note cap = cap_update cap_defs bit_or_iff bit_and_iff bit_push_shift b
  let ?d = "updateCapabilities c d"
  have "bit (dv_cap ?d) 0 \<longleftrightarrow> bit (dv_cap d) 0" unfolding cap by simp
  moreover have "bit (dv_cap ?d) 1 \<longleftrightarrow> c_announcementGroup c = 1" unfolding cap by simp
  moreover have "bit (dv_cap ?d) 2 \<longleftrightarrow> c_changeNumber c = 1" unfolding cap by simp
  moreover have "bit (dv_cap ?d) 3 \<longleftrightarrow> c_giftBadges c = 1" unfolding cap by simp
  moreover have "bit (dv_cap ?d) 4 \<longleftrightarrow> c_paymentActivation c = 1" unfolding cap by simp
  moreover have "bit (dv_cap ?d) 5 \<longleftrightarrow> c_pni c = 1" unfolding cap by simp
  moreover have "bit (dv_cap ?d) 6 \<longleftrightarrow> c_senderKey c = 1" unfolding cap by simp
  moreover have "bit (dv_cap ?d) 7 \<longleftrightarrow> c_storage c = 1" unfolding cap by simp
  moreover have "bit (dv_cap ?d) 8 \<longleftrightarrow> c_stories c = 1" unfolding cap by simp
  moreover have "bit (dv_cap ?d) 9 \<longleftrightarrow> c_uuid c = 1" unfolding cap by simp
  ultimately show ?thesis
    using assms by (simp only: u list.map capability_bit cap_defs) (simp add: flag)
qed

theorem capabilities_read_back_witness:
  "let c = \<lparr>c_announcementGroup = 1, c_changeNumber = 1, c_giftBadges = 0, c_paymentActivation = 1, c_pni = 0,
      c_senderKey = 1, c_storage = 0, c_stories = 1, c_uuid = 1\<rparr>;
       d = Device std_hex (\<lambda>_ _ _ _ _. []) [] (0, 0, 0) 1 [] in
   map (\<lambda>i. capability i (updateCapabilities c d)) [0..<10]
    = [capability FETCHES_MESSAGES d, 1, 1, 0, 1, 0, 1, 0, 1, 1]"
  unfolding Let_def by (subst capabilities_read_back) simp_all

text \<open>
  A device accepts exactly the passwords that derive the same token as the one it was created
  with, whatever the clock says, and records when it was last seen.
\<close>

theorem verifyPassword_Device:
  assumes "hex_library X"
  shows "fst (verifyPassword X HKDF clk' pw' (Device X HKDF random clk deviceId pw))
      \<longleftrightarrow> HKDF pw' (str ''authtoken'') 32 ''SHA256'' (hex_format X random)
        = HKDF pw (str ''authtoken'') 32 ''SHA256'' (hex_format X random)"
    (is "?ok \<longleftrightarrow> ?same")
proof -
  have "hex_format X a = hex_format X b \<longleftrightarrow> a = b" for a b
    by (metis hex_library.decode_format [OF assms] sum.inject(2))
  then show ?thesis
    by (auto simp: verifyPassword_def Device_def hash_token_def Let_def setLastSeen_def)
qed

theorem verifyPassword_Device_witness:
  "fst (verifyPassword std_hex (\<lambda>pw _ _ _ salt. pw @ salt) (9, 9, 9) [1] (Device std_hex (\<lambda>pw _ _ _ salt. pw @ salt) [7] (0, 0, 0) 1 [1]))
    \<longleftrightarrow> [1] @ hex_format std_hex [7] = [1] @ hex_format std_hex [7]"
  by (rule verifyPassword_Device [OF std_hex.hex_library_axioms])

end
