(* ===== verification/Servers.thy ===== *)
theory Servers
  imports Account
begin

text \<open>
  The registries of the system: accounts (\<^verbatim>\<open>src/sys/accounts.c\<close>), phone number identities
  (\<^verbatim>\<open>src/sys/pni.c\<close>), profiles (\<^verbatim>\<open>src/sys/profiles.c\<close>), connected endpoints
  (\<^verbatim>\<open>src/sys/online.c\<close>) and provisioning (\<^verbatim>\<open>src/sys/provisioning.c\<close>).

  Each is a record of its stores; an \<open>atomic\<close> function that raises an error leaves the state as
  it was, which is what its \<open>Inl\<close> means.  The loops that draw random identifiers until one is
  unused take the random strings as a list: the loop ends with \<open>Not_enough_fuel\<close> if every one of
  them is taken.
\<close>

text \<open>\<open>for (;;) { id = gen(random); try { store->add(id, ...); } catch (...) { continue; } break; }\<close>\<close>

fun add_loop :: "(bytes \<Rightarrow> bytes result) \<Rightarrow> (bytes \<Rightarrow> 's result) \<Rightarrow> bytes list \<Rightarrow> (bytes \<times> 's \<times> bytes list) result" where
  "add_loop gen add [] = Inl Not_enough_fuel"
| "add_loop gen add (r # rs) =
     rbind (gen r) (\<lambda>i.
       case add i of
         Inl e \<Rightarrow> add_loop gen add rs
       | Inr s \<Rightarrow> Inr (i, s, rs))"

lemma add_loop_Inr:
  "add_loop gen add rs = Inr (i, s, rs') \<Longrightarrow> add i = Inr s \<and> (\<exists>r\<in>set rs. gen r = Inr i)"
  by (induction rs) (auto split: sum.splits, (metis sum.exhaust)+)

text \<open>One string that makes an unused identifier is enough for the loop to end.\<close>

lemma add_loop_ends:
  assumes "r \<in> set rs" "gen r = Inr i" "add i = Inr s" "\<forall>r\<in>set rs. \<exists>i. gen r = Inr i"
  shows "\<exists>i s rs'. add_loop gen add rs = Inr (i, s, rs')"
  using assms(1,4)
proof (induction rs)
  case (Cons q rs)
  obtain j where j: "gen q = Inr j" using Cons.prems by auto
  show ?case
  proof (cases "add j")
    case (Inl e)
    then have "q \<noteq> r" using j assms(2,3) by auto
    then show ?thesis using Cons Inl j by auto
  qed (use j in simp)
qed simp

section \<open>Accounts\<close>

record ('a, 'i) account_server =
  as_accounts :: 'a
  as_phoneIndex :: 'i
  as_usernameIndex :: 'i
  as_version :: nat

definition accounts_create :: "('a, account, account) kvlib \<Rightarrow> ('i, bytes, bytes) kvlib \<Rightarrow> ('a, 'i) account_server" where
  "accounts_create KA KI =
     \<lparr>as_accounts = kv_new KA 199, as_phoneIndex = kv_new KI 249, as_usernameIndex = kv_new KI 142, as_version = 1\<rparr>"

text \<open>
  \<open>add\<close>: the account is in the store when \<open>setId\<close> changes it.  An \<open>Account\<close> has no function
  \<open>username\<close>, so \<open>account->username()\<close> is \<open>nil\<close> and the third index stays as it is.
\<close>

definition accounts_add ::
    "asn_lib \<Rightarrow> ('a, account, account) kvlib \<Rightarrow> ('i, bytes, bytes) kvlib \<Rightarrow> bytes list \<Rightarrow> account
      \<Rightarrow> ('a, 'i) account_server \<Rightarrow> (account \<times> ('a, 'i) account_server) result" where
  "accounts_add A KA KI randoms ac srv =
     rbind (add_loop uuid_generate (\<lambda>accountId. plain_add KA (as_accounts srv) accountId ac) randoms)
       (\<lambda>(accountId, accounts, rest).
       let accounts = kv_modify KA accounts accountId (setId accountId);
           ac = setId accountId ac in
       rbind (phoneToNum A (ac_phoneNumber ac)) (\<lambda>num.
       rbind (plain_add KI (as_phoneIndex srv) num accountId) (\<lambda>phoneIndex.
         Inr (ac, srv\<lparr>as_accounts := accounts, as_phoneIndex := phoneIndex\<rparr>))))"

definition accounts_get :: "('a, account, account) kvlib \<Rightarrow> bytes \<Rightarrow> ('a, 'i) account_server \<Rightarrow> account option" where
  "accounts_get KA accountId srv = plain_get KA (as_accounts srv) accountId"

definition accounts_getByNumber ::
    "asn_lib \<Rightarrow> ('a, account, account) kvlib \<Rightarrow> ('i, bytes, bytes) kvlib \<Rightarrow> bytes option
      \<Rightarrow> ('a, 'i) account_server \<Rightarrow> account option result" where
  "accounts_getByNumber A KA KI phoneNumber srv =
     rbind (phoneToNum A phoneNumber) (\<lambda>num.
       let i = plain_get KI (as_phoneIndex srv) num;
           i = (if i = None \<and> as_version srv = 0
                then Option.bind phoneNumber (plain_get KI (as_phoneIndex srv)) else i)
       in Inr (Option.bind i (plain_get KA (as_accounts srv))))"

definition accounts_getByName ::
    "('a, account, account) kvlib \<Rightarrow> ('i, bytes, bytes) kvlib \<Rightarrow> bytes \<Rightarrow> ('a, 'i) account_server
      \<Rightarrow> account option result" where
  "accounts_getByName KA KI username srv =
     (case plain_get KI (as_usernameIndex srv) username of
        None \<Rightarrow> Inl Bad_argument
      | Some i \<Rightarrow> Inr (plain_get KA (as_accounts srv) i))"

text \<open>A change of an account through a reference that \<open>get\<close> returned.\<close>

definition accounts_modify ::
    "('a, account, account) kvlib \<Rightarrow> bytes \<Rightarrow> (account \<Rightarrow> account) \<Rightarrow> ('a, 'i) account_server
      \<Rightarrow> ('a, 'i) account_server" where
  "accounts_modify KA accountId f srv = srv\<lparr>as_accounts := kv_modify KA (as_accounts srv) accountId f\<rparr>"

section \<open>Phone number identities\<close>

record 'i pni_server =
  ps_pni :: 'i
  ps_ipn :: 'i
  ps_version :: nat

definition pni_create :: "('i, bytes, bytes) kvlib \<Rightarrow> 'i pni_server" where
  "pni_create KI = \<lparr>ps_pni = kv_new KI 249, ps_ipn = kv_new KI 199, ps_version = 1\<rparr>"

definition pni_add ::
    "asn_lib \<Rightarrow> ('i, bytes, bytes) kvlib \<Rightarrow> bytes list \<Rightarrow> bytes \<Rightarrow> 'i pni_server
      \<Rightarrow> (bytes \<times> 'i pni_server) result" where
  "pni_add A KI randoms phoneNumber srv =
     rbind (add_loop uuid_generate (\<lambda>i. plain_add KI (ps_ipn srv) i phoneNumber) randoms) (\<lambda>(i, ipn, rest).
     rbind (phoneToNum A (Some phoneNumber)) (\<lambda>num.
       Inr (i, srv\<lparr>ps_ipn := ipn, ps_pni := kv_set KI (ps_pni srv) num (Some i)\<rparr>)))"

definition pni_getId ::
    "asn_lib \<Rightarrow> ('i, bytes, bytes) kvlib \<Rightarrow> bytes list \<Rightarrow> bytes \<Rightarrow> 'i pni_server
      \<Rightarrow> (bytes \<times> 'i pni_server) result" where
  "pni_getId A KI randoms phoneNumber srv =
     rbind (phoneToNum A (Some phoneNumber)) (\<lambda>num.
       let i = plain_get KI (ps_pni srv) num;
           i = (if i = None \<and> ps_version srv = 0 then plain_get KI (ps_pni srv) phoneNumber else i)
       in case i of
            Some i \<Rightarrow> Inr (i, srv)
          | None \<Rightarrow> pni_add A KI randoms phoneNumber srv)"

definition pni_getPhoneNumber :: "('i, bytes, bytes) kvlib \<Rightarrow> bytes \<Rightarrow> 'i pni_server \<Rightarrow> bytes option" where
  "pni_getPhoneNumber KI i srv = plain_get KI (ps_ipn srv) i"

section \<open>Profiles\<close>

definition profiles_create :: "('p, profile, profile) kvlib \<Rightarrow> 'p" where
  "profiles_create KP = kv_new KP 110"

definition profiles_get :: "('p, profile, profile) kvlib \<Rightarrow> bytes \<Rightarrow> bytes \<Rightarrow> 'p \<Rightarrow> profile \<times> 'p" where
  "profiles_get KP accountId version profiles =
     (let i = version @ accountId in
      case plain_get KP profiles i of
        Some p \<Rightarrow> (p, profiles)
      | None \<Rightarrow> (Profile version, kv_set KP profiles i (Some (Profile version))))"

section \<open>Connected endpoints\<close>

definition online_create :: "('e, 'o option, 'o) kvlib \<Rightarrow> 'e" where
  "online_create KE = kv_new KE 194"

text \<open>The key \<open>deviceId + id\<close> of a device of an account, here and in the mail boxes.\<close>

definition device_key :: "lpcint \<Rightarrow> bytes \<Rightarrow> bytes" where
  "device_key deviceId accountId = int_str deviceId @ accountId"

definition online_register :: "('e, 'o option, 'o) kvlib \<Rightarrow> bytes \<Rightarrow> lpcint \<Rightarrow> 'o \<Rightarrow> 'e \<Rightarrow> 'e" where
  "online_register KE accountId deviceId endpoint endpoints =
     obj_set KE endpoints (device_key deviceId accountId) (Some endpoint)"

definition online_present ::
    "('e, 'o option, 'o) kvlib \<Rightarrow> ('o \<Rightarrow> bool) \<Rightarrow> bytes \<Rightarrow> lpcint \<Rightarrow> 'e \<Rightarrow> 'o option" where
  "online_present KE alive accountId deviceId endpoints =
     obj_get KE alive endpoints (device_key deviceId accountId)"

section \<open>Provisioning\<close>

record ('c, 'o) provisioning =
  pv_addresses :: "bytes \<rightharpoonup> 'o"
  pv_codes :: 'c

definition PROV_DURATION :: lpcint where
  "PROV_DURATION = 1 * 24 * 3600"

definition provisioning_create :: "('c, bytes timed, bytes timed) kvlib \<Rightarrow> ('c, 'o) provisioning" where
  "provisioning_create KC = \<lparr>pv_addresses = Map.empty, pv_codes = kv_new KC 249\<rparr>"

definition addEndpoint :: "bytes \<Rightarrow> 'o \<Rightarrow> ('c, 'o) provisioning \<Rightarrow> ('c, 'o) provisioning" where
  "addEndpoint provisioningAddr endpoint p = p\<lparr>pv_addresses := (pv_addresses p)(provisioningAddr \<mapsto> endpoint)\<rparr>"

definition getEndpoint :: "('o \<Rightarrow> bool) \<Rightarrow> bytes \<Rightarrow> ('c, 'o) provisioning \<Rightarrow> 'o option" where
  "getEndpoint alive provisioningAddr p = obj_keyValue alive (pv_addresses p provisioningAddr)"

definition storeVerificationCode ::
    "asn_lib \<Rightarrow> ('c, bytes timed, bytes timed) kvlib \<Rightarrow> lpcint \<Rightarrow> bytes option \<Rightarrow> bytes \<Rightarrow> ('c, 'o) provisioning
      \<Rightarrow> ('c, 'o) provisioning result" where
  "storeVerificationCode A KC now phoneNumber code p =
     rmap (\<lambda>num. p\<lparr>pv_codes := exp_set KC PROV_DURATION now (pv_codes p) num (Some code)\<rparr>) (phoneToNum A phoneNumber)"

definition getVerificationCode ::
    "asn_lib \<Rightarrow> ('c, bytes timed, bytes timed) kvlib \<Rightarrow> lpcint \<Rightarrow> bytes option \<Rightarrow> ('c, 'o) provisioning
      \<Rightarrow> bytes option result" where
  "getVerificationCode A KC now phoneNumber p = rmap (exp_get KC now (pv_codes p)) (phoneToNum A phoneNumber)"

definition removeVerificationCode ::
    "asn_lib \<Rightarrow> ('c, bytes timed, bytes timed) kvlib \<Rightarrow> lpcint \<Rightarrow> bytes option \<Rightarrow> ('c, 'o) provisioning
      \<Rightarrow> ('c, 'o) provisioning result" where
  "removeVerificationCode A KC now phoneNumber p =
     rmap (\<lambda>num. p\<lparr>pv_codes := exp_set KC PROV_DURATION now (pv_codes p) num None\<rparr>) (phoneToNum A phoneNumber)"

section \<open>Properties\<close>

text \<open>
  The invariant of the account server: the index holds exactly the numbers of the stored
  accounts, and every account knows the ID it is stored under.
\<close>

definition accounts_inv ::
    "asn_lib \<Rightarrow> ('a \<Rightarrow> bytes \<Rightarrow> account option) \<Rightarrow> ('i \<Rightarrow> bytes \<Rightarrow> bytes option) \<Rightarrow> ('a, 'i) account_server \<Rightarrow> bool" where
  "accounts_inv A kva kvi srv \<longleftrightarrow>
     (\<forall>num i. kvi (as_phoneIndex srv) num = Some i \<longrightarrow>
        (\<exists>ac. kva (as_accounts srv) i = Some ac \<and> phoneToNum A (ac_phoneNumber ac) = Inr num))
   \<and> (\<forall>i ac. kva (as_accounts srv) i = Some ac \<longrightarrow>
        ac_id ac = Some i
        \<and> (\<exists>num. phoneToNum A (ac_phoneNumber ac) = Inr num \<and> kvi (as_phoneIndex srv) num = Some i))
   \<and> as_version srv = 1"

lemma accounts_invD:
  assumes "accounts_inv A kva kvi srv"
  shows "kvi (as_phoneIndex srv) num = Some i \<Longrightarrow>
      \<exists>ac. kva (as_accounts srv) i = Some ac \<and> phoneToNum A (ac_phoneNumber ac) = Inr num"
    and "kva (as_accounts srv) i = Some ac \<Longrightarrow> ac_id ac = Some i
      \<and> (\<exists>num. phoneToNum A (ac_phoneNumber ac) = Inr num \<and> kvi (as_phoneIndex srv) num = Some i)"
  using assms by (simp_all add: accounts_inv_def)

lemma plain_add_Inr:
  assumes "kvstore KV kv" "plain_add KV s k v = Inr t"
  shows "kv t = (kv s)(k \<mapsto> v) \<and> kv s k = None"
proof -
  have "kv s k = None"
    using kvstore.add_present [OF assms(1), of s k Some v] assms(2) by (cases "kv s k") auto
  then show ?thesis using kvstore.add [OF assms] by simp
qed

lemma setId_simps [simp]:
  "ac_id (setId i ac) = Some i" "ac_phoneNumber (setId i ac) = ac_phoneNumber ac"
  by (simp_all add: setId_def)

lemma accounts_add_ok:
  assumes "kvstore KA kva" "kvstore KI kvi" "accounts_inv A kva kvi srv"
    and "accounts_add A KA KI randoms ac srv = Inr (ac', srv')"
  shows "accounts_inv A kva kvi (accounts_create KA KI) \<and> accounts_inv A kva kvi srv'
    \<and> (\<exists>i. ac' = setId i ac \<and> accounts_get KA i srv = None
        \<and> (\<forall>j. accounts_get KA j srv' = (if j = i then Some ac' else accounts_get KA j srv)))
    \<and> accounts_getByNumber A KA KI (ac_phoneNumber ac) srv' = Inr (Some ac')"
proof -
  obtain i accounts rest num index where
    st: "add_loop uuid_generate (\<lambda>i. plain_add KA (as_accounts srv) i ac) randoms = Inr (i, accounts, rest)"
    "phoneToNum A (ac_phoneNumber ac) = Inr num" "plain_add KI (as_phoneIndex srv) num i = Inr index"
    "ac' = setId i ac" "srv' = srv\<lparr>as_accounts := kv_modify KA accounts i (setId i), as_phoneIndex := index\<rparr>"
    using assms(4) by (auto simp: accounts_add_def Let_def)
  have a: "kva accounts = (kva (as_accounts srv))(i \<mapsto> ac)" "kva (as_accounts srv) i = None"
    using plain_add_Inr [OF assms(1)] add_loop_Inr [OF st(1)] by auto
  have n: "kvi index = (kvi (as_phoneIndex srv))(num \<mapsto> i)" "kvi (as_phoneIndex srv) num = None"
    using plain_add_Inr [OF assms(2) st(3)] by auto
  have s: "kva (as_accounts srv') = (kva (as_accounts srv))(i \<mapsto> setId i ac)"
    "kvi (as_phoneIndex srv') = (kvi (as_phoneIndex srv))(num \<mapsto> i)" "as_version srv' = as_version srv"
    using a(1) n(1) by (simp_all add: st(5) kvstore.modify [OF assms(1)])
  have "accounts_inv A kva kvi srv'"
    unfolding accounts_inv_def s
  proof (intro conjI allI impI)
    fix num' j assume "((kvi (as_phoneIndex srv))(num \<mapsto> i)) num' = Some j"
    then show "\<exists>ac'. ((kva (as_accounts srv))(i \<mapsto> setId i ac)) j = Some ac' \<and> phoneToNum A (ac_phoneNumber ac') = Inr num'"
      using st(2) a(2) accounts_invD(1) [OF assms(3), of num' j] by (auto split: if_splits)
  next
    fix j ac' assume *: "((kva (as_accounts srv))(i \<mapsto> setId i ac)) j = Some ac'"
    then show "ac_id ac' = Some j" using accounts_invD(2) [OF assms(3), of j ac'] by (auto split: if_splits)
    show "\<exists>num'. phoneToNum A (ac_phoneNumber ac') = Inr num' \<and> ((kvi (as_phoneIndex srv))(num \<mapsto> i)) num' = Some j"
    proof (cases "j = i")
      case True
      then show ?thesis using * st(2) by (intro exI [of _ num]) auto
    next
      case False
      then obtain num' where "phoneToNum A (ac_phoneNumber ac') = Inr num'" "kvi (as_phoneIndex srv) num' = Some j"
        using * accounts_invD(2) [OF assms(3), of j ac'] by auto
      then show ?thesis using n(2) by (intro exI [of _ num']) auto
    qed
  qed (use assms(3) in \<open>simp add: accounts_inv_def\<close>)
  moreover have "accounts_inv A kva kvi (accounts_create KA KI)"
    by (simp add: accounts_inv_def accounts_create_def kvstore.new [OF assms(1)] kvstore.new [OF assms(2)])
  moreover have "accounts_getByNumber A KA KI (ac_phoneNumber ac) srv' = Inr (Some ac')"
    using st(2,4) s assms(3)
    by (simp add: accounts_getByNumber_def kvstore.get [OF assms(1)] kvstore.get [OF assms(2)] accounts_inv_def Let_def)
  ultimately show ?thesis
    using a(2) s(1) st(4) by (auto simp: accounts_get_def kvstore.get [OF assms(1)])
qed

text \<open>A concrete registration, for the witnesses.\<close>

definition sample_device :: device where
  "sample_device = Device std_hex (\<lambda>_ _ _ _ _. []) [] (0, 0, 0) 1 []"

definition sample_phone :: bytes where
  "sample_phone = of_char (CHR ''+'') # str ''15551234567''"

lemma sample_num: "\<exists>num. phoneToNum std_asn_lib (Some sample_phone) = Inr num"
  using phoneToNum_ok [OF std_asn.asn_library_axioms, of "str ''15551234567''"]
  by (auto simp: str_def is_digit_def sample_phone_def)

lemma std_add: "kv_add std_kv h s k v = (if Option.bind (s k) h = None then Inr (s(k \<mapsto> v)) else Inl (Error ''Key already exists''))"
  by (simp add: std_kv_def)

lemma std_new: "kv_new std_kv n = Map.empty"
  and std_get: "kv_get std_kv h s k = Option.bind (s k) h"
  by (simp_all add: std_kv_def)

lemma sample_uuid: "\<exists>i. uuid_generate (replicate 16 1) = Inr i"
  by (simp add: uuid_generate_def)

lemma sample_add:
  "\<exists>ac' srv'. accounts_add std_asn_lib std_kv std_kv [replicate 16 1] (Account (Some sample_phone) None sample_device)
     (accounts_create std_kv std_kv) = Inr (ac', srv')"
proof -
  obtain num where "phoneToNum std_asn_lib (Some sample_phone) = Inr num" using sample_num by blast
  moreover obtain i where "uuid_generate (replicate 16 1) = Inr i" using sample_uuid by blast
  ultimately show ?thesis
    by (simp add: accounts_add_def accounts_create_def std_add std_new Account_def Let_def)
qed

lemma sample_inv: "accounts_inv std_asn_lib id id (accounts_create std_kv std_kv)"
  by (simp add: accounts_inv_def accounts_create_def std_kv_def)

text \<open>
  C19.  The invariant holds of the new account server, and adding an account keeps it: the account is
  found by its new ID and by its number, all other accounts as before.
\<close>

theorem accounts_add_invariant:
  assumes "kvstore KA kva" "kvstore KI kvi" "accounts_inv A kva kvi srv"
    and "accounts_add A KA KI randoms ac srv = Inr (ac', srv')"
  shows "accounts_inv A kva kvi (accounts_create KA KI) \<and> accounts_inv A kva kvi srv'
    \<and> (\<exists>i. ac' = setId i ac \<and> accounts_get KA i srv = None
        \<and> (\<forall>j. accounts_get KA j srv' = (if j = i then Some ac' else accounts_get KA j srv)))
    \<and> accounts_getByNumber A KA KI (ac_phoneNumber ac) srv' = Inr (Some ac')"
  using accounts_add_ok [OF assms] .

theorem accounts_add_invariant_witness:
  "\<exists>ac' srv'. accounts_add std_asn_lib std_kv std_kv [replicate 16 1] (Account (Some sample_phone) None sample_device)
     (accounts_create std_kv std_kv) = Inr (ac', srv')
   \<and> accounts_inv std_asn_lib id id srv'
   \<and> accounts_getByNumber std_asn_lib std_kv std_kv (Some sample_phone) srv' = Inr (Some ac')"
proof -
  obtain ac' srv' where r: "accounts_add std_asn_lib std_kv std_kv [replicate 16 1]
      (Account (Some sample_phone) None sample_device) (accounts_create std_kv std_kv) = Inr (ac', srv')"
    using sample_add by blast
  show ?thesis
    using accounts_add_invariant [OF std_kv.kvstore_axioms std_kv.kvstore_axioms sample_inv r] r
    by (auto simp: Account_def)
qed

text \<open>
  A phone number that has an account cannot be registered again: \<open>add\<close> raises an error, for all
  random strings, and as it is atomic nothing is stored.
\<close>

theorem accounts_add_twice:
  assumes "kvstore KA kva" "kvstore KI kvi" "accounts_inv A kva kvi srv"
    and "accounts_getByNumber A KA KI (ac_phoneNumber ac) srv = Inr (Some ac0)"
  shows "\<exists>e. accounts_add A KA KI randoms ac srv = Inl e"
proof (cases "accounts_add A KA KI randoms ac srv")
  case (Inr r)
  then obtain i num index where st: "phoneToNum A (ac_phoneNumber ac) = Inr num" "plain_add KI (as_phoneIndex srv) num i = Inr index"
    by (auto simp: accounts_add_def Let_def)
  then have "kvi (as_phoneIndex srv) num = None" using plain_add_Inr [OF assms(2)] by blast
  moreover have "as_version srv = 1" using assms(3) by (simp add: accounts_inv_def)
  ultimately have "accounts_getByNumber A KA KI (ac_phoneNumber ac) srv = Inr None"
    using st(1) by (simp add: accounts_getByNumber_def kvstore.get [OF assms(2)])
  with assms(4) show ?thesis by simp
qed simp

theorem accounts_add_twice_witness:
  "\<exists>ac' srv'. accounts_add std_asn_lib std_kv std_kv [replicate 16 1] (Account (Some sample_phone) None sample_device)
     (accounts_create std_kv std_kv) = Inr (ac', srv')
   \<and> (\<exists>e. accounts_add std_asn_lib std_kv std_kv [replicate 16 2] (Account (Some sample_phone) None sample_device) srv' = Inl e)"
proof -
  obtain ac' srv' where r: "accounts_add std_asn_lib std_kv std_kv [replicate 16 1]
      (Account (Some sample_phone) None sample_device) (accounts_create std_kv std_kv) = Inr (ac', srv')"
    using sample_add by blast
  note ok = accounts_add_ok [OF std_kv.kvstore_axioms std_kv.kvstore_axioms sample_inv r]
  show ?thesis
    using r accounts_add_twice [OF std_kv.kvstore_axioms std_kv.kvstore_axioms, where srv = srv'] ok by blast
qed

text \<open>The invariant of the PNI server: an identity is handed out for one number.\<close>

definition pni_inv :: "asn_lib \<Rightarrow> ('i \<Rightarrow> bytes \<Rightarrow> bytes option) \<Rightarrow> 'i pni_server \<Rightarrow> bool" where
  "pni_inv A kvi srv \<longleftrightarrow>
     (\<forall>num i. kvi (ps_pni srv) num = Some i \<longrightarrow>
        (\<exists>phone. kvi (ps_ipn srv) i = Some phone \<and> phoneToNum A (Some phone) = Inr num))
   \<and> ps_version srv = 1"

text \<open>
  The PNI server hands out one identity per number: asked again it returns the same one and
  changes nothing, the identities of other numbers stay and are different, and the identity leads
  back to a spelling of the number.
\<close>

theorem pni_getId_function:
  assumes "kvstore KI kvi" "pni_inv A kvi srv" "pni_getId A KI randoms phone srv = Inr (i, srv')"
    and "phoneToNum A (Some phone) = Inr num"
  shows "pni_inv A kvi (pni_create KI) \<and> pni_inv A kvi srv'
    \<and> pni_getId A KI randoms' phone srv' = Inr (i, srv')
    \<and> (\<exists>p. pni_getPhoneNumber KI i srv' = Some p \<and> phoneToNum A (Some p) = Inr num)
    \<and> (\<forall>phone2 num2 j. phoneToNum A (Some phone2) = Inr num2 \<and> num2 \<noteq> num
        \<and> pni_getId A KI [] phone2 srv = Inr (j, srv)
        \<longrightarrow> j \<noteq> i \<and> pni_getId A KI [] phone2 srv' = Inr (j, srv'))"
proof -
  note [simp] = kvstore.get [OF assms(1)] kvstore.set [OF assms(1)] kvstore.new [OF assms(1)]
  have v: "ps_version srv = 1" using assms(2) by (simp add: pni_inv_def)
  have new: "pni_inv A kvi (pni_create KI)" by (simp add: pni_inv_def pni_create_def)
  have got: "kvi (ps_pni srv) num2 = Some j"
    if "phoneToNum A (Some phone2) = Inr num2" "pni_getId A KI [] phone2 srv = Inr (j, srv)" for phone2 num2 j
    using that v by (auto simp: pni_getId_def pni_add_def split: option.splits)
  show ?thesis
  proof (cases "kvi (ps_pni srv) num")
    case (Some j)
    then have ij: "j = i" "srv' = srv" using assms(3,4) by (auto simp: pni_getId_def)
    have "\<exists>p. kvi (ps_ipn srv) i = Some p \<and> phoneToNum A (Some p) = Inr num"
      using Some ij assms(2) by (auto simp: pni_inv_def)
    moreover have "k \<noteq> i" if "phoneToNum A (Some phone2) = Inr num2" "num2 \<noteq> num"
      "pni_getId A KI [] phone2 srv = Inr (k, srv)" for phone2 num2 k
    proof
      assume "k = i"
      then have "kvi (ps_pni srv) num2 = Some i" "kvi (ps_pni srv) num = Some i"
        using got [OF that(1,3)] Some ij by simp_all
      then have "\<exists>p. phoneToNum A (Some p) = Inr num2 \<and> phoneToNum A (Some p) = Inr num"
        using assms(2) unfolding pni_inv_def by (metis option.inject)
      with that(2) show False by auto
    qed
    moreover have "pni_getId A KI randoms' phone srv' = Inr (i, srv')"
      using assms(4) Some ij by (simp add: pni_getId_def)
    ultimately show ?thesis
      using assms(2) ij(2) new by (auto simp: pni_getPhoneNumber_def)
  next
    case None
    then obtain ipn rest where
      st: "add_loop uuid_generate (\<lambda>i. plain_add KI (ps_ipn srv) i phone) randoms = Inr (i, ipn, rest)"
      "srv' = srv\<lparr>ps_ipn := ipn, ps_pni := kv_set KI (ps_pni srv) num (Some i)\<rparr>"
      using assms(3,4) v by (auto simp: pni_getId_def pni_add_def)
    have ipn: "kvi ipn = (kvi (ps_ipn srv))(i \<mapsto> phone)" "kvi (ps_ipn srv) i = None"
      using plain_add_Inr [OF assms(1)] add_loop_Inr [OF st(1)] by auto
    have s: "kvi (ps_pni srv') = (kvi (ps_pni srv))(num \<mapsto> i)" "kvi (ps_ipn srv') = kvi ipn" "ps_version srv' = 1"
      using v by (simp_all add: st(2))
    have fresh: "kvi (ps_pni srv) num2 \<noteq> Some i" for num2
    proof
      assume "kvi (ps_pni srv) num2 = Some i"
      then have "kvi (ps_ipn srv) i \<noteq> None" using assms(2) by (auto simp: pni_inv_def)
      with ipn(2) show False by simp
    qed
    have inv: "pni_inv A kvi srv'"
      unfolding pni_inv_def s
    proof (intro conjI allI impI)
      fix num' j assume "((kvi (ps_pni srv))(num \<mapsto> i)) num' = Some j"
      then show "\<exists>p. kvi ipn j = Some p \<and> phoneToNum A (Some p) = Inr num'"
        using assms(2,4) ipn fresh [of num'] unfolding pni_inv_def by (cases "num' = num") auto
    qed simp
    have "k \<noteq> i \<and> pni_getId A KI [] phone2 srv' = Inr (k, srv')"
      if "phoneToNum A (Some phone2) = Inr num2" "num2 \<noteq> num" "pni_getId A KI [] phone2 srv = Inr (k, srv)" for phone2 num2 k
      using got [OF that(1,3)] fresh [of num2] that(1,2) s by (auto simp: pni_getId_def)
    moreover have "pni_getId A KI randoms' phone srv' = Inr (i, srv')"
      using assms(4) s by (simp add: pni_getId_def)
    ultimately show ?thesis
      using inv new assms(4) s ipn(1) by (auto simp: pni_getPhoneNumber_def)
  qed
qed

theorem pni_getId_function_witness:
  "\<exists>num i srv'. phoneToNum std_asn_lib (Some sample_phone) = Inr num
   \<and> pni_getId std_asn_lib std_kv [replicate 16 1] sample_phone (pni_create std_kv) = Inr (i, srv')
   \<and> pni_getId std_asn_lib std_kv [] sample_phone srv' = Inr (i, srv')"
proof -
  obtain num where num: "phoneToNum std_asn_lib (Some sample_phone) = Inr num" using sample_num by blast
  obtain i where "uuid_generate (replicate 16 1) = Inr i" using sample_uuid by blast
  then have "\<exists>srv'. pni_getId std_asn_lib std_kv [replicate 16 1] sample_phone (pni_create std_kv) = Inr (i, srv')"
    using num by (simp add: pni_getId_def pni_add_def pni_create_def std_add std_new std_get)
  then obtain srv' where r: "pni_getId std_asn_lib std_kv [replicate 16 1] sample_phone (pni_create std_kv) = Inr (i, srv')" ..
  have "pni_inv std_asn_lib id (pni_create std_kv)" by (simp add: pni_inv_def pni_create_def std_kv_def)
  then show ?thesis
    using pni_getId_function [OF std_kv.kvstore_axioms _ r num, of "[]"] r num by blast
qed

lemma device_key_inj:
  assumes "length i = 16" "length j = 16"
  shows "device_key d i = device_key e j \<longleftrightarrow> d = e \<and> i = j"
  using assms by (auto simp: device_key_def)

text \<open>
  The registry returns the endpoint that a device registered last, as long as it exists, and
  registering one device changes nothing for the others: the keys of different devices differ.
\<close>

theorem online_present_register:
  assumes "kvstore KE kve" "length i = 16" "length j = 16"
  shows "online_present KE alive j e (online_register KE i d endpoint endpoints)
    = (if i = j \<and> d = e then (if alive endpoint then Some endpoint else None)
       else online_present KE alive j e endpoints)"
  using device_key_inj [OF assms(2,3), of d e]
  by (auto simp: online_present_def online_register_def obj_get_def obj_set_def kvstore.get [OF assms(1)]
      kvstore.set [OF assms(1)] obj_keyValue_def)

theorem online_present_register_witness:
  "online_present std_kv (\<lambda>_. True) (replicate 16 1) 12
     (online_register std_kv (replicate 16 1) 1 (5 :: nat) Map.empty) = online_present std_kv (\<lambda>_. True) (replicate 16 1) 12 Map.empty"
  by (subst online_present_register [OF std_kv.kvstore_axioms]) simp_all

end
