(* ===== verification/KeyServer.thy ===== *)
theory KeyServer
  imports Servers
begin

text \<open>
  The server of one-time keys (\<^verbatim>\<open>src/sys/keys.c\<close>): for every account (or phone number identity) a
  mapping of its devices to mappings of key IDs to public keys.  A mapping is an association
  list whose keys are distinct; \<open>map_indices\<close> gives its keys in the order of the list, the order
  of insertion.  The platform has an order of its own; no theorem depends on which key is the first.
\<close>

type_synonym key_map = "(lpcint \<times> bytes) list"
type_synonym device_map = "(lpcint \<times> key_map) list"

definition keys_create :: "('k, device_map, device_map) kvlib \<Rightarrow> 'k" where
  "keys_create KK = kv_new KK 199"

text \<open>\<open>for (i = sizeof(preKeys); --i >= 0; )\<close>; assigning \<open>nil\<close> removes a key.\<close>

fun store_loop :: "(lpcint \<times> bytes option) list \<Rightarrow> key_map \<Rightarrow> key_map" where
  "store_loop [] pkMap = pkMap"
| "store_loop ((keyId, publicKey) # pks) pkMap =
     store_loop pks (case publicKey of
       Some k \<Rightarrow> AList.update keyId k pkMap
     | None \<Rightarrow> AList.delete keyId pkMap)"

definition keys_store ::
    "('k, device_map, device_map) kvlib \<Rightarrow> bytes \<Rightarrow> lpcint \<Rightarrow> (lpcint \<times> bytes option) list \<Rightarrow> 'k \<Rightarrow> 'k" where
  "keys_store KK i deviceId preKeys keys =
     (let keys = (if plain_get KK keys i = None then kv_set KK keys i (Some []) else keys);
          pkMap = store_loop (rev preKeys) []
      in kv_modify KK keys i (AList.update deviceId pkMap))"

text \<open>The first key of a mapping, and the mapping without it.\<close>

definition takeKey ::
    "('k, device_map, device_map) kvlib \<Rightarrow> bytes \<Rightarrow> lpcint \<Rightarrow> 'k \<Rightarrow> ((lpcint \<times> bytes) option \<times> 'k) result" where
  "takeKey KK i deviceId keys =
     (case plain_get KK keys i of
        None \<Rightarrow> Inl Bad_argument
      | Some devMap \<Rightarrow>
          (case map_of devMap deviceId of
             None \<Rightarrow> Inl Bad_argument
           | Some [] \<Rightarrow> Inr (None, keys)
           | Some ((keyId, pubKey) # _) \<Rightarrow>
               Inr (Some (keyId, pubKey),
                    kv_modify KK keys i (AList.map_entry deviceId (AList.delete keyId)))))"

text \<open>The loop over the devices: what is taken, and the changed mappings.\<close>

fun take_each :: "device_map \<Rightarrow> (lpcint \<times> lpcint \<times> bytes) list \<times> device_map" where
  "take_each [] = ([], [])"
| "take_each ((deviceId, pkMap) # devs) =
     (let (result, devs) = take_each devs in
      case pkMap of
        [] \<Rightarrow> (result, (deviceId, pkMap) # devs)
      | (keyId, pubKey) # _ \<Rightarrow> ((deviceId, keyId, pubKey) # result, (deviceId, AList.delete keyId pkMap) # devs))"

definition takeKeys ::
    "('k, device_map, device_map) kvlib \<Rightarrow> bytes \<Rightarrow> 'k \<Rightarrow> ((lpcint \<times> lpcint \<times> bytes) list \<times> 'k) result" where
  "takeKeys KK i keys =
     (case plain_get KK keys i of
        None \<Rightarrow> Inl Bad_argument
      | Some devMap \<Rightarrow> Inr (fst (take_each devMap), kv_modify KK keys i (\<lambda>devMap. snd (take_each devMap))))"

definition keys_count :: "('k, device_map, device_map) kvlib \<Rightarrow> bytes \<Rightarrow> lpcint \<Rightarrow> 'k \<Rightarrow> nat result" where
  "keys_count KK i deviceId keys =
     (case plain_get KK keys i of
        None \<Rightarrow> Inl Bad_argument
      | Some devMap \<Rightarrow>
          (case map_of devMap deviceId of
             None \<Rightarrow> Inl Bad_argument
           | Some pkMap \<Rightarrow> Inr (length pkMap)))"

definition deleteUuid :: "('k, device_map, device_map) kvlib \<Rightarrow> bytes \<Rightarrow> 'k \<Rightarrow> 'k" where
  "deleteUuid KK i keys = kv_set KK keys i None"

definition deleteDevice :: "('k, device_map, device_map) kvlib \<Rightarrow> bytes \<Rightarrow> lpcint \<Rightarrow> 'k \<Rightarrow> 'k result" where
  "deleteDevice KK i deviceId keys =
     (if plain_get KK keys i = None then Inl Bad_argument
      else Inr (kv_modify KK keys i (AList.delete deviceId)))"

section \<open>The keys that are left\<close>

text \<open>All mappings of the server have distinct keys; every operation keeps that.\<close>

definition keys_wf :: "('k \<Rightarrow> bytes \<Rightarrow> device_map option) \<Rightarrow> 'k \<Rightarrow> bool" where
  "keys_wf kv keys \<longleftrightarrow> (\<forall>i devMap. kv keys i = Some devMap \<longrightarrow>
     distinct (map fst devMap) \<and> (\<forall>d pkMap. map_of devMap d = Some pkMap \<longrightarrow> distinct (map fst pkMap)))"

definition left :: "('k \<Rightarrow> bytes \<Rightarrow> device_map option) \<Rightarrow> 'k \<Rightarrow> (bytes \<times> lpcint \<times> lpcint) set" where
  "left kv keys = {(i, d, k). \<exists>devMap pkMap. kv keys i = Some devMap \<and> map_of devMap d = Some pkMap
     \<and> map_of pkMap k \<noteq> None}"

text \<open>Requests that take keys, and the keys a sequence of them hands out.\<close>

datatype take_op = Take bytes lpcint | Take_all bytes

definition take_step ::
    "('k, device_map, device_map) kvlib \<Rightarrow> take_op \<Rightarrow> 'k \<Rightarrow> (bytes \<times> lpcint \<times> lpcint) list \<times> 'k" where
  "take_step KK op keys =
     (case op of
        Take i d \<Rightarrow> (case takeKey KK i d keys of
            Inr (Some (k, p), keys) \<Rightarrow> ([(i, d, k)], keys)
          | Inr (None, keys) \<Rightarrow> ([], keys)
          | Inl e \<Rightarrow> ([], keys))
      | Take_all i \<Rightarrow> (case takeKeys KK i keys of
            Inr (ks, keys) \<Rightarrow> (map (\<lambda>(d, k, p). (i, d, k)) ks, keys)
          | Inl e \<Rightarrow> ([], keys)))"

fun take_run ::
    "('k, device_map, device_map) kvlib \<Rightarrow> take_op list \<Rightarrow> 'k \<Rightarrow> (bytes \<times> lpcint \<times> lpcint) list \<times> 'k" where
  "take_run KK [] keys = ([], keys)"
| "take_run KK (op # ops) keys =
     (let (taken, keys) = take_step KK op keys; (rest, keys) = take_run KK ops keys in (taken @ rest, keys))"

definition dk :: "lpcint \<times> lpcint \<times> bytes \<Rightarrow> lpcint \<times> lpcint" where
  "dk t = (fst t, fst (snd t))"

lemma dk_simp [simp]: "dk (d, k, p) = (d, k)"
  by (simp add: dk_def)

definition dev_wf :: "device_map \<Rightarrow> bool" where
  "dev_wf dm \<longleftrightarrow> distinct (map fst dm) \<and> (\<forall>d pkMap. map_of dm d = Some pkMap \<longrightarrow> distinct (map fst pkMap))"

definition dev_left :: "device_map \<Rightarrow> (lpcint \<times> lpcint) set" where
  "dev_left dm = {(d, k). \<exists>pkMap. map_of dm d = Some pkMap \<and> map_of pkMap k \<noteq> None}"

lemma keys_wf_dev: "keys_wf kv keys \<longleftrightarrow> (\<forall>i dm. kv keys i = Some dm \<longrightarrow> dev_wf dm)"
  by (simp add: keys_wf_def dev_wf_def)

lemma left_dev: "(i, d, k) \<in> left kv keys \<longleftrightarrow> (\<exists>dm. kv keys i = Some dm \<and> (d, k) \<in> dev_left dm)"
  by (auto simp: left_def dev_left_def)

lemma not_key: "d \<notin> fst ` set dm \<longleftrightarrow> map_of dm d = None"
  by (simp add: map_of_eq_None_iff)

lemma dev_left_Cons:
  "map_of dm d = None \<Longrightarrow> dev_left ((d, pk) # dm) = {d} \<times> dom (map_of pk) \<union> dev_left dm"
  by (auto simp: dev_left_def split: if_splits)

lemma dev_wf_Cons:
  "dev_wf ((d, pk) # dm) \<longleftrightarrow> map_of dm d = None \<and> distinct (map fst pk) \<and> dev_wf dm"
proof (cases "map_of dm d")
  case None
  have "(\<forall>e pkMap. map_of ((d, pk) # dm) e = Some pkMap \<longrightarrow> distinct (map fst pkMap))
      \<longleftrightarrow> distinct (map fst pk) \<and> (\<forall>e pkMap. map_of dm e = Some pkMap \<longrightarrow> distinct (map fst pkMap))"
    (is "?l \<longleftrightarrow> ?r")
  proof
    assume ?l
    then show ?r using None by (metis map_of_Cons_code(2) option.distinct(1))
  qed simp
  moreover have "d \<notin> set (map fst dm)" using None by (simp add: map_of_eq_None_iff)
  ultimately show ?thesis using None unfolding dev_wf_def by (simp del: map_of.simps) blast
next
  case (Some v)
  then have "d \<in> set (map fst dm)" by (metis map_of_eq_None_iff option.distinct(1) set_map)
  then show ?thesis using Some by (simp add: dev_wf_def)
qed

lemma take_each_ok:
  assumes "dev_wf dm"
  shows "map fst (snd (take_each dm)) = map fst dm \<and> dev_wf (snd (take_each dm))
    \<and> distinct (map dk (fst (take_each dm)))
    \<and> dk ` set (fst (take_each dm)) \<subseteq> dev_left dm
    \<and> dev_left (snd (take_each dm)) = dev_left dm - dk ` set (fst (take_each dm))"
  using assms
proof (induction dm)
  case (Cons x dm)
  obtain d pk where x: "x = (d, pk)" by (cases x)
  obtain res dm' where r: "take_each dm = (res, dm')" by (cases "take_each dm")
  have d: "map_of dm d = None" and wf: "dev_wf dm" "distinct (map fst pk)" using Cons.prems x by (simp_all add: dev_wf_Cons)
  have IH: "map fst dm' = map fst dm" "dev_wf dm'" "distinct (map dk res)"
    "dk ` set res \<subseteq> dev_left dm" "dev_left dm' = dev_left dm - dk ` set res"
    using Cons.IH [OF wf(1)] r by simp_all
  have "d \<notin> set (map fst dm')" unfolding IH(1) using d by (simp add: not_key)
  then have d': "map_of dm' d = None" by (simp add: not_key)
  have out: "(d, k) \<notin> dev_left dm" for k using d by (simp add: dev_left_def)
  then have res: "(d, k) \<notin> dk ` set res" for k using IH(4) by blast
  show ?case
  proof (cases pk)
    case Nil
    then show ?thesis
      using IH d d' by (simp add: x r dev_left_Cons dev_wf_Cons)
  next
    case (Cons kp pk')
    obtain k p where kp: "kp = (k, p)" by (cases kp)
    have step: "take_each ((d, pk) # dm) = ((d, k, p) # res, (d, AList.delete k pk) # dm')"
      by (simp add: r Cons kp)
    have k: "map_of pk k \<noteq> None" by (simp add: Cons kp)
    have wf': "distinct (map fst (AList.delete k pk))" using wf(2) by (rule AList.distinct_delete)
    have 1: "dev_left ((d, AList.delete k pk) # dm') = dev_left ((d, pk) # dm) - insert (d, k) (dk ` set res)"
      using d d' IH(5) res out by (auto simp: dev_left_Cons AList.delete_conv' split: if_splits)
    have 2: "(d, k) \<in> dev_left ((d, pk) # dm)" "dev_left dm \<subseteq> dev_left ((d, pk) # dm)"
      using d k by (auto simp: dev_left_Cons)
    have 3: "dk ` set res \<subseteq> dev_left ((d, pk) # dm)" using IH(4) 2(2) by (rule order.trans)
    have 4: "dev_wf ((d, AList.delete k pk) # dm')" using d' wf' IH(2) by (simp add: dev_wf_Cons)
    have 5: "distinct (map dk ((d, k, p) # res))" using IH(3) res by simp
    show ?thesis
      unfolding x step fst_conv snd_conv list.set image_insert dk_simp
      using 1 2(1) 3 4 5 IH(1) by (intro conjI insert_subsetI) simp_all
  qed
qed (simp add: dev_wf_def dev_left_def)

lemma map_entry_ok:
  assumes "dev_wf dm" "map_of dm d = Some ((k, p) # pk)"
  shows "dev_wf (AList.map_entry d (AList.delete k) dm)"
    "(d, k) \<in> dev_left dm"
    "dev_left (AList.map_entry d (AList.delete k) dm) = dev_left dm - {(d, k)}"
proof -
  define pk' where "pk' = AList.delete k ((k, p) # pk)"
  have m: "map_of (AList.map_entry d (AList.delete k) dm) = (map_of dm)(d \<mapsto> pk')"
    using assms(2) by (simp add: AList.map_of_map_entry fun_eq_iff pk'_def)
  have pk': "map_of pk' = (map_of ((k, p) # pk))(k := None)" unfolding pk'_def by (rule AList.delete_conv')
  have wf: "distinct (map fst dm)" "\<And>d pkMap. map_of dm d = Some pkMap \<Longrightarrow> distinct (map fst pkMap)"
    using assms(1) by (simp_all add: dev_wf_def)
  have "distinct (map fst ((k, p) # pk))" using wf(2) assms(2) .
  then have "distinct (map fst pk')" unfolding pk'_def by (rule AList.distinct_delete)
  then have "\<forall>d' pkMap. map_of (AList.map_entry d (AList.delete k) dm) d' = Some pkMap \<longrightarrow> distinct (map fst pkMap)"
    using wf(2) unfolding m by (metis fun_upd_apply option.inject)
  moreover have "distinct (map fst (AList.map_entry d (AList.delete k) dm))"
    using wf(1) by (rule AList.distinct_map_entry)
  ultimately show "dev_wf (AList.map_entry d (AList.delete k) dm)" by (simp add: dev_wf_def)
  show "(d, k) \<in> dev_left dm" using assms(2) by (simp add: dev_left_def)
  show "dev_left (AList.map_entry d (AList.delete k) dm) = dev_left dm - {(d, k)}"
  proof (rule set_eqI)
    fix x :: "lpcint \<times> lpcint" obtain d' k' where x: "x = (d', k')" by (cases x)
    show "x \<in> dev_left (AList.map_entry d (AList.delete k) dm) \<longleftrightarrow> x \<in> dev_left dm - {(d, k)}"
      using assms(2) by (cases "d' = d") (auto simp: x dev_left_def m pk' split: if_splits)
  qed
qed

lemma left_upd:
  assumes "kv keys i = Some dm" "kv keys' = (kv keys)(i \<mapsto> dm')" "dev_left dm' = dev_left dm - T"
  shows "left kv keys' = left kv keys - Pair i ` T"
proof (rule set_eqI)
  fix x :: "bytes \<times> lpcint \<times> lpcint"
  obtain j d k where x: "x = (j, d, k)" by (cases x)
  show "x \<in> left kv keys' \<longleftrightarrow> x \<in> left kv keys - Pair i ` T"
  proof (cases "j = i")
    case True
    then have "x \<in> left kv keys' \<longleftrightarrow> (d, k) \<in> dev_left dm'" by (simp add: x left_dev assms(2))
    moreover have "x \<in> left kv keys \<longleftrightarrow> (d, k) \<in> dev_left dm" by (simp add: x True left_dev assms(1))
    ultimately show ?thesis using True assms(3) by (auto simp: x)
  qed (auto simp: x left_dev assms(2))
qed

lemma left_mem: "kv keys i = Some dm \<Longrightarrow> (i, d, k) \<in> left kv keys \<longleftrightarrow> (d, k) \<in> dev_left dm"
  by (simp add: left_dev)

lemma wf_upd: "keys_wf kv keys \<Longrightarrow> kv keys' = (kv keys)(i \<mapsto> dm') \<Longrightarrow> dev_wf dm' \<Longrightarrow> keys_wf kv keys'"
  by (simp add: keys_wf_dev)

lemma take_step_ok:
  assumes "kvstore KK kv" "keys_wf kv keys" "take_step KK op keys = (taken, keys')"
  shows "keys_wf kv keys' \<and> distinct taken \<and> set taken \<subseteq> left kv keys \<and> left kv keys' = left kv keys - set taken"
proof (cases op)
  case (Take i d)
  show ?thesis
  proof (cases "\<exists>dm k p pk. kv keys i = Some dm \<and> map_of dm d = Some ((k, p) # pk)")
    case True
    then obtain dm k p pk where dm: "kv keys i = Some dm" "map_of dm d = Some ((k, p) # pk)" by blast
    then have r: "taken = [(i, d, k)]" "keys' = kv_modify KK keys i (AList.map_entry d (AList.delete k))"
      using assms(3) Take by (auto simp: take_step_def takeKey_def kvstore.get [OF assms(1)])
    have s: "kv keys' = (kv keys)(i \<mapsto> AList.map_entry d (AList.delete k) dm)"
      by (simp add: r(2) kvstore.modify [OF assms(1)] dm(1))
    have wf: "dev_wf dm" using assms(2) dm(1) by (simp add: keys_wf_dev)
    note m = map_entry_ok [OF wf dm(2)]
    have "left kv keys' = left kv keys - {(i, d, k)}"
      using left_upd [of kv keys i dm keys' _ "{(d, k)}", OF dm(1) s m(3)] by simp
    moreover have "(i, d, k) \<in> left kv keys" using left_mem [of kv, OF dm(1)] m(2) by simp
    moreover have "keys_wf kv keys'" using wf_upd [OF assms(2) s m(1)] .
    ultimately show ?thesis by (simp add: r(1))
  next
    case False
    then have "taken = [] \<and> keys' = keys"
      using assms(3) Take by (auto simp: take_step_def takeKey_def kvstore.get [OF assms(1)] split: option.splits list.splits)
    then show ?thesis using assms(2) by simp
  qed
next
  case (Take_all i)
  show ?thesis
  proof (cases "kv keys i")
    case None
    then have "taken = [] \<and> keys' = keys"
      using assms(3) Take_all by (simp add: take_step_def takeKeys_def kvstore.get [OF assms(1)])
    then show ?thesis using assms(2) by simp
  next
    case (Some dm)
    let ?R = "dk ` set (fst (take_each dm))"
    have r: "taken = map (\<lambda>(d, k, p). (i, d, k)) (fst (take_each dm))"
      "keys' = kv_modify KK keys i (\<lambda>dm. snd (take_each dm))"
      using assms(3) Take_all Some by (auto simp: take_step_def takeKeys_def kvstore.get [OF assms(1)])
    have t: "taken = map (Pair i) (map dk (fst (take_each dm)))" by (simp add: r(1) comp_def split_def dk_def)
    have s: "kv keys' = (kv keys)(i \<mapsto> snd (take_each dm))"
      by (simp add: r(2) kvstore.modify [OF assms(1)] Some)
    have wf: "dev_wf dm" using assms(2) Some by (simp add: keys_wf_dev)
    note m = take_each_ok [OF wf]
    have set: "set taken = Pair i ` ?R" by (simp add: t image_image)
    have "distinct taken" unfolding t using m by (subst distinct_map) (auto simp: inj_on_def)
    moreover have "left kv keys' = left kv keys - set taken"
      using left_upd [of kv keys i dm keys' _ "?R", OF Some s] m unfolding set by blast
    moreover have "set taken \<subseteq> left kv keys"
    proof -
      have "?R \<subseteq> dev_left dm" using m by blast
      then show ?thesis using left_mem [of kv, OF Some] unfolding set by auto
    qed
    moreover have "keys_wf kv keys'" using wf_upd [OF assms(2) s] m by blast
    ultimately show ?thesis by simp
  qed
qed

lemma take_run_ok:
  assumes "kvstore KK kv"
  shows "keys_wf kv keys \<Longrightarrow> take_run KK ops keys = (taken, keys') \<Longrightarrow>
    keys_wf kv keys' \<and> distinct taken \<and> set taken \<subseteq> left kv keys \<and> left kv keys' = left kv keys - set taken"
proof (induction ops arbitrary: keys taken)
  case (Cons op ops)
  obtain t1 k1 where s1: "take_step KK op keys = (t1, k1)" by (cases "take_step KK op keys")
  obtain t2 where s2: "take_run KK ops k1 = (t2, keys')" "taken = t1 @ t2"
    using Cons.prems(2) s1 by (auto split: prod.splits)
  note a = take_step_ok [OF assms Cons.prems(1) s1]
  then have b: "keys_wf kv keys' \<and> distinct t2 \<and> set t2 \<subseteq> left kv k1 \<and> left kv keys' = left kv k1 - set t2"
    using Cons.IH [OF _ s2(1)] by blast
  show ?case using a b unfolding s2(2) distinct_append set_append by blast
qed simp

lemma store_loop_distinct: "distinct (map fst m) \<Longrightarrow> distinct (map fst (store_loop pks m))"
proof (induction pks m rule: store_loop.induct)
  case (2 keyId publicKey pks m)
  then show ?case by (cases publicKey) (simp_all add: AList.distinct_update AList.distinct_delete)
qed simp

lemma store_loop_append: "store_loop (xs @ ys) m = store_loop ys (store_loop xs m)"
  by (induction xs m rule: store_loop.induct) simp_all

text \<open>Of two keys with one ID the first of the array is kept, as it is assigned last.\<close>

lemma store_loop_map:
  "map_of (store_loop (rev (map (\<lambda>(k, p). (k, Some p)) pks)) []) = map_of pks"
proof (induction pks)
  case (Cons x pks)
  then show ?case by (cases x) (simp add: store_loop_append AList.update_conv')
qed simp

section \<open>Properties\<close>

text \<open>
  C18.  A one-time key is handed out at most once: whatever sequence of requests for one key or for
  one key of every device is served, the keys handed out are different, were there at the start,
  and are the ones that are missing at the end.
\<close>

theorem one_time_keys:
  assumes "kvstore KK kv" "keys_wf kv keys" "take_run KK ops keys = (taken, keys')"
  shows "distinct taken \<and> set taken \<subseteq> left kv keys \<and> left kv keys' = left kv keys - set taken \<and> keys_wf kv keys'"
  using take_run_ok [OF assms] by blast

theorem one_time_keys_witness:
  "let keys = keys_store std_kv [1] 1 [(10, Some [7]), (11, Some [8])] (keys_create std_kv);
       (taken, keys') = take_run std_kv [Take [1] 1, Take_all [1], Take [1] 1] keys
   in distinct taken \<and> set taken \<subseteq> left id keys \<and> left id keys' = left id keys - set taken \<and> keys_wf id keys'"
proof -
  define keys where "keys = keys_store std_kv [1] 1 [(10, Some [7]), (11, Some [8])] (keys_create std_kv)"
  obtain taken keys' where r: "take_run std_kv [Take [1] 1, Take_all [1], Take [1] 1] keys = (taken, keys')"
    by (cases "take_run std_kv [Take [1] 1, Take_all [1], Take [1] 1] keys")
  have "keys_wf id keys"
    by (auto simp: keys_wf_def keys_def keys_store_def keys_create_def std_kv_def split: if_splits)
  from one_time_keys [OF std_kv.kvstore_axioms this r] show ?thesis
    unfolding keys_def [symmetric] Let_def r prod.case .
qed

text \<open>
  Storing keys replaces the keys of one device by those given and leaves all others; the
  mappings keep distinct keys, also when keys are deleted.
\<close>

theorem keys_store_replaces:
  assumes "kvstore KK kv" "keys_wf kv keys"
  shows "let keys' = keys_store KK i d (map (\<lambda>(k, p). (k, Some p)) pks) keys in
      keys_wf kv keys'
    \<and> (\<exists>devMap pkMap. kv keys' i = Some devMap \<and> map_of devMap d = Some pkMap \<and> map_of pkMap = map_of pks)
    \<and> (\<forall>j e k. (j, e) \<noteq> (i, d) \<longrightarrow> ((j, e, k) \<in> left kv keys' \<longleftrightarrow> (j, e, k) \<in> left kv keys))
    \<and> keys_wf kv (deleteUuid KK i keys)
    \<and> (\<forall>keys''. deleteDevice KK i d keys = Inr keys'' \<longrightarrow> keys_wf kv keys'')"
proof -
  define pkMap where "pkMap = store_loop (rev (map (\<lambda>(k, p). (k, Some p)) pks)) []"
  define keys' where "keys' = keys_store KK i d (map (\<lambda>(k, p). (k, Some p)) pks) keys"
  have pk: "distinct (map fst pkMap)" "map_of pkMap = map_of pks"
    unfolding pkMap_def by (rule store_loop_distinct, simp, rule store_loop_map)
  define dm where "dm = (case kv keys i of None \<Rightarrow> [] | Some dm \<Rightarrow> dm)"
  have wf: "dev_wf dm" using assms(2) by (auto simp: dm_def keys_wf_dev dev_wf_def split: option.splits)
  have s: "kv keys' = (kv keys)(i \<mapsto> AList.update d pkMap dm)"
    by (cases "kv keys i") (simp_all add: keys'_def keys_store_def Let_def pkMap_def [symmetric] dm_def
        kvstore.get [OF assms(1)] kvstore.set [OF assms(1)] kvstore.modify [OF assms(1)])
  have wf': "dev_wf (AList.update d pkMap dm)"
    using wf pk(1) by (auto simp: dev_wf_def AList.distinct_update AList.update_conv' split: if_splits)
  have "keys_wf kv keys'" using wf_upd [OF assms(2) s wf'] .
  moreover have "\<exists>devMap pkMap. kv keys' i = Some devMap \<and> map_of devMap d = Some pkMap \<and> map_of pkMap = map_of pks"
    using pk(2) by (auto simp: s AList.update_conv')
  moreover have "(j, e, k) \<in> left kv keys' \<longleftrightarrow> (j, e, k) \<in> left kv keys" if "(j, e) \<noteq> (i, d)" for j e k
    using that by (cases "kv keys i") (auto simp: left_dev s dev_left_def AList.update_conv' dm_def)
  moreover have "keys_wf kv (deleteUuid KK i keys)"
    using assms(2) by (auto simp: keys_wf_def deleteUuid_def kvstore.set [OF assms(1)] split: if_splits)
  moreover have "keys_wf kv keys''" if del: "deleteDevice KK i d keys = Inr keys''" for keys''
  proof -
    obtain dm where dm: "kv keys i = Some dm" "keys'' = kv_modify KK keys i (AList.delete d)"
      using del by (cases "kv keys i") (simp_all add: deleteDevice_def kvstore.get [OF assms(1)])
    have "dev_wf dm" using assms(2) dm(1) by (simp add: keys_wf_dev)
    then have "dev_wf (AList.delete d dm)"
      by (auto simp: dev_wf_def AList.distinct_delete AList.delete_conv' split: if_splits)
    then show ?thesis
      using wf_upd [OF assms(2)] dm by (simp add: kvstore.modify [OF assms(1)])
  qed
  ultimately show ?thesis by (simp add: keys'_def Let_def)
qed

theorem keys_store_replaces_witness:
  "let keys' = keys_store std_kv [1] 1 [(10, Some [7])] (keys_create std_kv) in
      keys_wf id keys' \<and> (\<exists>devMap pkMap. keys' [1] = Some devMap \<and> map_of devMap 1 = Some pkMap \<and> map_of pkMap = [10 \<mapsto> [7]])"
proof -
  have "keys_wf id (keys_create std_kv)" by (simp add: keys_wf_def keys_create_def std_kv_def)
  from keys_store_replaces [OF std_kv.kvstore_axioms this, of "[1]" 1 "[(10, [7])]"]
  show ?thesis by (simp add: Let_def)
qed

end
