(* ===== verification/Action.thy ===== *)
theory Action
  imports Lpc
begin

text \<open>
  Functions of objects with a state, as actions.

  An action takes the state of its object to a result, the new state and the list of what it asked
  other objects to do, in order (\<open>'e\<close> is the type of these events).  An error ends the action, but
  the changes and the events before it stay: outside atomic functions the platform does not undo
  them.  \<open>acatch\<close> is \<open>try { ... } catch (...) { ... }\<close>.
\<close>

type_synonym ('s, 'e, 'a) action = "'s \<Rightarrow> 'a result \<times> 's \<times> 'e list"

definition aret :: "'a \<Rightarrow> ('s, 'e, 'a) action" where
  "aret a = (\<lambda>s. (Inr a, s, []))"

definition afail :: "lpc_error \<Rightarrow> ('s, 'e, 'a) action" where
  "afail e = (\<lambda>s. (Inl e, s, []))"

definition alift :: "'a result \<Rightarrow> ('s, 'e, 'a) action" where
  "alift r = (\<lambda>s. (r, s, []))"

definition aemit :: "'e \<Rightarrow> ('s, 'e, unit) action" where
  "aemit e = (\<lambda>s. (Inr (), s, [e]))"

definition aget :: "('s \<Rightarrow> 'a) \<Rightarrow> ('s, 'e, 'a) action" where
  "aget f = (\<lambda>s. (Inr (f s), s, []))"

definition amod :: "('s \<Rightarrow> 's) \<Rightarrow> ('s, 'e, unit) action" where
  "amod f = (\<lambda>s. (Inr (), f s, []))"

definition abind :: "('s, 'e, 'a) action \<Rightarrow> ('a \<Rightarrow> ('s, 'e, 'b) action) \<Rightarrow> ('s, 'e, 'b) action" where
  "abind m f = (\<lambda>s.
     let (r, s, ev) = m s in
     case r of
       Inl e \<Rightarrow> (Inl e, s, ev)
     | Inr a \<Rightarrow> (let (r, s, ev') = f a s in (r, s, ev @ ev')))"

definition athen :: "('s, 'e, 'a) action \<Rightarrow> ('s, 'e, 'b) action \<Rightarrow> ('s, 'e, 'b) action" where
  "athen m n = abind m (\<lambda>_. n)"

definition acatch :: "('s, 'e, 'a) action \<Rightarrow> ('s, 'e, 'a) action \<Rightarrow> ('s, 'e, 'a) action" where
  "acatch m h = (\<lambda>s.
     let (r, s, ev) = m s in
     case r of
       Inl e \<Rightarrow> (let (r, s, ev') = h s in (r, s, ev @ ev'))
     | Inr a \<Rightarrow> (Inr a, s, ev))"

definition aif :: "bool \<Rightarrow> ('s, 'e, unit) action \<Rightarrow> ('s, 'e, unit) action" where
  "aif b m = (if b then m else aret ())"

text \<open>What an action does from a state.\<close>

named_theorems action_simps

lemma aret_run [action_simps]: "aret a s = (Inr a, s, [])" by (simp add: aret_def)
lemma afail_run [action_simps]: "afail e s = (Inl e, s, [])" by (simp add: afail_def)
lemma alift_run [action_simps]: "alift r s = (r, s, [])" by (simp add: alift_def)
lemma aemit_run [action_simps]: "aemit e s = (Inr (), s, [e])" by (simp add: aemit_def)
lemma aget_run [action_simps]: "aget f s = (Inr (f s), s, [])" by (simp add: aget_def)
lemma amod_run [action_simps]: "amod f s = (Inr (), f s, [])" by (simp add: amod_def)

lemma abind_Inr: "m s = (Inr a, t, ev) \<Longrightarrow> abind m f s = (case f a t of (r, u, ev') \<Rightarrow> (r, u, ev @ ev'))"
  by (simp add: abind_def)

lemma abind_Inl: "m s = (Inl e, t, ev) \<Longrightarrow> abind m f s = (Inl e, t, ev)"
  by (simp add: abind_def)

lemma abind_basic [action_simps]:
  "abind (aret a) f s = f a s"
  "abind (afail e) f s = (Inl e, s, [])"
  "abind (aget g) f s = f (g s) s"
  "abind (amod h) f' s = f' () (h s)"
  "abind (aemit x) f' s = (case f' () s of (r, u, ev) \<Rightarrow> (r, u, x # ev))"
  "abind (alift (Inr a)) f s = f a s"
  "abind (alift (Inl e)) f s = (Inl e, s, [])"
  by (simp_all add: abind_def aret_def afail_def aget_def amod_def aemit_def alift_def)

lemma abind_assoc: "abind (abind m f) g = abind m (\<lambda>a. abind (f a) g)"
  by (rule ext) (simp add: abind_def split: prod.split sum.split)

lemma athen_abind [action_simps]: "athen m n = abind m (\<lambda>_. n)"
  by (simp add: athen_def)

lemma acatch_Inr: "m s = (Inr a, t, ev) \<Longrightarrow> acatch m h s = (Inr a, t, ev)"
  by (simp add: acatch_def)

lemma acatch_Inl: "m s = (Inl e, t, ev) \<Longrightarrow> acatch m h s = (case h t of (r, u, ev') \<Rightarrow> (r, u, ev @ ev'))"
  by (simp add: acatch_def)

lemma abind_eqD:
  assumes "abind m f s = (r, t, ev)"
  obtains e where "m s = (Inl e, t, ev)" "r = Inl e"
    | a u ev1 ev2 where "m s = (Inr a, u, ev1)" "f a u = (r, t, ev2)" "ev = ev1 @ ev2"
  using assms by (cases "m s") (auto simp: abind_def split: sum.splits prod.splits)

section \<open>What holds of every run\<close>

text \<open>
  \<open>ensures I P Q m\<close>: from a state that satisfies \<open>I\<close>, the action keeps \<open>I\<close>, raising an error or not;
  every event satisfies \<open>P\<close> and the value it returns satisfies \<open>Q\<close>.
\<close>

definition ensures :: "('s \<Rightarrow> bool) \<Rightarrow> ('e \<Rightarrow> bool) \<Rightarrow> ('a \<Rightarrow> bool) \<Rightarrow> ('s, 'e, 'a) action \<Rightarrow> bool" where
  "ensures I P Q m \<longleftrightarrow>
     (\<forall>s r t ev. I s \<and> m s = (r, t, ev) \<longrightarrow> I t \<and> (\<forall>x\<in>set ev. P x) \<and> (\<forall>a. r = Inr a \<longrightarrow> Q a))"

named_theorems ensures_intros

lemma ensuresI:
  assumes "\<And>s r t ev. I s \<Longrightarrow> m s = (r, t, ev) \<Longrightarrow> I t \<and> (\<forall>x\<in>set ev. P x) \<and> (\<forall>a. r = Inr a \<longrightarrow> Q a)"
  shows "ensures I P Q m"
  using assms unfolding ensures_def by blast

lemma ensuresD:
  assumes "ensures I P Q m" "I s" "m s = (r, t, ev)"
  shows "I t" "x \<in> set ev \<Longrightarrow> P x" "r = Inr a \<Longrightarrow> Q a"
  using assms unfolding ensures_def by blast+

lemma ensures_weaken:
  assumes "ensures I P Q m" "\<And>x. P x \<Longrightarrow> P' x" "\<And>a. Q a \<Longrightarrow> Q' a"
  shows "ensures I P' Q' m"
  using assms unfolding ensures_def by blast

lemma ensures_ret [ensures_intros]: "Q a \<Longrightarrow> ensures I P Q (aret a)"
  and ensures_fail [ensures_intros]: "ensures I P Q (afail e)"
  by (simp_all add: ensures_def action_simps)

lemma ensures_lift [ensures_intros]: "(\<And>a. r = Inr a \<Longrightarrow> Q a) \<Longrightarrow> ensures I P Q (alift r)"
  by (simp add: ensures_def action_simps)

lemma ensures_get [ensures_intros]: "(\<And>s. I s \<Longrightarrow> Q (f s)) \<Longrightarrow> ensures I P Q (aget f)"
  by (simp add: ensures_def action_simps)

lemma ensures_emit [ensures_intros]: "P x \<Longrightarrow> Q () \<Longrightarrow> ensures I P Q (aemit x)"
  and ensures_mod [ensures_intros]: "(\<And>s. I s \<Longrightarrow> I (g s)) \<Longrightarrow> Q () \<Longrightarrow> ensures I P Q (amod g)"
  by (simp_all add: ensures_def action_simps)

lemma ensures_bind:
  assumes m: "ensures I P R m" and f: "\<And>a. R a \<Longrightarrow> ensures I P Q (f a)"
  shows "ensures I P Q (abind m f)"
proof (rule ensuresI)
  fix s r t ev
  assume s: "I s" and run: "abind m f s = (r, t, ev)"
  show "I t \<and> (\<forall>x\<in>set ev. P x) \<and> (\<forall>a. r = Inr a \<longrightarrow> Q a)" using run
  proof (cases rule: abind_eqD)
    case (1 e)
    then show ?thesis using ensuresD(1,2) [OF m s 1(1)] by blast
  next
    case (2 a u ev1 ev2)
    have u: "I u" "\<And>x. x \<in> set ev1 \<Longrightarrow> P x" "R a" using ensuresD [OF m s 2(1)] by blast+
    then show ?thesis using ensuresD [OF f [OF u(3)] u(1) 2(2)] 2(3) by auto
  qed
qed

lemma ensures_then:
  assumes "ensures I P (\<lambda>_. True) m" "ensures I P Q n"
  shows "ensures I P Q (athen m n)"
  unfolding athen_def using assms by (blast intro: ensures_bind)

lemma ensures_catch:
  assumes m: "ensures I P Q m" and h: "ensures I P Q h"
  shows "ensures I P Q (acatch m h)"
proof (rule ensuresI)
  fix s r t ev
  assume s: "I s" and run: "acatch m h s = (r, t, ev)"
  obtain r' u ev1 where mu: "m s = (r', u, ev1)" by (cases "m s") auto
  obtain r2 t2 ev2 where hu: "h u = (r2, t2, ev2)" by (cases "h u") auto
  have u: "I u" "\<And>x. x \<in> set ev1 \<Longrightarrow> P x" using ensuresD(1,2) [OF m s mu] by blast+
  note a = ensuresD(3) [OF m s mu]
  show "I t \<and> (\<forall>x\<in>set ev. P x) \<and> (\<forall>a. r = Inr a \<longrightarrow> Q a)"
    using run mu hu u a ensuresD [OF h u(1) hu] by (cases r') (auto simp: acatch_def)
qed

lemma ensures_aif: "(b \<Longrightarrow> ensures I P Q m) \<Longrightarrow> Q () \<Longrightarrow> ensures I P Q (aif b m)"
  by (simp add: aif_def ensures_ret)

text \<open>Case distinctions, as rules.\<close>

lemma ensures_if:
  "(b \<Longrightarrow> ensures I P Q m) \<Longrightarrow> (\<not> b \<Longrightarrow> ensures I P Q n) \<Longrightarrow> ensures I P Q (if b then m else n)"
  by simp

lemma ensures_option:
  "(x = None \<Longrightarrow> ensures I P Q m) \<Longrightarrow> (\<And>a. x = Some a \<Longrightarrow> ensures I P Q (f a)) \<Longrightarrow>
    ensures I P Q (case x of None \<Rightarrow> m | Some a \<Rightarrow> f a)"
  by (cases x) simp_all

lemma ensures_seq: "ensures I P (\<lambda>_. True) m \<Longrightarrow> (\<And>a. ensures I P Q (f a)) \<Longrightarrow> ensures I P Q (abind m f)"
  by (blast intro: ensures_bind)

lemmas ensures_rules = ensures_then ensures_catch ensures_aif ensures_if ensures_option

end
