(* ===== verification/ProtoSpec.thy ===== *)
theory ProtoSpec
  imports Proto
begin

text \<open>
  The wire format as functions on plain byte strings (\<open>flat_int\<close>, \<open>flat_asn\<close>,
  \<open>flat_bytes\<close>, \<open>flat_string\<close>), the refinement of the chunked parsers of \<open>Proto\<close> to them,
  and the round trips.  \<open>parses\<close> is the refinement relation; its rules for sequencing carry
  the proofs about messages in the theories above.
\<close>

section \<open>The refinement relation\<close>

definition ps_ok :: "pstate \<Rightarrow> bool" where
  "ps_ok st \<longleftrightarrow> [] \<notin> set (ps_chunks st) \<and> (\<forall>b. ps_buf st = Some b \<longrightarrow> ps_off st \<le> length b)"

definition live :: "pstate \<Rightarrow> bool" where
  "live st \<longleftrightarrow> ps_buf st \<noteq> None"

text \<open>A buffer with nothing read from it yet.\<close>

definition fresh :: "bytes list \<Rightarrow> pstate" where
  "fresh cs = \<lparr>ps_chunks = cs, ps_buf = None, ps_off = 0\<rparr>"

definition parses ::
    "bool \<Rightarrow> (pstate \<Rightarrow> ('a \<times> pstate) result) \<Rightarrow> (bytes \<Rightarrow> ('a \<times> bytes) option) \<Rightarrow> bool" where
  "parses need_live P F \<longleftrightarrow>
     (\<forall>st. ps_ok st \<longrightarrow> (need_live \<longrightarrow> live st) \<longrightarrow>
       (case F (pending st) of
          None \<Rightarrow> \<exists>e. P st = Inl e
        | Some (v, r) \<Rightarrow> \<exists>st'. P st = Inr (v, st') \<and> ps_ok st' \<and> live st' \<and> pending st' = r))"

lemma pending_fresh [simp]: "pending (fresh cs) = concat cs"
  and ps_ok_fresh [simp]: "ps_ok (fresh cs) \<longleftrightarrow> [] \<notin> set cs"
  by (auto simp: pending_def fresh_def ps_ok_def)

lemma parsesD_Some:
  assumes "parses L P F" "F (pending st) = Some (v, r)" "ps_ok st" "L \<longrightarrow> live st"
  obtains st' where "P st = Inr (v, st')" "ps_ok st'" "live st'" "pending st' = r"
  using assms by (fastforce simp: parses_def)

lemma parsesD_None:
  assumes "parses L P F" "F (pending st) = None" "ps_ok st" "L \<longrightarrow> live st"
  obtains e where "P st = Inl e"
  using assms by (fastforce simp: parses_def)

lemma parses_cases:
  assumes "parses L P F" "ps_ok st" "L \<longrightarrow> live st"
  obtains (ok) v r st' where "F (pending st) = Some (v, r)" "P st = Inr (v, st')" "ps_ok st'" "live st'"
      "pending st' = r"
    | (err) e where "F (pending st) = None" "P st = Inl e"
  using assms by (cases "F (pending st)") (auto elim: parsesD_Some parsesD_None)

lemma parses_weaken: "parses L P F \<Longrightarrow> (L' \<Longrightarrow> L) \<Longrightarrow> L' \<or> \<not> L \<Longrightarrow> parses L' P F"
  by (auto simp: parses_def)

lemma parses_bind:
  assumes P: "parses L P F" and Q: "\<And>v. parses True (Q v) (G v)"
  shows "parses L (\<lambda>st. rbind (P st) (\<lambda>(v, st). Q v st))
    (\<lambda>bs. case F bs of None \<Rightarrow> None | Some (v, r) \<Rightarrow> G v r)"
  unfolding parses_def
proof (intro allI impI)
  fix st assume st: "ps_ok st" "L \<longrightarrow> live st"
  from P st show "case case F (pending st) of None \<Rightarrow> None | Some (v, r) \<Rightarrow> G v r of
      None \<Rightarrow> \<exists>e. rbind (P st) (\<lambda>(v, st). Q v st) = Inl e
    | Some (v, r) \<Rightarrow> \<exists>st'. rbind (P st) (\<lambda>(v, st). Q v st) = Inr (v, st') \<and> ps_ok st' \<and> live st'
        \<and> pending st' = r"
  proof (cases rule: parses_cases)
    case (ok v r st')
    from Q [of v] ok(3,4) have "case G v (pending st') of None \<Rightarrow> \<exists>e. Q v st' = Inl e
      | Some (w, r) \<Rightarrow> \<exists>st''. Q v st' = Inr (w, st'') \<and> ps_ok st'' \<and> live st'' \<and> pending st'' = r"
      by (auto simp: parses_def)
    with ok show ?thesis by (auto split: option.splits)
  qed simp
qed

lemma parses_map:
  assumes "parses L P F"
  shows "parses L (\<lambda>st. rbind (P st) (\<lambda>(v, st). Inr (f v, st))) (\<lambda>bs. map_option (map_prod f id) (F bs))"
  unfolding parses_def
proof (intro allI impI)
  fix st assume st: "ps_ok st" "L \<longrightarrow> live st"
  from assms st show "case map_option (map_prod f id) (F (pending st)) of
      None \<Rightarrow> \<exists>e. rbind (P st) (\<lambda>(v, st). Inr (f v, st)) = Inl e
    | Some (v, r) \<Rightarrow> \<exists>st'. rbind (P st) (\<lambda>(v, st). Inr (f v, st)) = Inr (v, st') \<and> ps_ok st'
        \<and> live st' \<and> pending st' = r"
    by (cases rule: parses_cases) auto
qed

section \<open>Reading bytes\<close>

lemma ps_ok_fetch [simp]: "ps_ok st \<Longrightarrow> ps_ok (fetch st)"
  by (auto simp: ps_ok_def fetch_def split: list.splits)

lemma live_fetch: "live (fetch st) \<longleftrightarrow> ps_chunks st \<noteq> []"
  by (auto simp: live_def fetch_def split: list.splits)

lemma pending_fetch:
  "(case ps_buf st of None \<Rightarrow> True | Some b \<Rightarrow> length b \<le> ps_off st) \<Longrightarrow> pending (fetch st) = pending st"
  by (auto simp: pending_def fetch_def split: list.splits option.splits)

lemma start_read_ok:
  assumes "ps_ok st"
  shows "ps_ok (start_read st) \<and> pending (start_read st) = pending st
    \<and> (live (start_read st) \<or> pending st = [])
    \<and> (live st \<longrightarrow> start_read st = st)"
proof (cases "ps_buf st")
  case None
  then show ?thesis
    using assms by (auto simp: start_read_def pending_fetch live_fetch live_def [of st] pending_def [of st])
qed (use assms in \<open>simp add: start_read_def live_def\<close>)

lemma next_byte_Nil: "ps_ok st \<Longrightarrow> pending st = [] \<Longrightarrow> \<exists>e. next_byte st = Inl e"
  by (auto simp: next_byte_def pending_def fetch_def ps_ok_def Let_def lpc_index_def
      split: option.splits list.splits)

lemma next_byte_Cons:
  assumes "ps_ok st" "live st" "pending st = c # r"
  obtains st' where "next_byte st = Inr (c, st')" "ps_ok st'" "live st'" "pending st' = r"
proof -
  from \<open>live st\<close> obtain b where b: "ps_buf st = Some b" by (auto simp: live_def)
  show ?thesis
  proof (cases "ps_off st < length b")
    case True
    with b assms(3) have "b ! ps_off st = c" "drop (Suc (ps_off st)) b @ concat (ps_chunks st) = r"
      by (simp_all add: pending_def Cons_nth_drop_Suc [symmetric])
    with that True b assms(1) show ?thesis
      by (auto simp: next_byte_def ps_ok_def live_def pending_def)
  next
    case False
    with b assms(3) obtain d ds where cs: "ps_chunks st = d # ds" "d @ concat ds = c # r"
      by (cases "ps_chunks st") (auto simp: pending_def)
    moreover from cs assms(1) have "d \<noteq> []" by (auto simp: ps_ok_def)
    ultimately have "0 < length d" "d ! 0 = c" "tl d @ concat ds = r" by (cases d; simp)+
    with that False b cs assms(1) show ?thesis
      by (auto simp: next_byte_def ps_ok_def live_def pending_def fetch_def drop_Suc)
  qed
qed

lemma parseByte_Nil:
  "ps_ok st \<Longrightarrow> pending st = [] \<Longrightarrow>
    \<exists>st'. parseByte st = Inr (-1, st') \<and> ps_ok st' \<and> pending st' = []"
  by (auto simp: parseByte_def pending_def fetch_def ps_ok_def split: option.splits list.splits)

lemma parseByte_Cons:
  assumes "ps_ok st" "pending st = c # r"
  obtains st' where "parseByte st = Inr (ucast c, st')" "ps_ok st'" "live st'" "pending st' = r"
proof (cases "case ps_buf st of None \<Rightarrow> True | Some b \<Rightarrow> length b \<le> ps_off st")
  case True
  then have "concat (ps_chunks st) = c # r"
    using assms(2) by (auto simp: pending_def split: option.splits)
  then obtain d ds where cs: "ps_chunks st = d # ds" "d @ concat ds = c # r"
    by (cases "ps_chunks st") auto
  moreover from cs assms(1) have "d \<noteq> []" by (auto simp: ps_ok_def)
  ultimately have "0 < length d" "d ! 0 = c" "tl d @ concat ds = r" by (cases d; simp)+
  moreover from True cs assms(1) have "parseByte st =
      rbind (lpc_index d 0) (\<lambda>c. Inr (ucast c, \<lparr>ps_chunks = ds, ps_buf = Some d, ps_off = 1\<rparr>))"
    by (auto simp: parseByte_def fetch_def)
  ultimately show ?thesis
    using that [of "\<lparr>ps_chunks = ds, ps_buf = Some d, ps_off = 1\<rparr>"] assms(1) cs
    by (auto simp: ps_ok_def live_def pending_def drop_Suc Suc_le_eq)
next
  case False
  then obtain b where b: "ps_buf st = Some b" "ps_off st < length b"
    by (auto split: option.splits)
  with assms(2) have "b ! ps_off st = c" "drop (Suc (ps_off st)) b @ concat (ps_chunks st) = r"
    by (simp_all add: pending_def Cons_nth_drop_Suc [symmetric])
  with that False b assms(1) show ?thesis
    by (auto simp: parseByte_def ps_ok_def live_def pending_def)
qed

lemma parseDone_pending: "ps_ok st \<Longrightarrow> live st \<Longrightarrow> parseDone st = Inr (pending st = [])"
  by (auto simp: parseDone_def live_def pending_def ps_ok_def sum_list_eq_0_iff)

section \<open>Integers\<close>

fun flat_int :: "lpcint \<Rightarrow> nat \<Rightarrow> bytes \<Rightarrow> (lpcint \<times> bytes) option" where
  "flat_int vl shift [] = None"
| "flat_int vl shift (c # r) =
     (let vl = vl OR push_bit shift (ucast c AND 0x7f) in
      if c AND 0x80 \<noteq> 0 then flat_int vl (shift + 7) r else Some (vl, r))"

lemma parseInt_loop_parses:
  "ps_ok st \<Longrightarrow> live st \<or> pending st = [] \<Longrightarrow>
    (case flat_int vl shift (pending st) of
       None \<Rightarrow> \<exists>e. parseInt_loop st vl shift = Inl e
     | Some (v, r) \<Rightarrow> \<exists>st'. parseInt_loop st vl shift = Inr (v, st') \<and> ps_ok st' \<and> live st'
         \<and> pending st' = r)"
proof (induction "pending st" arbitrary: st vl shift)
  case Nil
  then obtain e where "next_byte st = Inl e" using next_byte_Nil by metis
  then show ?case using Nil.hyps by (subst parseInt_loop.simps) (simp flip: Nil.hyps)
next
  case (Cons c r)
  then have p: "pending st = c # r" "live st" by auto
  then obtain st' where st': "next_byte st = Inr (c, st')" "ps_ok st'" "live st'" "pending st' = r"
    using Cons.prems(1) by (metis next_byte_Cons)
  let ?v = "vl OR push_bit shift (ucast c AND 0x7f)"
  have eq: "parseInt_loop st vl shift =
      (if c AND 0x80 \<noteq> 0 then parseInt_loop st' ?v (shift + 7) else Inr (?v, st'))"
    by (simp add: parseInt_loop.simps [of st] st' Let_def del: push_bit_and)
  show ?case
    unfolding p(1) eq flat_int.simps Let_def
    using Cons.hyps(1) [of st' ?v "shift + 7"] st' by (simp del: push_bit_and)
qed

lemma parseInt_parses: "parses False parseInt (flat_int 0 0)"
  unfolding parses_def parseInt_def
proof (intro allI impI)
  fix st assume "ps_ok st"
  then have "ps_ok (start_read st)" "pending (start_read st) = pending st"
    "live (start_read st) \<or> pending (start_read st) = []"
    using start_read_ok [of st] by auto
  then show "case flat_int 0 0 (pending st) of
      None \<Rightarrow> \<exists>e. parseInt_loop (start_read st) 0 0 = Inl e
    | Some (v, r) \<Rightarrow> \<exists>st'. parseInt_loop (start_read st) 0 0 = Inr (v, st') \<and> ps_ok st' \<and> live st'
        \<and> pending st' = r"
    using parseInt_loop_parses [of "start_read st" 0 0] by simp
qed

lemma protoInt_loop_append: "protoInt_loop v (s @ t) = s @ protoInt_loop v t"
proof (induction v t rule: protoInt_loop.induct)
  case (1 v t)
  then show ?case by (simp add: protoInt_loop.simps [of v])
qed

lemma protoInt_simps:
  "protoInt v =
    (if v AND (-128) \<noteq> 0 then (0x80 OR (ucast v AND 0x7f)) # protoInt (drop_bit 7 v) else [ucast v])"
  using protoInt_loop_append [of "drop_bit 7 v" "[0x80 OR (ucast v AND 0x7f)]" "[]"]
  by (simp add: protoInt_def protoInt_loop.simps [of v])

lemma low7_byte: "ucast (0x80 OR (ucast v AND 0x7f) :: byte) AND 0x7f = v AND 0x7f" for v :: lpcint
  by (rule bit_word_eqI) (auto simp: bit_simps bit_masks)

lemma cont_byte: "(0x80 OR b) AND 0x80 \<noteq> 0" for b :: byte
proof
  assume "(0x80 OR b) AND 0x80 = 0"
  then have "bit ((0x80 OR b) AND 0x80) 7 = bit (0 :: byte) 7" by simp
  then show False by (simp add: bit_simps bit_masks)
qed

lemma last_byte:
  fixes v :: lpcint
  assumes "v AND (-128) = 0"
  shows "ucast (ucast v :: byte) AND 0x7f = v" "(ucast v :: byte) AND 0x80 = 0"
proof -
  from assms have v: "v = v AND 0x7f" by (simp only: and_not127_eq_0_iff)
  show "ucast (ucast v :: byte) AND 0x7f = v"
    using v by (auto simp: bit_eq_iff bit_masks bit_simps)
  show "(ucast v :: byte) AND 0x80 = 0"
    by (subst v, rule bit_word_eqI) (auto simp: bit_masks bit_simps)
qed

lemma flat_int_protoInt: "flat_int vl shift (protoInt v @ r) = Some (vl OR push_bit shift v, r)"
proof (induction v arbitrary: vl shift rule: measure_induct_rule [of unat])
  case (less v)
  show ?case
  proof (cases "v AND (-128) = 0")
    case True
    then show ?thesis by (subst protoInt_simps) (simp add: last_byte)
  next
    case False
    then have "unat (drop_bit 7 v) < unat v"
      by (cases "v = 0") (simp_all add: unat_drop_bit_eq drop_bit_nat_def unat_gt_0)
    moreover have "push_bit shift v
        = push_bit shift (v AND 0x7f) OR push_bit (shift + 7) (drop_bit 7 v)"
      by (subst split7 [of v]) (simp add: push_bit_or add.commute)
    ultimately show ?thesis
      using False less.IH by (subst protoInt_simps) (simp add: cont_byte low7_byte or.assoc Let_def del: push_bit_and)
  qed
qed

section \<open>Numbers of any size\<close>

fun flat_asn :: "nat \<Rightarrow> nat \<Rightarrow> bytes \<Rightarrow> (nat \<times> bytes) option" where
  "flat_asn n shift [] = None"
| "flat_asn n shift (c # r) =
     (let n' = (n + unat (c AND 0x7f) * 2 ^ shift) mod 2 ^ 64 in
      if c AND 0x80 \<noteq> 0 then flat_asn n' (shift + 7) r else Some (n', r))"

lemma asn_val_ASN64 [simp]: "asn_val ASN64 = 2 ^ 64"
proof -
  have "\<not> bit (hd ASN64) 7" by (simp add: ASN64_def bit_simps)
  then show ?thesis by (simp add: asn_val_def ASN64_def asn_uval_Cons)
qed

lemma asn_val_low7: "asn_val [c AND 0x7f] = int (unat (c AND 0x7f))"
  by (simp add: asn_val_def bit_simps bit_masks asn_uval_Cons)

lemma asn_step:
  "asn_add (asn_num (int n)) (asn_lshift [c AND 0x7f] shift ASN64) ASN64
    = asn_num (int ((n + unat (c AND 0x7f) * 2 ^ shift) mod 2 ^ 64))"
  by (simp only: asn_add_def asn_lshift_def asn_val_num asn_val_low7 asn_val_ASN64)
    (simp add: asn_trunc_nonneg mod_add_right_eq zmod_int del: of_nat_mod)

lemma parseAsn_loop_parses:
  "ps_ok st \<Longrightarrow> live st \<or> pending st = [] \<Longrightarrow>
    (case flat_asn n shift (pending st) of
       None \<Rightarrow> \<exists>e. parseAsn_loop st (asn_num (int n)) shift = Inl e
     | Some (v, r) \<Rightarrow> \<exists>st'. parseAsn_loop st (asn_num (int n)) shift = Inr (asn_num (int v), st')
         \<and> ps_ok st' \<and> live st' \<and> pending st' = r)"
proof (induction "pending st" arbitrary: st n shift)
  case Nil
  then obtain e where "next_byte st = Inl e" using next_byte_Nil by metis
  then show ?case using Nil.hyps by (subst parseAsn_loop.simps) (simp flip: Nil.hyps)
next
  case (Cons c r)
  then have p: "pending st = c # r" "live st" by auto
  then obtain st' where st': "next_byte st = Inr (c, st')" "ps_ok st'" "live st'" "pending st' = r"
    using Cons.prems(1) by (metis next_byte_Cons)
  let ?n = "(n + unat (c AND 0x7f) * 2 ^ shift) mod 2 ^ 64"
  have eq: "parseAsn_loop st (asn_num (int n)) shift =
      (if c AND 0x80 \<noteq> 0 then parseAsn_loop st' (asn_num (int ?n)) (shift + 7)
       else Inr (asn_num (int ?n), st'))"
    by (simp only: parseAsn_loop.simps [of st] st' Let_def rbind_simps fst_conv snd_conv asn_step)
  show ?case
    unfolding p(1) eq flat_asn.simps Let_def
    using Cons.hyps(1) [of st' ?n "shift + 7"] st' by simp
qed

lemma strip_sign_num: "strip_sign (asn_num (int n)) = (if n = 0 then [0] else asn_unum n)"
proof (cases "n = 0")
  case False
  then have "asn_unum n \<noteq> []" by simp
  moreover have "hd (asn_unum n) \<noteq> 0"
    using asn_unum_strip [of "asn_unum n"] hd_dropWhile [of "\<lambda>b. b = 0" "asn_unum n"] False by force
  ultimately show ?thesis
    using False by (auto simp: strip_sign_def asn_num_def asn_pad_def)
qed (simp add: strip_sign_def asn_num_def asn_pad_def)

definition flat_asn_bytes :: "bytes \<Rightarrow> (bytes \<times> bytes) option" where
  "flat_asn_bytes bs =
     map_option (map_prod (\<lambda>n. if n = 0 then [0] else asn_unum n) id) (flat_asn 0 0 bs)"

lemma parseAsn_parses: "parses False parseAsn flat_asn_bytes"
proof -
  have zero: "asn_num (int 0) = [0]" by (simp add: asn_num_def asn_pad_def)
  have "parses False (\<lambda>st. parseAsn_loop (start_read st) [0] 0)
      (\<lambda>bs. map_option (map_prod (\<lambda>n. asn_num (int n)) id) (flat_asn 0 0 bs))"
    unfolding parses_def
  proof (intro allI impI)
    fix st assume "ps_ok st"
    then have "ps_ok (start_read st)" "pending (start_read st) = pending st"
      "live (start_read st) \<or> pending (start_read st) = []"
      using start_read_ok [of st] by auto
    then show "case map_option (map_prod (\<lambda>n. asn_num (int n)) id) (flat_asn 0 0 (pending st)) of
        None \<Rightarrow> \<exists>e. parseAsn_loop (start_read st) [0] 0 = Inl e
      | Some (v, r) \<Rightarrow> \<exists>st'. parseAsn_loop (start_read st) [0] 0 = Inr (v, st') \<and> ps_ok st'
          \<and> live st' \<and> pending st' = r"
      using parseAsn_loop_parses [of "start_read st" 0 0] zero
      by (auto split: option.splits)
  qed
  from parses_map [OF this, of strip_sign] show ?thesis
    unfolding parseAsn_def flat_asn_bytes_def
    by (simp add: option.map_comp prod.map_comp comp_def strip_sign_num case_prod_beta id_def)
qed

lemma protoAsn_loop_append: "protoAsn_loop v (s @ t) = rmap (\<lambda>e. s @ e) (protoAsn_loop v t)"
proof (induction v t rule: protoAsn_loop.induct)
  case (1 v t)
  then show ?case by (simp add: protoAsn_loop.simps [of v])
qed

lemma byte_low7: "(0x80 OR (b AND 0x7f)) AND 0x7f = b AND 0x7f" for b :: byte
  by (rule bit_word_eqI) (auto simp: bit_simps bit_masks)

lemma byte_small:
  fixes b :: byte
  assumes "\<not> bit b 7"
  shows "b AND 0x7f = b" "b AND 0x80 = 0"
proof -
  have "bit (b AND 0x7f) n = bit b n" if "n < LENGTH(8)" for n
    using that assms by (cases "n = 7") (auto simp: bit_simps bit_masks)
  then show "b AND 0x7f = b" by (intro bit_word_eqI) simp
  show "b AND 0x80 = 0"
    using assms by (intro bit_word_eqI) (auto simp: bit_simps bit_masks)
qed

lemma unat_low7: "unat (b AND 0x7f) = unat b mod 128" for b :: byte
  unfolding mask7 by (simp add: take_bit_eq_mod unat_mod flip: take_bit_eq_mask)

lemma asn_uval_last_mod: "v \<noteq> [] \<Longrightarrow> asn_uval v mod 128 = unat (last v) mod 128"
  by (cases v rule: rev_cases) (simp_all add: asn_uval_snoc mod_add_eq [symmetric] mod_mult_right_eq [symmetric])

lemma protoAsn_loop_flat:
  "v \<noteq> [] \<Longrightarrow> (length v = 1 \<longrightarrow> \<not> bit (hd v) 7) \<Longrightarrow>
    \<exists>e. protoAsn_loop v s = Inr (s @ e) \<and>
      (\<forall>n shift r. flat_asn n shift (e @ r) = Some ((n + asn_uval v * 2 ^ shift) mod 2 ^ 64, r))"
proof (induction v s rule: protoAsn_loop.induct)
  case (1 v s)
  show ?case
  proof (cases "length v = 1")
    case True
    then obtain b where v: "v = [b]" by (cases v) auto
    with "1.prems" have "b AND 0x7f = b" "b AND 0x80 = 0" using byte_small by auto
    then show ?thesis
      by (auto simp: v protoAsn_loop.simps asn_uval_Cons intro!: exI [of _ "[b]"])
  next
    case False
    let ?w = "asn_rshift (0 # v) 7" and ?c = "0x80 OR (last v AND 0x7f)"
    have w: "?w \<noteq> []" "length ?w = 1 \<longrightarrow> \<not> bit (hd ?w) 7" "asn_uval ?w = asn_uval v div 128"
      by (simp_all add: asn_rshift_pos)
    with "1.IH" False "1.prems"(1) obtain e where
      e: "protoAsn_loop ?w (s @ [?c]) = Inr ((s @ [?c]) @ e)"
        "\<And>n shift r. flat_asn n shift (e @ r) = Some ((n + asn_uval v div 128 * 2 ^ shift) mod 2 ^ 64, r)"
      by metis
    have "flat_asn n shift ((?c # e) @ r) = Some ((n + asn_uval v * 2 ^ shift) mod 2 ^ 64, r)" for n shift r
    proof -
      have "unat (?c AND 0x7f) = asn_uval v mod 128"
        using "1.prems"(1) by (simp add: byte_low7 unat_low7 asn_uval_last_mod)
      then have "flat_asn n shift ((?c # e) @ r)
          = Some ((n + asn_uval v mod 128 * 2 ^ shift + asn_uval v div 128 * 2 ^ (shift + 7)) mod 2 ^ 64, r)"
        using cont_byte [of "last v AND 0x7f"] by (simp add: Let_def e(2) mod_add_left_eq)
      moreover have "asn_uval v mod 128 * 2 ^ shift + asn_uval v div 128 * 2 ^ (shift + 7)
          = (asn_uval v mod 128 + asn_uval v div 128 * 128) * 2 ^ shift"
      proof -
        have "(2::nat) ^ (shift + 7) = 128 * 2 ^ shift" by (simp add: power_add)
        then show ?thesis by (simp only: add_mult_distrib mult.assoc)
      qed
      then have "asn_uval v mod 128 * 2 ^ shift + asn_uval v div 128 * 2 ^ (shift + 7) = asn_uval v * 2 ^ shift"
        by (simp only: mod_div_mult_eq)
      ultimately show ?thesis by (simp add: add.assoc)
    qed
    moreover have "protoAsn_loop v s = Inr (s @ ?c # e)"
      using False "1.prems"(1) e(1) by (simp add: protoAsn_loop.simps [of v s])
    ultimately show ?thesis by blast
  qed
qed

text \<open>
  An encoded number of at most eight bytes (a message id, say) is read back, and zero-extending
  what the parser returns to the original length gives the original bytes.
\<close>

definition asn_encodable :: "bytes \<Rightarrow> bool" where
  "asn_encodable v \<longleftrightarrow> v \<noteq> [] \<and> length v \<le> 8 \<and> (length v = 1 \<longrightarrow> \<not> bit (hd v) 7)"

lemma protoAsn_flat:
  assumes "asn_encodable v"
  obtains e where "protoAsn v = Inr e"
    "\<And>r. flat_asn_bytes (e @ r) = Some (if asn_uval v = 0 then [0] else asn_unum (asn_uval v), r)"
proof -
  from assms have v: "v \<noteq> []" "length v \<le> 8" "length v = 1 \<longrightarrow> \<not> bit (hd v) 7"
    by (auto simp: asn_encodable_def)
  then obtain e where e: "protoAsn_loop v [] = Inr e"
    "\<And>n shift r. flat_asn n shift (e @ r) = Some ((n + asn_uval v * 2 ^ shift) mod 2 ^ 64, r)"
    using protoAsn_loop_flat [of v "[]"] by auto
  have "asn_uval v < 256 ^ length v" by (rule asn_uval_lt)
  also have "\<dots> \<le> 256 ^ 8" using v(2) by (intro power_increasing) simp_all
  finally have "asn_uval v mod 2 ^ 64 = asn_uval v" by simp
  then show thesis
    using v e by (intro that [of e]) (auto simp: protoAsn_def flat_asn_bytes_def)
qed

lemma length_asn_strip:
  "v \<noteq> [] \<Longrightarrow> length (if asn_uval v = 0 then [0] else asn_unum (asn_uval v)) \<le> length v"
  using length_asn_unum_le_iff [of "asn_uval v" "length v"] asn_uval_lt [of v]
  by (cases v) simp_all

context asn_library begin

lemma unsigned_extend_strip:
  "v \<noteq> [] \<Longrightarrow> lib_unsigned_extend A (if asn_uval v = 0 then [0] else asn_unum (asn_uval v)) (length v) = v"
  by (rule unsigned_extend_unique [OF length_asn_strip]) (simp_all add: asn_uval_Cons)

end

section \<open>Strings\<close>

definition flat_bytes :: "lpcint \<Rightarrow> bytes \<Rightarrow> (bytes \<times> bytes) option" where
  "flat_bytes len bs =
     (if 0 \<le> sint len \<and> nat (sint len) \<le> length bs
      then Some (take (nat (sint len)) bs, drop (nat (sint len)) bs) else None)"

definition flat_string :: "bytes \<Rightarrow> (bytes \<times> bytes) option" where
  "flat_string bs = (case flat_int 0 0 bs of None \<Rightarrow> None | Some (len, r) \<Rightarrow> flat_bytes len r)"

lemma rest_of_buf_ok: "off \<le> length b \<Longrightarrow> rest_of_buf b off = Inr (drop off b)"
  by (simp add: rest_of_buf_def lpc_range_nat)

lemma parsePieces_dead: "\<not> live st \<Longrightarrow> parsePieces st ps len = Inl Bad_argument"
  by (simp add: parsePieces.simps live_def)

lemma parsePieces_pending:
  "ps_ok st \<Longrightarrow> live st \<Longrightarrow>
    (if 0 \<le> len \<and> nat len \<le> length (pending st)
     then \<exists>qs st'. parsePieces st ps len = Inr (ps @ qs, st') \<and> concat qs = take (nat len) (pending st)
        \<and> ps_ok st' \<and> live st' \<and> pending st' = drop (nat len) (pending st)
     else \<exists>e. parsePieces st ps len = Inl e)"
proof (induction st ps len rule: parsePieces.induct)
  case (1 st ps len)
  from "1.prems" obtain b where b: "ps_buf st = Some b" "ps_off st \<le> length b"
    by (auto simp: live_def ps_ok_def)
  define left where "left = length b - ps_off st"
  have left: "int (length b) - int (ps_off st) = int left" using b by (simp add: left_def)
  have pend: "pending st = drop (ps_off st) b @ concat (ps_chunks st)" "length (drop (ps_off st) b) = left"
    by (simp_all add: pending_def b left_def)
  show ?case
  proof (cases "int left < len")
    case True
    have step: "parsePieces st ps len = parsePieces (fetch st) (ps @ [drop (ps_off st) b]) (len - int left)"
      using True b left by (simp add: parsePieces.simps [of st] rest_of_buf_ok)
    have pf: "pending (fetch st) = concat (ps_chunks st)"
      by (auto simp: pending_def fetch_def split: list.splits)
    show ?thesis
    proof (cases "live (fetch st)")
      case False
      with step pf True pend show ?thesis by (auto simp: parsePieces_dead live_fetch)
    next
      case live: True
      have IH: "if 0 \<le> len - int left \<and> nat (len - int left) \<le> length (pending (fetch st))
        then \<exists>qs st'. parsePieces (fetch st) (ps @ [drop (ps_off st) b]) (len - int left)
            = Inr ((ps @ [drop (ps_off st) b]) @ qs, st')
          \<and> concat qs = take (nat (len - int left)) (pending (fetch st))
          \<and> ps_ok st' \<and> live st' \<and> pending st' = drop (nat (len - int left)) (pending (fetch st))
        else \<exists>e. parsePieces (fetch st) (ps @ [drop (ps_off st) b]) (len - int left) = Inl e"
        by (rule "1.IH" [OF b(1), unfolded left, OF True rest_of_buf_ok [OF b(2)]
              ps_ok_fetch [OF "1.prems"(1)] live])
      have n: "nat (len - int left) = nat len - left" using True by simp
      show ?thesis
      proof (cases "nat len \<le> length (pending st)")
        case ok: True
        with True pend pf have "nat (len - int left) \<le> length (pending (fetch st))" by (simp add: n)
        with IH True obtain qs st' where
          "parsePieces (fetch st) (ps @ [drop (ps_off st) b]) (len - int left)
            = Inr ((ps @ [drop (ps_off st) b]) @ qs, st')"
          "concat qs = take (nat len - left) (pending (fetch st))" "ps_ok st'" "live st'"
          "pending st' = drop (nat len - left) (pending (fetch st))"
          by (auto simp: n)
        moreover have "left \<le> nat len" using True by simp
        ultimately have res: "parsePieces st ps len = Inr (ps @ drop (ps_off st) b # qs, st')"
          "concat (drop (ps_off st) b # qs) = take (nat len) (pending st)"
          "pending st' = drop (nat len) (pending st)" "ps_ok st'" "live st'"
          using pend pf by (simp_all add: step)
        have cond: "0 \<le> len \<and> nat len \<le> length (pending st)" using ok True by simp
        show ?thesis unfolding if_P [OF cond] using res by blast
      next
        case False
        with True pend pf have "\<not> nat (len - int left) \<le> length (pending (fetch st))" by (simp add: n)
        with IH False show ?thesis by (simp add: step)
      qed
    qed
  next
    case False
    show ?thesis
    proof (cases "0 \<le> len")
      case True
      have n: "nat len \<le> left" using False by simp
      then have "lpc_range b (int (ps_off st)) (int (ps_off st) + len - 1)
          = Inr (take (nat len) (drop (ps_off st) b))"
        using lpc_range_nat [of "ps_off st" "ps_off st + nat len" b] True b(2) by (simp add: left_def)
      then have "parsePieces st ps len
          = Inr (ps @ [take (nat len) (drop (ps_off st) b)], st\<lparr>ps_off := ps_off st + nat len\<rparr>)"
        using False left by (subst parsePieces.simps) (simp add: b)
      moreover from n have "take (nat len) (drop (ps_off st) b) = take (nat len) (pending st)"
        "pending (st\<lparr>ps_off := ps_off st + nat len\<rparr>) = drop (nat len) (pending st)"
        using pend(2) by (simp_all add: pending_def b add.commute)
      moreover have "ps_ok (st\<lparr>ps_off := ps_off st + nat len\<rparr>)"
        using "1.prems"(1) n b by (auto simp: ps_ok_def left_def)
      moreover have "live (st\<lparr>ps_off := ps_off st + nat len\<rparr>)"
        using b by (simp add: live_def)
      ultimately have res: "\<exists>qs st'. parsePieces st ps len = Inr (ps @ qs, st')
          \<and> concat qs = take (nat len) (pending st)
          \<and> ps_ok st' \<and> live st' \<and> pending st' = drop (nat len) (pending st)"
        by (intro exI [of _ "[take (nat len) (drop (ps_off st) b)]"] exI conjI) simp_all
      have cond: "0 \<le> len \<and> nat len \<le> length (pending st)" using True n pend by simp
      show ?thesis unfolding if_P [OF cond] by (rule res)
    next
      case neg: False
      with False b left show ?thesis
        by (simp add: parsePieces.simps [of st] lpc_range_def)
    qed
  qed
qed

lemma parsePieces_parses:
  "parses True (\<lambda>st. rbind (parsePieces st [] (sint len)) (\<lambda>(ps, st). Inr (concat ps, st))) (flat_bytes len)"
  unfolding parses_def
proof (intro allI impI)
  fix st assume "ps_ok st" "True \<longrightarrow> live st"
  then have pp: "if 0 \<le> sint len \<and> nat (sint len) \<le> length (pending st)
     then \<exists>qs st'. parsePieces st [] (sint len) = Inr ([] @ qs, st')
        \<and> concat qs = take (nat (sint len)) (pending st)
        \<and> ps_ok st' \<and> live st' \<and> pending st' = drop (nat (sint len)) (pending st)
     else \<exists>e. parsePieces st [] (sint len) = Inl e"
    by (intro parsePieces_pending) simp_all
  show "case flat_bytes len (pending st) of
      None \<Rightarrow> \<exists>e. rbind (parsePieces st [] (sint len)) (\<lambda>(ps, st). Inr (concat ps, st)) = Inl e
    | Some (v, r) \<Rightarrow> \<exists>st'. rbind (parsePieces st [] (sint len)) (\<lambda>(ps, st). Inr (concat ps, st)) = Inr (v, st')
        \<and> ps_ok st' \<and> live st' \<and> pending st' = r"
  proof (cases "0 \<le> sint len \<and> nat (sint len) \<le> length (pending st)")
    case True
    with pp show ?thesis unfolding flat_bytes_def if_P [OF True] by auto
  next
    case False
    with pp show ?thesis unfolding flat_bytes_def if_not_P [OF False] by auto
  qed
qed

lemma parses_live_cong:
  assumes "parses True P F" "\<And>st. live st \<Longrightarrow> Q st = P st"
  shows "parses True Q F"
  unfolding parses_def
proof (intro allI impI)
  fix st assume st: "ps_ok st" "True \<longrightarrow> live st"
  then have Q: "Q st = P st" using assms(2) by simp
  show "case F (pending st) of None \<Rightarrow> \<exists>e. Q st = Inl e
      | Some (v, r) \<Rightarrow> \<exists>st'. Q st = Inr (v, st') \<and> ps_ok st' \<and> live st' \<and> pending st' = r"
    unfolding Q using assms(1) st unfolding parses_def by blast
qed

lemma start_read_live: "live st \<Longrightarrow> start_read st = st"
  by (auto simp: start_read_def live_def)

lemma parseBytes_parses: "parses True (\<lambda>st. parseBytes st len) (flat_bytes len)"
  by (rule parses_live_cong [OF parsePieces_parses]) (simp add: parseBytes_def start_read_live)

text \<open>A positive number of bytes can also be read from a buffer that is not started.\<close>

lemma parseBytes_parses_pos: "0 < sint len \<Longrightarrow> parses False (\<lambda>st. parseBytes st len) (flat_bytes len)"
  unfolding parses_def
proof (intro allI impI)
  fix st assume pos: "0 < sint len" and ok: "ps_ok st"
  then have st: "ps_ok (start_read st)" "pending (start_read st) = pending st"
    "live (start_read st) \<or> pending st = []"
    using start_read_ok [of st] by auto
  have idem: "live (start_read st) \<Longrightarrow> start_read (start_read st) = start_read st"
    by (rule start_read_live)
  show "case flat_bytes len (pending st) of
      None \<Rightarrow> \<exists>e. parseBytes st len = Inl e
    | Some (v, r) \<Rightarrow> \<exists>st'. parseBytes st len = Inr (v, st') \<and> ps_ok st' \<and> live st' \<and> pending st' = r"
  proof (cases "live (start_read st)")
    case True
    then have eq: "parseBytes (start_read st) len = parseBytes st len"
      by (simp add: parseBytes_def idem)
    have "case flat_bytes len (pending (start_read st)) of
        None \<Rightarrow> \<exists>e. parseBytes (start_read st) len = Inl e
      | Some (v, r) \<Rightarrow> \<exists>st'. parseBytes (start_read st) len = Inr (v, st') \<and> ps_ok st' \<and> live st'
          \<and> pending st' = r"
      using parseBytes_parses [of len] st(1) True unfolding parses_def by blast
    then show ?thesis unfolding st(2) eq .
  next
    case False
    with st pos show ?thesis
      by (auto simp: parseBytes_def parsePieces_dead flat_bytes_def)
  qed
qed

lemma parseString_parses: "parses False parseString flat_string"
  unfolding parseString_def [abs_def] flat_string_def [abs_def]
  by (rule parses_bind [OF parseInt_parses parseBytes_parses])

lemma parseStrbuf_parses:
  "parses False (\<lambda>st. rbind (parseStrbuf st) (\<lambda>(ps, st). Inr (concat ps, st))) flat_string"
proof -
  have "parses False (\<lambda>st. rbind (parseInt st) (\<lambda>(len, st).
      rbind (parsePieces st [] (sint len)) (\<lambda>(ps, st). Inr (concat ps, st)))) flat_string"
    unfolding flat_string_def [abs_def] by (rule parses_bind [OF parseInt_parses parsePieces_parses])
  then show ?thesis
    by (simp add: parseStrbuf_def rbind_assoc case_prod_unfold)
qed

definition short :: "bytes \<Rightarrow> bool" where
  "short s \<longleftrightarrow> length s < 2 ^ 31"

lemma sint_of_nat_short: "n < 2 ^ 31 \<Longrightarrow> sint (of_nat n :: lpcint) = int n"
  by (simp add: signed_of_nat signed_take_bit_int_eq_self)

lemma flat_string_protoString: "short s \<Longrightarrow> flat_string (protoString s @ r) = Some (s, r)"
  using flat_int_protoInt [of 0 0 "of_nat (length s)" "s @ r"]
  by (simp add: flat_string_def protoString_def flat_bytes_def short_def sint_of_nat_short)

lemma protoStrbuf_eq: "protoStrbuf s = protoString s"
  by (simp add: protoStrbuf_def protoString_def)

section \<open>The codec, from any chunking\<close>

text \<open>
  An integer written by \<open>protoInt\<close> is read back by \<open>parseInt\<close> with all of its 32 bits,
  from every cutting of the bytes into non-empty chunks, and exactly the bytes that follow it
  are left in the buffer.
\<close>

theorem parseInt_protoInt:
  assumes "concat cs = protoInt v @ r" "[] \<notin> set cs"
  shows "\<exists>st. parseInt (fresh cs) = Inr (v, st) \<and> pending st = r"
proof -
  have "flat_int 0 0 (pending (fresh cs)) = Some (v, r)"
    by (simp add: assms flat_int_protoInt)
  then show ?thesis
    using assms(2) by (elim parsesD_Some [OF parseInt_parses]) auto
qed

theorem parseInt_protoInt_witness:
  "\<exists>st. parseInt (fresh [[0xac], [0x02, 7]]) = Inr (300, st) \<and> pending st = [7]"
  by (rule parseInt_protoInt)
    (simp_all add: protoInt_simps [of 300] protoInt_simps [of 2])

text \<open>
  A string written by \<open>protoString\<close> is read back by \<open>parseString\<close> from every chunking, as
  long as its length fits a positive 32-bit integer, and the rest of the input is left.
\<close>

theorem parseString_protoString:
  assumes "concat cs = protoString s @ r" "[] \<notin> set cs" "length s < 2 ^ 31"
  shows "\<exists>st. parseString (fresh cs) = Inr (s, st) \<and> pending st = r"
proof -
  have "flat_string (pending (fresh cs)) = Some (s, r)"
    using assms by (simp add: flat_string_protoString short_def)
  then show ?thesis
    using assms(2) by (elim parsesD_Some [OF parseString_parses]) auto
qed

theorem parseString_protoString_witness:
  "\<exists>st. parseString (fresh [[2, 65], [66, 9], [8]]) = Inr ([65, 66], st) \<and> pending st = [9, 8]"
  by (rule parseString_protoString) (simp_all add: protoString_def protoInt_simps)

text \<open>
  C35.  A number of at most eight bytes (a WebSocket message id) written by \<open>protoAsn\<close> is read
  back by \<open>parseAsn\<close> from every chunking; extending the result to the original length with
  zeroes, as the callers do, gives the original bytes.
\<close>

theorem parseAsn_protoAsn:
  assumes "asn_encodable v" "protoAsn v = Inr e" "concat cs = e @ r" "[] \<notin> set cs"
  shows "\<exists>w st. parseAsn (fresh cs) = Inr (w, st) \<and> pending st = r
    \<and> lib_unsigned_extend std_asn_lib w (length v) = v"
proof -
  from assms have "flat_asn_bytes (pending (fresh cs))
      = Some (if asn_uval v = 0 then [0] else asn_unum (asn_uval v), r)"
    by (auto elim: protoAsn_flat)
  then show ?thesis
    using assms(1,4) std_asn.unsigned_extend_strip [of v]
    by (elim parsesD_Some [OF parseAsn_parses]) (auto simp: asn_encodable_def)
qed

theorem parseAsn_protoAsn_witness:
  "\<exists>w st. parseAsn (fresh [[0xac], [0x02, 7]]) = Inr (w, st) \<and> pending st = [7]
    \<and> lib_unsigned_extend std_asn_lib w (length ([1, 44] :: bytes)) = [1, 44]"
proof (rule parseAsn_protoAsn)
  show "protoAsn [1, 44] = Inr [0xac, 0x02]" by code_simp
qed (simp_all add: asn_encodable_def)

end
