(* ===== verification/ProtoRead.thy ===== *)
theory ProtoRead
  imports ProtoSpec
begin

text \<open>
  Two relations that carry the proofs about parsers of whole messages.

  \<^item> \<open>reads L P bs v r\<close>: on a buffer that holds \<open>bs\<close>, in whatever chunks, \<open>P\<close> returns \<open>v\<close> and
    leaves \<open>r\<close>.
  \<^item> \<open>agree L R P Q\<close>: on buffers that hold the same bytes, \<open>P\<close> and \<open>Q\<close> both fail, or both
    succeed with results related by \<open>R\<close> and leave the same bytes.

  \<open>L\<close> says that the parser is only called on a buffer whose reading has begun.  The rules of
  each follow the shape of the code: a field, a byte and a test of it, \<open>parseDone\<close>.
  The locale \<open>codec\<close> is the contract of an encoder and its parser.
\<close>

section \<open>Reading a value\<close>

definition reads ::
    "bool \<Rightarrow> (pstate \<Rightarrow> ('a \<times> pstate) result) \<Rightarrow> bytes \<Rightarrow> ('a \<Rightarrow> bool) \<Rightarrow> bytes \<Rightarrow> bool" where
  "reads L P bs V r \<longleftrightarrow>
     (\<forall>st. ps_ok st \<longrightarrow> (L \<longrightarrow> live st) \<longrightarrow> pending st = bs \<longrightarrow>
       (\<exists>v st'. P st = Inr (v, st') \<and> V v \<and> ps_ok st' \<and> live st' \<and> pending st' = r))"

lemma readsE:
  assumes "reads L P bs V r" "ps_ok st" "L \<longrightarrow> live st" "pending st = bs"
  obtains v st' where "P st = Inr (v, st')" "V v" "ps_ok st'" "live st'" "pending st' = r"
  using assms by (auto simp: reads_def)

lemma reads_fresh:
  assumes "reads False P bs V r" "concat cs = bs" "[] \<notin> set cs"
  obtains v st where "P (fresh cs) = Inr (v, st)" "V v" "pending st = r"
  by (rule readsE [OF assms(1), of "fresh cs"]) (use assms(2,3) in auto)

lemma reads_parses: "parses L P F \<Longrightarrow> F bs = Some (v, r) \<Longrightarrow> V v \<Longrightarrow> reads L P bs V r"
  by (auto simp: reads_def elim: parsesD_Some)

lemma reads_live: "reads False P bs V r \<Longrightarrow> reads L P bs V r"
  by (auto simp: reads_def)

lemma reads_mono: "reads L P bs V r \<Longrightarrow> (\<And>v. V v \<Longrightarrow> W v) \<Longrightarrow> reads L P bs W r"
  by (fastforce simp: reads_def)

lemma reads_return: "V v \<Longrightarrow> reads True (\<lambda>st. Inr (v, st)) bs V bs"
  by (auto simp: reads_def)

lemma reads_bind:
  assumes "reads L P bs V r" "\<And>v. V v \<Longrightarrow> reads True (Q v) r W r'"
  shows "reads L (\<lambda>st. rbind (P st) (\<lambda>(v, st). Q v st)) bs W r'"
  unfolding reads_def
proof (intro allI impI)
  fix st assume "ps_ok st" "L \<longrightarrow> live st" "pending st = bs"
  with assms(1) obtain v st1 where "P st = Inr (v, st1)" "V v" "ps_ok st1" "live st1" "pending st1 = r"
    by (rule readsE)
  moreover from assms(2) [OF this(2)] this(3-) obtain w st2 where
    "Q v st1 = Inr (w, st2)" "W w" "ps_ok st2" "live st2" "pending st2 = r'"
    by (auto elim: readsE)
  ultimately show "\<exists>w st'. rbind (P st) (\<lambda>(v, st). Q v st) = Inr (w, st') \<and> W w \<and> ps_ok st' \<and> live st'
      \<and> pending st' = r'" by simp
qed

lemma reads_byte:
  assumes "reads True (Q (ucast c)) bs W r'"
  shows "reads L (\<lambda>st. rbind (parseByte st) (\<lambda>(c, st). Q c st)) (c # bs) W r'"
  unfolding reads_def
proof (intro allI impI)
  fix st assume st: "ps_ok st" "pending st = c # bs"
  then obtain st1 where st1: "parseByte st = Inr (ucast c, st1)" "ps_ok st1" "live st1" "pending st1 = bs"
    by (rule parseByte_Cons)
  with assms show "\<exists>w st'. rbind (parseByte st) (\<lambda>(c, st). Q c st) = Inr (w, st') \<and> W w \<and> ps_ok st'
      \<and> live st' \<and> pending st' = r'"
    by (elim readsE) auto
qed

text \<open>The common test of a field's tag.\<close>

lemma reads_tag:
  assumes "ucast c = t" "reads True Q bs W r'"
  shows "reads L (\<lambda>st. rbind (parseByte st) (\<lambda>(c, st). if c \<noteq> t then Inl e else Q st)) (c # bs) W r'"
  by (rule reads_byte) (simp add: assms)

lemma reads_done:
  assumes "reads True (Q (bs = [])) bs W r'"
  shows "reads True (\<lambda>st. rbind (parseDone st) (\<lambda>d. Q d st)) bs W r'"
  using assms by (auto simp: reads_def parseDone_pending)

text \<open>What an encoder promises with its parser.\<close>

locale codec =
  fixes ok :: "'a \<Rightarrow> bool" and enc :: "'a \<Rightarrow> bytes" and par :: "pstate \<Rightarrow> ('a \<times> pstate) result"
  assumes reads_enc: "ok v \<Longrightarrow> reads False par (enc v @ r) ((=) v) r"
begin

lemma field: "ok v \<Longrightarrow> reads L par (enc v @ r) ((=) v) r"
  by (rule reads_live [OF reads_enc])

lemma reads_field:
  assumes "ok v" "reads True (Q v) r W r'"
  shows "reads L (\<lambda>st. rbind (par st) (\<lambda>(v, st). Q v st)) (enc v @ r) W r'"
  using field [OF assms(1)] by (rule reads_bind) (use assms(2) in simp)

lemma encoding_injective:
  assumes "ok v" "ok w" "enc v @ r = enc w @ s"
  shows "v = w \<and> r = s"
proof -
  obtain st where st: "ps_ok st" "pending st = enc v @ r"
    using that [of "\<lparr>ps_chunks = [], ps_buf = Some (enc v @ r), ps_off = 0\<rparr>"]
    by (auto simp: ps_ok_def pending_def)
  from reads_enc [OF assms(1), of r] st obtain s1 where "par st = Inr (v, s1)" "pending s1 = r"
    by (auto elim: readsE)
  moreover from reads_enc [OF assms(2), of s] st obtain s2 where "par st = Inr (w, s2)" "pending s2 = s"
    unfolding assms(3) by (auto elim: readsE)
  ultimately show ?thesis by simp
qed

end

interpretation intc: codec "\<lambda>_. True" protoInt parseInt
  by unfold_locales (auto intro!: reads_parses [OF parseInt_parses] simp: flat_int_protoInt)

interpretation stringc: codec short protoString parseString
  by unfold_locales (auto intro!: reads_parses [OF parseString_parses] simp: flat_string_protoString)

text \<open>The pieces of a parsed \<open>StringBuffer\<close> are determined up to where they are cut.\<close>

lemma reads_strbuf:
  assumes "short s"
  shows "reads L parseStrbuf (protoStrbuf s @ r) (\<lambda>ps. concat ps = s) r"
proof (rule reads_live)
  have "reads False (\<lambda>st. rbind (parseStrbuf st) (\<lambda>(ps, st). Inr (concat ps, st))) (protoStrbuf s @ r) ((=) s) r"
    by (rule reads_parses [OF parseStrbuf_parses])
      (use assms in \<open>simp_all add: protoStrbuf_eq flat_string_protoString\<close>)
  then show "reads False parseStrbuf (protoStrbuf s @ r) (\<lambda>ps. concat ps = s) r"
    by (fastforce simp: reads_def)
qed

lemma reads_strbuf_field:
  assumes "short s" "\<And>ps. concat ps = s \<Longrightarrow> reads True (Q ps) r W r'"
  shows "reads L (\<lambda>st. rbind (parseStrbuf st) (\<lambda>(ps, st). Q ps st)) (protoStrbuf s @ r) W r'"
  using reads_strbuf [OF assms(1)] assms(2) by (rule reads_bind)

text \<open>The message ids: the parser strips leading zeroes, which the callers put back.\<close>

definition asn_strip :: "bytes \<Rightarrow> bytes" where
  "asn_strip v = (if asn_uval v = 0 then [0] else asn_unum (asn_uval v))"

lemma reads_asn:
  assumes "asn_encodable v" "protoAsn v = Inr e"
  shows "reads L parseAsn (e @ r) ((=) (asn_strip v)) r"
  using assms by (intro reads_live [OF reads_parses [OF parseAsn_parses]]) (auto elim: protoAsn_flat simp: asn_strip_def)

lemma reads_asn_field:
  assumes "asn_encodable v" "protoAsn v = Inr e" "reads True (Q (asn_strip v)) r W r'"
  shows "reads L (\<lambda>st. rbind (parseAsn st) (\<lambda>(v, st). Q v st)) (e @ r) W r'"
  using reads_asn [OF assms(1,2)] by (rule reads_bind) (use assms(3) in simp)

section \<open>Independence of the chunks\<close>

definition same_outcome :: "('a \<Rightarrow> 'b \<Rightarrow> bool) \<Rightarrow> 'a result \<Rightarrow> 'b result \<Rightarrow> bool" where
  "same_outcome R x y \<longleftrightarrow>
     (case x of Inl _ \<Rightarrow> (case y of Inl _ \<Rightarrow> True | Inr _ \<Rightarrow> False)
      | Inr v \<Rightarrow> (case y of Inl _ \<Rightarrow> False | Inr w \<Rightarrow> R v w))"

lemma same_outcome_simps [simp]:
  "same_outcome R (Inl e) (Inl f)"
  "\<not> same_outcome R (Inl e) (Inr w)"
  "\<not> same_outcome R (Inr v) (Inl f)"
  "same_outcome R (Inr v) (Inr w) \<longleftrightarrow> R v w"
  by (simp_all add: same_outcome_def)

lemma same_outcome_bind:
  assumes "same_outcome R x y" "\<And>v w. R v w \<Longrightarrow> same_outcome S (f v) (g w)"
  shows "same_outcome S (rbind x f) (rbind y g)"
  using assms by (cases x; cases y) simp_all

definition same_rest :: "('a \<Rightarrow> 'b \<Rightarrow> bool) \<Rightarrow> 'a \<times> pstate \<Rightarrow> 'b \<times> pstate \<Rightarrow> bool" where
  "same_rest R = (\<lambda>(v, s) (w, t). R v w \<and> ps_ok s \<and> ps_ok t \<and> live s \<and> live t \<and> pending s = pending t)"

definition agree ::
    "bool \<Rightarrow> ('a \<Rightarrow> 'b \<Rightarrow> bool) \<Rightarrow> (pstate \<Rightarrow> ('a \<times> pstate) result) \<Rightarrow> (pstate \<Rightarrow> ('b \<times> pstate) result) \<Rightarrow> bool" where
  "agree L R P Q \<longleftrightarrow>
     (\<forall>s t. ps_ok s \<and> ps_ok t \<and> (L \<longrightarrow> live s \<and> live t) \<and> pending s = pending t \<longrightarrow>
       same_outcome (same_rest R) (P s) (Q t))"

lemma agreeI:
  assumes "\<And>s t. ps_ok s \<Longrightarrow> ps_ok t \<Longrightarrow> (L \<Longrightarrow> live s) \<Longrightarrow> (L \<Longrightarrow> live t) \<Longrightarrow> pending s = pending t \<Longrightarrow>
    same_outcome (same_rest R) (P s) (Q t)"
  shows "agree L R P Q"
  using assms by (auto simp: agree_def)

lemma agree_liveI:
  assumes "\<And>s t. ps_ok s \<Longrightarrow> ps_ok t \<Longrightarrow> live s \<Longrightarrow> live t \<Longrightarrow> pending s = pending t \<Longrightarrow>
    same_outcome (same_rest R) (P s) (Q t)"
  shows "agree True R P Q"
  using assms by (auto simp: agree_def)

lemma agreeD:
  "agree L R P Q \<Longrightarrow> ps_ok s \<Longrightarrow> ps_ok t \<Longrightarrow> L \<longrightarrow> live s \<and> live t \<Longrightarrow> pending s = pending t \<Longrightarrow>
    same_outcome (same_rest R) (P s) (Q t)"
  by (auto simp: agree_def)

lemma agree_live: "agree False R P Q \<Longrightarrow> agree L R P Q"
  by (auto simp: agree_def)

lemma agree_parses:
  assumes "parses L P F"
  shows "agree L (=) P P"
proof (rule agreeI)
  fix s t assume st: "ps_ok s" "ps_ok t" "L \<Longrightarrow> live s" "L \<Longrightarrow> live t" "pending s = pending t"
  show "same_outcome (same_rest (=)) (P s) (P t)"
  proof (cases "F (pending s)")
    case None
    with parsesD_None [OF assms, of s] parsesD_None [OF assms, of t] st obtain e f
      where "P s = Inl e" "P t = Inl f" by metis
    then show ?thesis by simp
  next
    case (Some p)
    obtain v r where "p = (v, r)" by (cases p) simp
    with Some parsesD_Some [OF assms, of s v r] parsesD_Some [OF assms, of t v r] st obtain s' t'
      where "P s = Inr (v, s')" "ps_ok s'" "live s'" "pending s' = r"
        "P t = Inr (v, t')" "ps_ok t'" "live t'" "pending t' = r" by metis
    then show ?thesis by (simp add: same_rest_def)
  qed
qed

lemma agree_return: "R v w \<Longrightarrow> agree True R (\<lambda>st. Inr (v, st)) (\<lambda>st. Inr (w, st))"
  by (auto simp: agree_def same_rest_def)

lemma agree_fail: "agree L R (\<lambda>st. Inl e) (\<lambda>st. Inl f)"
  by (auto simp: agree_def)

lemma agree_if:
  assumes "b \<Longrightarrow> agree L R P P'" "\<not> b \<Longrightarrow> agree L R Q Q'"
  shows "agree L R (\<lambda>st. if b then P st else Q st) (\<lambda>st. if b then P' st else Q' st)"
  using assms by (cases b) simp_all

lemma agree_bind:
  assumes "agree L R P P'" "\<And>v w. R v w \<Longrightarrow> agree True S (Q v) (Q' w)"
  shows "agree L S (\<lambda>st. rbind (P st) (\<lambda>(v, st). Q v st)) (\<lambda>st. rbind (P' st) (\<lambda>(v, st). Q' v st))"
  using assms
  by (fastforce simp: agree_def same_rest_def intro!: same_outcome_bind [where R = "same_rest R"])

lemma agree_byte:
  assumes "\<And>c :: byte. agree True R (Q (ucast c)) (Q' (ucast c))"
    and eof: "\<And>st. \<exists>e. Q (-1) st = Inl e" "\<And>st. \<exists>e. Q' (-1) st = Inl e"
  shows "agree L R (\<lambda>st. rbind (parseByte st) (\<lambda>(c, st). Q c st)) (\<lambda>st. rbind (parseByte st) (\<lambda>(c, st). Q' c st))"
proof (rule agreeI)
  fix s t assume st: "ps_ok s" "ps_ok t" "pending s = pending t"
  show "same_outcome (same_rest R) (rbind (parseByte s) (\<lambda>(c, st). Q c st)) (rbind (parseByte t) (\<lambda>(c, st). Q' c st))"
  proof (cases "pending s")
    case Nil
    with st parseByte_Nil obtain s' t' where "parseByte s = Inr (-1, s')" "parseByte t = Inr (-1, t')" by metis
    moreover from eof obtain e f where "Q (-1) s' = Inl e" "Q' (-1) t' = Inl f" by metis
    ultimately show ?thesis by simp
  next
    case (Cons c r)
    with st parseByte_Cons obtain s' t' where
      "parseByte s = Inr (ucast c, s')" "ps_ok s'" "live s'" "pending s' = r"
      "parseByte t = Inr (ucast c, t')" "ps_ok t'" "live t'" "pending t' = r" by metis
    then show ?thesis using agreeD [OF assms(1)] by simp
  qed
qed

lemma agree_tag:
  assumes "agree True R Q Q'" "t \<noteq> -1"
  shows "agree L R (\<lambda>st. rbind (parseByte st) (\<lambda>(c, st). if c \<noteq> t then Inl e else Q st))
    (\<lambda>st. rbind (parseByte st) (\<lambda>(c, st). if c \<noteq> t then Inl f else Q' st))"
  by (rule agree_byte) (use assms in \<open>auto simp: agree_fail intro!: agree_if\<close>)

lemma agree_done:
  assumes "\<And>b. agree True R (Q b) (Q' b)"
  shows "agree True R (\<lambda>st. rbind (parseDone st) (\<lambda>d. Q d st)) (\<lambda>st. rbind (parseDone st) (\<lambda>d. Q' d st))"
  using assms by (auto simp: agree_def parseDone_pending)

lemma agree_fields:
  "agree L (=) parseInt parseInt"
  "agree L (=) parseString parseString"
  "agree L (=) parseAsn parseAsn"
  using agree_parses [OF parseInt_parses] agree_parses [OF parseString_parses] agree_parses [OF parseAsn_parses]
  by (simp_all add: agree_live)

lemma agree_strbuf: "agree L (\<lambda>ps qs. concat ps = concat qs) parseStrbuf parseStrbuf"
proof (rule agree_live, rule agreeI)
  fix s t assume "ps_ok s" "ps_ok t" "pending s = pending t"
  with agreeD [OF agree_parses [OF parseStrbuf_parses], of s t]
  show "same_outcome (same_rest (\<lambda>ps qs. concat ps = concat qs)) (parseStrbuf s) (parseStrbuf t)"
    by (cases "parseStrbuf s"; cases "parseStrbuf t") (auto simp: same_rest_def)
qed

end
