(* ===== verification/Websocket.thy ===== *)
theory Websocket
  imports ProtoRead
begin

text \<open>
  WebSocket messages (\<^verbatim>\<open>src/lib/websocket.c\<close>) and their framing in the chat service
  (\<^verbatim>\<open>_receiveWsChunk\<close> of \<^verbatim>\<open>src/lib/rest/Server.c\<close>).

  The HTTP status names come from a header of the host framework: the model has the names
  as a datatype and the numbers as a function \<open>http_status \<Rightarrow> lpcint\<close> which is a parameter
  (\<open>http_codes\<close>).  \<open>HttpRequest\<close> and \<open>HttpResponse\<close> objects are records of the arguments they
  are constructed from.  A body that is parsed is the list of pieces appended to its
  \<open>StringBuffer\<close>; a mapping of headers is its list of pairs in the order of \<open>map_indices\<close>.
\<close>

section \<open>HTTP status codes\<close>

datatype http_status =
    HTTP_CONTINUE | HTTP_SWITCHING_PROTOCOLS | HTTP_OK | HTTP_CREATED | HTTP_ACCEPTED
  | HTTP_NON_AUTHORITATIVE_INFORMATION | HTTP_NO_CONTENT | HTTP_RESET_CONTENT
  | HTTP_PARTIAL_CONTENT | HTTP_MULTIPLE_CHOICES | HTTP_MOVED_PERMANENTLY | HTTP_FOUND
  | HTTP_SEE_OTHER | HTTP_NOT_MODIFIED | HTTP_USE_PROXY | HTTP_TEMPORARY_REDIRECT
  | HTTP_PERMANENT_REDIRECT | HTTP_BAD_REQUEST | HTTP_UNAUTHORIZED | HTTP_PAYMENT_REQUIRED
  | HTTP_FORBIDDEN | HTTP_NOT_FOUND | HTTP_METHOD_NOT_ALLOWED | HTTP_NOT_ACCEPTABLE
  | HTTP_PROXY_AUTHENTICATION_REQUIRED | HTTP_REQUEST_TIMEOUT | HTTP_CONFLICT | HTTP_GONE
  | HTTP_LENGTH_REQUIRED | HTTP_PRECONDITION_FAILED | HTTP_CONTENT_TOO_LARGE
  | HTTP_URI_TOO_LONG | HTTP_UNSUPPORTED_MEDIA_TYPE | HTTP_RANGE_NOT_SATISFIABLE
  | HTTP_EXPECTATION_FAILED | HTTP_MISDIRECTED_REQUEST | HTTP_UNPROCESSABLE_CONTENT
  | HTTP_UPGRADE_REQUIRED | HTTP_INTERNAL_ERROR | HTTP_NOT_IMPLEMENTED | HTTP_BAD_GATEWAY
  | HTTP_SERVICE_UNAVAILABLE | HTTP_GATEWAY_TIMEOUT | HTTP_VERSION_NOT_SUPPORTED

type_synonym http_codes = "http_status \<Rightarrow> lpcint"

text \<open>The cases of the switch in \<open>comment\<close>, in its order.\<close>

definition comment_cases :: "(http_status \<times> string) list" where
  "comment_cases =
    [(HTTP_CONTINUE, ''Continue''),
     (HTTP_SWITCHING_PROTOCOLS, ''Switching Protocols''),
     (HTTP_OK, ''OK''),
     (HTTP_CREATED, ''Created''),
     (HTTP_ACCEPTED, ''Accepted''),
     (HTTP_NON_AUTHORITATIVE_INFORMATION, ''Non-authoritative information''),
     (HTTP_NO_CONTENT, ''No Content''),
     (HTTP_RESET_CONTENT, ''Reset Content''),
     (HTTP_PARTIAL_CONTENT, ''Partial Content''),
     (HTTP_MULTIPLE_CHOICES, ''Multiple Choices''),
     (HTTP_MOVED_PERMANENTLY, ''Moved Permanently''),
     (HTTP_FOUND, ''Found''),
     (HTTP_SEE_OTHER, ''See Other''),
     (HTTP_NOT_MODIFIED, ''Not Modified''),
     (HTTP_USE_PROXY, ''Use Proxy''),
     (HTTP_TEMPORARY_REDIRECT, ''Temporary Redirect''),
     (HTTP_PERMANENT_REDIRECT, ''Permanent Redirect''),
     (HTTP_BAD_REQUEST, ''Bad Request''),
     (HTTP_UNAUTHORIZED, ''Unauthorized''),
     (HTTP_PAYMENT_REQUIRED, ''Payment Required''),
     (HTTP_FORBIDDEN, ''Forbidden''),
     (HTTP_NOT_FOUND, ''Not Found''),
     (HTTP_METHOD_NOT_ALLOWED, ''Method Not Allowed''),
     (HTTP_NOT_ACCEPTABLE, ''Not Acceptable''),
     (HTTP_PROXY_AUTHENTICATION_REQUIRED, ''Proxy Authentication Required''),
     (HTTP_REQUEST_TIMEOUT, ''Request Timeout''),
     (HTTP_CONFLICT, ''Conflict''),
     (HTTP_GONE, ''Gone''),
     (HTTP_LENGTH_REQUIRED, ''Length Required''),
     (HTTP_PRECONDITION_FAILED, ''Precondition Failed''),
     (HTTP_CONTENT_TOO_LARGE, ''Content Too Large''),
     (HTTP_URI_TOO_LONG, ''URI Too Long''),
     (HTTP_UNSUPPORTED_MEDIA_TYPE, ''Unsupported Media Type''),
     (HTTP_RANGE_NOT_SATISFIABLE, ''Range Not Satisfiable''),
     (HTTP_EXPECTATION_FAILED, ''Expectation Failed''),
     (HTTP_MISDIRECTED_REQUEST, ''Misdirected Request''),
     (HTTP_UNPROCESSABLE_CONTENT, ''Unprocessable Content''),
     (HTTP_UPGRADE_REQUIRED, ''Upgrade Required''),
     (HTTP_INTERNAL_ERROR, ''Internal Error''),
     (HTTP_NOT_IMPLEMENTED, ''Not Implemented''),
     (HTTP_BAD_GATEWAY, ''Bad Gateway''),
     (HTTP_SERVICE_UNAVAILABLE, ''Service Unavailable''),
     (HTTP_GATEWAY_TIMEOUT, ''Gateway Timeout''),
     (HTTP_VERSION_NOT_SUPPORTED, ''Version Not Supported'')]"

definition comment :: "http_codes \<Rightarrow> lpcint \<Rightarrow> bytes" where
  "comment H code =
     (case find (\<lambda>(s, c). H s = code) comment_cases of None \<Rightarrow> [] | Some (s, c) \<Rightarrow> str c)"

lemma short_comment [simp]: "short (comment H code)"
proof -
  have len: "length c < 2 ^ 31" if "(s, c) \<in> set comment_cases" for s c
    using that by (auto simp: comment_cases_def)
  show ?thesis
  proof (cases "find (\<lambda>(s, c). H s = code) comment_cases")
    case (Some p)
    then have "p \<in> set comment_cases" by (metis find_Some_iff nth_mem)
    moreover obtain st c where "p = (st, c)" by (cases p) simp
    ultimately show ?thesis using Some len [of st c] by (simp add: comment_def short_def)
  qed (simp add: comment_def short_def)
qed

section \<open>Sending frames\<close>

datatype ws_opcode = WEBSOCK_BINARY | WEBSOCK_CLOSE

record ws_frame =
  wf_opcode :: ws_opcode
  wf_mask :: lpcint
  wf_payload :: bytes

text \<open>The \<open>closing\<close> flag and the frames given to \<open>connection->sendWsChunk\<close>, all with FIN.\<close>

record ws_out =
  closing :: bool
  ws_sent :: "ws_frame list"

definition wsSendChunk :: "bytes \<Rightarrow> lpcint \<Rightarrow> ws_out \<Rightarrow> ws_out result" where
  "wsSendChunk chunk mask' st =
     (if closing st then Inl (Error ''WebSocket connection is closing'')
      else Inr (st\<lparr>ws_sent := ws_sent st @ [\<lparr>wf_opcode = WEBSOCK_BINARY, wf_mask = mask', wf_payload = chunk\<rparr>]\<rparr>))"

definition wsSendClose :: "bytes \<Rightarrow> lpcint \<Rightarrow> ws_out \<Rightarrow> ws_out" where
  "wsSendClose code mask' st =
     (if \<not> closing st
      then st\<lparr>closing := True,
              ws_sent := ws_sent st @ [\<lparr>wf_opcode = WEBSOCK_CLOSE, wf_mask = mask', wf_payload = code\<rparr>]\<rparr>
      else st)"

section \<open>Requests and responses\<close>

datatype hvalue = Hstr bytes | Harr "bytes list"

type_synonym headers = "(bytes \<times> hvalue) list"

fun hvalue_text :: "hvalue \<Rightarrow> bytes result" where
  "hvalue_text (Hstr s) = Inr s"
| "hvalue_text (Harr vs) = lpc_index vs 0"

definition header_line :: "bytes \<times> hvalue \<Rightarrow> bytes result" where
  "header_line h = rmap (\<lambda>v. fst h @ str '':'' @ v) (hvalue_text (snd h))"

definition header_fields :: "headers option \<Rightarrow> bytes result" where
  "header_fields extraHeaders =
     (case extraHeaders of
        None \<Rightarrow> Inr []
      | Some hs \<Rightarrow> rmap concat (rmapM (\<lambda>h. rmap (\<lambda>l. [0x2A] @ protoString l) (header_line h)) hs))"

definition wsRequest :: "bytes \<Rightarrow> bytes \<Rightarrow> bytes option \<Rightarrow> headers option \<Rightarrow> bytes \<Rightarrow> bytes result" where
  "wsRequest verb path body extraHeaders context =
     (let request = [0x0A] @ protoString verb @ [0x12] @ protoString path;
          request = (case body of None \<Rightarrow> request | Some b \<Rightarrow> request @ [0x1A] @ protoStrbuf b) in
      rbind (protoAsn context) (\<lambda>id.
      rbind (header_fields extraHeaders) (\<lambda>hs.
        Inr ([0x08, 0x01, 0x12] @ protoStrbuf (request @ [0x20] @ id @ hs)))))"

definition wsResponse :: "http_codes \<Rightarrow> bytes \<Rightarrow> lpcint \<Rightarrow> bytes option \<Rightarrow> headers option \<Rightarrow> bytes result" where
  "wsResponse H context code entity extraHeaders =
     rbind (protoAsn context) (\<lambda>id.
       let response = [0x08] @ id @ [0x10] @ protoInt code @ [0x1A] @ protoString (comment H code);
           response = (case entity of None \<Rightarrow> response | Some b \<Rightarrow> response @ [0x22] @ protoStrbuf b) in
      rbind (header_fields extraHeaders) (\<lambda>hs.
        Inr ([0x08, 0x02, 0x1A] @ protoStrbuf (response @ hs))))"

text \<open>The arguments of the constructors; the header text is that given to \<open>RemoteHttpFields\<close>.\<close>

record http_request =
  rq_method :: bytes
  rq_host :: bytes
  rq_path :: bytes
  rq_headers :: "bytes option"

record http_response =
  rs_code :: lpcint
  rs_comment :: bytes
  rs_headers :: "bytes option"

section \<open>Termination of the header loops\<close>

lemma pending_start_read: "length (pending (start_read st)) \<le> length (pending st)"
  by (auto simp: pending_def start_read_def fetch_def split: option.splits list.splits)

lemma parseByte_consumes:
  "parseByte st = Inr (c, st') \<Longrightarrow> length (pending st') \<le> length (pending st)
    \<and> (c \<noteq> -1 \<longrightarrow> length (pending st') < length (pending st))"
  by (auto simp: parseByte_def pending_def fetch_def lpc_index_def split: option.splits list.splits if_splits)

lemma parseInt_loop_consumes:
  "parseInt_loop st v s = Inr (c, st') \<Longrightarrow> length (pending st') \<le> length (pending st)"
proof (induction st v s rule: parseInt_loop.induct)
  case (1 st v s)
  from "1.prems" obtain b st1 where b: "next_byte st = Inr (b, st1)"
    by (subst (asm) parseInt_loop.simps) auto
  then have *: "length (pending st1) < length (pending st)" by (simp add: next_byte_consumes)
  show ?case
  proof (cases "b AND 0x80 = 0")
    case True
    with "1.prems" b have "st' = st1"
      by (subst (asm) parseInt_loop.simps) (simp add: Let_def)
    with * show ?thesis by simp
  next
    case False
    with "1.prems" b have "parseInt_loop st1 (v OR push_bit s (ucast b AND 0x7f)) (s + 7) = Inr (c, st')"
      by (subst (asm) parseInt_loop.simps) (simp add: Let_def del: push_bit_and)
    with "1.IH" [OF b refl] False have "length (pending st') \<le> length (pending st1)"
      by (simp del: push_bit_and)
    with * show ?thesis by simp
  qed
qed

lemma parsePieces_consumes:
  "parsePieces st ps len = Inr (qs, st') \<Longrightarrow> length (pending st') \<le> length (pending st)"
proof (induction st ps len rule: parsePieces.induct)
  case (1 st ps len)
  from "1.prems" obtain b where b: "ps_buf st = Some b"
    by (subst (asm) parsePieces.simps) (auto split: option.splits)
  show ?case
  proof (cases "int (length b) - int (ps_off st) < len")
    case True
    with "1.prems" b obtain p where p: "rest_of_buf b (ps_off st) = Inr p"
        "parsePieces (fetch st) (ps @ [p]) (len - (int (length b) - int (ps_off st))) = Inr (qs, st')"
      by (subst (asm) parsePieces.simps) auto
    have "length (pending (fetch st)) \<le> length (pending st)"
      by (auto simp: pending_def fetch_def split: list.splits option.splits)
    with "1.IH" [OF b True p] show ?thesis by simp
  next
    case False
    with "1.prems" b have "st' = st\<lparr>ps_off := ps_off st + nat len\<rparr>"
      by (subst (asm) parsePieces.simps) auto
    then show ?thesis by (simp add: pending_def b)
  qed
qed

lemma parseString_consumes:
  assumes "parseString st = Inr (s, st')"
  shows "length (pending st') \<le> length (pending st)"
proof -
  from assms obtain len st1 ps where st1: "parseInt_loop (start_read st) 0 0 = Inr (len, st1)"
    and ps: "parsePieces (start_read st1) [] (sint len) = Inr (ps, st')"
    by (auto simp: parseString_def parseInt_def parseBytes_def)
  from parsePieces_consumes [OF ps] parseInt_loop_consumes [OF st1]
    pending_start_read [of st] pending_start_read [of st1] show ?thesis by simp
qed

lemma header_loop_decreases:
  assumes "parseByte st = Inr (c, st1)" "c = 0x2A" "parseString st1 = Inr (h, st2)"
  shows "length (pending st2) < length (pending st)"
proof -
  have "(0x2A :: lpcint) \<noteq> - 1" by simp
  then show ?thesis
    using assms parseByte_consumes [OF assms(1)] parseString_consumes [OF assms(3)] by simp
qed

section \<open>Receiving\<close>

function recv_request_headers :: "pstate \<Rightarrow> bytes \<Rightarrow> (bytes \<times> pstate) result" where
  "recv_request_headers st headers =
     rbind (parseDone st) (\<lambda>d.
       if d then Inr (headers, st)
       else rbind (parseByte st) (\<lambda>cst.
         if fst cst \<noteq> 0x2A then Inl (Error ''WebSocketRequestMessage.headers expected'')
         else rbind (parseString (snd cst)) (\<lambda>hst.
           recv_request_headers (snd hst) (headers @ fst hst @ str [CHR 0x0A]))))"
  by pat_completeness auto
termination
  by (relation "measure (\<lambda>(st, h). length (pending st))") (auto intro: header_loop_decreases)

declare recv_request_headers.simps [simp del]

text \<open>From the byte after the optional body to the end.\<close>

definition recv_request_tail ::
    "asn_lib \<Rightarrow> bytes \<Rightarrow> bytes \<Rightarrow> bytes \<Rightarrow> bytes list option \<Rightarrow> lpcint \<Rightarrow> pstate \<Rightarrow>
      ((bytes \<times> http_request \<times> bytes list option) \<times> pstate) result" where
  "recv_request_tail A service verb path body c st =
     (if c \<noteq> 0x20 then Inl (Error ''WebSocketRequestMessage.id expected'')
      else rbind (parseAsn st) (\<lambda>(context, st).
        rbind (recv_request_headers st []) (\<lambda>(headers, st).
          Inr ((lib_unsigned_extend A context 8,
            \<lparr>rq_method = verb, rq_host = service, rq_path = path,
             rq_headers = (if headers \<noteq> [] then Some headers else None)\<rparr>, body), st))))"

definition recv_request ::
    "asn_lib \<Rightarrow> bytes \<Rightarrow> pstate \<Rightarrow> ((bytes \<times> http_request \<times> bytes list option) \<times> pstate) result" where
  "recv_request A service st =
     rbind (parseByte st) (\<lambda>(c, st).
       if c \<noteq> 0x0A then Inl (Error ''WebSocketRequestMessage.verb expected'')
       else rbind (parseString st) (\<lambda>(verb, st).
         rbind (parseByte st) (\<lambda>(c, st).
           if c \<noteq> 0x12 then Inl (Error ''WebSocketRequestMessage.path expected'')
           else rbind (parseString st) (\<lambda>(path, st).
             rbind (parseByte st) (\<lambda>(c, st).
               if c = 0x1A
               then rbind (parseStrbuf st) (\<lambda>(body, st).
                 rbind (parseByte st) (\<lambda>(c, st).
                   recv_request_tail A service verb path (Some body) c st))
               else recv_request_tail A service verb path None c st)))))"

definition wsReceiveRequest ::
    "asn_lib \<Rightarrow> bytes list \<Rightarrow> bytes \<Rightarrow> (bytes \<times> http_request \<times> bytes list option) result" where
  "wsReceiveRequest A chunk service = rmap fst (recv_request A service (fresh chunk))"

function recv_response_headers :: "pstate \<Rightarrow> bytes \<Rightarrow> (bytes \<times> pstate) result" where
  "recv_response_headers st headers =
     rbind (parseString st) (\<lambda>hst.
       let headers = headers @ fst hst @ str [CHR 0x0A] in
       rbind (parseDone (snd hst)) (\<lambda>d.
         if d then Inr (headers, snd hst)
         else rbind (parseByte (snd hst)) (\<lambda>cst.
           if fst cst \<noteq> 0x2A then Inl (Error ''WebSocketResponseMessage.headers expected'')
           else recv_response_headers (snd cst) headers)))"
  by pat_completeness auto
termination
proof (relation "measure (\<lambda>(st, h). length (pending st))", goal_cases)
  case (2 st headers hst headers' d cst)
  obtain h st1 c st2 where eq: "hst = (h, st1)" "cst = (c, st2)" by (cases hst; cases cst) auto
  from 2 eq have "length (pending st1) \<le> length (pending st)" "c = 0x2A"
    by (auto dest: parseString_consumes)
  moreover have "(0x2A :: lpcint) \<noteq> -1" by simp
  ultimately show ?case
    using parseByte_consumes [of st1 c st2] 2 eq by simp
qed simp

declare recv_response_headers.simps [simp del]

definition recv_response_rest :: "pstate \<Rightarrow> ((bytes list option \<times> bytes option) \<times> pstate) result" where
  "recv_response_rest st =
     rbind (parseDone st) (\<lambda>d.
       if d then Inr ((None, None), st)
       else rbind (parseByte st) (\<lambda>(c, st).
         if c = 0x22
         then rbind (parseStrbuf st) (\<lambda>(body, st).
           rbind (parseDone st) (\<lambda>d.
             if d then Inr ((Some body, None), st)
             else rbind (parseByte st) (\<lambda>(c, st).
               if c \<noteq> 0x2A then Inl (Error ''WebSocketResponseMessage.headers expected'')
               else rbind (recv_response_headers st []) (\<lambda>(headers, st).
                 Inr ((Some body, Some headers), st)))))
         else if c = 0x2A
         then rbind (recv_response_headers st []) (\<lambda>(headers, st). Inr ((None, Some headers), st))
         else Inl (Error ''WebSocketResponseMessage.headers expected'')))"

definition recv_response ::
    "asn_lib \<Rightarrow> pstate \<Rightarrow> ((bytes \<times> http_response \<times> bytes list option) \<times> pstate) result" where
  "recv_response A st =
     rbind (parseByte st) (\<lambda>(c, st).
       if c \<noteq> 0x08 then Inl (Error ''WebSocketResponseMessage.id expected'')
       else rbind (parseAsn st) (\<lambda>(context, st).
         rbind (parseByte st) (\<lambda>(c, st).
           if c \<noteq> 0x10 then Inl (Error ''WebSocketResponseMessage.status expected'')
           else rbind (parseInt st) (\<lambda>(code, st).
             rbind (parseByte st) (\<lambda>(c, st).
               if c \<noteq> 0x1A then Inl (Error ''WebSocketResponseMessage.message expected'')
               else rbind (parseString st) (\<lambda>(message, st).
                 rbind (recv_response_rest st) (\<lambda>((body, headers), st).
                   Inr ((lib_unsigned_extend A context 8,
                     \<lparr>rs_code = code, rs_comment = message, rs_headers = headers\<rparr>, body), st))))))))"

definition wsReceiveResponse ::
    "asn_lib \<Rightarrow> bytes list \<Rightarrow> (bytes \<times> http_response \<times> bytes list option) result" where
  "wsReceiveResponse A chunk = rmap fst (recv_response A (fresh chunk))"

section \<open>Messages of the chat service\<close>

text \<open>The part of \<open>_receiveWsChunk\<close> that unwraps a chat message; the pieces are those of its \<open>chunk\<close>.\<close>

datatype ws_message = Ws_request "bytes list" | Ws_response "bytes list"

definition unwrap_chat :: "pstate \<Rightarrow> (ws_message \<times> pstate) result" where
  "unwrap_chat st =
     rbind (parseByte st) (\<lambda>(c, st).
       if c \<noteq> 0x08 then Inl (Error ''WebSocketMessage.type expected'')
       else rbind (parseInt st) (\<lambda>(c, st).
         if c = 1
         then rbind (parseByte st) (\<lambda>(c, st).
           if c \<noteq> 0x12 then Inl (Error ''WebSockMessage.request expected'')
           else rbind (parseStrbuf st) (\<lambda>(chunk, st). Inr (Ws_request chunk, st)))
         else if c = 2
         then rbind (parseByte st) (\<lambda>(c, st).
           if c \<noteq> 0x1A then Inl (Error ''WebSockMessage.response expected'')
           else rbind (parseStrbuf st) (\<lambda>(chunk, st). Inr (Ws_response chunk, st)))
         else Inl (Error ''Unknown websocket message'')))"

definition receiveChatMessage :: "bytes list \<Rightarrow> ws_message result" where
  "receiveChatMessage chunk = rmap fst (unwrap_chat (fresh chunk))"

end
