(* ===== verification/Json.thy ===== *)
theory Json
  imports Text Websocket
begin

text \<open>
  Values of requests and responses, shared by the REST services.

  A JSON entity is a decoded value (\<open>json::decode\<close> and \<open>json::encode\<close> belong to the platform).
  Its numbers are integers: a text that decodes to a float is not modelled.
  Reading a field of a mapping gives \<open>nil\<close> if it is missing and raises an error if the value is
  not a mapping; a value passed to a function is checked against the type of the parameter:
  \<open>nil\<close> is accepted for strings and mappings, not for integers.  An object in a response is given by
  what its \<open>jsonEncode\<close> returns: \<open>JEncoded\<close>.
\<close>

datatype json = JNil | JInt lpcint | JStr bytes | JArr "json list" | JMap "(bytes \<times> json) list" | JEncoded bytes

definition jfield :: "string \<Rightarrow> json \<Rightarrow> json result" where
  "jfield k j =
     (case j of
        JMap m \<Rightarrow> Inr (case map_of m (str k) of None \<Rightarrow> JNil | Some v \<Rightarrow> v)
      | _ \<Rightarrow> Inl Bad_argument)"

definition jint :: "json \<Rightarrow> lpcint result" where
  "jint j = (case j of JInt i \<Rightarrow> Inr i | _ \<Rightarrow> Inl Bad_argument)"

definition jstr :: "json \<Rightarrow> bytes option result" where
  "jstr j = (case j of JStr s \<Rightarrow> Inr (Some s) | JNil \<Rightarrow> Inr None | _ \<Rightarrow> Inl Bad_argument)"

definition jarr :: "json \<Rightarrow> json list result" where
  "jarr j = (case j of JArr js \<Rightarrow> Inr js | _ \<Rightarrow> Inl Bad_argument)"

text \<open>An integer and a string field, as arguments.\<close>

definition jfield_int :: "string \<Rightarrow> json \<Rightarrow> lpcint result" where
  "jfield_int k j = rbind (jfield k j) jint"

definition jfield_str :: "string \<Rightarrow> json \<Rightarrow> bytes option result" where
  "jfield_str k j = rbind (jfield k j) jstr"

text \<open>The argument of a function that needs a string that is not \<open>nil\<close>.\<close>

definition need :: "'a option \<Rightarrow> 'a result" where
  "need v = (case v of None \<Rightarrow> Inl Bad_argument | Some a \<Rightarrow> Inr a)"

lemma need_simps [simp]: "need (Some a) = Inr a" "need None = Inl Bad_argument"
  by (simp_all add: need_def)

definition jopt :: "bytes option \<Rightarrow> json" where
  "jopt v = (case v of None \<Rightarrow> JNil | Some s \<Rightarrow> JStr s)"

definition jobj :: "(string \<times> json) list \<Rightarrow> json" where
  "jobj fs = JMap (map (\<lambda>(k, v). (str k, v)) fs)"

definition jbool :: "bool \<Rightarrow> json" where
  "jbool b = JInt (if b then 1 else 0)"

text \<open>
  A response of a handler: its context, status code, entity and extra headers.  The entity of a
  response without one (\<open>respond(context, code, nil, nil)\<close>) is \<open>None\<close>.
\<close>

record response =
  rp_context :: "bytes option"
  rp_code :: lpcint
  rp_entity :: "json option"

definition respond_plain :: "bytes option \<Rightarrow> lpcint \<Rightarrow> response" where
  "respond_plain ctxt code = \<lparr>rp_context = ctxt, rp_code = code, rp_entity = None\<rparr>"

definition respond_json :: "bytes option \<Rightarrow> lpcint \<Rightarrow> json \<Rightarrow> response" where
  "respond_json ctxt code entity = \<lparr>rp_context = ctxt, rp_code = code, rp_entity = Some entity\<rparr>"

definition respond_json_ok :: "http_codes \<Rightarrow> bytes option \<Rightarrow> response" where
  "respond_json_ok H ctxt = respond_json ctxt (H HTTP_OK) (JMap [])"

text \<open>\<open>base64::encode\<close> and \<open>base64::decode\<close> of the platform.\<close>

record base64_lib =
  b64_encode :: "bytes \<Rightarrow> bytes"
  b64_decode :: "bytes \<Rightarrow> bytes result"
  b64_urlEncode :: "bytes \<Rightarrow> bytes"

end
