(* ===== verification/RestApi.thy ===== *)
theory RestApi
  imports Text "HOL-Library.AList"
begin

text \<open>
  The registry of REST paths (\<^verbatim>\<open>src/sys/rest_api.c\<close>) and the paths that the services register
  (the \<^verbatim>\<open>REGISTER\<close> parts of the files under \<^verbatim>\<open>src/services/lib\<close>).

  The nested mapping \<open>api\<close> is a tree: the value under \<open>nil\<close> is the call of a node, the values under
  strings are its children.  A call is the name of a function and the descriptions of its
  arguments (\<^verbatim>\<open>src/include/rest.h\<close>).
\<close>

datatype rest_arg = ARG_ENTITY | ARG_ENTITY_JSON | ARG_HEADER_AUTH | ARG_HEADER_OPT_AUTH | Header string

type_synonym rest_call = "string \<times> rest_arg list"

datatype api = Api "rest_call option" "(bytes \<times> api) list"

definition slash :: byte where "slash = of_char (CHR ''/'')"
definition question :: byte where "question = of_char (CHR ''?'')"
definition wildcard :: bytes where "wildcard = str ''{}''"

fun api_insert :: "bytes list \<Rightarrow> rest_call \<Rightarrow> api \<Rightarrow> api" where
  "api_insert [] call (Api v ch) = Api (Some call) ch"
| "api_insert (s # ss) call (Api v ch) =
     Api v (AList.update s (api_insert ss call (case map_of ch s of None \<Rightarrow> Api None [] | Some n \<Rightarrow> n)) ch)"

definition register_path ::
    "bytes \<Rightarrow> bytes \<Rightarrow> bytes \<Rightarrow> string \<Rightarrow> rest_arg list \<Rightarrow> api \<Rightarrow> api" where
  "register_path host method path function arguments api =
     api_insert (host # method # explode (path @ [slash]) slash) (function, arguments) api"

text \<open>The loop of \<open>lookup\<close>, with the arguments found so far.\<close>

fun api_walk :: "bytes list \<Rightarrow> api \<Rightarrow> bytes list \<Rightarrow> (rest_call \<times> bytes list) option" where
  "api_walk [] (Api v ch) args = map_option (\<lambda>c. (c, args)) v"
| "api_walk (s # ss) (Api v ch) args =
     (case map_of ch s of
        Some n \<Rightarrow> api_walk ss n args
      | None \<Rightarrow>
          (case map_of ch wildcard of
             Some n \<Rightarrow> api_walk ss n (args @ [s])
           | None \<Rightarrow> None))"

record handle =
  h_function :: string
  h_params :: "bytes list"
  h_args :: "rest_arg list"

definition lookup_path :: "bytes \<Rightarrow> bytes \<Rightarrow> bytes \<Rightarrow> api \<Rightarrow> handle option" where
  "lookup_path host method path api =
     (let (path, query) = (case scan_upto [question] path of
            Some (p, q) \<Rightarrow> (p, Some q)
          | None \<Rightarrow> (path, None));
          a = host # method # explode (path @ [slash]) slash;
          a = (case query of None \<Rightarrow> a | Some q \<Rightarrow> a[length a - 1 := last a @ [question] @ q])
      in case api_walk a api [] of
           None \<Rightarrow> None
         | Some ((function, arguments), args) \<Rightarrow>
             Some \<lparr>h_function = function, h_params = args, h_args = arguments\<rparr>)"

section \<open>The registered paths\<close>

text \<open>A call of \<open>register\<close>: the method, the path, the function and its arguments.\<close>

type_synonym route = "string \<times> string \<times> string \<times> rest_arg list"

definition registration_routes :: "route list" where
  "registration_routes =
    [(''POST'', ''/v1/verification/session'', ''postVerificationNewSession'', [ARG_ENTITY_JSON]),
     (''PATCH'', ''/v1/verification/session/{}'', ''patchVerificationSession'', [ARG_ENTITY_JSON]),
     (''GET'', ''/v1/verification/session/{}'', ''getVerificationSession'', []),
     (''POST'', ''/v1/verification/session/{}/code'', ''postVerificationSessionCode'',
        [Header ''Accept-Language'', ARG_ENTITY_JSON]),
     (''PUT'', ''/v1/verification/session/{}/code'', ''putVerificationSessionCode'', [ARG_ENTITY_JSON]),
     (''POST'', ''/v1/registration'', ''postRegistration'',
        [Header ''Authorization'', Header ''X-Signal-Agent'', ARG_ENTITY_JSON])]"

definition keys_routes :: "route list" where
  "keys_routes =
    [(''PUT'', ''/v2/keys/?identity=aci'', ''putKeysAci'', [ARG_HEADER_AUTH, ARG_ENTITY_JSON]),
     (''PUT'', ''/v2/keys?identity=aci'', ''putKeysAci'', [ARG_HEADER_AUTH, ARG_ENTITY_JSON]),
     (''PUT'', ''/v2/keys/?identity=pni'', ''putKeysPni'', [ARG_HEADER_AUTH, ARG_ENTITY_JSON]),
     (''PUT'', ''/v2/keys?identity=pni'', ''putKeysPni'', [ARG_HEADER_AUTH, ARG_ENTITY_JSON]),
     (''PUT'', ''/v2/keys/signed?identity=aci'', ''putKeysSignedAci'', [ARG_HEADER_AUTH, ARG_ENTITY_JSON]),
     (''GET'', ''/v2/keys/{}/{}'', ''getKeys'', [ARG_HEADER_AUTH, Header ''Unidentified-Access-Key''])]"

definition accounts_routes :: "route list" where
  "accounts_routes =
    [(''PUT'', ''/v1/accounts/gcm/'', ''putAccountsGcm'', [ARG_HEADER_AUTH, ARG_ENTITY_JSON]),
     (''PUT'', ''/v1/accounts/attributes/'', ''putAccountsAttributes'',
        [ARG_HEADER_AUTH, Header ''X-Signal-Agent'', ARG_ENTITY_JSON])]"

definition ws_headers :: "rest_arg list" where
  "ws_headers = [Header ''Upgrade'', Header ''Connection'', Header ''Sec-WebSocket-Key'', Header ''Sec-WebSocket-Version'']"

definition websocket_routes :: "route list" where
  "websocket_routes =
    [(''GET'', ''/v1/websocket/'', ''getWebsocket'', ws_headers),
     (''GET'', ''/v1/websocket/{}'', ''getWebsocketLogin'', ws_headers),
     (''GET'', ''/v1/websocket/provisioning/{}'', ''getWebsocketProvisioning'', ws_headers)]"

definition certificate_routes :: "route list" where
  "certificate_routes =
    [(''GET'', ''/v1/certificate/delivery'', ''getCertificateDelivery'', [ARG_HEADER_AUTH]),
     (''GET'', ''/v1/certificate/auth/{}'', ''getCertificateAuth'', [ARG_HEADER_AUTH])]"

definition config_routes :: "route list" where
  "config_routes = [(''GET'', ''/v1/config'', ''getConfig'', [ARG_HEADER_OPT_AUTH])]"

definition profile_routes :: "route list" where
  "profile_routes =
    [(''PUT'', ''/v1/profile/'', ''putProfile'', [ARG_HEADER_AUTH, ARG_ENTITY_JSON]),
     (''GET'', ''/v1/profile/{}'', ''getProfile'', [ARG_HEADER_OPT_AUTH, Header ''Unidentified-Access-Key'']),
     (''GET'', ''/v1/profile/{}/{}'', ''getVersionedProfile'',
        [ARG_HEADER_OPT_AUTH, Header ''Unidentified-Access-Key'']),
     (''GET'', ''/v1/profile/{}/{}/{}'', ''getProfileKeyCredential'',
        [ARG_HEADER_OPT_AUTH, Header ''Unidentified-Access-Key''])]"

definition backup_routes :: "route list" where
  "backup_routes = [(''GET'', ''/v1/backup/auth'', ''getBackupAuth'', [ARG_HEADER_AUTH])]"

definition chat_storage_routes :: "route list" where
  "chat_storage_routes = [(''GET'', ''/v1/storage/auth'', ''getStorageAuth'', [ARG_HEADER_AUTH])]"

definition directory_routes :: "route list" where
  "directory_routes = [(''GET'', ''/v2/directory/auth'', ''getDirectoryAuth'', [ARG_HEADER_AUTH])]"

definition messages_routes :: "route list" where
  "messages_routes =
    [(''PUT'', ''/v1/messages/{}'', ''putMessages'',
        [ARG_HEADER_AUTH, Header ''Unidentified-Access-Key'', ARG_ENTITY_JSON])]"

definition devices_routes :: "route list" where
  "devices_routes =
    [(''GET'', ''/v1/devices/'', ''getDevices'', [ARG_HEADER_AUTH]),
     (''GET'', ''/v1/devices/provisioning/code'', ''getDevicesProvisioningCode'', [ARG_HEADER_AUTH]),
     (''PUT'', ''/v1/devices/{}'', ''putDevicesCode'',
        [Header ''Authorization'', Header ''X-Signal-Agent'', ARG_ENTITY_JSON]),
     (''PUT'', ''/v1/devices/unauthenticated_delivery'', ''putDevicesUnauthenticatedDelivery'', [ARG_HEADER_AUTH]),
     (''PUT'', ''/v1/devices/capabilities'', ''putDevicesCapabilities'', [ARG_HEADER_AUTH, ARG_ENTITY_JSON])]"

definition provisioning_routes :: "route list" where
  "provisioning_routes =
    [(''PUT'', ''/v1/provisioning/{}'', ''putProvisioning'', [ARG_HEADER_AUTH, ARG_ENTITY_JSON])]"

definition storage_routes :: "route list" where
  "storage_routes =
    [(''GET'', ''/v1/storage/manifest'', ''getStorageManifest'', []),
     (''GET'', ''/v1/storage/manifest/version/{}'', ''getStorageManifestVersion'', [])]"

definition cdsi_routes :: "route list" where
  "cdsi_routes = [(''GET'', ''/v1/{}/discovery'', ''getDiscovery'', Header ''Authorization'' # ws_headers)]"

text \<open>The simulated client of the benchmark registers two paths of the host \<open>client\<close>.\<close>

definition client_routes :: "route list" where
  "client_routes =
    [(''PUT'', ''/api/v1/message'', ''receiveMessage'', []),
     (''PUT'', ''/api/v1/queue/empty'', ''ignoredMessage'', [])]"

text \<open>The order in which \<^verbatim>\<open>Chat.c\<close> includes the parts of the chat service.\<close>

definition chat_routes :: "route list" where
  "chat_routes = registration_routes @ keys_routes @ accounts_routes @ websocket_routes @ certificate_routes
     @ config_routes @ profile_routes @ backup_routes @ chat_storage_routes @ directory_routes @ messages_routes
     @ devices_routes @ provisioning_routes"

text \<open>A registration together with its host.\<close>

type_synonym registration = "bytes \<times> bytes \<times> bytes \<times> string \<times> rest_arg list"

definition on_host :: "bytes \<Rightarrow> route list \<Rightarrow> registration list" where
  "on_host host routes = map (\<lambda>(method, path, function, arguments). (host, str method, str path, function, arguments)) routes"

definition register_all :: "registration list \<Rightarrow> api \<Rightarrow> api" where
  "register_all regs api =
     foldl (\<lambda>api (host, method, path, function, arguments). register_path host method path function arguments api) api regs"

text \<open>\<open>create\<close>: the services and the benchmark's client; the host names of the services are arguments.\<close>

definition all_registrations :: "bytes \<Rightarrow> bytes \<Rightarrow> bytes \<Rightarrow> registration list" where
  "all_registrations chat storage cdsi =
     on_host chat chat_routes @ on_host storage storage_routes @ on_host cdsi cdsi_routes
       @ on_host (str ''client'') client_routes"

definition rest_api_create :: "bytes \<Rightarrow> bytes \<Rightarrow> bytes \<Rightarrow> api" where
  "rest_api_create chat storage cdsi = register_all (all_registrations chat storage cdsi) (Api None [])"

section \<open>The tree as a map of paths\<close>

fun api_value :: "api \<Rightarrow> rest_call option" where
  "api_value (Api v ch) = v"

fun subtree :: "bytes list \<Rightarrow> api \<Rightarrow> api option" where
  "subtree [] t = Some t"
| "subtree (s # ss) (Api v ch) = Option.bind (map_of ch s) (subtree ss)"

definition api_get :: "bytes list \<Rightarrow> api \<Rightarrow> rest_call option" where
  "api_get p t = Option.bind (subtree p t) api_value"

lemma subtree_empty: "subtree p (Api None []) = (if p = [] then Some (Api None []) else None)"
  by (cases p) simp_all

lemma api_get_empty [simp]: "api_get p (Api None []) = None"
  by (simp add: api_get_def subtree_empty)

lemma api_get_insert: "api_get p (api_insert q c t) = (if p = q then Some c else api_get p t)"
proof (induction q c t arbitrary: p rule: api_insert.induct)
  case (1 call v ch)
  show ?case by (cases p) (simp_all add: api_get_def)
next
  case (2 s ss call v ch)
  show ?case
  proof (cases p)
    case Nil
    then show ?thesis by (simp add: api_get_def)
  next
    case (Cons x xs)
    let ?n = "case map_of ch s of None \<Rightarrow> Api None [] | Some n \<Rightarrow> n"
    have IH: "api_get xs (api_insert ss call ?n) = (if xs = ss then Some call else api_get xs ?n)" by (rule 2)
    have "api_get p (api_insert (s # ss) call (Api v ch)) =
        (if x = s then api_get xs (api_insert ss call ?n) else api_get p (Api v ch))"
      by (simp add: Cons api_get_def AList.update_conv')
    moreover have "api_get xs ?n = api_get p (Api v ch)" if "x = s"
      using that by (cases "map_of ch s") (simp_all add: Cons, simp_all add: api_get_def Cons)
    ultimately show ?thesis using IH Cons by auto
  qed
qed

lemma subtree_insert: "subtree p (api_insert q c t) \<noteq> None \<longleftrightarrow> subtree p t \<noteq> None \<or> (\<exists>r. q = p @ r)"
proof (induction q c t arbitrary: p rule: api_insert.induct)
  case (1 call v ch)
  show ?case by (cases p) simp_all
next
  case (2 s ss call v ch)
  show ?case
  proof (cases p)
    case (Cons x xs)
    let ?n = "case map_of ch s of None \<Rightarrow> Api None [] | Some n \<Rightarrow> n"
    have IH: "subtree xs (api_insert ss call ?n) \<noteq> None \<longleftrightarrow> subtree xs ?n \<noteq> None \<or> (\<exists>r. ss = xs @ r)" by (rule 2)
    show ?thesis
    proof (cases "x = s")
      case True
      have new: "subtree p (api_insert (s # ss) call (Api v ch)) = subtree xs (api_insert ss call ?n)"
        using True by (simp add: Cons AList.update_conv')
      show ?thesis
      proof (cases "map_of ch s")
        case None
        then show ?thesis
          using IH True unfolding new by (cases "xs = []") (simp_all add: Cons subtree_empty)
      next
        case (Some n)
        then show ?thesis
          using IH True unfolding new by (simp add: Cons)
      qed
    qed (simp add: Cons AList.update_conv')
  qed simp
qed

text \<open>Every node below the root leads to a call: the invariant of a tree that was made by \<open>register\<close>.\<close>

definition api_ok :: "api \<Rightarrow> bool" where
  "api_ok t \<longleftrightarrow> (\<forall>p. p \<noteq> [] \<and> subtree p t \<noteq> None \<longrightarrow> (\<exists>r c. api_get (p @ r) t = Some c))"

lemma api_ok_insert: "api_ok t \<Longrightarrow> api_ok (api_insert q c t)"
  unfolding api_ok_def
proof (intro allI impI)
  fix p assume ok: "\<forall>p. p \<noteq> [] \<and> subtree p t \<noteq> None \<longrightarrow> (\<exists>r c. api_get (p @ r) t = Some c)"
    and p: "p \<noteq> [] \<and> subtree p (api_insert q c t) \<noteq> None"
  show "\<exists>r ca. api_get (p @ r) (api_insert q c t) = Some ca"
  proof (cases "\<exists>r. q = p @ r")
    case False
    then have "subtree p t \<noteq> None" using p subtree_insert by blast
    then obtain r d where "api_get (p @ r) t = Some d" using ok p by blast
    then have "\<exists>ca. api_get (p @ r) (api_insert q c t) = Some ca" by (cases "p @ r = q") (simp_all add: api_get_insert)
    then show ?thesis by blast
  qed (auto simp: api_get_insert)
qed

section \<open>The lookup, on the map of paths\<close>

definition known :: "(bytes list \<Rightarrow> rest_call option) \<Rightarrow> bytes list \<Rightarrow> bool" where
  "known M p \<longleftrightarrow> (\<exists>r c. M (p @ r) = Some c)"

text \<open>An element is taken literally if some path goes on with it, and else as a parameter.\<close>

fun spec_walk :: "(bytes list \<Rightarrow> rest_call option) \<Rightarrow> bytes list \<Rightarrow> bytes list \<Rightarrow> bytes list \<Rightarrow> (rest_call \<times> bytes list) option" where
  "spec_walk M p [] args = map_option (\<lambda>c. (c, args)) (M p)"
| "spec_walk M p (s # ss) args =
     (if known M (p @ [s]) then spec_walk M (p @ [s]) ss args
      else if known M (p @ [wildcard]) then spec_walk M (p @ [wildcard]) ss (args @ [s])
      else None)"

lemma subtree_append: "subtree (p @ q) t = Option.bind (subtree p t) (subtree q)"
proof (induction p arbitrary: t)
  case (Cons x p)
  then show ?case by (cases t) (cases "map_of (case t of Api v ch \<Rightarrow> ch) x"; simp)
qed simp

lemma known_subtree: "api_ok t \<Longrightarrow> p \<noteq> [] \<Longrightarrow> known (\<lambda>p. api_get p t) p \<longleftrightarrow> subtree p t \<noteq> None"
  unfolding known_def api_ok_def by (auto simp: api_get_def subtree_append bind_eq_Some_conv)

lemma api_walk_spec:
  assumes "api_ok t"
  shows "subtree p t = Some n \<Longrightarrow> api_walk ss n args = spec_walk (\<lambda>p. api_get p t) p ss args"
proof (induction ss arbitrary: p n args)
  case Nil
  then show ?case by (cases n) (simp add: api_get_def)
next
  case (Cons s ss)
  obtain v ch where n: "n = Api v ch" by (cases n)
  have sub: "subtree (p @ [x]) t = map_of ch x" for x
    using Cons.prems by (cases "map_of ch x") (simp_all add: subtree_append n)
  show ?case
    using Cons.IH [of "p @ [s]"] Cons.IH [of "p @ [wildcard]"] sub
    by (auto simp: n known_subtree [OF assms] split: option.splits)
qed

definition elements :: "registration \<Rightarrow> bytes list" where
  "elements = (\<lambda>(host, method, path, function, arguments). host # method # explode (path @ [slash]) slash)"

definition routes_map :: "registration list \<Rightarrow> bytes list \<Rightarrow> rest_call option" where
  "routes_map regs p = map_of (rev (map (\<lambda>r. (elements r, snd (snd (snd r)))) regs)) p"

lemma register_all_ok:
  "api_ok (register_all regs (Api None [])) \<and> (\<lambda>p. api_get p (register_all regs (Api None []))) = routes_map regs"
proof (induction regs rule: rev_induct)
  case Nil
  have "api_ok (Api None [])" by (simp add: api_ok_def subtree_empty)
  then show ?case by (simp add: register_all_def routes_map_def fun_eq_iff)
next
  case (snoc r regs)
  obtain h m p f a where r: "r = (h, m, p, f, a)" by (cases r)
  have "register_all (regs @ [r]) (Api None []) = api_insert (elements r) (f, a) (register_all regs (Api None []))"
    by (simp add: register_all_def r register_path_def elements_def)
  then show ?case
    using snoc api_ok_insert by (auto simp: fun_eq_iff api_get_insert routes_map_def r)
qed

text \<open>What a path is split into.\<close>

definition path_elements :: "bytes \<Rightarrow> bytes list" where
  "path_elements path =
     (case scan_upto [question] path of
        None \<Rightarrow> explode (path @ [slash]) slash
      | Some (p, q) \<Rightarrow>
          (let a = explode (p @ [slash]) slash in a[length a - 1 := last a @ [question] @ q]))"

lemma explode_not_Nil: "s \<noteq> [] \<Longrightarrow> explode s c \<noteq> []"
  by (simp add: explode_def Let_def)

lemma lookup_path_walk:
  "lookup_path host method path api =
     map_option (\<lambda>((f, a), ps). \<lparr>h_function = f, h_params = ps, h_args = a\<rparr>)
       (api_walk (host # method # path_elements path) api [])"
proof -
  have ne: "explode (s @ [slash]) slash \<noteq> []" for s by (rule explode_not_Nil) simp
  have upd: "(h # m # a)[length (h # m # a) - 1 := last (h # m # a) @ x] = h # m # a[length a - 1 := last a @ x]"
    if "a \<noteq> []" for h m :: bytes and a x
    using that by (cases a) (simp_all add: list_update_append)
  show ?thesis
    unfolding lookup_path_def path_elements_def
    using upd [OF ne] by (auto simp: Let_def split: option.splits prod.splits)
qed

lemma lookup_spec:
  "lookup_path host method path (register_all regs (Api None [])) =
     map_option (\<lambda>((f, a), ps). \<lparr>h_function = f, h_params = ps, h_args = a\<rparr>)
       (spec_walk (routes_map regs) [] (host # method # path_elements path) [])"
  unfolding lookup_path_walk
  using api_walk_spec [of "register_all regs (Api None [])" "[]"] register_all_ok [of regs] by simp

text \<open>How the elements of a path match those of a registered one: \<open>L\<close> are the literal elements.\<close>

definition matches :: "bytes set \<Rightarrow> bytes \<Rightarrow> bytes \<Rightarrow> bool" where
  "matches L e a \<longleftrightarrow> (if e = wildcard then a \<notin> L else a = e)"

definition params_of :: "bytes list \<Rightarrow> bytes list \<Rightarrow> bytes list" where
  "params_of es as = map snd (filter (\<lambda>(e, a). e = wildcard) (zip es as))"

lemma knownI: "M (p @ e # es) = Some c \<Longrightarrow> known M (p @ [e])"
  unfolding known_def by (rule exI [of _ es], rule exI [of _ c]) simp

lemma spec_walk_matches:
  assumes "\<And>q c. M q = Some c \<Longrightarrow> set q \<subseteq> L"
  shows "M (p @ es) = Some c \<Longrightarrow> list_all2 (matches L) es as \<Longrightarrow>
    spec_walk M p as args = Some (c, args @ params_of es as)"
proof (induction es arbitrary: p as args)
  case (Cons e es)
  then obtain a as' where as: "as = a # as'" "matches L e a" "list_all2 (matches L) es as'"
    by (auto simp: list_all2_Cons1)
  have known: "known M (p @ [e])" using Cons.prems(1) by (rule knownI)
  show ?case
  proof (cases "e = wildcard")
    case True
    then have "a \<notin> L" using as(2) by (simp add: matches_def)
    then have "\<not> known M (p @ [a])" using assms by (fastforce simp: known_def)
    then show ?thesis
      using Cons.IH [of "p @ [e]" as'] Cons.prems(1) as known True by (simp add: params_of_def)
  next
    case False
    then have "a = e" using as(2) by (simp add: matches_def)
    then show ?thesis
      using Cons.IH [of "p @ [e]" as'] Cons.prems(1) as known False by (simp add: params_of_def)
  qed
qed (simp add: params_of_def)

lemma spec_walk_literal: "M (p @ es) = Some c \<Longrightarrow> spec_walk M p es args = Some (c, args)"
proof (induction es arbitrary: p)
  case (Cons e es)
  then have "known M (p @ [e])" by (intro knownI)
  then show ?case using Cons by simp
qed simp

definition literals :: "registration list \<Rightarrow> bytes set" where
  "literals regs = \<Union> (set ` elements ` set regs)"

lemma routes_map_literals: "routes_map regs q = Some c \<Longrightarrow> set q \<subseteq> literals regs"
  by (auto simp: routes_map_def literals_def dest!: map_of_SomeD)

section \<open>Properties\<close>

text \<open>
  C33.  The registry implements the map from registered paths to their calls: a lookup takes each
  element of the path literally if some registered path continues with it, as a parameter if one
  continues with \<open>{}\<close>, and finds the call registered last under the elements it chose.
\<close>

theorem rest_api_refines:
  "lookup_path host method path (register_all regs (Api None [])) =
     map_option (\<lambda>((f, a), ps). \<lparr>h_function = f, h_params = ps, h_args = a\<rparr>)
       (spec_walk (routes_map regs) [] (host # method # path_elements path) [])"
  by (rule lookup_spec)

text \<open>
  Every registered path is found, with the function and arguments it was registered with, when
  its \<open>{}\<close> elements are replaced by strings that are not elements of registered paths; these are
  the parameters, in order.
\<close>

theorem registered_path_found:
  assumes "routes_map regs es = Some (function, arguments)"
    and "list_all2 (matches (literals regs)) es (host # method # path_elements path)"
  shows "lookup_path host method path (register_all regs (Api None []))
    = Some \<lparr>h_function = function, h_params = params_of es (host # method # path_elements path), h_args = arguments\<rparr>"
proof -
  have "spec_walk (routes_map regs) [] (host # method # path_elements path) []
      = Some ((function, arguments), [] @ params_of es (host # method # path_elements path))"
    by (rule spec_walk_matches [OF routes_map_literals _ assms(2)]) (simp_all add: assms(1))
  then show ?thesis unfolding lookup_spec by simp
qed

theorem registered_path_found_witness:
  "lookup_path (str ''chat'') (str ''GET'') (str ''/v2/keys/abc/1'') (register_all (on_host (str ''chat'') keys_routes) (Api None []))
    = Some \<lparr>h_function = ''getKeys'', h_params = [str ''abc'', str ''1''],
        h_args = [ARG_HEADER_AUTH, Header ''Unidentified-Access-Key'']\<rparr>"
proof -
  let ?es = "[str ''chat'', str ''GET'', str ''v2'', str ''keys'', str ''{}'', str ''{}'']"
  let ?regs = "on_host (str ''chat'') keys_routes"
  have p: "path_elements (str ''/v2/keys/abc/1'') = [str ''v2'', str ''keys'', str ''abc'', str ''1'']"
    by code_simp
  have m: "routes_map ?regs ?es = Some (''getKeys'', [ARG_HEADER_AUTH, Header ''Unidentified-Access-Key''])"
    by code_simp
  have "str ''abc'' \<notin> literals ?regs" "str ''1'' \<notin> literals ?regs"
    by code_simp+
  then have "list_all2 (matches (literals ?regs)) ?es (str ''chat'' # str ''GET'' # path_elements (str ''/v2/keys/abc/1''))"
    by (simp add: p matches_def wildcard_def)
  from registered_path_found [OF m this] show ?thesis
    by (simp add: p params_of_def wildcard_def)
qed

text \<open>
  A request for the text of a registered path itself, with \<open>{}\<close> in place of parameters, reaches
  the function without these parameters: \<open>{}\<close> is taken for a literal element.
\<close>

theorem wildcard_taken_literally:
  assumes "routes_map regs (host # method # path_elements path) = Some (function, arguments)"
  shows "lookup_path host method path (register_all regs (Api None []))
    = Some \<lparr>h_function = function, h_params = [], h_args = arguments\<rparr>"
proof -
  have "spec_walk (routes_map regs) [] (host # method # path_elements path) [] = Some ((function, arguments), [])"
    by (rule spec_walk_literal) (simp add: assms)
  then show ?thesis unfolding lookup_spec by simp
qed

theorem wildcard_taken_literally_witness:
  "lookup_path (str ''chat'') (str ''PUT'') (str ''/v1/messages/{}'') (register_all (on_host (str ''chat'') messages_routes) (Api None []))
    = Some \<lparr>h_function = ''putMessages'', h_params = [],
        h_args = [ARG_HEADER_AUTH, Header ''Unidentified-Access-Key'', ARG_ENTITY_JSON]\<rparr>"
proof -
  have "routes_map (on_host (str ''chat'') messages_routes)
      (str ''chat'' # str ''PUT'' # path_elements (str ''/v1/messages/{}''))
    = Some (''putMessages'', [ARG_HEADER_AUTH, Header ''Unidentified-Access-Key'', ARG_ENTITY_JSON])"
    by code_simp
  from wildcard_taken_literally [OF this] show ?thesis .
qed

end
