(* ===== verification/Rest.thy ===== *)
theory Rest
  imports Action Json RestApi Account
begin

text \<open>
  A connection of the HTTPS and WebSocket server (\<^verbatim>\<open>src/lib/rest/Server.c\<close>).

  \<^item> Objects are of type \<open>'o\<close>.  \<open>HttpRequest\<close> is read through its accessors: \<open>rest_request\<close>.  The
    value of a header depends on the parser of the HTTP library; \<open>header_value\<close> has the cases the
    code distinguishes.
  \<^item> Values that are passed around untyped (\<open>mixed\<close>) are \<open>rest_value\<close>: \<open>V JNil\<close> is \<open>nil\<close>,
    \<open>V (JInt i)\<close> an integer, \<open>V (JArr js)\<close> an array.
  \<^item> What the connection, the message server and other objects are asked to do is an event; a call of
    a function of this object that the services define (a handler, \<open>chatReceiveResponse\<close>) is an
    argument of the model.
  \<^item> A WebSocket frame's opcode is known as \<open>Some WEBSOCK_BINARY\<close>, \<open>Some WEBSOCK_CLOSE\<close> or another
    one, \<open>None\<close>.
\<close>

datatype header_value = H_nil | H_int lpcint | H_str bytes | H_auth bytes bytes | H_arr "bytes list" | H_other

record rest_request =
  hr_host :: "bytes option"
  hr_scheme :: "bytes option"
  hr_method :: bytes
  hr_path :: bytes
  hr_header :: "bytes \<Rightarrow> header_value"

datatype rest_value =
    V json | V_arg rest_arg | V_auth bytes bytes | V_other | V_entity bytes
  | V_account account | V_device device

datatype http_field = F_value hvalue | F_int lpcint | F_now | F_products

record http_out =
  ho_code :: lpcint
  ho_comment :: bytes
  ho_fields :: "(bytes \<times> http_field) list"

datatype 'o server_event =
    Http_response http_out | Http_chunk bytes | Expect_entity lpcint | Expect_frame
  | Done_request | Terminate_connection | Destruct
  | Invoke string "bytes option" "rest_value list"
  | Call_out string "bytes option" "rest_value list"
  | Call_auth "bytes option" bytes lpcint "bytes option" "rest_value list" handle
  | Device_seen account device
  | Deliver 'o "'o envelope list" | Stack "'o envelope list" | Notify "bytes option" lpcint
  | Send_mailbox bytes lpcint | Register_endpoint bytes lpcint | Add_address bytes
  | Queue_login "bytes option" bytes bytes bytes bytes lpcint | Provisioning_message 'o "bytes option"
  | Send_challenge bytes bytes "bytes option" bytes

record 'o rest_server =
  sv_connection :: "'o option"
  sv_request :: "rest_request option"
  sv_handle :: "handle option"
  sv_login :: "bytes option"
  sv_password :: "bytes option"
  sv_websocket :: "string option"
  sv_opcode :: "ws_opcode option"
  sv_out :: ws_out

text \<open>The libraries, the configuration, and what the other servers hold when a function runs.\<close>

record env =
  en_http :: http_codes
  en_asn :: asn_lib
  en_hex :: hex_lib
  en_hkdf :: hkdf
  en_base64 :: base64_lib
  en_json_decode :: "bytes \<Rightarrow> json result"
  en_json_encode :: "json \<Rightarrow> bytes"
  en_sha1 :: "bytes \<Rightarrow> bytes"
  en_fields :: "bytes option \<Rightarrow> bytes \<Rightarrow> header_value"
  en_chat_server :: bytes
  en_status_1000 :: bytes
  en_api :: api
  en_clock :: clock
  en_accounts :: "bytes \<Rightarrow> account option"

definition WEBSOCKET_GUID :: bytes where
  "WEBSOCKET_GUID = str ''258EAFA5-E914-47DA-95CA-C5AB0DC85B11''"

definition REST_LENGTH_LIMIT :: lpcint where "REST_LENGTH_LIMIT = 4194304"

section \<open>Sending\<close>

definition init_server :: "'o \<Rightarrow> (('o, 'z) rest_server_scheme, 'o server_event, unit) action" where
  "init_server conn = amod (\<lambda>s. if sv_connection s = None then s\<lparr>sv_connection := Some conn\<rparr> else s)"

text \<open>A call of a function of the connection fails if there is none.\<close>

definition connection_call :: "'e \<Rightarrow> (('o, 'z) rest_server_scheme, 'e, unit) action" where
  "connection_call e = abind (aget sv_connection) (\<lambda>c.
     if c = None then afail Bad_argument else aemit e)"

definition sendChunk :: "bytes \<Rightarrow> (('o, 'z) rest_server_scheme, 'e, unit) action" where
  "sendChunk chunk =
     abind (aget id) (\<lambda>s.
     if sv_websocket s = None then afail (Error ''Not a WebSocket connection'')
     else case wsSendChunk chunk 0 (sv_out s) of
            Inl e \<Rightarrow> afail e
          | Inr out \<Rightarrow>
              if sv_connection s = None then afail Bad_argument
              else amod (\<lambda>s. s\<lparr>sv_out := out\<rparr>))"

definition send_close_frame :: "bytes \<Rightarrow> (('o, 'z) rest_server_scheme, 'e, unit) action" where
  "send_close_frame code =
     abind (aget id) (\<lambda>s.
       if sv_connection s = None \<and> \<not> closing (sv_out s)
       then athen (amod (\<lambda>s. s\<lparr>sv_out := (sv_out s)\<lparr>closing := True\<rparr>\<rparr>)) (afail Bad_argument)
       else amod (\<lambda>s. s\<lparr>sv_out := wsSendClose code 0 (sv_out s)\<rparr>))"

definition sendClose :: "bytes \<Rightarrow> (('o, 'z) rest_server_scheme, 'e, unit) action" where
  "sendClose code =
     abind (aget sv_websocket) (\<lambda>w.
       if w = None then afail (Error ''Not a WebSocket connection'') else send_close_frame code)"

definition http_fields ::
    "http_codes \<Rightarrow> lpcint \<Rightarrow> bytes option \<Rightarrow> bytes option \<Rightarrow> headers option \<Rightarrow> (bytes \<times> http_field) list" where
  "http_fields H code type entity extraHeaders =
     [(str ''Date'', F_now), (str ''Server'', F_products)]
     @ (if code = H HTTP_BAD_REQUEST \<or> code = H HTTP_NOT_FOUND \<or> code = H HTTP_CONTENT_TOO_LARGE
        then [(str ''Connection'', F_value (Harr [str ''close'']))] else [])
     @ (case entity of
          None \<Rightarrow> []
        | Some b \<Rightarrow> [(str ''Content-Type'', F_value (Hstr (case type of None \<Rightarrow> [] | Some t \<Rightarrow> t))),
                     (str ''Content-Length'', F_int (of_nat (length b)))])
     @ (case extraHeaders of
          None \<Rightarrow> []
        | Some hs \<Rightarrow> rev (map (\<lambda>(k, v). (k, F_value v)) hs))"

definition httpRespond ::
    "http_codes \<Rightarrow> lpcint \<Rightarrow> bytes option \<Rightarrow> bytes option \<Rightarrow> headers option
      \<Rightarrow> (('o, 'z) rest_server_scheme, 'o server_event, unit) action" where
  "httpRespond H code type entity extraHeaders =
     athen (connection_call (Http_response
       \<lparr>ho_code = code, ho_comment = comment H code, ho_fields = http_fields H code type entity extraHeaders\<rparr>))
     (case entity of None \<Rightarrow> aret () | Some b \<Rightarrow> connection_call (Http_chunk b))"

definition respond ::
    "http_codes \<Rightarrow> bytes option \<Rightarrow> lpcint \<Rightarrow> bytes option \<Rightarrow> bytes option \<Rightarrow> headers option
      \<Rightarrow> (('o, 'z) rest_server_scheme, 'o server_event, lpcint) action" where
  "respond H ctxt code type entity extraHeaders =
     athen (amod (\<lambda>s. s\<lparr>sv_request := None, sv_handle := None\<rparr>))
     (abind (aget sv_websocket) (\<lambda>w.
       athen
        (if w \<noteq> None then
           (let extraHeaders = (case type of
                None \<Rightarrow> extraHeaders
              | Some t \<Rightarrow> Some (AList.update (str ''Content-Type'') (Hstr t)
                           (case extraHeaders of None \<Rightarrow> [] | Some hs \<Rightarrow> hs)))
            in abind (alift (rbind (need ctxt) (\<lambda>c. wsResponse H c code entity extraHeaders))) sendChunk)
         else httpRespond H code type entity extraHeaders)
        (aret code)))"

definition json_type :: bytes where
  "json_type = str ''application/json;charset=utf-8''"

definition respondJson ::
    "env \<Rightarrow> bytes option \<Rightarrow> lpcint \<Rightarrow> json \<Rightarrow> headers option
      \<Rightarrow> (('o, 'z) rest_server_scheme, 'o server_event, lpcint) action" where
  "respondJson E ctxt code entity extraHeaders =
     respond (en_http E) ctxt code (Some json_type) (Some (en_json_encode E entity)) extraHeaders"

definition respondJsonOK ::
    "env \<Rightarrow> bytes option \<Rightarrow> headers option \<Rightarrow> (('o, 'z) rest_server_scheme, 'o server_event, lpcint) action" where
  "respondJsonOK E ctxt extraHeaders = respondJson E ctxt (en_http E HTTP_OK) (JMap []) extraHeaders"

text \<open>\<open>respond(context, code, nil, nil)\<close>, as the value of a substituted argument.\<close>

definition refuse :: "env \<Rightarrow> bytes option \<Rightarrow> (('o, 'z) rest_server_scheme, 'o server_event, rest_value) action" where
  "refuse E ctxt =
     abind (respond (en_http E) ctxt (en_http E HTTP_BAD_REQUEST) None None None) (\<lambda>code. aret (V (JInt code)))"

section \<open>Arguments of a handler\<close>

definition header :: "rest_request option \<Rightarrow> bytes \<Rightarrow> header_value result" where
  "header rq name = rmap (\<lambda>r. hr_header r name) (need rq)"

fun header_arg :: "header_value \<Rightarrow> rest_value" where
  "header_arg H_nil = V JNil"
| "header_arg (H_int i) = V (JInt i)"
| "header_arg (H_str s) = V (JStr s)"
| "header_arg (H_auth s a) = V_auth s a"
| "header_arg (H_arr [v]) = V (JStr v)"
| "header_arg (H_arr vs) = V (JArr (map JStr vs))"
| "header_arg H_other = V_other"

text \<open>\<open>"%s.%d"\<close> on a login: the account and the device, 1 by default.\<close>

definition split_login :: "bytes \<Rightarrow> bytes \<times> lpcint" where
  "split_login s =
     (case scan_upto (str ''.'') s of
        None \<Rightarrow> (s, 1)
      | Some (s, r) \<Rightarrow> (s, case scan_int r of Some (i, _) \<Rightarrow> i | None \<Rightarrow> 1))"

text \<open>From \<open>deviceId = 1\<close> to \<open>return 0\<close>.\<close>

definition queue_auth ::
    "env \<Rightarrow> bytes option \<Rightarrow> rest_value list \<Rightarrow> handle \<Rightarrow> bytes \<Rightarrow> bytes option
      \<Rightarrow> (('o, 'z) rest_server_scheme, 'o server_event, rest_value) action" where
  "queue_auth E ctxt args h login password =
     (let (login, deviceId) = split_login login in
      abind (alift (uuid_decode (en_hex E) (Some login))) (\<lambda>accountId.
      athen (aemit (Call_auth ctxt accountId deviceId password (drop 1 args) h)) (aret (V (JInt 0)))))"

definition auth_arg ::
    "env \<Rightarrow> bytes option \<Rightarrow> rest_request option \<Rightarrow> rest_value list \<Rightarrow> bool \<Rightarrow> handle
      \<Rightarrow> (('o, 'z) rest_server_scheme, 'o server_event, rest_value) action" where
  "auth_arg E ctxt request args optional h =
     abind (alift (header request (str ''Authorization''))) (\<lambda>auth.
       if auth = H_nil \<or> auth = H_int 0 then
         abind (aget id) (\<lambda>s.
           case sv_login s of
             Some login \<Rightarrow> queue_auth E ctxt args h login (sv_password s)
           | None \<Rightarrow>
               if optional then
                 athen (aemit (Call_out (h_function h) ctxt
                          (map (\<lambda>p. V (JStr p)) (h_params h) @ [V JNil, V JNil] @ drop 1 args)))
                   (aret (V (JInt 0)))
               else refuse E ctxt)
       else
         (case auth of
            H_auth scheme authentication \<Rightarrow>
              if lower_case scheme \<noteq> str ''basic'' then refuse E ctxt
              else abind (alift (b64_decode (en_base64 E) authentication)) (\<lambda>cred.
                case scan_upto (str '':'') cred of
                  None \<Rightarrow> refuse E ctxt
                | Some (login, password) \<Rightarrow> queue_auth E ctxt args h login (Some password))
          | _ \<Rightarrow> afail Bad_argument))"

definition json_arg ::
    "env \<Rightarrow> rest_request option \<Rightarrow> bytes option \<Rightarrow> (('o, 'z) rest_server_scheme, 'o server_event, rest_value) action" where
  "json_arg E request entity =
     abind (alift (header request (str ''Content-Type''))) (\<lambda>type.
       case type of
         H_str s \<Rightarrow>
           if lower_case s \<noteq> str ''application/json'' then afail (Error ''Content-Type not JSON'')
           else abind (alift (rbind (need entity) (en_json_decode E))) (\<lambda>j. aret (V j))
       | _ \<Rightarrow> afail Bad_argument)"

definition substArg ::
    "env \<Rightarrow> bytes option \<Rightarrow> rest_request option \<Rightarrow> bytes option \<Rightarrow> rest_value list \<Rightarrow> nat \<Rightarrow> handle
      \<Rightarrow> (('o, 'z) rest_server_scheme, 'o server_event, rest_value) action" where
  "substArg E ctxt request entity args i h =
     (case args ! i of
        V_arg ARG_HEADER_AUTH \<Rightarrow>
          if i \<noteq> 0 then afail (Error ''Authorization must be first'')
          else acatch (auth_arg E ctxt request args False h) (refuse E ctxt)
      | V_arg ARG_HEADER_OPT_AUTH \<Rightarrow>
          if i \<noteq> 0 then afail (Error ''Authorization must be first'')
          else acatch (auth_arg E ctxt request args True h) (refuse E ctxt)
      | V_arg ARG_ENTITY \<Rightarrow> aret (case entity of None \<Rightarrow> V JNil | Some b \<Rightarrow> V_entity b)
      | V_arg ARG_ENTITY_JSON \<Rightarrow> acatch (json_arg E request entity) (refuse E ctxt)
      | V_arg (Header name) \<Rightarrow> abind (alift (header request (str name))) (\<lambda>v. aret (header_arg v))
      | _ \<Rightarrow> afail (Error ''Unkown argument type''))"

text \<open>
  The loop of \<open>call\<close>, from the last argument to the first: it ends early with a code, or with the
  arguments.  An array is spliced in.
\<close>

fun subst_args ::
    "env \<Rightarrow> bytes option \<Rightarrow> rest_request option \<Rightarrow> bytes option \<Rightarrow> handle \<Rightarrow> nat \<Rightarrow> rest_value list
      \<Rightarrow> (('o, 'z) rest_server_scheme, 'o server_event, lpcint + rest_value list) action" where
  "subst_args E ctxt request entity h 0 args = aret (Inr args)"
| "subst_args E ctxt request entity h (Suc i) args =
     abind (substArg E ctxt request entity args i h) (\<lambda>arg.
       case arg of
         V (JInt code) \<Rightarrow> aret (Inl code)
       | V (JArr js) \<Rightarrow> subst_args E ctxt request entity h i (take i args @ map V js @ drop (Suc i) args)
       | _ \<Rightarrow> subst_args E ctxt request entity h i (args[i := arg]))"

section \<open>Calls\<close>

type_synonym ('s, 'e) handlers = "string \<Rightarrow> bytes option \<Rightarrow> rest_value list \<Rightarrow> ('s, 'e, unit) action"

definition params :: "handle \<Rightarrow> rest_value list" where
  "params h = map (\<lambda>p. V (JStr p)) (h_params h)"

definition rest_call ::
    "env \<Rightarrow> (('o, 'z) rest_server_scheme, 'o server_event) handlers \<Rightarrow> bytes option \<Rightarrow> rest_request option
      \<Rightarrow> bytes option \<Rightarrow> handle option \<Rightarrow> (('o, 'z) rest_server_scheme, 'o server_event, unit) action" where
  "rest_call E invoke ctxt request entity callee =
     (case callee of
        None \<Rightarrow> afail Bad_argument
      | Some h \<Rightarrow>
          abind (subst_args E ctxt request entity h (length (h_args h)) (map V_arg (h_args h))) (\<lambda>r.
            case r of
              Inl code \<Rightarrow> aret ()
            | Inr args \<Rightarrow> invoke (h_function h) ctxt (params h @ args)))"

definition authCall ::
    "env \<Rightarrow> (('o, 'z) rest_server_scheme, 'o server_event) handlers \<Rightarrow> bytes option \<Rightarrow> bytes \<Rightarrow> lpcint
      \<Rightarrow> bytes option \<Rightarrow> rest_value list \<Rightarrow> handle \<Rightarrow> (('o, 'z) rest_server_scheme, 'o server_event, unit) action" where
  "authCall E invoke ctxt accountId deviceId password args h =
     (let unauthorized = abind (respond (en_http E) ctxt (en_http E HTTP_UNAUTHORIZED) None None None) (\<lambda>_. aret ())
      in case en_accounts E accountId of
           None \<Rightarrow> unauthorized
         | Some account \<Rightarrow>
             (case account_device deviceId account of
                None \<Rightarrow> unauthorized
              | Some device \<Rightarrow>
                  abind (alift (need password)) (\<lambda>password.
                    let (ok, device) = verifyPassword (en_hex E) (en_hkdf E) (en_clock E) password device;
                        account = set_device device account
                    in athen (aemit (Device_seen account device))
                         (if ok then invoke (h_function h) ctxt (params h @ [V_account account, V_device device] @ args)
                          else unauthorized))))"

text \<open>\<open>prev_host\<close> is the value of \<open>previous_object()->host()\<close>.\<close>

definition receiveRequest ::
    "env \<Rightarrow> (('o, 'z) rest_server_scheme, 'o server_event) handlers \<Rightarrow> bytes option \<Rightarrow> lpcint \<Rightarrow> rest_request option
      \<Rightarrow> 'o option \<Rightarrow> (('o, 'z) rest_server_scheme, 'o server_event, unit) action" where
  "receiveRequest E invoke prev_host code request prev =
     (let answer = (\<lambda>code. abind (respond (en_http E) None code None None None) (\<lambda>_. aret ()));
          H = en_http E
      in abind (aget sv_connection) (\<lambda>connection.
      aif (prev = connection)
       (athen (amod (\<lambda>s. s\<lparr>sv_request := request\<rparr>))
        (if code \<noteq> 0 then answer code
         else abind (alift (need request)) (\<lambda>rq.
           case hr_host rq of
             None \<Rightarrow> answer (H HTTP_BAD_REQUEST)
           | Some host \<Rightarrow>
               if (case prev_host of None \<Rightarrow> False | Some h \<Rightarrow> lower_case h \<noteq> lower_case host) then answer (H HTTP_BAD_REQUEST)
               else if (case hr_scheme rq of None \<Rightarrow> False | Some s \<Rightarrow> s \<noteq> str ''https://'') then answer (H HTTP_NOT_FOUND)
               else if hr_header rq (str ''Transfer-Encoding'') \<notin> {H_nil, H_int 0} then answer (H HTTP_CONTENT_TOO_LARGE)
               else
                 (let callee = lookup_path host (hr_method rq) (hr_path rq) (en_api E) in
                  athen (amod (\<lambda>s. s\<lparr>sv_handle := callee\<rparr>))
                  (case callee of
                     None \<Rightarrow> answer (H HTTP_NOT_FOUND)
                   | Some h \<Rightarrow>
                       (case hr_header rq (str ''Content-Length'') of
                          H_nil \<Rightarrow> rest_call E invoke None (Some rq) None (Some h)
                        | H_int len \<Rightarrow>
                            if REST_LENGTH_LIMIT <s len then answer (H HTTP_CONTENT_TOO_LARGE)
                            else if ARG_ENTITY_JSON \<in> set (h_args h) \<and> 65535 <s len
                            then answer (H HTTP_CONTENT_TOO_LARGE)
                            else connection_call (Expect_entity len)
                        | _ \<Rightarrow> answer (H HTTP_BAD_REQUEST)))))))))"

definition receiveEntity ::
    "env \<Rightarrow> (('o, 'z) rest_server_scheme, 'o server_event) handlers \<Rightarrow> bytes option
      \<Rightarrow> 'o option \<Rightarrow> (('o, 'z) rest_server_scheme, 'o server_event, unit) action" where
  "receiveEntity E invoke entity prev =
     abind (aget id) (\<lambda>s.
       aif (prev = sv_connection s) (rest_call E invoke None (sv_request s) entity (sv_handle s)))"

section \<open>WebSocket connections\<close>

definition authenticate :: "bytes option \<Rightarrow> bytes option \<Rightarrow> (('o, 'z) rest_server_scheme, 'e, unit) action" where
  "authenticate login password = amod (\<lambda>s. s\<lparr>sv_login := login, sv_password := password\<rparr>)"

definition upgrade_headers :: "env \<Rightarrow> bytes \<Rightarrow> headers" where
  "upgrade_headers E key =
     [(str ''Upgrade'', Harr [str ''websocket'']),
      (str ''Connection'', Harr [str ''Upgrade'']),
      (str ''Sec-WebSocket-Accept'', Hstr (b64_encode (en_base64 E) (en_sha1 E (key @ WEBSOCKET_GUID))))]"

definition upgradeToWebSocket ::
    "env \<Rightarrow> string \<Rightarrow> bytes \<Rightarrow> bytes option \<Rightarrow> bytes option
      \<Rightarrow> (('o, 'z) rest_server_scheme, 'o server_event, lpcint) action" where
  "upgradeToWebSocket E service key login password =
     abind (respond (en_http E) None (en_http E HTTP_SWITCHING_PROTOCOLS) None None (Some (upgrade_headers E key))) (\<lambda>code.
     athen (amod (\<lambda>s. s\<lparr>sv_websocket := Some service\<rparr>))
     (athen (authenticate login password)
     (abind (aget sv_connection) (\<lambda>connection.
     athen (aif (connection \<noteq> None) (connection_call Expect_frame)) (aret code)))))"

definition receiveWsFrame :: "ws_opcode option \<Rightarrow> 'o option \<Rightarrow> (('o, 'z) rest_server_scheme, 'e, unit) action" where
  "receiveWsFrame opcode prev =
     abind (aget sv_connection) (\<lambda>connection.
       aif (prev = connection) (amod (\<lambda>s. s\<lparr>sv_opcode := opcode\<rparr>)))"

text \<open>The request object made from a WebSocket request.\<close>

definition ws_http_request :: "env \<Rightarrow> http_request \<Rightarrow> rest_request" where
  "ws_http_request E r =
     \<lparr>hr_host = Some (rq_host r), hr_scheme = None, hr_method = rq_method r, hr_path = rq_path r,
      hr_header = en_fields E (rq_headers r)\<rparr>"

definition receiveWsRequest ::
    "env \<Rightarrow> (('o, 'z) rest_server_scheme, 'o server_event) handlers \<Rightarrow> bytes list
      \<Rightarrow> (('o, 'z) rest_server_scheme, 'o server_event, unit) action" where
  "receiveWsRequest E invoke chunk =
     abind (alift (wsReceiveRequest (en_asn E) chunk (en_chat_server E))) (\<lambda>(context, request, body).
       case lookup_path (en_chat_server E) (rq_method request) (rq_path request) (en_api E) of
         None \<Rightarrow> abind (respond (en_http E) (Some context) (en_http E HTTP_NOT_FOUND) None None None) (\<lambda>_. aret ())
       | Some h \<Rightarrow>
           rest_call E invoke (Some context) (Some (ws_http_request E request)) (map_option concat body) (Some h))"

definition receiveWsChunk ::
    "env \<Rightarrow> (('o, 'z) rest_server_scheme, 'o server_event) handlers
      \<Rightarrow> (bytes list \<Rightarrow> (('o, 'z) rest_server_scheme, 'o server_event, unit) action)
      \<Rightarrow> (string \<Rightarrow> bytes list \<Rightarrow> (('o, 'z) rest_server_scheme, 'o server_event, unit) action)
      \<Rightarrow> bytes list \<Rightarrow> 'o option \<Rightarrow> (('o, 'z) rest_server_scheme, 'o server_event, unit) action" where
  "receiveWsChunk E invoke chat_response receive_chunk chunk prev =
     abind (aget id) (\<lambda>s.
       aif (prev = sv_connection s)
        (athen
          (if sv_opcode s = Some WEBSOCK_CLOSE then send_close_frame (case chunk of [] \<Rightarrow> [] | p # _ \<Rightarrow> p)
           else if sv_websocket s = Some ''chat'' then
             abind (alift (receiveChatMessage chunk)) (\<lambda>m.
               case m of
                 Ws_request c \<Rightarrow> receiveWsRequest E invoke c
               | Ws_response c \<Rightarrow> chat_response c)
           else (case sv_websocket s of
                   None \<Rightarrow> afail Bad_argument
                 | Some w \<Rightarrow> receive_chunk w chunk))
          (abind (aget sv_connection) (\<lambda>connection.
             aif (connection \<noteq> None) (aemit Expect_frame)))))"

definition doneChunk :: "'o option \<Rightarrow> (('o, 'z) rest_server_scheme, 'o server_event, unit) action" where
  "doneChunk prev =
     abind (aget id) (\<lambda>s.
       aif (prev = sv_connection s)
         (if sv_websocket s = None then connection_call Done_request
          else aif (sv_opcode s = Some WEBSOCK_CLOSE) (connection_call Terminate_connection)))"

definition terminate :: "(('o, 'z) rest_server_scheme, 'o server_event, unit) action" where
  "terminate = abind (aget sv_connection) (\<lambda>connection. aif (connection \<noteq> None) (aemit Terminate_connection))"

text \<open>\<open>close\<close> is overridden in the chat service: it is an argument of \<open>disconnected\<close>.\<close>

definition close_server :: "(('o, 'z) rest_server_scheme, 'o server_event, unit) action" where
  "close_server = aemit Destruct"

definition disconnected ::
    "(('o, 'z) rest_server_scheme, 'o server_event, unit) action \<Rightarrow> 'o option
      \<Rightarrow> (('o, 'z) rest_server_scheme, 'o server_event, unit) action" where
  "disconnected close prev =
     abind (aget sv_connection) (\<lambda>connection. aif (prev = connection) close)"

end
