(* ===== verification/ChatSocket.thy ===== *)
theory ChatSocket
  imports Rest
begin

text \<open>
  The WebSocket connection of a client of the chat service (\<^verbatim>\<open>src/services/lib/chat/Websocket.c\<close>):
  login, provisioning, and requests of the server with the continuations that wait for their
  responses.

  \<open>'k\<close> are the continuations; what one does when it runs is an argument of \<open>chatReceiveResponse\<close>.
  Random strings are taken from a list of those that are drawn.  The stages of the continuation
  of \<open>getWebsocketLogin\<close> run later, each for itself.
\<close>

record ('o, 'k) chat_socket = "'o rest_server" +
  cs_outgoing :: "bytes \<rightharpoonup> 'k \<times> rest_arg list"
  cs_provisioningDone :: bool

definition chat_create :: "(('o, 'k, 'z) chat_socket_scheme, 'e, unit) action" where
  "chat_create = amod (\<lambda>s. s\<lparr>cs_outgoing := Map.empty\<rparr>)"

section \<open>Requests to the client\<close>

definition no_response :: bytes where "no_response = [1]"

definition chatSendRequest ::
    "bytes list \<Rightarrow> string \<Rightarrow> string \<Rightarrow> bytes option \<Rightarrow> headers option \<Rightarrow> ('k \<times> rest_arg list) option
      \<Rightarrow> (('o, 'k, 'z) chat_socket_scheme, 'o server_event, unit) action" where
  "chatSendRequest randoms verb path body extraHeaders cont =
     abind
      (case cont of
         None \<Rightarrow> aret no_response
       | Some k \<Rightarrow>
           abind (aget cs_outgoing) (\<lambda>outgoing.
             case find (\<lambda>c. outgoing c = None) randoms of
               None \<Rightarrow> afail Not_enough_fuel
             | Some context \<Rightarrow>
                 athen (amod (\<lambda>s. s\<lparr>cs_outgoing := (cs_outgoing s)(context \<mapsto> k)\<rparr>)) (aret context)))
      (\<lambda>context. abind (alift (wsRequest (str verb) (str path) body extraHeaders context)) sendChunk)"

text \<open>\<open>headerValue\<close> itself, without the special case of a single value.\<close>

definition header_mixed :: "header_value \<Rightarrow> rest_value" where
  "header_mixed v = (case v of H_arr vs \<Rightarrow> V (JArr (map JStr vs)) | _ \<Rightarrow> header_arg v)"

definition response_arg :: "env \<Rightarrow> http_response \<Rightarrow> bytes option \<Rightarrow> rest_arg \<Rightarrow> rest_value result" where
  "response_arg E resp entity a =
     (case a of
        Header name \<Rightarrow> Inr (header_mixed (en_fields E (rs_headers resp) (str name)))
      | ARG_ENTITY \<Rightarrow> Inr (case entity of None \<Rightarrow> V JNil | Some b \<Rightarrow> V_entity b)
      | ARG_ENTITY_JSON \<Rightarrow> (case entity of None \<Rightarrow> Inr (V JNil) | Some b \<Rightarrow> rmap V (en_json_decode E b))
      | _ \<Rightarrow> Inr (V_arg a))"

definition chatReceiveResponse ::
    "env \<Rightarrow> ('k \<Rightarrow> lpcint \<Rightarrow> rest_value list \<Rightarrow> (('o, 'k, 'z) chat_socket_scheme, 'o server_event, unit) action)
      \<Rightarrow> bytes list \<Rightarrow> (('o, 'k, 'z) chat_socket_scheme, 'o server_event, unit) action" where
  "chatReceiveResponse E run_next chunk =
     abind (aget id) (\<lambda>s.
       if cs_provisioningDone s then sendClose (en_status_1000 E @ str ''OK'')
       else
         abind (alift (wsReceiveResponse (en_asn E) chunk)) (\<lambda>(context, resp, entity).
         abind (aget (\<lambda>s. cs_outgoing s context)) (\<lambda>h.
         athen (amod (\<lambda>s. s\<lparr>cs_outgoing := (cs_outgoing s)(context := None)\<rparr>))
          (case h of
             None \<Rightarrow> aret ()
           | Some (cont, arguments) \<Rightarrow>
               abind (alift (rmapM (response_arg E resp (map_option concat entity)) arguments)) (\<lambda>args.
                 run_next cont (rs_code resp) args)))))"

section \<open>Opening a connection\<close>

definition upgrade_ok :: "bytes option \<Rightarrow> bytes option \<Rightarrow> bytes option \<Rightarrow> bytes option \<Rightarrow> bool" where
  "upgrade_ok upgrade connection key version \<longleftrightarrow>
     upgrade = Some (str ''websocket'') \<and> connection = Some (str ''Upgrade'') \<and> key \<noteq> None \<and> version = Some (str ''13'')"

definition getWebsocket ::
    "env \<Rightarrow> bytes option \<Rightarrow> bytes option \<Rightarrow> bytes option \<Rightarrow> bytes option \<Rightarrow> bytes option
      \<Rightarrow> (('o, 'z) rest_server_scheme, 'o server_event, lpcint) action" where
  "getWebsocket E ctxt upgrade connection key version =
     (if upgrade_ok upgrade connection key version then upgradeToWebSocket E ''chat'' (the key) None None
      else respond (en_http E) ctxt (en_http E HTTP_BAD_REQUEST) None None None)"

text \<open>\<open>"?agent=%*s&version=%s"\<close>\<close>

definition scan_agent :: "bytes \<Rightarrow> bytes option" where
  "scan_agent param =
     (let prefix = str ''?agent='' in
      if take (length prefix) param = prefix
      then map_option snd (scan_upto (str ''&version='') (drop (length prefix) param))
      else None)"

text \<open>\<open>"?login=%s&password=%s"\<close>\<close>

definition scan_login :: "bytes \<Rightarrow> (bytes \<times> bytes) option" where
  "scan_login param =
     (let prefix = str ''?login='' in
      if take (length prefix) param = prefix
      then scan_upto (str ''&password='') (drop (length prefix) param)
      else None)"

definition getWebsocketLogin ::
    "env \<Rightarrow> bytes option \<Rightarrow> bytes \<Rightarrow> bytes option \<Rightarrow> bytes option \<Rightarrow> bytes option \<Rightarrow> bytes option
      \<Rightarrow> (('o, 'z) rest_server_scheme, 'o server_event, lpcint) action" where
  "getWebsocketLogin E ctxt param upgrade connection key version =
     (let bad_request = respond (en_http E) ctxt (en_http E HTTP_BAD_REQUEST) None None None;
          proceed = (\<lambda>param.
            case scan_login param of
              None \<Rightarrow> bad_request
            | Some (login, password) \<Rightarrow>
                if upgrade_ok upgrade connection key version then
                  (let (i, deviceId) = split_login login in
                   abind (alift (uuid_decode (en_hex E) (Some i))) (\<lambda>i.
                   athen (aemit (Queue_login ctxt (the key) login password i deviceId)) (aret 0)))
                else bad_request)
      in case scan_agent param of
           None \<Rightarrow> proceed param
         | Some version' \<Rightarrow>
             (case scan_upto (str ''&'') version' of
                None \<Rightarrow> getWebsocket E ctxt upgrade connection key version
              | Some (_, param) \<Rightarrow> proceed (str ''?'' @ param)))"

definition getWebsocketLogin2 ::
    "env \<Rightarrow> bytes \<Rightarrow> lpcint \<Rightarrow> bytes \<Rightarrow> (('o, 'z) rest_server_scheme, 'o server_event, bool) action" where
  "getWebsocketLogin2 E i deviceId password =
     (case en_accounts E i of
        None \<Rightarrow> aret False
      | Some account \<Rightarrow>
          (case account_device deviceId account of
             None \<Rightarrow> aret False
           | Some device \<Rightarrow>
               let (ok, device) = verifyPassword (en_hex E) (en_hkdf E) (en_clock E) password device
               in athen (aemit (Device_seen (set_device device account) device)) (aret ok)))"

definition getWebsocketLogin3 ::
    "env \<Rightarrow> bytes option \<Rightarrow> bytes \<Rightarrow> bytes \<Rightarrow> bytes \<Rightarrow> bytes \<Rightarrow> lpcint \<Rightarrow> bool
      \<Rightarrow> (('o, 'z) rest_server_scheme, 'o server_event, unit) action" where
  "getWebsocketLogin3 E ctxt key login password i deviceId success =
     (if success then
        abind (upgradeToWebSocket E ''chat'' key (Some login) (Some password)) (\<lambda>_.
        athen (aemit (Register_endpoint i deviceId)) (aemit (Send_mailbox i deviceId)))
      else abind (respond (en_http E) ctxt (en_http E HTTP_UNAUTHORIZED) None None None) (\<lambda>_. aret ()))"

text \<open>\<open>random\<close> is the value of \<open>secure_random(16)\<close>.\<close>

definition getWebsocketProvisioning ::
    "env \<Rightarrow> bytes \<Rightarrow> bytes option \<Rightarrow> bytes \<Rightarrow> bytes option \<Rightarrow> bytes option \<Rightarrow> bytes option \<Rightarrow> bytes option
      \<Rightarrow> (('o, 'k, 'z) chat_socket_scheme, 'o server_event, lpcint) action" where
  "getWebsocketProvisioning E random ctxt param upgrade connection key version =
     (if scan_agent param \<noteq> None then
        abind (getWebsocket E ctxt upgrade connection key version) (\<lambda>code.
        if code = en_http E HTTP_SWITCHING_PROTOCOLS then
          (let address = b64_urlEncode (en_base64 E) random in
           athen (aemit (Add_address address))
           (athen (chatSendRequest [] ''PUT'' ''/v1/address'' (Some ([10] @ protoString address)) None None)
             (aret code)))
        else aret code)
      else respond (en_http E) ctxt (en_http E HTTP_BAD_REQUEST) None None None)"

definition provisioningMessage :: "bytes \<Rightarrow> (('o, 'k, 'z) chat_socket_scheme, 'o server_event, unit) action" where
  "provisioningMessage message =
     athen (chatSendRequest [] ''PUT'' ''/v1/message'' (Some message) None None)
       (amod (\<lambda>s. s\<lparr>cs_provisioningDone := True\<rparr>))"

end
