(* ===== verification/Mailbox.thy ===== *)
theory Mailbox
  imports Servers
begin

text \<open>
  The message server (\<^verbatim>\<open>src/sys/messages.c\<close>): envelopes in a store with expiration, and mail boxes
  with the GUIDs of the envelopes of a device, in order.

  A mail box is a mapping whose only entry in use is \<open>QUEUE\<close>, which is always set; it is modelled
  by that queue.  \<open>stack\<close> and \<open>send\<close> are atomic: an error leaves the server as it was.
\<close>

definition MSG_DURATION :: lpcint where
  "MSG_DURATION = 30 * 24 * 3600"

record ('m, 'b) message_server =
  ms_messages :: 'm
  ms_mboxes :: 'b

definition messages_create ::
    "('m, 'o envelope timed, 'o envelope timed) kvlib \<Rightarrow> ('b, bytes list, bytes list) kvlib
      \<Rightarrow> ('m, 'b) message_server" where
  "messages_create KM KB = \<lparr>ms_messages = kv_new KM 199, ms_mboxes = kv_new KB 194\<rparr>"

text \<open>The loop of \<open>stack\<close> over the envelopes.\<close>

fun stack_loop ::
    "('m, 'o envelope timed, 'o envelope timed) kvlib \<Rightarrow> ('b, bytes list, bytes list) kvlib \<Rightarrow> lpcint \<Rightarrow> bytes
      \<Rightarrow> 'o envelope list \<Rightarrow> ('m, 'b) message_server \<Rightarrow> ('m, 'b) message_server result" where
  "stack_loop KM KB now index [] srv = Inr srv"
| "stack_loop KM KB now index (e # es) srv =
     rbind (exp_add KM MSG_DURATION now (ms_messages srv) (ev_guid e) (Some e)) (\<lambda>messages.
       stack_loop KM KB now index es
         (srv\<lparr>ms_messages := messages, ms_mboxes := kv_modify KB (ms_mboxes srv) index (\<lambda>q. q @ [ev_guid e])\<rparr>))"

definition messages_stack ::
    "('m, 'o envelope timed, 'o envelope timed) kvlib \<Rightarrow> ('b, bytes list, bytes list) kvlib \<Rightarrow> lpcint
      \<Rightarrow> 'o envelope list \<Rightarrow> ('m, 'b) message_server \<Rightarrow> ('m, 'b) message_server result" where
  "messages_stack KM KB now envelopes srv =
     rbind (lpc_index envelopes 0) (\<lambda>envelope.
       case ev_destinationId envelope of
         None \<Rightarrow> Inl Bad_argument
       | Some destinationId \<Rightarrow>
           let index = device_key (ev_destinationDeviceId envelope) destinationId;
               srv = (if plain_get KB (ms_mboxes srv) index = None
                      then srv\<lparr>ms_mboxes := kv_set KB (ms_mboxes srv) index (Some [])\<rparr> else srv)
           in stack_loop KM KB now index envelopes srv)"

text \<open>
  \<open>send\<close>: the envelopes that are delivered to the endpoint, if there are any; \<open>present\<close> says whether
  the endpoint still exists.
\<close>

definition messages_send ::
    "('m, 'o envelope timed, 'o envelope timed) kvlib \<Rightarrow> ('b, bytes list, bytes list) kvlib \<Rightarrow> lpcint
      \<Rightarrow> bytes \<Rightarrow> lpcint \<Rightarrow> bool \<Rightarrow> ('m, 'b) message_server \<Rightarrow> 'o envelope list \<times> ('m, 'b) message_server" where
  "messages_send KM KB now accountId deviceId present srv =
     (if present then
        (let index = device_key deviceId accountId in
         case plain_get KB (ms_mboxes srv) index of
           None \<Rightarrow> ([], srv)
         | Some queue \<Rightarrow>
             if queue = [] then ([], srv)
             else (List.map_filter (exp_get KM now (ms_messages srv)) queue,
                   srv\<lparr>ms_mboxes := kv_modify KB (ms_mboxes srv) index (\<lambda>q. [])\<rparr>))
      else ([], srv))"

section \<open>The contents of a mail box\<close>

text \<open>What a mail box holds at a time: the abstract state, a queue of envelopes.\<close>

definition mailbox ::
    "('m \<Rightarrow> bytes \<Rightarrow> 'o envelope timed option) \<Rightarrow> ('b \<Rightarrow> bytes \<Rightarrow> bytes list option) \<Rightarrow> lpcint \<Rightarrow> bytes
      \<Rightarrow> ('m, 'b) message_server \<Rightarrow> 'o envelope list" where
  "mailbox kvm kvb now index srv =
     (case kvb (ms_mboxes srv) index of
        None \<Rightarrow> []
      | Some queue \<Rightarrow> List.map_filter (seen now (kvm (ms_messages srv))) queue)"

locale message_stores =
  m: expiring_store KM kvm + b: kvstore KB kvb
  for KM :: "('m, 'o envelope timed, 'o envelope timed) kvlib" and kvm
    and KB :: "('b, bytes list, bytes list) kvlib" and kvb
begin

lemma stack_loop_ok:
  assumes "kvb (ms_mboxes srv) index = Some q"
    and "distinct (map ev_guid es)" "\<forall>e\<in>set es. kvm (ms_messages srv) (ev_guid e) = None"
  shows "\<exists>srv'. stack_loop KM KB now index es srv = Inr srv'
    \<and> kvb (ms_mboxes srv') = (kvb (ms_mboxes srv))(index \<mapsto> q @ map ev_guid es)
    \<and> kvm (ms_messages srv') =
        kvm (ms_messages srv) ++ map_of (map (\<lambda>e. (ev_guid e, (now + MSG_DURATION, Some e))) es)"
  using assms
proof (induction es arbitrary: srv q)
  case (Cons e es)
  obtain messages where add: "exp_add KM MSG_DURATION now (ms_messages srv) (ev_guid e) (Some e) = Inr messages"
    using m.exp_add_absent Cons.prems(3) by (metis list.set_intros(1))
  note kvm = m.exp_add [OF add]
  let ?srv = "srv\<lparr>ms_messages := messages, ms_mboxes := kv_modify KB (ms_mboxes srv) index (\<lambda>q. q @ [ev_guid e])\<rparr>"
  have kvb: "kvb (ms_mboxes ?srv) = (kvb (ms_mboxes srv))(index \<mapsto> q @ [ev_guid e])"
    using Cons.prems(1) by simp
  have at: "kvb (ms_mboxes ?srv) index = Some (q @ [ev_guid e])" unfolding kvb by simp
  have d: "distinct (map ev_guid es)" using Cons.prems(2) by simp
  have new: "\<forall>e'\<in>set es. kvm (ms_messages ?srv) (ev_guid e') = None"
    using Cons.prems(2,3) by (auto simp: kvm) (metis image_eqI)
  obtain srv' where srv': "stack_loop KM KB now index es ?srv = Inr srv'"
    "kvb (ms_mboxes srv') = (kvb (ms_mboxes ?srv))(index \<mapsto> (q @ [ev_guid e]) @ map ev_guid es)"
    "kvm (ms_messages srv') = kvm (ms_messages ?srv) ++ map_of (map (\<lambda>e. (ev_guid e, (now + MSG_DURATION, Some e))) es)"
    using Cons.IH [OF at d new] by blast
  have "ev_guid e \<notin> dom (map_of (map (\<lambda>e. (ev_guid e, (now + MSG_DURATION, Some e))) es))"
    using Cons.prems(2) by (simp add: dom_map_of_conv_image_fst image_image)
  then have "kvm (ms_messages srv') = kvm (ms_messages srv) ++ map_of (map (\<lambda>e. (ev_guid e, (now + MSG_DURATION, Some e))) (e # es))"
    by (simp add: srv'(3) kvm map_add_upd_left)
  moreover have "kvb (ms_mboxes srv') = (kvb (ms_mboxes srv))(index \<mapsto> q @ map ev_guid (e # es))"
    unfolding srv'(2) kvb by (simp only: fun_upd_upd) simp
  moreover have "stack_loop KM KB now index (e # es) srv = Inr srv'"
    by (simp only: stack_loop.simps add rbind_simps srv'(1))
  ultimately show ?case by blast
qed (simp add: fun_upd_idem)

lemma map_filter_seen:
  assumes "\<forall>g\<in>set q. m' g = m g"
  shows "List.map_filter (seen now m') q = List.map_filter (seen now m) q"
  using assms by (induction q) (simp_all add: List.map_filter_def seen_def)

end

text \<open>Every GUID in a mail box is one the store of envelopes knows, expired or not.\<close>

definition messages_inv ::
    "('m \<Rightarrow> bytes \<Rightarrow> 'o envelope timed option) \<Rightarrow> ('b \<Rightarrow> bytes \<Rightarrow> bytes list option)
      \<Rightarrow> ('m, 'b) message_server \<Rightarrow> bool" where
  "messages_inv kvm kvb srv \<longleftrightarrow>
     (\<forall>index q g. kvb (ms_mboxes srv) index = Some q \<and> g \<in> set q \<longrightarrow> kvm (ms_messages srv) g \<noteq> None)"

lemma MSG_DURATION_small: "unat MSG_DURATION < 2 ^ 31" "MSG_DURATION = 2592000"
  by (simp_all add: MSG_DURATION_def)

context message_stores begin

definition stack_key :: "'c envelope list \<Rightarrow> bytes \<Rightarrow> bool" where
  "stack_key es index \<longleftrightarrow> es \<noteq> [] \<and> (\<exists>i. ev_destinationId (hd es) = Some i
     \<and> index = device_key (ev_destinationDeviceId (hd es)) i)"

lemma stack_ok:
  assumes "stack_key es index" "messages_inv kvm kvb srv"
    and "distinct (map ev_guid es)" "\<forall>e\<in>set es. kvm (ms_messages srv) (ev_guid e) = None"
  shows "\<exists>srv'. messages_stack KM KB now es srv = Inr srv' \<and> messages_inv kvm kvb srv'
    \<and> (\<forall>e\<in>set es. kvm (ms_messages srv') (ev_guid e) = Some (now + MSG_DURATION, Some e))
    \<and> (\<forall>elapsed j. unat elapsed < 2 ^ 31 \<longrightarrow> mailbox kvm kvb (now + elapsed) j srv'
        = mailbox kvm kvb (now + elapsed) j srv @ (if j = index \<and> elapsed < MSG_DURATION then es else []))"
proof -
  define q where "q = (case kvb (ms_mboxes srv) index of None \<Rightarrow> [] | Some q \<Rightarrow> q)"
  define srv0 where "srv0 = (if plain_get KB (ms_mboxes srv) index = None
      then srv\<lparr>ms_mboxes := kv_set KB (ms_mboxes srv) index (Some [])\<rparr> else srv)"
  have s0: "kvb (ms_mboxes srv0) = (kvb (ms_mboxes srv))(index \<mapsto> q)" "ms_messages srv0 = ms_messages srv"
    by (cases "kvb (ms_mboxes srv) index"; simp add: srv0_def q_def fun_eq_iff)+
  have "kvb (ms_mboxes srv0) index = Some q" "\<forall>e\<in>set es. kvm (ms_messages srv0) (ev_guid e) = None"
    using s0 assms(4) by simp_all
  then obtain srv' where l: "stack_loop KM KB now index es srv0 = Inr srv'"
    "kvb (ms_mboxes srv') = (kvb (ms_mboxes srv0))(index \<mapsto> q @ map ev_guid es)"
    "kvm (ms_messages srv') = kvm (ms_messages srv0) ++ map_of (map (\<lambda>e. (ev_guid e, (now + MSG_DURATION, Some e))) es)"
    using stack_loop_ok [OF _ assms(3), of srv0 index q now] by blast
  obtain i where i: "es \<noteq> []" "ev_destinationId (hd es) = Some i" "index = device_key (ev_destinationDeviceId (hd es)) i"
    using assms(1) by (auto simp: stack_key_def)
  have st: "messages_stack KM KB now es srv = Inr srv'"
  proof -
    have "lpc_index es 0 = Inr (hd es)" using i(1) by (simp add: hd_conv_nth)
    then show ?thesis
      unfolding messages_stack_def Let_def
      by (simp only: rbind_simps i(2) option.case i(3) [symmetric] srv0_def [symmetric] l(1))
  qed
  define new where "new = map_of (map (\<lambda>e. (ev_guid e, (now + MSG_DURATION, Some e))) es)"
  have b: "kvb (ms_mboxes srv') = (kvb (ms_mboxes srv))(index \<mapsto> q @ map ev_guid es)"
    by (simp add: l(2) s0(1))
  have m: "kvm (ms_messages srv') = kvm (ms_messages srv) ++ new"
    by (simp add: l(3) s0(2) new_def)
  have new: "new (ev_guid e) = Some (now + MSG_DURATION, Some e)" if "e \<in> set es" for e
    unfolding new_def using that assms(3) by (intro map_of_is_SomeI) (auto simp: comp_def)
  have dom: "dom new = ev_guid ` set es"
    by (simp add: new_def dom_map_of_conv_image_fst image_image)
  have old: "kvm (ms_messages srv') g = kvm (ms_messages srv) g" if "kvm (ms_messages srv) g \<noteq> None" for g
  proof -
    have "g \<notin> dom new" using that assms(4) dom by auto
    then show ?thesis by (simp add: m map_add_dom_app_simps(3))
  qed
  have known: "kvm (ms_messages srv) g \<noteq> None" if "kvb (ms_mboxes srv) j = Some p" "g \<in> set p" for j p g
    using assms(2) that by (auto simp: messages_inv_def)
  have e: "kvm (ms_messages srv') (ev_guid e) = Some (now + MSG_DURATION, Some e)" if "e \<in> set es" for e
    using new [OF that] by (simp add: m)
  have qk: "kvm (ms_messages srv) g \<noteq> None" if "g \<in> set q" for g
    using that known by (cases "kvb (ms_mboxes srv) index") (simp_all only: q_def option.case, auto)
  have "messages_inv kvm kvb srv'"
    unfolding messages_inv_def
  proof (intro allI impI)
    fix j p g assume *: "kvb (ms_mboxes srv') j = Some p \<and> g \<in> set p"
    then consider "j \<noteq> index" "kvb (ms_mboxes srv) j = Some p" | "g \<in> set q" | e where "e \<in> set es" "g = ev_guid e"
      by (auto simp: b split: if_splits)
    then show "kvm (ms_messages srv') g \<noteq> None"
    proof cases
      case 1
      then have "kvm (ms_messages srv) g \<noteq> None" using known * by blast
      then show ?thesis using old by simp
    next
      case 2
      then show ?thesis using qk old by simp
    qed (simp add: e)
  qed
  moreover have "mailbox kvm kvb (now + elapsed) j srv'
      = mailbox kvm kvb (now + elapsed) j srv @ (if j = index \<and> elapsed < MSG_DURATION then es else [])"
    if elapsed: "unat elapsed < 2 ^ 31" for elapsed j
  proof (cases "j = index")
    case False
    have "List.map_filter (seen (now + elapsed) (kvm (ms_messages srv'))) p
        = List.map_filter (seen (now + elapsed) (kvm (ms_messages srv))) p" if "kvb (ms_mboxes srv) j = Some p" for p
      by (rule map_filter_seen) (use known [OF that] old in simp)
    then show ?thesis using False by (auto simp: mailbox_def b split: option.splits)
  next
    case True
    have "List.map_filter (seen (now + elapsed) (kvm (ms_messages srv'))) q
        = List.map_filter (seen (now + elapsed) (kvm (ms_messages srv))) q"
      by (rule map_filter_seen) (use qk old in simp)
    moreover have "List.map_filter (seen (now + elapsed) (kvm (ms_messages srv'))) (map ev_guid xs)
        = (if elapsed < MSG_DURATION then xs else [])" if "set xs \<subseteq> set es" for xs
      using that
    proof (induction xs)
      case (Cons x xs)
      then have "seen (now + elapsed) (kvm (ms_messages srv')) (ev_guid x) = (if elapsed < MSG_DURATION then Some x else None)"
        using e [of x] fresh_value_elapsed [OF MSG_DURATION_small(1) elapsed, of now "Some x"] by (simp add: seen_def)
      then show ?case using Cons by (simp add: List.map_filter_def)
    qed (simp add: List.map_filter_def)
    ultimately have "List.map_filter (seen (now + elapsed) (kvm (ms_messages srv'))) (q @ map ev_guid es)
      = List.map_filter (seen (now + elapsed) (kvm (ms_messages srv))) q @ (if elapsed < MSG_DURATION then es else [])"
      by (simp add: List.map_filter_def)
    then show ?thesis
      using True by (cases "kvb (ms_mboxes srv) index") (simp_all add: mailbox_def b q_def List.map_filter_def)
  qed
  ultimately show ?thesis using st e by blast
qed

lemma send_ok:
  assumes "messages_inv kvm kvb srv"
    and "messages_send KM KB now accountId deviceId True srv = (es, srv')"
  shows "es = mailbox kvm kvb now (device_key deviceId accountId) srv \<and> messages_inv kvm kvb srv'
    \<and> ms_messages srv' = ms_messages srv
    \<and> (\<forall>t j. mailbox kvm kvb t j srv' = (if j = device_key deviceId accountId then [] else mailbox kvm kvb t j srv))"
proof (cases "kvb (ms_mboxes srv) (device_key deviceId accountId)")
  case None
  then show ?thesis using assms by (auto simp: messages_send_def mailbox_def Let_def)
next
  case (Some q)
  have g: "exp_get KM now (ms_messages srv) = seen now (kvm (ms_messages srv))"
    by (simp add: m.exp_get fun_eq_iff)
  show ?thesis
  proof (cases "q = []")
    case True
    then show ?thesis
      using assms Some by (auto simp: messages_send_def mailbox_def Let_def List.map_filter_def)
  next
    case False
    then have r: "es = mailbox kvm kvb now (device_key deviceId accountId) srv"
      "srv' = srv\<lparr>ms_mboxes := kv_modify KB (ms_mboxes srv) (device_key deviceId accountId) (\<lambda>q. [])\<rparr>"
      using assms(2) Some by (auto simp: messages_send_def mailbox_def Let_def g)
    have b: "kvb (ms_mboxes srv') = (kvb (ms_mboxes srv))(device_key deviceId accountId \<mapsto> [])"
      using Some by (simp add: r(2))
    have mm: "ms_messages srv' = ms_messages srv" by (simp add: r(2))
    have "messages_inv kvm kvb srv'"
      using assms(1) unfolding messages_inv_def b mm by auto
    moreover have "mailbox kvm kvb t j srv' = (if j = device_key deviceId accountId then [] else mailbox kvm kvb t j srv)" for t j
      unfolding mailbox_def b mm by (simp add: List.map_filter_def)
    ultimately show ?thesis using r(1) mm by simp
  qed
qed

lemma stack_loop_seen:
  "\<exists>e\<in>set es. seen now (kvm (ms_messages srv)) (ev_guid e) \<noteq> None \<Longrightarrow> \<exists>err. stack_loop KM KB now index es srv = Inl err"
proof (induction es arbitrary: srv)
  case (Cons e es)
  show ?case
  proof (cases "exp_add KM MSG_DURATION now (ms_messages srv) (ev_guid e) (Some e)")
    case (Inr messages)
    have "seen now (kvm (ms_messages srv)) (ev_guid e) = None"
      using m.exp_add_present Inr by (metis sum.distinct(1))
    then obtain e' where e': "e' \<in> set es" "seen now (kvm (ms_messages srv)) (ev_guid e') \<noteq> None"
      using Cons.prems by auto
    moreover have "fresh_value now (now + MSG_DURATION, Some e) = Some e"
      using fresh_value_elapsed [OF MSG_DURATION_small(1), of 0 now "Some e"] by (simp add: MSG_DURATION_small(2))
    ultimately have "seen now (kvm messages) (ev_guid e') \<noteq> None"
      by (simp add: m.exp_add [OF Inr])
    then show ?thesis using e'(1) Inr Cons.IH [of "srv\<lparr>ms_messages := messages, ms_mboxes := kv_modify KB (ms_mboxes srv) index (\<lambda>q. q @ [ev_guid e])\<rparr>"] by auto
  qed simp
qed simp

lemma stack_seen:
  assumes "e \<in> set es" "seen now (kvm (ms_messages srv)) (ev_guid e) \<noteq> None"
  shows "\<exists>err. messages_stack KM KB now es srv = Inl err"
proof -
  have "\<exists>err. stack_loop KM KB now index es srv1 = Inl err" if "ms_messages srv1 = ms_messages srv" for srv1 index
    using stack_loop_seen [of es now srv1 index] assms that by auto
  then have *: "\<exists>err. stack_loop KM KB now index es (if b then srv\<lparr>ms_mboxes := x\<rparr> else srv) = Inl err" for b x index
    by simp
  show ?thesis
  proof (cases "ev_destinationId (es ! 0)")
    case (Some i)
    have "lpc_index es 0 = Inr (es ! 0)" using assms(1) by (cases es) simp_all
    then show ?thesis
      unfolding messages_stack_def Let_def by (simp only: rbind_simps Some option.case) (rule *)
  qed (use assms(1) in \<open>cases es; simp add: messages_stack_def\<close>)
qed

end

interpretation std_messages: message_stores std_kv id std_kv id
  by unfold_locales

section \<open>Properties\<close>

text \<open>
  C20.  The message server implements a queue of envelopes per device, whose entries leave it 30 days
  after they entered: \<open>stack\<close> appends envelopes with new GUIDs to the box of the first one's
  destination and to no other.
\<close>

theorem messages_stack_refines:
  assumes "message_stores KM kvm KB kvb" "messages_inv kvm kvb srv"
    and "es \<noteq> []" "ev_destinationId (hd es) = Some i"
    and "distinct (map ev_guid es)" "\<forall>e\<in>set es. kvm (ms_messages srv) (ev_guid e) = None"
  shows "\<exists>srv'. messages_stack KM KB now es srv = Inr srv' \<and> messages_inv kvm kvb srv'
    \<and> (\<forall>elapsed j. unat elapsed < 2 ^ 31 \<longrightarrow> mailbox kvm kvb (now + elapsed) j srv'
        = mailbox kvm kvb (now + elapsed) j srv
          @ (if j = device_key (ev_destinationDeviceId (hd es)) i \<and> elapsed < MSG_DURATION then es else []))"
proof -
  have "message_stores.stack_key es (device_key (ev_destinationDeviceId (hd es)) i)"
    using assms(3,4) by (simp add: message_stores.stack_key_def [OF assms(1)])
  from message_stores.stack_ok [OF assms(1) this assms(2,5,6)] show ?thesis by blast
qed

definition sample_envelope :: "nat envelope" where
  "sample_envelope = \<lparr>ev_origin = 0, ev_type = 1, ev_timestamp = \<lparr>ts_time = 1, ts_ms = 2\<rparr>, ev_sourceDeviceId = 1,
     ev_content = None, ev_guid = [7], ev_serverTimestamp = \<lparr>ts_time = 1, ts_ms = 3\<rparr>, ev_sourceId = Some [1],
     ev_destinationId = Some [2], ev_destinationDeviceId = 1, ev_urgent = 0\<rparr>"

lemma sample_create: "messages_inv id id (messages_create std_kv std_kv)"
  "ms_messages (messages_create std_kv std_kv) = Map.empty"
  by (simp_all add: messages_inv_def messages_create_def std_kv_def)

lemma sample_stack:
  "\<exists>srv. messages_stack std_kv std_kv 0 [sample_envelope] (messages_create std_kv std_kv) = Inr srv \<and> messages_inv id id srv"
proof -
  have "std_messages.stack_key [sample_envelope] (device_key 1 [2])"
    by (simp add: std_messages.stack_key_def sample_envelope_def)
  from std_messages.stack_ok [OF this sample_create(1), of 0] show ?thesis by (simp add: sample_create(2)) blast
qed

theorem messages_stack_refines_witness:
  "\<exists>srv'. messages_stack std_kv std_kv 0 [sample_envelope] (messages_create std_kv std_kv) = Inr srv'
    \<and> mailbox id id (0 + 86400) (device_key 1 [2]) srv'
      = mailbox id id (0 + 86400) (device_key 1 [2]) (messages_create std_kv std_kv) @ [sample_envelope]"
proof -
  have e: "ev_destinationId (hd [sample_envelope]) = Some [2]" "ev_destinationDeviceId (hd [sample_envelope]) = 1"
    by (simp_all add: sample_envelope_def)
  from messages_stack_refines [OF std_messages.message_stores_axioms sample_create(1) _ e(1), of 0]
  obtain srv' where r: "messages_stack std_kv std_kv 0 [sample_envelope] (messages_create std_kv std_kv) = Inr srv'"
    "\<And>elapsed j. unat elapsed < 2 ^ 31 \<Longrightarrow> mailbox id id (0 + elapsed) j srv'
        = mailbox id id (0 + elapsed) j (messages_create std_kv std_kv)
          @ (if j = device_key (ev_destinationDeviceId (hd [sample_envelope])) [2] \<and> elapsed < MSG_DURATION then [sample_envelope] else [])"
    by (auto simp: sample_create(2))
  have "unat (86400 :: lpcint) < 2 ^ 31" "(86400 :: lpcint) < MSG_DURATION" by (simp_all add: MSG_DURATION_def)
  with r(2) [of 86400 "device_key 1 [2]"] r(1) e(2) show ?thesis by simp
qed

text \<open>
  C21.  \<open>send\<close> delivers exactly the contents of the device's box, in order, and empties it, so that no
  envelope is delivered twice; other boxes stay as they are, and without an endpoint nothing
  changes.
\<close>

theorem messages_send_refines:
  assumes "message_stores KM kvm KB kvb" "messages_inv kvm kvb srv"
    and "messages_send KM KB now accountId deviceId True srv = (es, srv')"
  shows "es = mailbox kvm kvb now (device_key deviceId accountId) srv \<and> messages_inv kvm kvb srv'
    \<and> (\<forall>t j. mailbox kvm kvb t j srv' = (if j = device_key deviceId accountId then [] else mailbox kvm kvb t j srv))
    \<and> messages_send KM KB now accountId deviceId False srv = ([], srv)"
  using message_stores.send_ok [OF assms] by (simp add: messages_send_def)

theorem messages_send_refines_witness:
  "\<exists>srv. messages_stack std_kv std_kv 0 [sample_envelope] (messages_create std_kv std_kv) = Inr srv
    \<and> fst (messages_send std_kv std_kv 9 [2] 1 True srv) = mailbox id id 9 (device_key 1 [2]) srv
    \<and> mailbox id id 9 (device_key 1 [2]) (snd (messages_send std_kv std_kv 9 [2] 1 True srv)) = []"
proof -
  obtain srv where srv: "messages_stack std_kv std_kv 0 [sample_envelope] (messages_create std_kv std_kv) = Inr srv"
    "messages_inv id id srv" using sample_stack by blast
  have r: "messages_send std_kv std_kv 9 [2] 1 True srv
      = (fst (messages_send std_kv std_kv 9 [2] 1 True srv), snd (messages_send std_kv std_kv 9 [2] 1 True srv))" by simp
  show ?thesis
    using messages_send_refines [OF std_messages.message_stores_axioms srv(2) r] srv(1) by auto
qed

text \<open>
  An envelope that was stacked cannot be stacked again within 30 days, not even after it was
  sent: its GUID stays in the store, so \<open>stack\<close> raises an error and, being atomic, drops every
  envelope of the call.
\<close>

theorem messages_stack_again_fails:
  assumes "message_stores KM kvm KB kvb" "messages_inv kvm kvb srv"
    and "es \<noteq> []" "ev_destinationId (hd es) = Some i"
    and "distinct (map ev_guid es)" "\<forall>e\<in>set es. kvm (ms_messages srv) (ev_guid e) = None"
    and "elapsed < MSG_DURATION" "e \<in> set es" "e \<in> set es'"
  shows "\<exists>srv1. messages_stack KM KB now es srv = Inr srv1
    \<and> (\<exists>err. messages_stack KM KB (now + elapsed) es'
          (snd (messages_send KM KB (now + elapsed) accountId deviceId True srv1)) = Inl err)"
proof -
  have key: "message_stores.stack_key es (device_key (ev_destinationDeviceId (hd es)) i)"
    using assms(3,4) by (simp add: message_stores.stack_key_def [OF assms(1)])
  obtain srv1 where srv1: "messages_stack KM KB now es srv = Inr srv1" "messages_inv kvm kvb srv1"
    "kvm (ms_messages srv1) (ev_guid e) = Some (now + MSG_DURATION, Some e)"
    using message_stores.stack_ok [OF assms(1) key assms(2,5,6), of now] assms(8) by blast
  obtain sent srv2 where send: "messages_send KM KB (now + elapsed) accountId deviceId True srv1 = (sent, srv2)"
    by (cases "messages_send KM KB (now + elapsed) accountId deviceId True srv1")
  have m: "ms_messages srv2 = ms_messages srv1"
    using message_stores.send_ok [OF assms(1) srv1(2) send] by blast
  have "unat elapsed < 2 ^ 31" using assms(7) by (simp add: MSG_DURATION_def word_less_nat_alt)
  then have "seen (now + elapsed) (kvm (ms_messages srv2)) (ev_guid e) \<noteq> None"
    using srv1(3) fresh_value_elapsed [OF MSG_DURATION_small(1), of elapsed now "Some e"] assms(7) by (simp add: seen_def m)
  from message_stores.stack_seen [OF assms(1,9) this] srv1(1) send show ?thesis by auto
qed

theorem messages_stack_again_fails_witness:
  "\<exists>srv1. messages_stack std_kv std_kv 0 [sample_envelope] (messages_create std_kv std_kv) = Inr srv1
    \<and> (\<exists>err. messages_stack std_kv std_kv (0 + 60) [sample_envelope]
          (snd (messages_send std_kv std_kv (0 + 60) [2] 1 True srv1)) = Inl err)"
  by (rule messages_stack_again_fails [OF std_messages.message_stores_axioms sample_create(1), where e = sample_envelope and i = "[2]"])
    (simp_all add: sample_create(2) MSG_DURATION_def, simp_all add: sample_envelope_def)

end
