(* ===== verification/Delivery.thy ===== *)
theory Delivery
  imports ChatSocket Mailbox
begin

text \<open>
  Sending messages to devices (\<^verbatim>\<open>src/services/lib/chat/Messages.c\<close>): the request that brings
  messages for another account, and the endpoint of a connected client, which passes envelopes to
  it one by one.  The continuation that waits for a response is that of an envelope.
\<close>

datatype delivery_state = READY | AWAIT_RESPONSE

definition RECEIPT :: lpcint where "RECEIPT = 5"

record 'o endpoint = "('o, 'o envelope) chat_socket" +
  ep_queue :: "'o envelope list option"
  ep_state :: delivery_state

type_synonym ('o, 'a) ep_action = "('o endpoint, 'o server_event, 'a) action"

section \<open>The endpoint\<close>

definition sendEnvelope :: "env \<Rightarrow> bytes list \<Rightarrow> 'o envelope \<Rightarrow> ('o, unit) ep_action" where
  "sendEnvelope E randoms e =
     abind (alift (envelope_transport (en_asn E) (en_hex E) e)) (\<lambda>body.
     athen (chatSendRequest randoms ''PUT'' ''/api/v1/message'' (Some body)
              (Some [(str ''X-Signal-Timestamp'',
                 Hstr (ts_transport \<lparr>ts_time = fst (snd (en_clock E)), ts_ms = snd (snd (en_clock E))\<rparr>))])
              (Some (e, [])))
       (amod (\<lambda>s. s\<lparr>ep_state := AWAIT_RESPONSE\<rparr>)))"

definition emptyQueue :: "('o, unit) ep_action" where
  "emptyQueue = chatSendRequest [] ''PUT'' ''/api/v1/queue/empty'' None None None"

definition deliver :: "env \<Rightarrow> bytes list \<Rightarrow> 'o envelope list \<Rightarrow> ('o, unit) ep_action" where
  "deliver E randoms envelopes =
     athen (amod (\<lambda>s. s\<lparr>ep_queue := Some (case ep_queue s of None \<Rightarrow> envelopes | Some q \<Rightarrow> q @ envelopes)\<rparr>))
     (abind (aget id) (\<lambda>s.
       aif (ep_state s = READY)
         (abind (alift (rbind (need (ep_queue s)) (\<lambda>q. lpc_index q 0))) (sendEnvelope E randoms))))"

text \<open>The receipt for an envelope.\<close>

definition receipt_for :: "env \<Rightarrow> bytes \<Rightarrow> 'o \<Rightarrow> 'o envelope \<Rightarrow> 'o envelope result" where
  "receipt_for E random this e =
     Envelope random (en_clock E) this (ev_destinationId e) (ev_destinationDeviceId e) RECEIPT None
       (ev_timestamp e) (ev_sourceId e) (ev_sourceDeviceId e) 0"

text \<open>It goes to the endpoint the envelope came from, or to the message server.\<close>

definition delivered ::
    "env \<Rightarrow> ('o \<Rightarrow> bool) \<Rightarrow> 'o \<Rightarrow> bytes \<Rightarrow> bytes list \<Rightarrow> 'o envelope \<Rightarrow> lpcint \<Rightarrow> rest_value list
      \<Rightarrow> ('o, unit) ep_action" where
  "delivered E alive this random randoms e code args =
     aif (code = en_http E HTTP_OK)
      (abind (aget ep_queue) (\<lambda>q.
       abind (alift (rbind (need q) (\<lambda>q. lpc_range q 1 (int (length q) - 1)))) (\<lambda>queue.
       athen (amod (\<lambda>s. s\<lparr>ep_queue := Some queue, ep_state := READY\<rparr>))
       (athen
        (aif (ev_type e \<noteq> RECEIPT)
          (abind (alift (receipt_for E random this e)) (\<lambda>r.
             aemit (if alive (ev_origin e) then Deliver (ev_origin e) [r] else Stack [r]))))
        (case queue of
           next # _ \<Rightarrow> sendEnvelope E randoms next
         | [] \<Rightarrow> emptyQueue)))))"

text \<open>\<open>callouts\<close> are the arguments of the calls of \<open>deliver\<close> that have not run yet.\<close>

definition close_endpoint :: "'o envelope list list \<Rightarrow> ('o, unit) ep_action" where
  "close_endpoint callouts =
     abind (aget ep_queue) (\<lambda>q.
       let envelopes = (case q of None \<Rightarrow> [] | Some q \<Rightarrow> q) @ concat callouts
       in athen (aif (envelopes \<noteq> []) (aemit (Stack envelopes))) close_server)"

section \<open>Messages for another account\<close>

definition jtimestamp :: "json \<Rightarrow> ts_arg" where
  "jtimestamp j = (case j of JInt i \<Rightarrow> Ts_int i | JStr s \<Rightarrow> Ts_string s | JNil \<Rightarrow> Ts_nil | _ \<Rightarrow> Ts_other)"

text \<open>
  \<open>putMessages\<close>: the arguments of the call of \<open>putMessages2\<close>.  The text after \<open>?story=\<close> is cut off the
  parameter, which is not used any further.
\<close>

definition putMessages ::
    "hex_lib \<Rightarrow> (bytes \<Rightarrow> account option) \<Rightarrow> clock \<Rightarrow> account \<Rightarrow> device \<Rightarrow> json
      \<Rightarrow> (account option \<times> bytes option \<times> lpcint \<times> json \<times> timestamp \<times> json) result" where
  "putMessages X get_account clk account device entity =
     rbind (jfield_str ''destination'' entity) (\<lambda>destination.
     rbind (case destination of
              None \<Rightarrow> Inr (Some account)
            | Some d \<Rightarrow> rmap get_account (uuid_decode X (Some d))) (\<lambda>target.
     rbind (jfield ''messages'' entity) (\<lambda>messages.
     rbind (jfield ''timestamp'' entity) (\<lambda>ts.
     rbind (Timestamp (snd clk) (jtimestamp ts) False) (\<lambda>timestamp.
     rbind (jfield ''urgent'' entity) (\<lambda>urgent.
       Inr (target, ac_id account, dv_id device, messages, timestamp, urgent)))))))"

text \<open>One message: the envelope that is made for it and the device it is for.\<close>

definition make_envelope ::
    "base64_lib \<Rightarrow> bytes \<Rightarrow> clock \<Rightarrow> 'o \<Rightarrow> bytes option \<Rightarrow> lpcint \<Rightarrow> timestamp \<Rightarrow> bytes option \<Rightarrow> lpcint \<Rightarrow> lpcint
      \<Rightarrow> json \<Rightarrow> ('o envelope \<times> lpcint) result" where
  "make_envelope B random clk this sourceId sourceDeviceId timestamp destinationId deviceId urgent message =
     rbind (jfield_int ''type'' message) (\<lambda>ty.
     rbind (rbind (jfield_str ''content'' message) need) (\<lambda>content.
     rbind (b64_decode B content) (\<lambda>content.
     rbind (Envelope random clk this sourceId sourceDeviceId ty (Some content) timestamp destinationId deviceId urgent)
       (\<lambda>envelope.
     rbind (jfield_int ''destinationDeviceId'' message) (\<lambda>deviceId.
       Inr (envelope, deviceId))))))"

text \<open>
  The loop over the messages; \<open>deviceId\<close> and \<open>online\<close> are its variables, \<open>present\<close> is the registry of
  connected endpoints.
\<close>

fun put_loop ::
    "base64_lib \<Rightarrow> clock \<Rightarrow> 'o \<Rightarrow> (lpcint \<Rightarrow> 'o option) \<Rightarrow> account \<Rightarrow> bytes option \<Rightarrow> lpcint \<Rightarrow> timestamp \<Rightarrow> lpcint
      \<Rightarrow> lpcint \<Rightarrow> (lpcint \<rightharpoonup> 'o) \<Rightarrow> (bytes \<times> json) list \<Rightarrow> 'o server_event list \<times> lpc_error option" where
  "put_loop B clk this present account sourceId sourceDeviceId timestamp urgent deviceId online [] = ([], None)"
| "put_loop B clk this present account sourceId sourceDeviceId timestamp urgent deviceId online ((random, message) # ms) =
     (case make_envelope B random clk this sourceId sourceDeviceId timestamp (ac_id account) deviceId urgent message of
        Inl err \<Rightarrow> ([], Some err)
      | Inr (envelope, deviceId) \<Rightarrow>
          (let found = (case online deviceId of Some ob \<Rightarrow> Some ob | None \<Rightarrow> present deviceId) in
           case found of
             Some endpoint \<Rightarrow>
               (let (evs, err) = put_loop B clk this present account sourceId sourceDeviceId timestamp urgent deviceId
                      (online(deviceId \<mapsto> endpoint)) ms
                in (Deliver endpoint [envelope] # evs, err))
           | None \<Rightarrow>
               (case account_device deviceId account of
                  None \<Rightarrow> ([], Some Bad_argument)
                | Some d \<Rightarrow>
                    let (evs, err) = put_loop B clk this present account sourceId sourceDeviceId timestamp urgent deviceId online ms
                    in (Notify (dv_gcmId d) urgent # Stack [envelope] # evs, err))))"

definition putMessages2 ::
    "base64_lib \<Rightarrow> http_codes \<Rightarrow> clock \<Rightarrow> 'o \<Rightarrow> (bytes \<Rightarrow> lpcint \<Rightarrow> 'o option) \<Rightarrow> bytes list \<Rightarrow> bytes option
      \<Rightarrow> account option \<Rightarrow> bytes option \<Rightarrow> lpcint \<Rightarrow> json list \<Rightarrow> timestamp \<Rightarrow> lpcint
      \<Rightarrow> 'o server_event list \<times> response result" where
  "putMessages2 B H clk this present randoms ctxt account sourceId sourceDeviceId messages timestamp urgent =
     (case account of
        None \<Rightarrow> ([], Inl Bad_argument)
      | Some account \<Rightarrow>
          (case ac_id account of
             None \<Rightarrow> ([], Inl Bad_argument)
           | Some destinationId \<Rightarrow>
               (let (evs, err) = put_loop B clk this (present destinationId) account sourceId sourceDeviceId timestamp urgent 0
                      Map.empty (zip randoms messages)
                in (evs, case err of
                     Some e \<Rightarrow> Inl e
                   | None \<Rightarrow> Inr (respond_json ctxt (H HTTP_OK) (jobj [(''needsSync'', jbool False)]))))))"

end
