(* ===== verification/WebsocketSpec.thy ===== *)
theory WebsocketSpec
  imports Websocket
begin

text \<open>
  What the WebSocket messages promise: a request or response that was sent is received with
  every field it had, from any chunking, and what is received does not depend on the chunks.
\<close>

section \<open>Headers\<close>

definition header_lines :: "headers option \<Rightarrow> bytes list result" where
  "header_lines hs = (case hs of None \<Rightarrow> Inr [] | Some hs \<Rightarrow> rmapM header_line hs)"

definition line_fields :: "bytes list \<Rightarrow> bytes" where
  "line_fields ls = concat (map (\<lambda>l. 0x2A # protoString l) ls)"

definition header_text :: "bytes list \<Rightarrow> bytes" where
  "header_text ls = concat (map (\<lambda>l. l @ [10]) ls)"

lemma rmapM_rmap: "rmapM (\<lambda>x. rmap g (f x)) xs = rmap (map g) (rmapM f xs)"
  by (induction xs) (auto simp: rmap_def split: rbind_split)

lemma header_fields_lines: "header_fields hs = rmap line_fields (header_lines hs)"
  unfolding header_fields_def header_lines_def rmapM_rmap
  by (cases hs) (auto simp: line_fields_def rmap_def split: rbind_split)

lemma line_fields_simps [simp]:
  "line_fields [] = []"
  "line_fields (l # ls) = 0x2A # protoString l @ line_fields ls"
  by (simp_all add: line_fields_def)

lemma header_text_simps [simp]:
  "header_text [] = []"
  "header_text (l # ls) = l @ [10] @ header_text ls"
  by (simp_all add: header_text_def)

lemma newline: "str [CHR 0x0A] = [10]"
  by (simp add: str_def of_char_def)

lemma line_fields_eq_Nil [simp]: "line_fields ls = [] \<longleftrightarrow> ls = []"
  by (cases ls) simp_all

lemma header_text_eq_Nil [simp]: "header_text ls = [] \<longleftrightarrow> ls = []"
  by (cases ls) simp_all

lemma recv_request_headers_eq:
  "recv_request_headers st headers =
     rbind (parseDone st) (\<lambda>d.
       if d then Inr (headers, st)
       else rbind (parseByte st) (\<lambda>(c, st).
         if c \<noteq> 0x2A then Inl (Error ''WebSocketRequestMessage.headers expected'')
         else rbind (parseString st) (\<lambda>(h, st). recv_request_headers st (headers @ h @ [10]))))"
  by (subst recv_request_headers.simps) (simp add: case_prod_unfold newline cong: if_cong)

lemma recv_response_headers_eq:
  "recv_response_headers st headers =
     rbind (parseString st) (\<lambda>(h, st).
       rbind (parseDone st) (\<lambda>d.
         if d then Inr (headers @ h @ [10], st)
         else rbind (parseByte st) (\<lambda>(c, st).
           if c \<noteq> 0x2A then Inl (Error ''WebSocketResponseMessage.headers expected'')
           else recv_response_headers st (headers @ h @ [10]))))"
  by (subst recv_response_headers.simps) (simp add: case_prod_unfold newline Let_def cong: if_cong)

lemma reads_request_headers:
  "\<forall>l\<in>set ls. short l \<Longrightarrow>
    reads True (\<lambda>st. recv_request_headers st h) (line_fields ls)
      ((=) (h @ header_text ls)) []"
proof (induction ls arbitrary: h)
  case Nil
  then show ?case
    by (subst recv_request_headers_eq) (rule reads_done, simp add: reads_return)
next
  case (Cons l ls)
  then have "reads True (\<lambda>st. rbind (parseString st) (\<lambda>(l, st). recv_request_headers st (h @ l @ [10])))
      (protoString l @ line_fields ls) ((=) (h @ header_text (l # ls))) []"
    using Cons.IH [of "h @ l @ [10]"] by (intro stringc.reads_field) simp_all
  then show ?case
    by (subst recv_request_headers_eq) (rule reads_done, simp add: reads_tag)
qed

lemma reads_response_headers:
  "short l \<Longrightarrow> \<forall>l\<in>set ls. short l \<Longrightarrow>
    reads True (\<lambda>st. recv_response_headers st h) (protoString l @ line_fields ls)
      ((=) (h @ header_text (l # ls))) []"
proof (induction ls arbitrary: h l)
  case Nil
  have "reads True (\<lambda>st. rbind (parseString st) (\<lambda>(l, st).
       rbind (parseDone st) (\<lambda>d.
         if d then Inr (h @ l @ [10], st)
         else rbind (parseByte st) (\<lambda>(c, st).
           if c \<noteq> 0x2A then Inl (Error ''WebSocketResponseMessage.headers expected'')
           else recv_response_headers st (h @ l @ [10]))))) (protoString l @ []) ((=) (h @ l @ [10])) []"
    by (rule stringc.reads_field [OF Nil(1)], rule reads_done) (simp add: reads_return)
  then show ?case
    by (subst recv_response_headers_eq) simp
next
  case (Cons l' ls)
  have "reads True (\<lambda>st. recv_response_headers st (h @ l @ [10])) (protoString l' @ line_fields ls)
      ((=) (h @ header_text (l # l' # ls))) []"
    using Cons.IH [of l' "h @ l @ [10]"] Cons.prems by simp
  then show ?case
    using Cons.prems
    by (subst recv_response_headers_eq, intro stringc.reads_field, simp, intro reads_done)
      (simp add: reads_tag)
qed

section \<open>Requests\<close>

definition request_bytes :: "bytes \<Rightarrow> bytes \<Rightarrow> bytes option \<Rightarrow> bytes \<Rightarrow> bytes list \<Rightarrow> bytes" where
  "request_bytes verb path body cid ls =
     0x0A # protoString verb @ 0x12 # protoString path
     @ (case body of None \<Rightarrow> [] | Some b \<Rightarrow> 0x1A # protoStrbuf b) @ 0x20 # cid @ line_fields ls"

lemma wsRequest_bytes:
  assumes "wsRequest verb path body hs context = Inr msg"
  obtains cid ls where "protoAsn context = Inr cid" "header_lines hs = Inr ls"
    "msg = [0x08, 0x01, 0x12] @ protoStrbuf (request_bytes verb path body cid ls)"
proof -
  from assms obtain cid ls where "protoAsn context = Inr cid" "header_lines hs = Inr ls"
    "msg = [0x08, 0x01, 0x12] @ protoStrbuf (request_bytes verb path body cid ls)"
    by (cases body; cases "header_lines hs")
      (auto simp: wsRequest_def request_bytes_def Let_def header_fields_lines)
  then show thesis by (rule that)
qed

lemma short_protoString: "short (protoString s) \<Longrightarrow> short s"
  by (simp add: short_def protoString_def)

lemma short_Cons: "short (b # r) \<Longrightarrow> short r"
  by (simp add: short_def)

lemma short_append: "short (s @ t) \<Longrightarrow> short s \<and> short t"
  by (simp add: short_def)

lemma short_line_fields: "short (line_fields ls) \<Longrightarrow> \<forall>l\<in>set ls. short l"
  by (induction ls) (auto dest!: short_Cons short_append short_protoString)

definition headers_of :: "bytes list \<Rightarrow> bytes option" where
  "headers_of ls = (if ls = [] then None else Some (header_text ls))"

text \<open>A request or response as received: the padded id, the object and the body.\<close>

definition padded :: "bytes \<Rightarrow> bytes" where
  "padded context = replicate (8 - length context) 0 @ context"

definition is_request ::
    "bytes \<Rightarrow> bytes \<Rightarrow> bytes \<Rightarrow> bytes \<Rightarrow> bytes list \<Rightarrow> bytes option \<Rightarrow>
      bytes \<times> http_request \<times> bytes list option \<Rightarrow> bool" where
  "is_request context service verb path ls body = (\<lambda>(ctx, rq, pieces). ctx = padded context
      \<and> rq = \<lparr>rq_method = verb, rq_host = service, rq_path = path, rq_headers = headers_of ls\<rparr>
      \<and> map_option concat pieces = body)"

context asn_library begin

lemma unsigned_extend_padded:
  "asn_encodable v \<Longrightarrow> lib_unsigned_extend A (asn_strip v) 8 = padded v"
  using length_asn_strip [of v]
  by (intro unsigned_extend_unique) (auto simp: asn_encodable_def asn_strip_def padded_def)

end

lemma reads_request_tail:
  assumes "asn_library A" "asn_encodable context" "protoAsn context = Inr cid" "\<forall>l\<in>set ls. short l"
    "map_option concat pieces = body"
  shows "reads True (recv_request_tail A service verb path pieces 0x20) (cid @ line_fields ls)
    (is_request context service verb path ls body) []"
proof -
  have "reads True (\<lambda>st. rbind (recv_request_headers st []) (\<lambda>(headers, st).
      Inr ((lib_unsigned_extend A (asn_strip context) 8,
            \<lparr>rq_method = verb, rq_host = service, rq_path = path,
             rq_headers = (if headers \<noteq> [] then Some headers else None)\<rparr>, pieces), st))) (line_fields ls)
    (is_request context service verb path ls body) []"
    by (rule reads_bind [OF reads_request_headers [OF assms(4)]], rule reads_return)
      (use assms asn_library.unsigned_extend_padded in \<open>auto simp: is_request_def headers_of_def\<close>)
  then show ?thesis
    unfolding recv_request_tail_def by (simp add: reads_asn_field [OF assms(2,3)])
qed

lemma reads_recv_request:
  assumes "asn_library A" "asn_encodable context" "protoAsn context = Inr cid"
    "short (request_bytes verb path body cid ls)"
  shows "reads False (recv_request A service) (request_bytes verb path body cid ls)
    (is_request context service verb path ls body) []"
proof -
  have short: "short verb" "short path" "\<And>b. body = Some b \<Longrightarrow> short b" "\<forall>l\<in>set ls. short l"
    using assms(4) unfolding request_bytes_def
    by (auto dest!: short_Cons short_protoString short_append short_line_fields
        split: option.splits simp: protoStrbuf_eq)
  note tail = reads_request_tail [OF assms(1-3) short(4)]
  show ?thesis
  proof (cases body)
    case None
    show ?thesis
      unfolding recv_request_def [abs_def] request_bytes_def None option.case append.simps
      by (intro reads_tag stringc.reads_field reads_byte short)
        (simp_all add: tail)
  next
    case (Some b)
    have "reads True (\<lambda>st. rbind (parseStrbuf st) (\<lambda>(body, st). rbind (parseByte st) (\<lambda>(c, st).
        recv_request_tail A service verb path (Some body) c st)))
        (protoStrbuf b @ 0x20 # cid @ line_fields ls) (is_request context service verb path ls (Some b)) []"
      by (intro reads_strbuf_field reads_byte short Some) (simp add: tail)
    then show ?thesis
      unfolding recv_request_def [abs_def] request_bytes_def Some option.case append.simps append_assoc
      by (intro reads_tag stringc.reads_field reads_byte short) simp_all
  qed
qed

section \<open>Responses\<close>

definition response_bytes :: "http_codes \<Rightarrow> lpcint \<Rightarrow> bytes option \<Rightarrow> bytes \<Rightarrow> bytes list \<Rightarrow> bytes" where
  "response_bytes H code entity cid ls =
     0x08 # cid @ 0x10 # protoInt code @ 0x1A # protoString (comment H code)
     @ (case entity of None \<Rightarrow> [] | Some b \<Rightarrow> 0x22 # protoStrbuf b) @ line_fields ls"

lemma wsResponse_bytes:
  assumes "wsResponse H context code entity hs = Inr msg"
  obtains cid ls where "protoAsn context = Inr cid" "header_lines hs = Inr ls"
    "msg = [0x08, 0x02, 0x1A] @ protoStrbuf (response_bytes H code entity cid ls)"
proof -
  from assms obtain cid ls where "protoAsn context = Inr cid" "header_lines hs = Inr ls"
    "msg = [0x08, 0x02, 0x1A] @ protoStrbuf (response_bytes H code entity cid ls)"
    by (cases entity; cases "header_lines hs")
      (auto simp: wsResponse_def response_bytes_def Let_def header_fields_lines)
  then show thesis by (rule that)
qed

definition is_rest :: "bytes list \<Rightarrow> bytes option \<Rightarrow> bytes list option \<times> bytes option \<Rightarrow> bool" where
  "is_rest ls entity = (\<lambda>(pieces, headers). map_option concat pieces = entity \<and> headers = headers_of ls)"

definition is_response ::
    "bytes \<Rightarrow> lpcint \<Rightarrow> bytes \<Rightarrow> bytes list \<Rightarrow> bytes option \<Rightarrow> bytes \<times> http_response \<times> bytes list option \<Rightarrow> bool" where
  "is_response context code message ls entity = (\<lambda>(ctx, rs, pieces). ctx = padded context
      \<and> rs = \<lparr>rs_code = code, rs_comment = message, rs_headers = headers_of ls\<rparr>
      \<and> map_option concat pieces = entity)"

lemma reads_rest_headers:
  assumes "short l" "\<forall>l\<in>set ls. short l" "map_option concat pieces = entity"
  shows "reads True (\<lambda>st. rbind (recv_response_headers st []) (\<lambda>(headers, st). Inr ((pieces, Some headers), st)))
      (protoString l @ line_fields ls) (is_rest (l # ls) entity) []"
  by (rule reads_bind [OF reads_response_headers [OF assms(1,2)]], rule reads_return)
    (use assms(3) in \<open>auto simp: is_rest_def headers_of_def\<close>)

lemma reads_response_rest:
  assumes "\<And>b. entity = Some b \<Longrightarrow> short b" "\<forall>l\<in>set ls. short l"
  shows "reads True recv_response_rest
    ((case entity of None \<Rightarrow> [] | Some b \<Rightarrow> 0x22 # protoStrbuf b) @ line_fields ls) (is_rest ls entity) []"
proof (cases entity)
  case None
  show ?thesis
  proof (cases ls)
    case Nil
    then show ?thesis
      unfolding recv_response_rest_def [abs_def] None
      by (intro reads_done) (simp add: reads_return is_rest_def headers_of_def)
  next
    case (Cons l ls')
    then have "reads True (\<lambda>st. rbind (recv_response_headers st []) (\<lambda>(headers, st).
        Inr ((None, Some headers), st))) (protoString l @ line_fields ls') (is_rest ls None) []"
      using assms(2) by (auto intro: reads_rest_headers)
    then show ?thesis
      unfolding recv_response_rest_def [abs_def] None
      by (intro reads_done) (simp add: Cons, intro reads_byte, simp)
  qed
next
  case (Some b)
  have "reads True (\<lambda>st. rbind (parseStrbuf st) (\<lambda>(body, st).
         rbind (parseDone st) (\<lambda>d.
           if d then Inr ((Some body, None), st)
           else rbind (parseByte st) (\<lambda>(c, st).
             if c \<noteq> 0x2A then Inl (Error ''WebSocketResponseMessage.headers expected'')
             else rbind (recv_response_headers st []) (\<lambda>(headers, st).
               Inr ((Some body, Some headers), st)))))) (protoStrbuf b @ line_fields ls) (is_rest ls entity) []"
  proof (rule reads_strbuf_field)
    fix ps :: "bytes list" assume ps: "concat ps = b"
    show "reads True (\<lambda>st. rbind (parseDone st) (\<lambda>d.
           if d then Inr ((Some ps, None), st)
           else rbind (parseByte st) (\<lambda>(c, st).
             if c \<noteq> 0x2A then Inl (Error ''WebSocketResponseMessage.headers expected'')
             else rbind (recv_response_headers st []) (\<lambda>(headers, st).
               Inr ((Some ps, Some headers), st))))) (line_fields ls) (is_rest ls entity) []"
    proof (cases ls)
      case Nil
      then show ?thesis
        by (intro reads_done) (simp add: reads_return Some ps is_rest_def headers_of_def)
    next
      case (Cons l ls')
      then have "reads True (\<lambda>st. rbind (recv_response_headers st []) (\<lambda>(headers, st).
          Inr ((Some ps, Some headers), st))) (protoString l @ line_fields ls') (is_rest ls entity) []"
        using assms(2) ps Some by (auto intro!: reads_rest_headers)
      then show ?thesis
        by (intro reads_done) (simp add: Cons, intro reads_byte, simp)
    qed
  qed (use assms Some in simp)
  note strbuf = this
  show ?thesis
    unfolding recv_response_rest_def [abs_def]
    by (rule reads_done, simp add: Some, rule reads_byte, insert strbuf, simp add: Some)
qed

lemma reads_recv_response:
  assumes "asn_library A" "asn_encodable context" "protoAsn context = Inr cid"
    "short (response_bytes H code entity cid ls)"
  shows "reads False (recv_response A) (response_bytes H code entity cid ls)
    (is_response context code (comment H code) ls entity) []"
proof -
  have short: "\<And>b. entity = Some b \<Longrightarrow> short b" "\<forall>l\<in>set ls. short l"
    using assms(4) unfolding response_bytes_def
    by (auto dest!: short_Cons short_protoString short_append short_line_fields
        split: option.splits simp: protoStrbuf_eq)
  have rest: "reads True (\<lambda>st. rbind (recv_response_rest st) (\<lambda>((body, headers), st).
      Inr ((lib_unsigned_extend A (asn_strip context) 8,
        \<lparr>rs_code = code, rs_comment = comment H code, rs_headers = headers\<rparr>, body), st)))
      ((case entity of None \<Rightarrow> [] | Some b \<Rightarrow> 0x22 # protoStrbuf b) @ line_fields ls)
      (is_response context code (comment H code) ls entity) []"
    using reads_response_rest [OF short]
    by (rule reads_bind)
      (auto intro!: reads_return simp: is_response_def is_rest_def asn_library.unsigned_extend_padded assms)
  show ?thesis
    unfolding recv_response_def [abs_def] response_bytes_def
    by (intro reads_tag reads_asn_field [OF assms(2,3)] intc.reads_field stringc.reads_field rest)
      simp_all
qed

section \<open>Unwrapping\<close>

lemma protoInt_1: "protoInt 1 = [1]" and protoInt_2: "protoInt 2 = [2]"
  by (simp_all add: protoInt_simps)

definition Ws_of :: "bool \<Rightarrow> bytes list \<Rightarrow> ws_message" where
  "Ws_of req = (if req then Ws_request else Ws_response)"

lemma receiveChatMessage_wrapped:
  assumes "concat cs = [0x08, if req then 1 else 2, if req then 0x12 else 0x1A] @ protoStrbuf s"
    "[] \<notin> set cs" "short s"
  obtains ps where "receiveChatMessage cs = Inr (Ws_of req ps)" "concat ps = s"
proof -
  define W where "W = (\<lambda>m. \<exists>ps. m = Ws_of req ps \<and> concat ps = s)"
  have strbuf: "reads True (\<lambda>st. rbind (parseStrbuf st) (\<lambda>(chunk, st). Inr (Ws_of req chunk, st)))
      (protoStrbuf s @ []) W []"
    unfolding W_def by (intro reads_strbuf_field assms reads_return) auto
  have "reads False unwrap_chat
      (0x08 # protoInt (if req then 1 else 2) @ (if req then 0x12 else 0x1A) # protoStrbuf s) W []"
  proof (cases req)
    case True
    with strbuf have "reads True (\<lambda>st. rbind (parseStrbuf st) (\<lambda>(chunk, st). Inr (Ws_request chunk, st)))
        (protoStrbuf s) W []"
      by (simp add: Ws_of_def)
    then show ?thesis
      unfolding unwrap_chat_def [abs_def] using True
      by (simp only: if_True, intro reads_tag intc.reads_field) (simp_all add: reads_tag)
  next
    case False
    with strbuf have "reads True (\<lambda>st. rbind (parseStrbuf st) (\<lambda>(chunk, st). Inr (Ws_response chunk, st)))
        (protoStrbuf s) W []"
      by (simp add: Ws_of_def)
    then show ?thesis
      unfolding unwrap_chat_def [abs_def] using False
      by (simp only: if_False, intro reads_tag intc.reads_field) (simp_all add: reads_tag)
  qed
  then obtain ps st where "unwrap_chat (fresh cs) = Inr (Ws_of req ps, st)" "concat ps = s"
    using assms(1,2) by (cases req) (auto elim!: readsE simp: protoInt_1 protoInt_2 W_def)
  then show thesis using that by (simp add: receiveChatMessage_def)
qed

lemma short_protoInt_append: "short (protoStrbuf s) \<Longrightarrow> short s"
  by (simp add: protoStrbuf_eq short_protoString)

lemma wsRequest_received_ok:
  assumes "asn_library A" "wsRequest verb path body hs context = Inr msg"
    "asn_encodable context" "length msg < 2 ^ 31" "concat cs = msg" "[] \<notin> set cs"
  shows "\<exists>ls chunk. header_lines hs = Inr ls \<and> receiveChatMessage cs = Inr (Ws_request chunk)
    \<and> (\<forall>cs'. concat cs' = concat chunk \<longrightarrow> [] \<notin> set cs' \<longrightarrow>
        (\<exists>pieces. map_option concat pieces = body
          \<and> wsReceiveRequest A cs' service = Inr (padded context,
              \<lparr>rq_method = verb, rq_host = service, rq_path = path, rq_headers = headers_of ls\<rparr>, pieces)))"
proof -
  obtain cid ls where cid: "protoAsn context = Inr cid" and ls: "header_lines hs = Inr ls"
    and msg: "msg = [0x08, 0x01, 0x12] @ protoStrbuf (request_bytes verb path body cid ls)"
    using assms(2) by (rule wsRequest_bytes)
  have "short msg" using assms(4) by (simp add: short_def)
  then have short: "short (request_bytes verb path body cid ls)"
    unfolding msg by (auto dest!: short_append short_Cons short_protoInt_append)
  then obtain chunk where chunk: "receiveChatMessage cs = Inr (Ws_request chunk)"
      "concat chunk = request_bytes verb path body cid ls"
    using receiveChatMessage_wrapped [of cs True] assms(5,6) unfolding msg
    by (auto simp: Ws_of_def)
  show ?thesis
  proof (rule exI [of _ ls], rule exI [of _ chunk], intro conjI ls chunk(1) allI impI)
    fix cs' assume cs': "concat cs' = concat chunk" "[] \<notin> set cs'"
    obtain v st where "recv_request A service (fresh cs') = Inr (v, st)"
        "is_request context service verb path ls body v"
      using cs' chunk(2)
      by (auto elim: reads_fresh [OF reads_recv_request [OF assms(1,3) cid short, of service], of cs'])
    then show "\<exists>pieces. map_option concat pieces = body
          \<and> wsReceiveRequest A cs' service = Inr (padded context,
              \<lparr>rq_method = verb, rq_host = service, rq_path = path, rq_headers = headers_of ls\<rparr>, pieces)"
      by (auto simp: wsReceiveRequest_def is_request_def)
  qed
qed

lemma wsResponse_received_ok:
  assumes "asn_library A" "wsResponse H context code entity hs = Inr msg"
    "asn_encodable context" "length msg < 2 ^ 31" "concat cs = msg" "[] \<notin> set cs"
  shows "\<exists>ls chunk. header_lines hs = Inr ls \<and> receiveChatMessage cs = Inr (Ws_response chunk)
    \<and> (\<forall>cs'. concat cs' = concat chunk \<longrightarrow> [] \<notin> set cs' \<longrightarrow>
        (\<exists>pieces. map_option concat pieces = entity
          \<and> wsReceiveResponse A cs' = Inr (padded context,
              \<lparr>rs_code = code, rs_comment = comment H code, rs_headers = headers_of ls\<rparr>, pieces)))"
proof -
  obtain cid ls where cid: "protoAsn context = Inr cid" and ls: "header_lines hs = Inr ls"
    and msg: "msg = [0x08, 0x02, 0x1A] @ protoStrbuf (response_bytes H code entity cid ls)"
    using assms(2) by (rule wsResponse_bytes)
  have "short msg" using assms(4) by (simp add: short_def)
  then have short: "short (response_bytes H code entity cid ls)"
    unfolding msg by (auto dest!: short_append short_Cons short_protoInt_append)
  then obtain chunk where chunk: "receiveChatMessage cs = Inr (Ws_response chunk)"
      "concat chunk = response_bytes H code entity cid ls"
    using receiveChatMessage_wrapped [of cs False] assms(5,6) unfolding msg
    by (auto simp: Ws_of_def)
  show ?thesis
  proof (rule exI [of _ ls], rule exI [of _ chunk], intro conjI ls chunk(1) allI impI)
    fix cs' assume cs': "concat cs' = concat chunk" "[] \<notin> set cs'"
    obtain v st where "recv_response A (fresh cs') = Inr (v, st)"
        "is_response context code (comment H code) ls entity v"
      using cs' chunk(2)
      by (auto elim: reads_fresh [OF reads_recv_response [OF assms(1,3) cid short], of cs'])
    then show "\<exists>pieces. map_option concat pieces = entity
          \<and> wsReceiveResponse A cs' = Inr (padded context,
              \<lparr>rs_code = code, rs_comment = comment H code, rs_headers = headers_of ls\<rparr>, pieces)"
      by (auto simp: wsReceiveResponse_def is_response_def)
  qed
qed

text \<open>
  C22.  A request that was sent is received: unwrapped as a request from every chunking of the
  message, and parsed from every chunking of what was inside with the method, the path, the
  header lines, the body and the id (padded to eight bytes) it was sent with.
\<close>

theorem wsRequest_received:
  assumes "asn_library A" "wsRequest verb path body hs context = Inr msg"
    "asn_encodable context" "length msg < 2 ^ 31" "concat cs = msg" "[] \<notin> set cs"
  shows "\<exists>ls chunk. header_lines hs = Inr ls \<and> receiveChatMessage cs = Inr (Ws_request chunk)
    \<and> (\<forall>cs'. concat cs' = concat chunk \<longrightarrow> [] \<notin> set cs' \<longrightarrow>
        (\<exists>pieces. map_option concat pieces = body
          \<and> wsReceiveRequest A cs' service = Inr (padded context,
              \<lparr>rq_method = verb, rq_host = service, rq_path = path, rq_headers = headers_of ls\<rparr>, pieces)))"
  by (rule wsRequest_received_ok [OF assms])

theorem wsRequest_received_witness:
  "\<exists>ls chunk. header_lines None = Inr ls
    \<and> receiveChatMessage [[8, 1], [18, 11, 10, 1, 71, 18, 1], [47, 26, 1, 5, 32, 1]] = Inr (Ws_request chunk)
    \<and> (\<exists>pieces. map_option concat pieces = Some [5]
        \<and> wsReceiveRequest std_asn_lib [concat chunk] [67] = Inr (padded [1],
            \<lparr>rq_method = [71], rq_host = [67], rq_path = [47], rq_headers = headers_of ls\<rparr>, pieces))"
proof -
  let ?cs = "[[8, 1], [18, 11, 10, 1, 71, 18, 1], [47, 26, 1, 5, 32, 1]] :: bytes list"
  have msg: "wsRequest [71] [47] (Some [5]) None [1] = Inr (concat ?cs)"
    by (simp add: wsRequest_def protoStrbuf_def protoString_def protoInt_simps protoAsn_def
        protoAsn_loop.simps header_fields_def Let_def)
  obtain ls chunk where *: "header_lines None = Inr ls" "receiveChatMessage ?cs = Inr (Ws_request chunk)"
    "\<And>cs'. concat cs' = concat chunk \<Longrightarrow> [] \<notin> set cs' \<Longrightarrow>
        (\<exists>pieces. map_option concat pieces = Some [5]
          \<and> wsReceiveRequest std_asn_lib cs' [67] = Inr (padded [1],
              \<lparr>rq_method = [71], rq_host = [67], rq_path = [47], rq_headers = headers_of ls\<rparr>, pieces))"
    using wsRequest_received [OF std_asn.asn_library_axioms msg, of ?cs "[67]"]
    by (auto simp: asn_encodable_def)
  have "\<exists>e. wsReceiveRequest std_asn_lib [] [67] = Inl e"
  proof -
    have "parseByte (fresh []) = Inr (-1, fresh [])" by (simp add: parseByte_def fresh_def fetch_def)
    then show ?thesis by (simp add: wsReceiveRequest_def recv_request_def)
  qed
  then obtain e where e: "wsReceiveRequest std_asn_lib [] [67] = Inl e" ..
  have "concat chunk \<noteq> []"
  proof
    assume "concat chunk = []"
    then show False using *(3) [of "[]"] unfolding e by simp
  qed
  then obtain pieces where "map_option concat pieces = Some [5]"
    "wsReceiveRequest std_asn_lib [concat chunk] [67] = Inr (padded [1],
       \<lparr>rq_method = [71], rq_host = [67], rq_path = [47], rq_headers = headers_of ls\<rparr>, pieces)"
    using *(3) [of "[concat chunk]"] by auto
  then show ?thesis
    by (intro exI conjI) (rule *(1), rule *(2))
qed

text \<open>
  A response that was sent is received with its status code, the phrase \<open>comment\<close> has for
  it, the header lines, the entity and the id of the request it answers.
\<close>

theorem wsResponse_received:
  assumes "asn_library A" "wsResponse H context code entity hs = Inr msg"
    "asn_encodable context" "length msg < 2 ^ 31" "concat cs = msg" "[] \<notin> set cs"
  shows "\<exists>ls chunk. header_lines hs = Inr ls \<and> receiveChatMessage cs = Inr (Ws_response chunk)
    \<and> (\<forall>cs'. concat cs' = concat chunk \<longrightarrow> [] \<notin> set cs' \<longrightarrow>
        (\<exists>pieces. map_option concat pieces = entity
          \<and> wsReceiveResponse A cs' = Inr (padded context,
              \<lparr>rs_code = code, rs_comment = comment H code, rs_headers = headers_of ls\<rparr>, pieces)))"
  by (rule wsResponse_received_ok [OF assms])

theorem wsResponse_received_witness:
  "\<exists>ls chunk. header_lines None = Inr ls
    \<and> receiveChatMessage [[8, 2, 26], [6, 8, 1, 16, 7], [26, 0]] = Inr (Ws_response chunk)
    \<and> (\<forall>cs'. concat cs' = concat chunk \<longrightarrow> [] \<notin> set cs' \<longrightarrow>
        (\<exists>pieces. map_option concat pieces = None
          \<and> wsReceiveResponse std_asn_lib cs' = Inr (padded [1],
              \<lparr>rs_code = 7, rs_comment = comment (\<lambda>s. 0) 7, rs_headers = headers_of ls\<rparr>, pieces)))"
proof -
  have "comment (\<lambda>s. 0) 7 = []" by (simp add: comment_def comment_cases_def)
  then have "wsResponse (\<lambda>s. 0) [1] 7 None None = Inr (concat [[8, 2, 26], [6, 8, 1, 16, 7], [26, 0]])"
    by (simp add: wsResponse_def protoStrbuf_def protoString_def protoInt_simps protoAsn_def
        protoAsn_loop.simps header_fields_def Let_def)
  then show ?thesis
    by (intro wsResponse_received [OF std_asn.asn_library_axioms]) (simp_all add: asn_encodable_def)
qed

section \<open>Independence of the chunks\<close>

lemma same_parseString:
  assumes "ps_ok s" "ps_ok t" "pending s = pending t"
  shows "same_outcome (\<lambda>v w. same_rest (=) v w \<and> length (pending (snd v)) \<le> length (pending s))
    (parseString s) (parseString t)"
proof (cases "parseString s")
  case (Inr v)
  then have "length (pending (snd v)) \<le> length (pending s)"
    by (cases v) (simp add: parseString_consumes)
  then show ?thesis
    using agreeD [OF agree_parses [OF parseString_parses], of s t] assms Inr
    by (cases "parseString t") simp_all
qed (use agreeD [OF agree_parses [OF parseString_parses], of s t] assms in \<open>cases "parseString t"; simp\<close>)

lemma agree_request_headers: "agree True (=) (\<lambda>st. recv_request_headers st h) (\<lambda>st. recv_request_headers st h)"
proof (rule agree_liveI)
  fix s t assume "ps_ok s" "ps_ok t" "live s" "live t" "pending s = pending t"
  then show "same_outcome (same_rest (=)) (recv_request_headers s h) (recv_request_headers t h)"
  proof (induction "length (pending s)" arbitrary: s t h rule: less_induct)
    case less
    show ?case
    proof (cases "pending s = []")
      case True
      with less.prems show ?thesis
        by (subst (1 2) recv_request_headers_eq) (simp add: parseDone_pending same_rest_def)
    next
      case False
      have more: "same_outcome (same_rest (=))
          (rbind (parseString s1) (\<lambda>(l, st). recv_request_headers st (h @ l @ [10])))
          (rbind (parseString t1) (\<lambda>(l, st). recv_request_headers st (h @ l @ [10])))"
        if "ps_ok s1" "ps_ok t1" "pending s1 = pending t1" "length (pending s1) < length (pending s)" for s1 t1
        by (rule same_outcome_bind [OF same_parseString])
          (use less.hyps that in \<open>auto simp: same_rest_def\<close>)
      obtain c r where c: "pending s = c # r" using False by (cases "pending s") auto
      then have ct: "pending t = c # r" using less.prems by simp
      obtain s1 where "parseByte s = Inr (ucast c, s1)" "ps_ok s1" "pending s1 = r"
        using less.prems c by (metis parseByte_Cons)
      moreover obtain t1 where "parseByte t = Inr (ucast c, t1)" "ps_ok t1" "pending t1 = r"
        using less.prems c by (metis parseByte_Cons)
      ultimately show ?thesis
        using less.prems(1-4) more [of s1 t1]
        by (subst (1 2) recv_request_headers_eq) (simp add: parseDone_pending c ct)
    qed
  qed
qed

lemma agree_response_headers:
  "agree True (=) (\<lambda>st. recv_response_headers st h) (\<lambda>st. recv_response_headers st h)"
proof (rule agree_liveI)
  fix s t assume "ps_ok s" "ps_ok t" "live s" "live t" "pending s = pending t"
  then show "same_outcome (same_rest (=)) (recv_response_headers s h) (recv_response_headers t h)"
  proof (induction "length (pending s)" arbitrary: s t h rule: less_induct)
    case less
    have more: "same_outcome (same_rest (=))
        (rbind (parseDone s1) (\<lambda>d.
           if d then Inr (h @ l @ [10], s1)
           else rbind (parseByte s1) (\<lambda>(c, st).
             if c \<noteq> 0x2A then Inl (Error ''WebSocketResponseMessage.headers expected'')
             else recv_response_headers st (h @ l @ [10]))))
        (rbind (parseDone t1) (\<lambda>d.
           if d then Inr (h @ l @ [10], t1)
           else rbind (parseByte t1) (\<lambda>(c, st).
             if c \<noteq> 0x2A then Inl (Error ''WebSocketResponseMessage.headers expected'')
             else recv_response_headers st (h @ l @ [10]))))"
      if st1: "ps_ok s1" "ps_ok t1" "live s1" "live t1" "pending s1 = pending t1"
        "length (pending s1) \<le> length (pending s)" for s1 t1 l
    proof (cases "pending s1")
      case Nil
      with st1 show ?thesis by (simp add: parseDone_pending same_rest_def)
    next
      case (Cons c r)
      then have ct: "pending t1 = c # r" using st1 by simp
      obtain s2 where "parseByte s1 = Inr (ucast c, s2)" "ps_ok s2" "live s2" "pending s2 = r"
        by (rule parseByte_Cons [OF st1(1) Cons])
      moreover obtain t2 where "parseByte t1 = Inr (ucast c, t2)" "ps_ok t2" "live t2" "pending t2 = r"
        by (rule parseByte_Cons [OF st1(2) ct])
      ultimately show ?thesis
        using st1 less.hyps [of s2 t2 "h @ l @ [10]"] Cons ct by (simp add: parseDone_pending)
    qed
    show ?case
    proof (subst (1 2) recv_response_headers_eq, rule same_outcome_bind [OF same_parseString])
      fix v w :: "bytes \<times> pstate"
      assume vw: "same_rest (=) v w \<and> length (pending (snd v)) \<le> length (pending s)"
      then obtain l s1 t1 where "v = (l, s1)" "w = (l, t1)" "ps_ok s1" "ps_ok t1" "live s1" "live t1"
          "pending s1 = pending t1" "length (pending s1) \<le> length (pending s)"
        by (cases v; cases w) (auto simp: same_rest_def)
      with more [of s1 t1 l] show "same_outcome (same_rest (=))
        (case v of (l, s1) \<Rightarrow> rbind (parseDone s1) (\<lambda>d.
           if d then Inr (h @ l @ [10], s1)
           else rbind (parseByte s1) (\<lambda>(c, st).
             if c \<noteq> 0x2A then Inl (Error ''WebSocketResponseMessage.headers expected'')
             else recv_response_headers st (h @ l @ [10]))))
        (case w of (l, t1) \<Rightarrow> rbind (parseDone t1) (\<lambda>d.
           if d then Inr (h @ l @ [10], t1)
           else rbind (parseByte t1) (\<lambda>(c, st).
             if c \<noteq> 0x2A then Inl (Error ''WebSocketResponseMessage.headers expected'')
             else recv_response_headers st (h @ l @ [10]))))"
        by (simp only: prod.case)
    qed (use less.prems in simp_all)
  qed
qed

definition same_parts :: "'c \<times> 'h \<times> bytes list option \<Rightarrow> 'c \<times> 'h \<times> bytes list option \<Rightarrow> bool" where
  "same_parts = (\<lambda>(ctx, obj, body) (ctx', obj', body').
     ctx = ctx' \<and> obj = obj' \<and> map_option concat body = map_option concat body')"

lemma agree_request_tail:
  assumes "map_option concat b = map_option concat b'"
  shows "agree True same_parts (recv_request_tail A service verb path b c) (recv_request_tail A service verb path b' c)"
  unfolding recv_request_tail_def [abs_def]
  by (intro agree_if agree_fail agree_bind [OF agree_fields(3)] agree_bind [OF agree_request_headers])
    (simp add: agree_return same_parts_def assms)

lemma agree_request: "agree False same_parts (recv_request A service) (recv_request A service)"
  unfolding recv_request_def [abs_def]
proof (intro agree_tag agree_bind [OF agree_fields(2)])
  fix verb verb' path path' :: bytes
  assume eq: "verb = verb'" "path = path'"
  show "agree True same_parts
      (\<lambda>st. rbind (parseByte st) (\<lambda>(c, st). if c = 0x1A
         then rbind (parseStrbuf st) (\<lambda>(body, st).
           rbind (parseByte st) (\<lambda>(c, st). recv_request_tail A service verb path (Some body) c st))
         else recv_request_tail A service verb path None c st))
      (\<lambda>st. rbind (parseByte st) (\<lambda>(c, st). if c = 0x1A
         then rbind (parseStrbuf st) (\<lambda>(body, st).
           rbind (parseByte st) (\<lambda>(c, st). recv_request_tail A service verb' path' (Some body) c st))
         else recv_request_tail A service verb' path' None c st))"
    unfolding eq
    by (intro agree_byte agree_if agree_bind [OF agree_strbuf] agree_request_tail)
      (simp_all add: recv_request_tail_def)
qed simp_all

lemma agree_response_rest: "agree True (\<lambda>(b, h) (b', h'). map_option concat b = map_option concat b' \<and> h = h')
    recv_response_rest recv_response_rest"
  unfolding recv_response_rest_def [abs_def]
  by (intro agree_done agree_byte agree_if agree_tag agree_fail agree_bind [OF agree_strbuf]
      agree_bind [OF agree_response_headers] agree_return) simp_all

lemma agree_response: "agree False same_parts (recv_response A) (recv_response A)"
  unfolding recv_response_def [abs_def]
  by (intro agree_tag agree_bind [OF agree_fields(1)] agree_bind [OF agree_fields(2)] agree_bind [OF agree_fields(3)]
      agree_bind [OF agree_response_rest]) (auto intro!: agree_return simp: same_parts_def)

lemma same_outcome_rmap_fst:
  "same_outcome (same_rest R) x y \<Longrightarrow> same_outcome R (rmap fst x) (rmap fst y)"
  by (cases x; cases y) (auto simp: same_rest_def)

text \<open>
  C25.  What a request or a response is received as depends on its bytes only: cut into chunks in
  two ways, both are refused, or both give the same id, the same object and the same body.
\<close>

theorem received_any_chunks:
  assumes "concat cs = concat cs'" "[] \<notin> set cs" "[] \<notin> set cs'"
  shows "same_outcome same_parts (wsReceiveRequest A cs service) (wsReceiveRequest A cs' service)
    \<and> same_outcome same_parts (wsReceiveResponse A cs) (wsReceiveResponse A cs')"
  using agreeD [OF agree_request, of "fresh cs" "fresh cs'"] agreeD [OF agree_response, of "fresh cs" "fresh cs'"] assms
  by (simp add: wsReceiveRequest_def wsReceiveResponse_def same_outcome_rmap_fst)

theorem received_any_chunks_witness:
  "same_outcome same_parts
      (wsReceiveRequest std_asn_lib [[10, 1, 71], [18, 1, 47, 32, 1]] [])
      (wsReceiveRequest std_asn_lib [[10, 1, 71, 18], [1, 47, 32], [1]] [])
    \<and> same_outcome same_parts
      (wsReceiveResponse std_asn_lib [[10, 1, 71], [18, 1, 47, 32, 1]])
      (wsReceiveResponse std_asn_lib [[10, 1, 71, 18], [1, 47, 32], [1]])"
  by (rule received_any_chunks) simp_all

section \<open>Closing\<close>

text \<open>The operations a connection sees: chunks and closes, in any order; a refused chunk sends nothing.\<close>

inductive ws_step :: "ws_out \<Rightarrow> ws_out \<Rightarrow> bool" where
  send: "wsSendChunk chunk m st = Inr st' \<Longrightarrow> ws_step st st'"
| close: "ws_step st (wsSendClose code m st)"

definition ws_open :: ws_out where
  "ws_open = \<lparr>closing = False, ws_sent = []\<rparr>"

inductive ws_reachable :: "ws_out \<Rightarrow> bool" where
  start: "ws_reachable ws_open"
| step: "ws_reachable st \<Longrightarrow> ws_step st st' \<Longrightarrow> ws_reachable st'"

text \<open>
  In every state a connection can reach, the frames sent are binary frames followed, exactly
  when the connection is closing, by one close frame: nothing is sent after it and it is sent once.
\<close>

theorem closing_frame_last:
  assumes "ws_reachable st"
  shows "if closing st
    then ws_sent st \<noteq> [] \<and> wf_opcode (last (ws_sent st)) = WEBSOCK_CLOSE
      \<and> (\<forall>f\<in>set (butlast (ws_sent st)). wf_opcode f = WEBSOCK_BINARY)
    else (\<forall>f\<in>set (ws_sent st). wf_opcode f = WEBSOCK_BINARY)"
  using assms
proof induction
  case (step st st')
  from step.hyps(2) show ?case
  proof cases
    case (send chunk m)
    then have "\<not> closing st" "st' = st\<lparr>ws_sent := ws_sent st
        @ [\<lparr>wf_opcode = WEBSOCK_BINARY, wf_mask = m, wf_payload = chunk\<rparr>]\<rparr>"
      by (auto simp: wsSendChunk_def split: if_splits)
    with step.IH show ?thesis by simp
  next
    case (close code m)
    with step.IH show ?thesis by (cases "closing st") (simp_all add: wsSendClose_def)
  qed
qed (simp add: ws_open_def)

theorem closing_frame_last_witness:
  "let st = wsSendClose [3, 232] 0 ws_open in
   if closing st
    then ws_sent st \<noteq> [] \<and> wf_opcode (last (ws_sent st)) = WEBSOCK_CLOSE
      \<and> (\<forall>f\<in>set (butlast (ws_sent st)). wf_opcode f = WEBSOCK_BINARY)
    else (\<forall>f\<in>set (ws_sent st). wf_opcode f = WEBSOCK_BINARY)"
  unfolding Let_def
  by (rule closing_frame_last [OF ws_reachable.step [OF ws_reachable.start ws_step.close]])

end
