(* ===== verification/RestSpec.thy ===== *)
theory RestSpec
  imports Rest Servers
begin

text \<open>
  What requests can reach: handlers of routes with authentication run only after the password of a
  device was verified.
\<close>

section \<open>Events of the parts of a call\<close>

text \<open>The credentials of the connection stay as they are, its handle is that of a route, and what is sent satisfies \<open>P\<close>.\<close>

definition routed :: "env \<Rightarrow> handle \<Rightarrow> bool" where
  "routed E h \<longleftrightarrow> (\<exists>host meth path. lookup_path host meth path (en_api E) = Some h)"

definition logged :: "(handle \<Rightarrow> bool) \<Rightarrow> bytes option \<Rightarrow> bytes option \<Rightarrow> ('o, 'z) rest_server_scheme \<Rightarrow> bool" where
  "logged R l p s \<longleftrightarrow> sv_login s = l \<and> sv_password s = p \<and> (\<forall>h. sv_handle s = Some h \<longrightarrow> R h)"

definition answers :: "('o server_event \<Rightarrow> bool) \<Rightarrow> bool" where
  "answers P \<longleftrightarrow> (\<forall>out. P (Http_response out)) \<and> (\<forall>b. P (Http_chunk b))"

lemma logged_update [simp]:
  "logged R l p (s\<lparr>sv_request := r\<rparr>) = logged R l p s"
  "logged R l p s \<Longrightarrow> logged R l p (s\<lparr>sv_handle := None\<rparr>)"
  "logged R l p s \<Longrightarrow> R h \<Longrightarrow> logged R l p (s\<lparr>sv_handle := Some h\<rparr>)"
  "logged R l p (s\<lparr>sv_out := out\<rparr>) = logged R l p s"
  by (simp_all add: logged_def)

lemma ensures_connection_call [ensures_intros]:
  "P e \<Longrightarrow> Q () \<Longrightarrow> ensures I P Q (connection_call e)"
  unfolding connection_call_def
  by (rule ensures_bind [where R = "\<lambda>_. True"]) (auto intro: ensures_intros)

lemma ensures_sendChunk: "ensures (logged R l p) P (\<lambda>_. True) (sendChunk chunk)"
  unfolding sendChunk_def
  by (rule ensures_bind [where R = "\<lambda>_. True"]) (auto intro!: ensures_intros split: sum.split)

lemma ensures_respond:
  assumes "answers P" "Q code"
  shows "ensures (logged R l p) P Q (respond H ctxt code type entity extra)"
proof -
  have http: "ensures (logged R l p) P (\<lambda>_. True) (httpRespond H code type entity extra)"
    using assms unfolding httpRespond_def answers_def
    by (auto intro!: ensures_then ensures_intros split: option.split)
  show ?thesis
    unfolding respond_def
    by (rule ensures_then, simp add: ensures_mod, rule ensures_bind [where R = "\<lambda>_. True"])
      (auto intro!: ensures_then ensures_intros http assms ensures_bind [where R = "\<lambda>_. True"] ensures_sendChunk
        simp: Let_def)
qed

text \<open>An argument that ends the call.\<close>

definition is_code :: "rest_value \<Rightarrow> bool" where
  "is_code v \<longleftrightarrow> (\<exists>c. v = V (JInt c))"

lemma ensures_refuse: "answers P \<Longrightarrow> (\<And>c. Q (V (JInt c))) \<Longrightarrow> ensures (logged R l p) P Q (refuse E ctxt)"
  unfolding refuse_def
  by (rule ensures_bind [where R = "\<lambda>_. True"]) (auto intro: ensures_respond ensures_intros)

text \<open>The credentials that a request carries, in its header or those of its connection.\<close>

definition carries ::
    "env \<Rightarrow> rest_request option \<Rightarrow> bytes option \<Rightarrow> bytes option \<Rightarrow> bytes \<Rightarrow> bytes option \<Rightarrow> bool" where
  "carries E rq l p login password \<longleftrightarrow>
     (case header rq (str ''Authorization'') of
        Inr (H_auth scheme a) \<Rightarrow>
          lower_case scheme = str ''basic'' \<and>
          (\<exists>cred pw. b64_decode (en_base64 E) a = Inr cred \<and> scan_upto (str '':'') cred = Some (login, pw)
             \<and> password = Some pw)
      | Inr v \<Rightarrow> v \<in> {H_nil, H_int 0} \<and> l = Some login \<and> p = password
      | _ \<Rightarrow> False)"

text \<open>The queued authentications, and the calls without credentials.\<close>

definition auth_queued ::
    "env \<Rightarrow> bytes option \<Rightarrow> rest_request option \<Rightarrow> handle \<Rightarrow> bytes option \<Rightarrow> bytes option
      \<Rightarrow> 'o server_event \<Rightarrow> bool" where
  "auth_queued E ctxt rq h l p x \<longleftrightarrow>
     (\<exists>accountId deviceId password args login.
        x = Call_auth ctxt accountId deviceId password args h
        \<and> carries E rq l p login password
        \<and> snd (split_login login) = deviceId
        \<and> uuid_decode (en_hex E) (Some (fst (split_login login))) = Inr accountId)"

definition nobody :: "bytes option \<Rightarrow> handle \<Rightarrow> 'o server_event \<Rightarrow> bool" where
  "nobody ctxt h x \<longleftrightarrow> (\<exists>args. x = Call_out (h_function h) ctxt (params h @ [V JNil, V JNil] @ args))"

lemma ensures_queue_auth:
  assumes "carries E rq l p login password" "\<And>x. auth_queued E ctxt rq h l p x \<Longrightarrow> P x"
  shows "ensures (logged R l p) P is_code (queue_auth E ctxt args h login password)"
proof -
  obtain u d where u: "split_login login = (u, d)" by (cases "split_login login")
  have *: "P (Call_auth ctxt i d password (drop (Suc 0) args) h)" if "uuid_decode (en_hex E) (Some u) = Inr i" for i
    using assms(1) that u by (intro assms(2)) (auto simp: auth_queued_def)
  show ?thesis
    unfolding queue_auth_def u Let_def prod.case
    by (rule ensures_bind [where R = "\<lambda>i. uuid_decode (en_hex E) (Some u) = Inr i"])
      (auto intro!: ensures_then ensures_intros * simp: is_code_def)
qed

lemma ensures_auth_arg:
  assumes P: "answers P" "\<And>x. auth_queued E ctxt rq h l p x \<Longrightarrow> P x"
    and opt: "\<And>x. optional \<Longrightarrow> nobody ctxt h x \<Longrightarrow> P x"
  shows "ensures (logged R l p) P is_code (auth_arg E ctxt rq args optional h)"
proof -
  have refuse: "ensures (logged R l p) P is_code (refuse E ctxt)"
    by (rule ensures_refuse [OF P(1)]) (simp add: is_code_def)
  have out: "P (Call_out (h_function h) ctxt (map (\<lambda>q. V (JStr q)) (h_params h) @ [V JNil, V JNil] @ drop 1 args))"
    if optional
    by (rule opt [OF that]) (auto simp: nobody_def params_def)
  have own: "ensures (logged R l p) P is_code
      (case sv_login s of
         Some login \<Rightarrow> queue_auth E ctxt args h login (sv_password s)
       | None \<Rightarrow>
           if optional then
             athen (aemit (Call_out (h_function h) ctxt
                      (map (\<lambda>p. V (JStr p)) (h_params h) @ [V JNil, V JNil] @ drop 1 args)))
               (aret (V (JInt 0)))
           else refuse E ctxt)"
    if "header rq (str ''Authorization'') = Inr auth" "auth = H_nil \<or> auth = H_int 0" "logged R l p s" for s auth
  proof (cases "sv_login s")
    case None
    then show ?thesis using refuse out by (auto intro!: ensures_then ensures_intros simp: is_code_def)
  next
    case (Some login)
    have "carries E rq l p login (sv_password s)"
      using that Some by (auto simp: carries_def logged_def)
    then show ?thesis unfolding Some option.case by (rule ensures_queue_auth) (rule P(2))
  qed
  show ?thesis
    unfolding auth_arg_def
  proof (rule ensures_bind [where R = "\<lambda>auth. header rq (str ''Authorization'') = Inr auth"], goal_cases)
    case (2 auth)
    show ?case
    proof (cases "auth = H_nil \<or> auth = H_int 0")
      case True
      show ?thesis
        unfolding if_P [OF True]
        by (rule ensures_bind [where R = "logged R l p"], rule ensures_get, simp, rule own [OF 2 True])
    next
      case False
      show ?thesis
      proof (cases auth)
        case (H_auth scheme a)
        have "ensures (logged R l p) P is_code
           (case scan_upto (str '':'') cred of None \<Rightarrow> refuse E ctxt
            | Some (login, password) \<Rightarrow> queue_auth E ctxt args h login (Some password))"
          if "lower_case scheme = str ''basic''" "b64_decode (en_base64 E) a = Inr cred" for cred
          using that 2 H_auth
          by (auto intro!: refuse ensures_queue_auth P(2) simp: carries_def split: option.split)
        then show ?thesis
          using H_auth refuse
          by (auto intro!: ensures_bind [where R = "\<lambda>cred. b64_decode (en_base64 E) a = Inr cred"] ensures_intros)
      qed (use False in \<open>auto intro!: ensures_intros\<close>)
    qed
  qed (auto intro: ensures_intros)
qed

definition is_auth :: "rest_arg \<Rightarrow> bool" where
  "is_auth a \<longleftrightarrow> a = ARG_HEADER_AUTH \<or> a = ARG_HEADER_OPT_AUTH"

lemma ensures_json_arg: "answers P \<Longrightarrow> ensures (logged R l p) P (\<lambda>_. True) (json_arg E rq entity)"
  unfolding json_arg_def
  by (rule ensures_bind [where R = "\<lambda>_. True"])
    (auto intro!: ensures_intros ensures_bind [where R = "\<lambda>_. True"] split: header_value.split)

lemma ensures_substArg:
  assumes P: "answers P" "\<And>x. is_auth a \<Longrightarrow> auth_queued E ctxt rq h l p x \<Longrightarrow> P x"
    "\<And>x. a = ARG_HEADER_OPT_AUTH \<Longrightarrow> nobody ctxt h x \<Longrightarrow> P x"
    and a: "args ! i = V_arg a"
  shows "ensures (logged R l p) P (\<lambda>v. is_auth a \<longrightarrow> is_code v) (substArg E ctxt rq entity args i h)"
proof -
  have auth: "ensures (logged R l p) P is_code (acatch (auth_arg E ctxt rq args opt h) (refuse E ctxt))"
    if "is_auth a" "opt \<Longrightarrow> a = ARG_HEADER_OPT_AUTH" for opt
    using that by (intro ensures_catch ensures_auth_arg ensures_refuse P) (auto simp: is_code_def)
  show ?thesis
  proof (cases a)
    case ARG_ENTITY_JSON
    have "ensures (logged R l p) P (\<lambda>_. True) (acatch (json_arg E rq entity) (refuse E ctxt))"
      by (intro ensures_catch ensures_json_arg ensures_refuse P) simp
    then show ?thesis by (simp add: substArg_def a ARG_ENTITY_JSON is_auth_def)
  next
    case (Header name)
    then show ?thesis
      by (auto simp: substArg_def a is_auth_def intro!: ensures_bind [where R = "\<lambda>_. True"] ensures_intros)
  qed (use auth [of True] auth [of False] in
      \<open>auto simp: substArg_def a is_auth_def intro: ensures_intros ensures_weaken\<close>)
qed

lemma ensures_subst_args:
  assumes P: "answers P" "\<And>x. \<exists>a\<in>set as. is_auth a \<Longrightarrow> auth_queued E ctxt rq h l p x \<Longrightarrow> P x"
    "\<And>x. ARG_HEADER_OPT_AUTH \<in> set as \<Longrightarrow> nobody ctxt h x \<Longrightarrow> P x"
    and I: "I = (logged R l p :: ('o, 'z) rest_server_scheme \<Rightarrow> bool)"
  shows "i \<le> length args \<Longrightarrow> \<forall>j<i. \<exists>a\<in>set as. args ! j = V_arg a \<Longrightarrow>
    ensures I P (\<lambda>r. \<not> isl r \<longrightarrow> \<not> (0 < i \<and> (\<exists>a. is_auth a \<and> args ! 0 = V_arg a)))
      (subst_args E ctxt rq entity h i args)"
proof (induction i arbitrary: args)
  case 0
  show ?case by (simp add: ensures_ret)
next
  case (Suc i)
  obtain a where a: "a \<in> set as" "args ! i = V_arg a" using Suc.prems(2) by blast
  have arg: "ensures I P (\<lambda>v. is_auth a \<longrightarrow> is_code v) (substArg E ctxt rq entity args i h)"
    using a unfolding I by (intro ensures_substArg P) auto
  let ?Q = "\<lambda>args r. \<not> isl r \<longrightarrow> \<not> (\<exists>a. is_auth a \<and> args ! 0 = V_arg a)"
  have go: "ensures I P (?Q args) (subst_args E ctxt rq entity h i args')"
    if v: "is_auth a \<longrightarrow> is_code v" "\<not> is_code v" and args': "i \<le> length args'" "\<forall>j<i. args' ! j = args ! j" for v args'
  proof -
    have "ensures I P (\<lambda>r. \<not> isl r \<longrightarrow> \<not> (0 < i \<and> (\<exists>a. is_auth a \<and> args' ! 0 = V_arg a)))
        (subst_args E ctxt rq entity h i args')"
      using Suc.prems(2) args' by (intro Suc.IH) auto
    then show ?thesis using v args'(2) a by (cases "i = 0") (auto elim!: ensures_weaken)
  qed
  have "ensures I P (?Q args) (subst_args E ctxt rq entity h (Suc i) args)"
    unfolding subst_args.simps
  proof (rule ensures_bind [OF arg], goal_cases)
    case (1 v)
    have splice: "ensures I P (?Q args) (subst_args E ctxt rq entity h i (take i args @ map V js @ drop (Suc i) args))"
      if "v = V (JArr js)" for js
      using Suc.prems(1) that by (intro go [OF 1]) (auto simp: is_code_def nth_append)
    have put: "ensures I P (?Q args) (subst_args E ctxt rq entity h i (args[i := v]))" if "\<not> is_code v"
      using Suc.prems(1) that by (intro go [OF 1]) auto
    show ?case
      using splice put
      by (auto split: rest_value.split json.split intro!: ensures_ret simp: is_code_def)
  qed
  then show ?case by simp
qed

text \<open>What a call can cause, apart from answers.\<close>

definition call_event ::
    "env \<Rightarrow> bytes option \<Rightarrow> rest_request option \<Rightarrow> handle \<Rightarrow> bytes option \<Rightarrow> bytes option
      \<Rightarrow> 'o server_event \<Rightarrow> bool" where
  "call_event E ctxt rq h l p x \<longleftrightarrow>
     (\<exists>out. x = Http_response out) \<or> (\<exists>b. x = Http_chunk b)
     \<or> (\<exists>a\<in>set (h_args h). is_auth a) \<and> auth_queued E ctxt rq h l p x
     \<or> ARG_HEADER_OPT_AUTH \<in> set (h_args h) \<and> nobody ctxt h x
     \<or> \<not> (h_args h \<noteq> [] \<and> is_auth (hd (h_args h))) \<and> (\<exists>args. x = Invoke (h_function h) ctxt args)"

definition invoked :: "(('o, 'z) rest_server_scheme, 'o server_event) handlers" where
  "invoked f ctxt args = aemit (Invoke f ctxt args)"

lemma ensures_handle_args:
  "ensures (logged R l p) (call_event E ctxt rq h l p) (\<lambda>r. \<not> isl r \<longrightarrow> \<not> (h_args h \<noteq> [] \<and> is_auth (hd (h_args h))))
    (subst_args E ctxt rq entity h (length (h_args h)) (map V_arg (h_args h)))"
proof -
  have hd: "(\<exists>a. is_auth a \<and> map V_arg (h_args h) ! 0 = V_arg a) \<longleftrightarrow> is_auth (hd (h_args h))"
    if "h_args h \<noteq> []" using that by (cases "h_args h") auto
  show ?thesis
    by (rule ensures_weaken, rule ensures_subst_args [where as = "h_args h", OF _ _ _ refl])
      (use hd in \<open>auto simp: answers_def call_event_def\<close>)
qed

lemma ensures_rest_call:
  "ensures (logged R l p) (call_event E ctxt rq h l p) (\<lambda>_. True) (rest_call E invoked ctxt rq entity (Some h))"
  unfolding rest_call_def option.case
  by (rule ensures_bind [OF ensures_handle_args])
    (auto simp: invoked_def call_event_def intro!: ensures_intros split: sum.split)

section \<open>Requests\<close>

text \<open>What a request of a connection can cause.\<close>

definition request_event ::
    "env \<Rightarrow> bytes option \<Rightarrow> rest_request option \<Rightarrow> bytes option \<Rightarrow> bytes option \<Rightarrow> 'o server_event \<Rightarrow> bool" where
  "request_event E ctxt rq l p x \<longleftrightarrow>
     (\<exists>out. x = Http_response out) \<or> (\<exists>b. x = Http_chunk b) \<or> (\<exists>n. x = Expect_entity n)
     \<or> (\<exists>h. routed E h \<and> call_event E ctxt rq h l p x)"

lemma answers_request_event: "answers (request_event E ctxt rq l p)"
  by (simp add: answers_def request_event_def)

lemma ensures_answer:
  "ensures (logged (routed E) l p) (request_event E ctxt rq l p) (\<lambda>_. True)
    (abind (respond H c code None None None) (\<lambda>_. aret ()))"
  by (rule ensures_bind [where R = "\<lambda>_. True"]) (auto intro: ensures_respond answers_request_event ensures_intros)

lemma ensures_routed_call:
  "routed E h \<Longrightarrow> ensures (logged (routed E) l p) (request_event E ctxt rq l p) (\<lambda>_. True)
    (rest_call E invoked ctxt rq entity (Some h))"
  by (rule ensures_weaken [OF ensures_rest_call]) (auto simp: request_event_def)

lemma ensures_header_value:
  assumes "m = H_nil \<Longrightarrow> ensures I P Q f" "\<And>i. m = H_int i \<Longrightarrow> ensures I P Q (g i)" "ensures I P Q n"
  shows "ensures I P Q (case m of H_nil \<Rightarrow> f | H_int i \<Rightarrow> g i | _ \<Rightarrow> n)"
  using assms by (cases m) simp_all

lemma ensures_receiveRequest:
  "ensures (logged (routed E) l p) (request_event E None rq l p) (\<lambda>_. True) (receiveRequest E invoked prev_host code rq prev)"
proof -
  have expect: "ensures (logged (routed E) l p) (request_event E None rq l p) (\<lambda>_. True) (connection_call (Expect_entity n))" for n
    by (rule ensures_connection_call) (simp_all add: request_event_def)
  have call: "ensures (logged (routed E) l p) (request_event E None rq l p) (\<lambda>_. True) (rest_call E invoked None (Some a) None (Some h))"
    if "need rq = Inr a" "lookup_path host (hr_method a) (hr_path a) (en_api E) = Some h" for a host h
  proof -
    have "rq = Some a" using that(1) by (cases rq) simp_all
    then show ?thesis using that(2) ensures_routed_call [of E h l p None rq] by (auto simp: routed_def)
  qed
  have put: "ensures (logged (routed E) l p) (request_event E None rq l p) (\<lambda>_. True)
      (amod (\<lambda>s. s\<lparr>sv_handle := lookup_path host (hr_method a) (hr_path a) (en_api E)\<rparr>))" for host a
  proof (cases "lookup_path host (hr_method a) (hr_path a) (en_api E)")
    case (Some h)
    then have "routed E h" by (auto simp: routed_def)
    then show ?thesis by (simp add: Some ensures_mod)
  qed (simp add: ensures_mod)
  have rest: "ensures (logged (routed E) l p) (request_event E None rq l p) (\<lambda>_. True)
      (abind (alift (need rq)) f)"
    if "\<And>a. need rq = Inr a \<Longrightarrow> ensures (logged (routed E) l p) (request_event E None rq l p) (\<lambda>_. True) (f a)" for f
    by (rule ensures_bind [where R = "\<lambda>a. need rq = Inr a"]) (auto intro: that ensures_intros)
  show ?thesis
    unfolding receiveRequest_def Let_def
    by (rule ensures_seq, rule ensures_get, simp)
      (intro ensures_rules rest ensures_answer put expect call ensures_header_value ensures_mod;
        (assumption | simp))
qed

lemma receiveEntity_events:
  assumes "logged (routed E) l p s" "receiveEntity E invoked entity prev s = (r, t, ev)"
  shows "logged (routed E) l p t \<and> (\<forall>x\<in>set ev. request_event E None (sv_request s) l p x)"
proof (cases "prev = sv_connection s \<and> sv_handle s \<noteq> None")
  case True
  then obtain h where h: "sv_handle s = Some h" "routed E h" using assms(1) by (auto simp: logged_def)
  have "rest_call E invoked None (sv_request s) entity (Some h) s = (r, t, ev)"
    using assms(2) True h(1) by (simp add: receiveEntity_def action_simps aif_def)
  then show ?thesis using ensuresD(1,2) [OF ensures_routed_call [OF h(2)] assms(1)] by blast
next
  case False
  then show ?thesis
    using assms by (auto simp: receiveEntity_def action_simps aif_def rest_call_def split: if_splits)
qed

lemma receiveWsRequest_events:
  assumes "logged (routed E) l p s" "receiveWsRequest E invoked chunk s = (r, t, ev)"
  shows "logged (routed E) l p t \<and> (\<forall>x\<in>set ev. \<exists>ctxt rq. request_event E ctxt rq l p x)"
proof -
  have "ensures (logged (routed E) l p) (\<lambda>x. \<exists>ctxt rq. request_event E ctxt rq l p x) (\<lambda>_. True) (receiveWsRequest E invoked chunk)"
    unfolding receiveWsRequest_def
  proof (rule ensures_seq, rule ensures_lift, simp, goal_cases)
    case (1 a)
    obtain c q b where a: "a = (c, q, b)" by (cases a)
    show ?case
      unfolding a prod.case
      by (rule ensures_option; rule ensures_weaken, (rule ensures_answer | rule ensures_routed_call)) (auto simp: routed_def)
  qed
  then show ?thesis using assms unfolding ensures_def by blast
qed

text \<open>Any sequence of requests, entities and WebSocket requests that a connection receives.\<close>

datatype 'o received =
    In_request "bytes option" lpcint "rest_request option" "'o option"
  | In_entity "bytes option" "'o option"
  | In_ws_request "bytes list"

fun incoming :: "env \<Rightarrow> 'o received \<Rightarrow> (('o, 'z) rest_server_scheme, 'o server_event, unit) action" where
  "incoming E (In_request prev_host code rq prev) = receiveRequest E invoked prev_host code rq prev"
| "incoming E (In_entity entity prev) = receiveEntity E invoked entity prev"
| "incoming E (In_ws_request chunk) = receiveWsRequest E invoked chunk"

text \<open>An error ends the function that raised it, not the connection.\<close>

fun serve ::
    "env \<Rightarrow> 'o received list \<Rightarrow> ('o, 'z) rest_server_scheme \<Rightarrow> 'o server_event list \<times> ('o, 'z) rest_server_scheme" where
  "serve E [] s = ([], s)"
| "serve E (i # is) s = (let (r, t, ev) = incoming E i s; (ev', u) = serve E is t in (ev @ ev', u))"

lemma incoming_events:
  assumes "logged (routed E) l p s" "incoming E i s = (r, t, ev)"
  shows "logged (routed E) l p t \<and> (\<forall>x\<in>set ev. \<exists>ctxt rq. request_event E ctxt rq l p x)"
proof (cases i)
  case (In_request prev_host code rq prev)
  then show ?thesis
    using ensuresD(1,2) [OF ensures_receiveRequest assms(1)] assms(2) by (metis incoming.simps(1))
next
  case (In_entity entity prev)
  then show ?thesis using receiveEntity_events [OF assms(1)] assms(2) by (metis incoming.simps(2))
next
  case (In_ws_request chunk)
  then show ?thesis using receiveWsRequest_events [OF assms(1)] assms(2) by (metis incoming.simps(3))
qed

lemma serve_events:
  "logged (routed E) l p s \<Longrightarrow> serve E is s = (ev, t) \<Longrightarrow>
    logged (routed E) l p t \<and> (\<forall>x\<in>set ev. \<exists>ctxt rq. request_event E ctxt rq l p x)"
proof (induction E "is" s arbitrary: ev t rule: serve.induct)
  case (2 E i "is" s)
  obtain r u ev1 where i: "incoming E i s = (r, u, ev1)" by (cases "incoming E i s") auto
  obtain ev2 t' where is': "serve E is u = (ev2, t')" by (cases "serve E is u") auto
  have "ev = ev1 @ ev2" "t = t'" using 2(3) i is' by simp_all
  moreover note incoming_events [OF 2(2) i]
  moreover note 2(1) [OF i [symmetric] refl refl _ is']
  ultimately show ?case by auto
qed simp

section \<open>Handlers and authentication\<close>

definition public_handlers :: "string list" where
  "public_handlers =
     [''postVerificationNewSession'', ''patchVerificationSession'', ''getVerificationSession'',
      ''postVerificationSessionCode'', ''putVerificationSessionCode'', ''postRegistration'',
      ''getWebsocket'', ''getWebsocketLogin'', ''getWebsocketProvisioning'', ''putDevicesCode'',
      ''getStorageManifest'', ''getStorageManifestVersion'', ''getDiscovery'',
      ''receiveMessage'', ''ignoredMessage'']"

definition optional_handlers :: "string list" where
  "optional_handlers = [''getConfig'', ''getProfile'', ''getVersionedProfile'', ''getProfileKeyCredential'']"

definition all_routes :: "route list" where
  "all_routes = chat_routes @ storage_routes @ cdsi_routes @ client_routes"

lemma api_walk_get: "api_walk ss t args = Some (c, as) \<Longrightarrow> \<exists>p. api_get p t = Some c"
proof (induction ss t args rule: api_walk.induct)
  case (1 v ch args)
  then have "api_get [] (Api v ch) = Some c" by (auto simp: api_get_def)
  then show ?case ..
next
  case (2 s ss v ch args)
  have sub: "\<exists>p. api_get p (Api v ch) = Some c" if m: "map_of ch x = Some n" and ex: "\<exists>p. api_get p n = Some c" for x n
  proof -
    obtain p where "api_get p n = Some c" using ex by blast
    then have "api_get (x # p) (Api v ch) = Some c" using m by (simp add: api_get_def)
    then show ?thesis ..
  qed
  show ?case
  proof (cases "map_of ch s")
    case None
    then obtain n where "map_of ch wildcard = Some n" using 2(3) by (auto split: option.splits)
    then show ?thesis using 2(1) [OF None] 2(3) None sub by auto
  next
    case (Some n)
    then show ?thesis using 2(2) [OF Some] 2(3) Some sub by auto
  qed
qed

lemma routed_route:
  assumes "en_api E = rest_api_create chat storage cdsi" "routed E h"
  shows "\<exists>m p. (m, p, h_function h, h_args h) \<in> set all_routes"
proof -
  obtain host meth path where h: "lookup_path host meth path (en_api E) = Some h"
    using assms(2) by (auto simp: routed_def)
  then obtain f a ps where w: "api_walk (host # meth # path_elements path) (en_api E) [] = Some ((f, a), ps)"
      "h_function h = f" "h_args h = a"
    by (auto simp: lookup_path_walk)
  then obtain p where "api_get p (en_api E) = Some (f, a)" using api_walk_get by blast
  then have "routes_map (all_registrations chat storage cdsi) p = Some (f, a)"
    using register_all_ok assms(1) by (metis rest_api_create_def)
  then have "(f, a) \<in> (\<lambda>r. snd (snd (snd r))) ` set (all_registrations chat storage cdsi)"
    by (auto simp: routes_map_def dest!: map_of_SomeD)
  then show ?thesis
    using w(2,3) by (auto simp: all_registrations_def on_host_def all_routes_def; blast)
qed

definition route_ok :: "route \<Rightarrow> bool" where
  "route_ok = (\<lambda>(m, p, f, a).
     if a = [] \<or> \<not> is_auth (hd a) then f \<in> set public_handlers \<and> (\<forall>x\<in>set a. \<not> is_auth x)
     else (\<forall>x\<in>set (tl a). \<not> is_auth x) \<and> (hd a = ARG_HEADER_OPT_AUTH \<longrightarrow> f \<in> set optional_handlers))"

lemma all_routes_ok: "list_all route_ok all_routes"
  unfolding all_routes_def chat_routes_def registration_routes_def keys_routes_def accounts_routes_def
    websocket_routes_def certificate_routes_def config_routes_def profile_routes_def backup_routes_def
    chat_storage_routes_def directory_routes_def messages_routes_def devices_routes_def provisioning_routes_def
    storage_routes_def cdsi_routes_def client_routes_def ws_headers_def append.simps list.pred_inject
  by (simp add: route_ok_def is_auth_def public_handlers_def optional_handlers_def)

definition handlers_called :: "'o server_event list \<Rightarrow> string set" where
  "handlers_called ev = {f. \<exists>ctxt args. Invoke f ctxt args \<in> set ev}"

definition anonymous_calls :: "'o server_event list \<Rightarrow> (string \<times> rest_value list) set" where
  "anonymous_calls ev = {(f, args). \<exists>ctxt. Call_out f ctxt args \<in> set ev}"

definition without_account :: "(string \<times> rest_value list) set" where
  "without_account = {(f, ps @ [V JNil, V JNil] @ args) | f ps args. f \<in> set optional_handlers}"

text \<open>
  C9.  Whatever a connection receives, in whatever order, the requests themselves call only the
  handlers of routes that need no login.  A handler with optional login is called for a request
  without credentials, with \<open>nil\<close> for the account and the device.  All other handlers are
  called by \<open>authCall\<close> alone.
\<close>

theorem only_public_handlers_without_login:
  assumes "en_api E = rest_api_create chat storage cdsi" "sv_handle s = None"
    and "serve E received s = (ev, t)"
  shows "handlers_called ev \<subseteq> set public_handlers \<and> anonymous_calls ev \<subseteq> without_account"
proof -
  have "logged (routed E) (sv_login s) (sv_password s) s" using assms(2) by (simp add: logged_def)
  then have ev: "\<forall>x\<in>set ev. \<exists>ctxt rq. request_event E ctxt rq (sv_login s) (sv_password s) x"
    using serve_events assms(3) by blast
  have ok: "route_ok (m, p, f, a)" if "(m, p, f, a) \<in> set all_routes" for m p f a
    using all_routes_ok that by (auto simp: list_all_iff)
  have "f \<in> set public_handlers" if inv: "Invoke f ctxt args \<in> set ev" for f ctxt args
  proof -
    obtain ctxt' rq where "request_event E ctxt' rq (sv_login s) (sv_password s) (Invoke f ctxt args :: 'a server_event)"
      using ev inv by blast
    then obtain h where h: "routed E h" "call_event E ctxt' rq h (sv_login s) (sv_password s) (Invoke f ctxt args :: 'a server_event)"
      by (auto simp: request_event_def)
    then have f: "f = h_function h" "h_args h = [] \<or> \<not> is_auth (hd (h_args h))"
      by (auto simp: call_event_def auth_queued_def nobody_def)
    obtain m p where "(m, p, h_function h, h_args h) \<in> set all_routes" using routed_route [OF assms(1) h(1)] by blast
    then have "route_ok (m, p, h_function h, h_args h)" by (rule ok)
    then show ?thesis using f by (auto simp: route_ok_def split: if_splits)
  qed
  moreover have "(f, args) \<in> without_account" if inv: "Call_out f ctxt args \<in> set ev" for f ctxt args
  proof -
    obtain ctxt' rq where "request_event E ctxt' rq (sv_login s) (sv_password s) (Call_out f ctxt args :: 'a server_event)"
      using ev inv by blast
    then obtain h where h: "routed E h" "call_event E ctxt' rq h (sv_login s) (sv_password s) (Call_out f ctxt args :: 'a server_event)"
      by (auto simp: request_event_def)
    then have a: "ARG_HEADER_OPT_AUTH \<in> set (h_args h)" "nobody ctxt' h (Call_out f ctxt args :: 'a server_event)"
      by (auto simp: call_event_def auth_queued_def)
    obtain m p where "(m, p, h_function h, h_args h) \<in> set all_routes" using routed_route [OF assms(1) h(1)] by blast
    then have "route_ok (m, p, h_function h, h_args h)" by (rule ok)
    then have "h_function h \<in> set optional_handlers"
      using a(1) by (cases "h_args h") (auto simp: route_ok_def is_auth_def split: if_splits)
    then show ?thesis using a(2) by (auto simp: nobody_def without_account_def)
  qed
  ultimately show ?thesis by (auto simp: handlers_called_def anonymous_calls_def)
qed

lemma respond_no_invoke:
  assumes "abind (respond H ctxt code None None None) (\<lambda>_. aret ()) s = (r, t, ev)"
  shows "Invoke f ctxt' args \<notin> set ev"
proof
  assume x: "Invoke f ctxt' args \<in> set ev"
  let ?R = "\<lambda>_. True"
  have "ensures (logged ?R (sv_login s) (sv_password s)) (\<lambda>x. \<forall>f c as. x \<noteq> Invoke f c as) ?R
      (abind (respond H ctxt code None None None) (\<lambda>_. aret ()))"
    by (rule ensures_seq) (auto intro!: ensures_respond ensures_intros simp: answers_def)
  moreover have "logged ?R (sv_login s) (sv_password s) s" by (simp add: logged_def)
  ultimately show False using assms x unfolding ensures_def by blast
qed

text \<open>
  C8.  A handler that a call has left to \<open>authCall\<close> runs only if the credentials that the request
  carried name an account and a device of it whose token the password gives; it gets this account
  and device in addition to its arguments.
\<close>

theorem handler_runs_for_verified_device:
  assumes "rest_call E invoked ctxt rq entity (Some h) s = (r, t, ev)"
    and "Call_auth ctxt' accountId deviceId password args h' \<in> set ev"
    and "authCall E' invoked ctxt' accountId deviceId password args h' s' = (r', t', ev')"
    and "Invoke f ctxt'' args' \<in> set ev'"
  shows "\<exists>login pw account device device'.
      carries E rq (sv_login s) (sv_password s) login (Some pw) \<and> password = Some pw
      \<and> uuid_decode (en_hex E) (Some (fst (split_login login))) = Inr accountId
      \<and> snd (split_login login) = deviceId
      \<and> en_accounts E' accountId = Some account \<and> account_device deviceId account = Some device
      \<and> dv_authToken device = fst (hash_token (en_hex E') (en_hkdf E') [] pw (Some (dv_salt device)))
      \<and> f = h_function h \<and> ctxt'' = ctxt
      \<and> args' = params h @ [V_account (set_device device' account), V_device device'] @ args"
proof -
  have "logged (\<lambda>_. True) (sv_login s) (sv_password s) s" by (simp add: logged_def)
  from ensuresD(2) [OF ensures_rest_call this assms(1,2)] obtain login where login: "ctxt' = ctxt" "h' = h" "carries E rq (sv_login s) (sv_password s) login password"
      "uuid_decode (en_hex E) (Some (fst (split_login login))) = Inr accountId" "snd (split_login login) = deviceId"
    unfolding call_event_def auth_queued_def nobody_def by auto
  obtain account device pw where found: "en_accounts E' accountId = Some account"
      "account_device deviceId account = Some device" "password = Some pw"
    using assms(3,4) login(1)
    by (auto dest!: respond_no_invoke [where f = f and ctxt' = ctxt'' and args = args'] simp: authCall_def Let_def abind_basic need_def split: option.splits)
  obtain ok device' where v: "verifyPassword (en_hex E') (en_hkdf E') (en_clock E') pw device = (ok, device')"
    by (cases "verifyPassword (en_hex E') (en_hkdf E') (en_clock E') pw device")
  have "ok \<and> f = h_function h \<and> ctxt'' = ctxt
      \<and> args' = params h @ [V_account (set_device device' account), V_device device'] @ args"
    using assms(3,4) login(1,2) found v
    by (cases ok) (auto dest!: respond_no_invoke [where f = f and ctxt' = ctxt'' and args = args'] simp: authCall_def Let_def action_simps invoked_def split: prod.splits)
  moreover have "ok \<Longrightarrow> dv_authToken device = fst (hash_token (en_hex E') (en_hkdf E') [] pw (Some (dv_salt device)))"
    using v by (auto simp: verifyPassword_def Let_def setLastSeen_def)
  ultimately show ?thesis using login found by blast
qed

text \<open>
  C38.  The argument of a handler that takes a JSON entity: an array is passed as several arguments,
  and for a number the handler is not called and nothing is answered.
\<close>

theorem json_entity_argument:
  assumes "h_args h = [ARG_ENTITY_JSON]"
    and "hr_header rq (str ''Content-Type'') = H_str type" "lower_case type = str ''application/json''"
    and "en_json_decode E entity = Inr j"
  shows "rest_call E invoked ctxt (Some rq) (Some entity) (Some h) s = (Inr (), s,
    case j of
      JInt i \<Rightarrow> []
    | JArr js \<Rightarrow> [Invoke (h_function h) ctxt (params h @ map V js)]
    | _ \<Rightarrow> [Invoke (h_function h) ctxt (params h @ [V j])])"
proof -
  have "json_arg E (Some rq) (Some entity) s = (Inr (V j), s, [])"
    using assms(2-4) by (simp add: json_arg_def header_def action_simps)
  then have arg: "substArg E ctxt (Some rq) (Some entity) [V_arg ARG_ENTITY_JSON] 0 h s = (Inr (V j), s, [])"
    by (simp add: substArg_def acatch_Inr)
  show ?thesis
    by (cases j) (simp_all add: rest_call_def assms(1) abind_def arg action_simps invoked_def)
qed

definition sample_http :: http_codes where
  "sample_http s =
     (if s = HTTP_OK then 200 else if s = HTTP_SWITCHING_PROTOCOLS then 101 else if s = HTTP_NO_CONTENT then 204
      else if s = HTTP_BAD_REQUEST then 400 else if s = HTTP_UNAUTHORIZED then 401 else if s = HTTP_FORBIDDEN then 403
      else if s = HTTP_NOT_FOUND then 404 else if s = HTTP_CONFLICT then 409 else if s = HTTP_CONTENT_TOO_LARGE then 413
      else 500)"

definition sample_env :: "api \<Rightarrow> (bytes \<Rightarrow> account option) \<Rightarrow> env" where
  "sample_env api accounts =
     \<lparr>en_http = sample_http, en_asn = std_asn_lib, en_hex = std_hex, en_hkdf = (\<lambda>pw _ _ _ salt. pw @ salt),
      en_base64 = \<lparr>b64_encode = (\<lambda>s. s), b64_decode = Inr, b64_urlEncode = (\<lambda>s. s)\<rparr>,
      en_json_decode = (\<lambda>s. Inr (JInt (of_nat (length s)))), en_json_encode = (\<lambda>_. []), en_sha1 = (\<lambda>s. s),
      en_fields = (\<lambda>_ _. H_nil), en_chat_server = str ''chat'', en_status_1000 = [3, 232], en_api = api, en_clock = (0, (0, 0)),
      en_accounts = accounts\<rparr>"

definition sample_conn :: "nat rest_server" where
  "sample_conn =
     \<lparr>sv_connection = Some 1, sv_request = None, sv_handle = None, sv_login = None, sv_password = None,
      sv_websocket = None, sv_opcode = None, sv_out = \<lparr>closing = False, ws_sent = []\<rparr>\<rparr>"

definition sample_request :: "bytes \<Rightarrow> bytes \<Rightarrow> (bytes \<Rightarrow> header_value) \<Rightarrow> rest_request" where
  "sample_request meth path hdr =
     \<lparr>hr_host = Some (str ''chat''), hr_scheme = None, hr_method = meth, hr_path = path, hr_header = hdr\<rparr>"

theorem json_entity_argument_witness:
  "rest_call (sample_env (Api None []) (\<lambda>_. None)) invoked None
     (Some (sample_request [] [] (\<lambda>_. H_str (str ''application/json'')))) (Some (str ''5''))
     (Some \<lparr>h_function = ''postVerificationNewSession'', h_params = [], h_args = [ARG_ENTITY_JSON]\<rparr>) sample_conn
   = (Inr (), sample_conn, [])"
proof -
  let ?E = "sample_env (Api None []) (\<lambda>_. None)"
  let ?rq = "sample_request [] [] (\<lambda>_. H_str (str ''application/json''))"
  let ?h = "\<lparr>h_function = ''postVerificationNewSession'', h_params = [], h_args = [ARG_ENTITY_JSON]\<rparr>"
  have l: "lower_case (str ''application/json'') = str ''application/json''" by code_simp
  show ?thesis
    using json_entity_argument [of ?h ?rq "str ''application/json''" ?E "str ''5''" "JInt 1" None sample_conn]
    by (simp add: sample_request_def sample_env_def l)
qed

theorem only_public_handlers_without_login_witness:
  "handlers_called (fst (serve (sample_env (rest_api_create (str ''chat'') (str ''storage'') (str ''cdsi'')) (\<lambda>_. None))
      [In_request None 0 (Some (sample_request (str ''GET'') (str ''/v1/config'') (\<lambda>_. H_nil))) (Some 1)] sample_conn))
    \<subseteq> set public_handlers
   \<and> anonymous_calls (fst (serve (sample_env (rest_api_create (str ''chat'') (str ''storage'') (str ''cdsi'')) (\<lambda>_. None))
      [In_request None 0 (Some (sample_request (str ''GET'') (str ''/v1/config'') (\<lambda>_. H_nil))) (Some 1)] sample_conn))
    \<subseteq> without_account"
proof -
  let ?E = "sample_env (rest_api_create (str ''chat'') (str ''storage'') (str ''cdsi'')) (\<lambda>_. None)"
  let ?is = "[In_request None 0 (Some (sample_request (str ''GET'') (str ''/v1/config'') (\<lambda>_. H_nil))) (Some 1)]"
  have "en_api ?E = rest_api_create (str ''chat'') (str ''storage'') (str ''cdsi'')" by (simp add: sample_env_def)
  moreover have "sv_handle sample_conn = None" by (simp add: sample_conn_def)
  ultimately show ?thesis
    by (rule only_public_handlers_without_login [OF _ _ surjective_pairing])
qed

theorem handler_runs_for_verified_device_witness:
  "\<exists>login pw account device device'.
      carries (sample_env (Api None []) (\<lambda>_. None)) (Some (sample_request [] [] (\<lambda>_. H_auth (str ''Basic'') (str ''00000000-0000-0000-0000-000000000000.2:pw''))))
        None None login (Some pw) \<and> Some (str ''pw'') = Some pw
      \<and> uuid_decode std_hex (Some (fst (split_login login))) = Inr (replicate 16 0)
      \<and> snd (split_login login) = 2
      \<and> Some (Account None None (sample_device\<lparr>dv_id := 2, dv_authToken := str ''2.'' @ hex_format std_hex (str ''pw''), dv_salt := []\<rparr>)) = Some account
      \<and> account_device 2 account = Some device
      \<and> dv_authToken device = fst (hash_token std_hex (\<lambda>pw _ _ _ salt. pw @ salt) [] pw (Some (dv_salt device)))
      \<and> ''getDevices'' = ''getDevices'' \<and> None = (None :: bytes option)
      \<and> [V_account (set_device (setLastSeen (0, 0, 0) (sample_device\<lparr>dv_id := 2, dv_authToken := str ''2.'' @ hex_format std_hex (str ''pw''), dv_salt := []\<rparr>))
              (Account None None (sample_device\<lparr>dv_id := 2, dv_authToken := str ''2.'' @ hex_format std_hex (str ''pw''), dv_salt := []\<rparr>))),
            V_device (setLastSeen (0, 0, 0) (sample_device\<lparr>dv_id := 2, dv_authToken := str ''2.'' @ hex_format std_hex (str ''pw''), dv_salt := []\<rparr>))]
          = [V_account (set_device device' account), V_device device']"
  (is "\<exists>login pw account device device'. ?P login pw account device device'")
proof -
  let ?h = "\<lparr>h_function = ''getDevices'', h_params = [], h_args = [ARG_HEADER_AUTH]\<rparr>"
  let ?cred = "str ''00000000-0000-0000-0000-000000000000.2:pw''"
  let ?rq = "sample_request [] [] (\<lambda>_. H_auth (str ''Basic'') ?cred)"
  let ?E = "sample_env (Api None []) (\<lambda>_. None)"
  let ?d = "sample_device\<lparr>dv_id := 2, dv_authToken := str ''2.'' @ hex_format std_hex (str ''pw''), dv_salt := []\<rparr>"
  let ?ac = "Account None None ?d"
  let ?E' = "sample_env (Api None []) (\<lambda>_. Some ?ac)"
  let ?d' = "setLastSeen (0, 0, 0) ?d"
  have cred: "scan_upto (str '':'') ?cred = Some (str ''00000000-0000-0000-0000-000000000000.2'', str ''pw'')"
    using scan_upto_char [of 58 "str ''00000000-0000-0000-0000-000000000000.2''" "str ''pw''"] by (simp add: str_def)
  have login: "split_login (str ''00000000-0000-0000-0000-000000000000.2'') = (str ''00000000-0000-0000-0000-000000000000'', 2)"
    using scan_upto_char [of 46 "str ''00000000-0000-0000-0000-000000000000''" "str ''2''"]
    by (simp add: split_login_def str_def scan_int_def is_digit_def undec_def)
  have scheme: "lower_case (str ''Basic'') = str ''basic''"
    and accountId: "uuid_decode std_hex (Some (str ''00000000-0000-0000-0000-000000000000'')) = Inr (replicate 16 0)"
    by code_simp+
  note cred = cred login scheme accountId
  have auth: "auth_arg ?E None (Some ?rq) [V_arg ARG_HEADER_AUTH] False ?h sample_conn =
      (Inr (V (JInt 0)), sample_conn, [Call_auth None (replicate 16 0) 2 (Some (str ''pw'')) [] ?h])"
    by (simp add: auth_arg_def header_def sample_request_def sample_env_def queue_auth_def cred action_simps)
  have "substArg ?E None (Some ?rq) None [V_arg ARG_HEADER_AUTH] 0 ?h sample_conn =
      (Inr (V (JInt 0)), sample_conn, [Call_auth None (replicate 16 0) 2 (Some (str ''pw'')) [] ?h])"
    using auth by (simp add: substArg_def acatch_Inr)
  then have 1: "rest_call ?E invoked None (Some ?rq) None (Some ?h) sample_conn =
      (Inr (), sample_conn, [Call_auth None (replicate 16 0) 2 (Some (str ''pw'')) [] ?h])"
    by (simp add: rest_call_def abind_def action_simps)
  have v: "verifyPassword std_hex (\<lambda>pw _ _ _ salt. pw @ salt) (0, 0, 0) (str ''pw'') ?d = (True, ?d')"
    by (simp add: verifyPassword_def hash_token_def setLastSeen_def)
  have dev: "account_device 2 ?ac = Some ?d" by (simp add: account_device_def Account_def)
  have 2: "authCall ?E' invoked None (replicate 16 0) 2 (Some (str ''pw'')) [] ?h sample_conn =
      (Inr (), sample_conn, [Device_seen (set_device ?d' ?ac) ?d', Invoke ''getDevices'' None [V_account (set_device ?d' ?ac), V_device ?d']])"
    using v dev by (simp add: authCall_def sample_env_def Let_def action_simps invoked_def params_def)
  from handler_runs_for_verified_device [OF 1 _ 2] show ?thesis
    by (simp add: sample_env_def sample_conn_def params_def)
qed

end
