(* ===== verification/DeliverySpec.thy ===== *)
theory DeliverySpec
  imports Delivery WebsocketSpec RestSpec
begin

text \<open>
  Delivery to a connected client: what is queued, what is outstanding and what was acknowledged.
\<close>

section \<open>Sending one request\<close>

text \<open>The connection can be used.\<close>

definition open_socket :: "('o, 'k, 'z) chat_socket_scheme \<Rightarrow> bool" where
  "open_socket s \<longleftrightarrow> sv_connection s \<noteq> None \<and> sv_websocket s \<noteq> None \<and> \<not> closing (sv_out s)
     \<and> \<not> cs_provisioningDone s"

definition add_frame :: "bytes \<Rightarrow> ('o, 'z) rest_server_scheme \<Rightarrow> ('o, 'z) rest_server_scheme" where
  "add_frame msg s = s\<lparr>sv_out := (sv_out s)
     \<lparr>ws_sent := ws_sent (sv_out s) @ [\<lparr>wf_opcode = WEBSOCK_BINARY, wf_mask = 0, wf_payload = msg\<rparr>]\<rparr>\<rparr>"

lemma add_frame_simps [simp]:
  "sv_connection (add_frame msg s) = sv_connection s" "sv_websocket (add_frame msg s) = sv_websocket s"
  "closing (sv_out (add_frame msg s)) = closing (sv_out s)"
  "cs_outgoing (add_frame msg ep) = cs_outgoing ep" "cs_provisioningDone (add_frame msg ep) = cs_provisioningDone ep"
  "ep_queue (add_frame msg e) = ep_queue e" "ep_state (add_frame msg e) = ep_state e"
  "open_socket (add_frame msg ep) = open_socket ep"
  "last (ws_sent (sv_out (add_frame msg s))) = \<lparr>wf_opcode = WEBSOCK_BINARY, wf_mask = 0, wf_payload = msg\<rparr>"
  by (simp_all add: add_frame_def open_socket_def)

lemma open_socket_simps [simp]:
  "open_socket (s\<lparr>cs_outgoing := f\<rparr>) = open_socket s"
  "open_socket (ep\<lparr>ep_queue := q\<rparr>) = open_socket ep" "open_socket (ep\<lparr>ep_state := d\<rparr>) = open_socket ep"
  by (simp_all add: open_socket_def)

lemma sendChunk_open: "open_socket s \<Longrightarrow> sendChunk msg s = (Inr (), add_frame msg s, [])"
  by (simp add: sendChunk_def open_socket_def wsSendChunk_def action_simps add_frame_def)

lemma protoAsn_context: "length c = 8 \<Longrightarrow> \<exists>e. protoAsn c = Inr e"
  by (rule protoAsn_flat [of c]) (auto simp: asn_encodable_def)

definition timestamp_header :: "env \<Rightarrow> headers" where
  "timestamp_header E = [(str ''X-Signal-Timestamp'',
     Hstr (ts_transport \<lparr>ts_time = fst (snd (en_clock E)), ts_ms = snd (snd (en_clock E))\<rparr>))]"

text \<open>The message with an envelope.\<close>

definition envelope_request :: "env \<Rightarrow> bytes \<Rightarrow> bytes \<Rightarrow> bytes result" where
  "envelope_request E body context =
     wsRequest (str ''PUT'') (str ''/api/v1/message'') (Some body) (Some (timestamp_header E)) context"

definition fresh_contexts :: "bytes list \<Rightarrow> bool" where
  "fresh_contexts randoms \<longleftrightarrow> (\<forall>c\<in>set randoms. length c = 8)"

lemma envelope_request_ok:
  assumes "length c = 8"
  shows "\<exists>msg. envelope_request E body c = Inr msg"
  using protoAsn_context [OF assms]
  by (auto simp: envelope_request_def wsRequest_def timestamp_header_def header_fields_def header_line_def Let_def)

lemma find_Some_iff': "find P xs = Some x \<Longrightarrow> x \<in> set xs \<and> P x"
  by (induction xs) (auto split: if_splits)

lemma sendEnvelope_open:
  assumes "open_socket ep" "fresh_contexts randoms"
  obtains e' where "sendEnvelope E randoms e ep = (Inl e', ep, [])"
      "envelope_transport (en_asn E) (en_hex E) e = Inl e' \<or> (\<forall>c\<in>set randoms. cs_outgoing ep c \<noteq> None)"
  | body c msg where "envelope_transport (en_asn E) (en_hex E) e = Inr body" "c \<in> set randoms"
      "cs_outgoing ep c = None" "envelope_request E body c = Inr msg"
      "sendEnvelope E randoms e ep = (Inr (),
         (add_frame msg (ep\<lparr>cs_outgoing := (cs_outgoing ep)(c \<mapsto> (e, []))\<rparr>))\<lparr>ep_state := AWAIT_RESPONSE\<rparr>, [])"
proof (cases "envelope_transport (en_asn E) (en_hex E) e")
  case (Inl e')
  then show ?thesis by (intro that(1) [of e']) (simp_all add: sendEnvelope_def action_simps)
next
  case (Inr body)
  show ?thesis
  proof (cases "find (\<lambda>c. cs_outgoing ep c = None) randoms")
    case None
    then have "\<forall>c\<in>set randoms. cs_outgoing ep c \<noteq> None" by (simp add: find_None_iff)
    moreover have "sendEnvelope E randoms e ep = (Inl Not_enough_fuel, ep, [])"
      by (simp add: sendEnvelope_def Inr chatSendRequest_def None abind_assoc action_simps)
    ultimately show ?thesis using that(1) by blast
  next
    case (Some c)
    then have c: "c \<in> set randoms" "cs_outgoing ep c = None" using find_Some_iff' [OF Some] by auto
    then have "length c = 8" using assms(2) by (simp add: fresh_contexts_def)
    then obtain msg where msg: "envelope_request E body c = Inr msg" using envelope_request_ok by blast
    have "sendEnvelope E randoms e ep = (Inr (),
         (add_frame msg (ep\<lparr>cs_outgoing := (cs_outgoing ep)(c \<mapsto> (e, []))\<rparr>))\<lparr>ep_state := AWAIT_RESPONSE\<rparr>, [])"
      using msg assms(1)
      by (simp add: sendEnvelope_def Inr chatSendRequest_def Some abind_assoc action_simps
          envelope_request_def timestamp_header_def abind_Inr [OF sendChunk_open])
    then show ?thesis using that(2) Inr c msg by blast
  qed
qed

definition empty_request :: bytes where
  "empty_request = projr (wsRequest (str ''PUT'') (str ''/api/v1/queue/empty'') None None no_response)"

lemma empty_request_ok: "wsRequest (str ''PUT'') (str ''/api/v1/queue/empty'') None None no_response = Inr empty_request"
proof -
  have "protoAsn no_response = Inr [1]" by (simp add: no_response_def protoAsn_def protoAsn_loop.simps)
  then show ?thesis by (simp add: empty_request_def wsRequest_def header_fields_def Let_def)
qed

lemma emptyQueue_open: "open_socket ep \<Longrightarrow> emptyQueue ep = (Inr (), add_frame empty_request ep, [])"
  by (simp add: emptyQueue_def chatSendRequest_def action_simps empty_request_ok sendChunk_open)

section \<open>What a connection keeps\<close>

definition waiting :: "'o endpoint \<Rightarrow> 'o envelope list" where
  "waiting ep = (case ep_queue ep of None \<Rightarrow> [] | Some q \<Rightarrow> q)"

text \<open>At most one request is outstanding, for the first envelope of the queue.\<close>

definition outstanding_ok :: "'o endpoint \<Rightarrow> bool" where
  "outstanding_ok ep \<longleftrightarrow>
     (\<forall>c k. cs_outgoing ep c = Some k \<longrightarrow>
        (\<exists>e q. k = (e, []) \<and> ep_queue ep = Some (e # q) \<and> ep_state ep = AWAIT_RESPONSE))
     \<and> (\<forall>c c'. cs_outgoing ep c \<noteq> None \<longrightarrow> cs_outgoing ep c' \<noteq> None \<longrightarrow> c = c')"

lemma outstanding_ok_none: "cs_outgoing ep = Map.empty \<Longrightarrow> outstanding_ok ep"
  by (simp add: outstanding_ok_def)

lemma outstanding_ok_one:
  "cs_outgoing ep = [c \<mapsto> (e, [])] \<Longrightarrow> ep_queue ep = Some (e # q) \<Longrightarrow> ep_state ep = AWAIT_RESPONSE \<Longrightarrow> outstanding_ok ep"
  by (auto simp: outstanding_ok_def split: if_splits)

lemma outstanding_ok_ready:
  assumes "outstanding_ok ep" "ep_state ep = READY"
  shows "cs_outgoing ep = Map.empty"
proof (rule ext, rule ccontr)
  fix c
  assume "cs_outgoing ep c \<noteq> None"
  then obtain k where "cs_outgoing ep c = Some k" by blast
  then have "ep_state ep = AWAIT_RESPONSE" using assms(1) unfolding outstanding_ok_def by blast
  then show False using assms(2) by simp
qed

lemma outstanding_ok_entry:
  assumes "outstanding_ok ep" "cs_outgoing ep c = Some k"
  obtains e q where "k = (e, [])" "ep_queue ep = Some (e # q)" "ep_state ep = AWAIT_RESPONSE"
    "(cs_outgoing ep)(c := None) = Map.empty" "cs_outgoing ep = [c \<mapsto> (e, [])]"
proof -
  obtain e q where k: "k = (e, [])" "ep_queue ep = Some (e # q)" "ep_state ep = AWAIT_RESPONSE"
    using assms unfolding outstanding_ok_def by blast
  have one: "cs_outgoing ep c' = None" if "c' \<noteq> c" for c'
    using assms that unfolding outstanding_ok_def by blast
  then have "(cs_outgoing ep)(c := None) = Map.empty" "cs_outgoing ep = [c \<mapsto> (e, [])]"
    using assms(2) k(1) by (auto simp: fun_eq_iff)
  then show thesis using that k by blast
qed

text \<open>Sending changes neither the queue nor whether the connection is open.\<close>

lemma ensures_sendEnvelope:
  "ensures (\<lambda>s. ep_queue s = q \<and> open_socket s = b) (\<lambda>_. True) (\<lambda>_. True) (sendEnvelope E randoms e)"
proof -
  have chunk: "ensures (\<lambda>s :: 'a endpoint. ep_queue s = q \<and> open_socket s = b) (\<lambda>_. True) (\<lambda>_. True) (sendChunk msg)" for msg
    by (rule ensuresI)
      (auto simp: sendChunk_def action_simps wsSendChunk_def open_socket_def split: if_splits sum.splits)
  show ?thesis
    unfolding sendEnvelope_def chatSendRequest_def option.case
    by (intro ensures_rules ensures_seq ensures_lift ensures_mod ensures_get ensures_fail ensures_ret chunk) auto
qed

lemma deliver_keeps:
  assumes "deliver E randoms es ep = (r, ep', ev)"
  shows "waiting ep' = waiting ep @ es \<and> open_socket ep' = open_socket ep"
proof -
  let ?q = "Some (case ep_queue ep of None \<Rightarrow> es | Some q \<Rightarrow> q @ es)"
  let ?ep = "ep\<lparr>ep_queue := ?q\<rparr>"
  have "ep_queue ep' = ?q \<and> open_socket ep' = open_socket ep"
  proof (cases "ep_state ep = READY \<and> the ?q \<noteq> []")
    case True
    then obtain e q where "the ?q = e # q" by (cases "the ?q") auto
    then have "sendEnvelope E randoms e ?ep = (r, ep', ev)"
      using assms True by (simp add: deliver_def action_simps aif_def lpc_index_def)
    from ensuresD(1) [OF ensures_sendEnvelope _ this] show ?thesis by simp
  next
    case False
    then show ?thesis
      using assms by (auto simp: deliver_def action_simps aif_def lpc_index_def split: if_splits)
  qed
  then show ?thesis by (auto simp: waiting_def split: option.splits)
qed

lemma deliver_outstanding:
  assumes "deliver E randoms es ep = (r, ep', ev)" "open_socket ep" "outstanding_ok ep" "fresh_contexts randoms"
  shows "outstanding_ok ep'"
proof -
  let ?q = "Some (case ep_queue ep of None \<Rightarrow> es | Some q \<Rightarrow> q @ es)"
  let ?ep = "ep\<lparr>ep_queue := ?q\<rparr>"
  have q: "outstanding_ok ?ep" using assms(3) by (fastforce simp: outstanding_ok_def)
  show ?thesis
  proof (cases "ep_state ep = READY \<and> the ?q \<noteq> []")
    case True
    then obtain e q' where e: "the ?q = e # q'" by (cases "the ?q") auto
    then have run: "sendEnvelope E randoms e ?ep = (r, ep', ev)"
      using assms(1) True by (simp add: deliver_def action_simps aif_def lpc_index_def)
    have none: "cs_outgoing ?ep = Map.empty" using outstanding_ok_ready [OF q] True by simp
    have "open_socket ?ep" using assms(2) by simp
    from sendEnvelope_open [OF this assms(4), of E e] show ?thesis
    proof cases
      case (1 e')
      then show ?thesis using run q by simp
    next
      case (2 body c msg)
      then have "cs_outgoing ep' = [c \<mapsto> (e, [])]" "ep_queue ep' = Some (e # q')" "ep_state ep' = AWAIT_RESPONSE"
        using run none e by (auto split: option.splits)
      then show ?thesis by (rule outstanding_ok_one)
    qed
  next
    case False
    then have "ep' = ?ep"
      using assms(1) by (auto simp: deliver_def action_simps aif_def lpc_index_def split: if_splits)
    then show ?thesis using q by simp
  qed
qed

text \<open>The envelope that a response acknowledges.\<close>

definition acknowledged :: "env \<Rightarrow> bytes list \<Rightarrow> 'o endpoint \<Rightarrow> 'o envelope list" where
  "acknowledged E chunk ep =
     (case wsReceiveResponse (en_asn E) chunk of
        Inl _ \<Rightarrow> []
      | Inr (context, resp, _) \<Rightarrow>
          (case cs_outgoing ep context of
             Some (e, _) \<Rightarrow> if rs_code resp = en_http E HTTP_OK then [e] else []
           | None \<Rightarrow> []))"

text \<open>\<open>delivered\<close> after the request of the first envelope was answered with OK.\<close>

lemma delivered_open:
  assumes "open_socket ep" "cs_outgoing ep = Map.empty" "ep_queue ep = Some (e # q)" "fresh_contexts randoms"
    and run: "delivered E alive this random randoms e (en_http E HTTP_OK) args ep = (r, ep', ev)"
  shows "open_socket ep' \<and> outstanding_ok ep' \<and> ep_queue ep' = Some q"
proof -
  let ?ep = "ep\<lparr>ep_queue := Some q, ep_state := READY\<rparr>"
  have tail: "lpc_range (e # q) 1 (int (length (e # q)) - 1) = Inr q"
    by (simp add: lpc_range_def)
  have op: "open_socket ?ep" "outstanding_ok ?ep" using assms(1,2) by (simp_all add: outstanding_ok_none)
  let ?receipt = "aif (ev_type e \<noteq> RECEIPT)
          (abind (alift (receipt_for E random this e)) (\<lambda>r.
             aemit (if alive (ev_origin e) then Deliver (ev_origin e) [r] else Stack [r])))"
  let ?next = "case q of next # _ \<Rightarrow> sendEnvelope E randoms next | [] \<Rightarrow> emptyQueue"
  have split: "athen ?receipt ?next ?ep = (r, ep', ev)"
    using run tail assms(3) by (simp add: delivered_def aif_def [of True] action_simps)
  have next_ok: "open_socket ep2 \<and> outstanding_ok ep2 \<and> ep_queue ep2 = Some q" if nx: "?next ?ep = (r2, ep2, ev2)" for r2 ep2 ev2
  proof (cases q)
    case Nil
    then show ?thesis
      using nx emptyQueue_open [OF op(1)] op assms(2) by (auto intro!: outstanding_ok_none)
  next
    case (Cons e2 q2)
    from sendEnvelope_open [OF op(1) assms(4), of E e2] show ?thesis
    proof cases
      case (1 e')
      then show ?thesis using nx op Cons by auto
    next
      case (2 body c msg)
      then have "cs_outgoing ep2 = [c \<mapsto> (e2, [])]" "ep_queue ep2 = Some (e2 # q2)" "ep_state ep2 = AWAIT_RESPONSE"
        "open_socket ep2"
        using nx op(1) assms(2) Cons by auto
      then show ?thesis using Cons outstanding_ok_one by metis
    qed
  qed
  have "(\<exists>err. ?receipt ?ep = (Inl err, ?ep, [])) \<or> (\<exists>ev1. ?receipt ?ep = (Inr (), ?ep, ev1))"
    by (cases "receipt_for E random this e") (simp_all add: aif_def action_simps)
  then show ?thesis
  proof (elim disjE exE)
    fix err
    assume "?receipt ?ep = (Inl err, ?ep, [])"
    then have "ep' = ?ep" using split by (simp add: athen_def abind_Inl)
    then show ?thesis using op by simp
  next
    fix ev1
    assume "?receipt ?ep = (Inr (), ?ep, ev1)"
    then obtain ev2 where "?next ?ep = (r, ep', ev2)"
      using split by (auto simp: athen_def abind_Inr split: prod.splits)
    then show ?thesis by (rule next_ok)
  qed
qed

lemma respond_ok:
  assumes "open_socket ep" "outstanding_ok ep" "fresh_contexts randoms"
    and run: "chatReceiveResponse E (delivered E alive this random randoms) chunk ep = (r, ep', ev)"
  shows "open_socket ep' \<and> outstanding_ok ep' \<and> waiting ep = acknowledged E chunk ep @ waiting ep'"
proof (cases "wsReceiveResponse (en_asn E) chunk")
  case (Inl err)
  then show ?thesis using assms by (simp add: chatReceiveResponse_def open_socket_def acknowledged_def action_simps)
next
  case (Inr p)
  obtain c resp b where p: "p = (c, resp, b)" by (cases p)
  let ?ep = "ep\<lparr>cs_outgoing := (cs_outgoing ep)(c := None)\<rparr>"
  have nd: "\<not> cs_provisioningDone ep" using assms(1) by (simp add: open_socket_def)
  show ?thesis
  proof (cases "cs_outgoing ep c")
    case None
    then have "ep' = ?ep" using run Inr nd by (simp add: chatReceiveResponse_def p action_simps)
    moreover have "?ep = ep" using None by (simp add: fun_upd_idem)
    ultimately show ?thesis using assms(1,2) None by (simp add: acknowledged_def Inr p)
  next
    case (Some k)
    obtain e q where k: "k = (e, [])" "ep_queue ep = Some (e # q)" "ep_state ep = AWAIT_RESPONSE"
      "(cs_outgoing ep)(c := None) = Map.empty"
      using outstanding_ok_entry [OF assms(2) Some] by metis
    have d: "delivered E alive this random randoms e (rs_code resp) [] ?ep = (r, ep', ev)"
      using run Inr nd Some k(1) by (simp add: chatReceiveResponse_def p action_simps)
    have ep: "open_socket ?ep" "cs_outgoing ?ep = Map.empty" "ep_queue ?ep = Some (e # q)"
      using assms(1) k by simp_all
    show ?thesis
    proof (cases "rs_code resp = en_http E HTTP_OK")
      case True
      then show ?thesis
        using delivered_open [OF ep assms(3) d [unfolded True]] k(1,2) Some
        by (simp add: acknowledged_def Inr p waiting_def)
    next
      case False
      then have "ep' = ?ep" using d by (simp add: delivered_def aif_def action_simps)
      then show ?thesis
        using ep False Some k(1,2) outstanding_ok_none [OF ep(2)] by (simp add: acknowledged_def Inr p waiting_def)
    qed
  qed
qed

section \<open>A connection over time\<close>

text \<open>
  The endpoint, the calls of \<open>deliver\<close> that have not run, all envelopes that were given to
  the connection and those that the client acknowledged.
\<close>

record 'o conn =
  cn_ep :: "'o endpoint"
  cn_calls :: "'o envelope list list"
  cn_arrived :: "'o envelope list"
  cn_acked :: "'o envelope list"

definition start_conn :: "'o endpoint \<Rightarrow> 'o conn" where
  "start_conn ep = \<lparr>cn_ep = ep, cn_calls = [], cn_arrived = [], cn_acked = []\<rparr>"

inductive conn_step :: "('o \<Rightarrow> bool) \<Rightarrow> 'o \<Rightarrow> 'o conn \<Rightarrow> 'o conn \<Rightarrow> bool" for alive this where
  arrive: "conn_step alive this c (c\<lparr>cn_calls := cn_calls c @ [es], cn_arrived := cn_arrived c @ es\<rparr>)"
| run: "cn_calls c = es # cs \<Longrightarrow> fresh_contexts randoms \<Longrightarrow> deliver E randoms es (cn_ep c) = (r, ep, ev) \<Longrightarrow>
    conn_step alive this c (c\<lparr>cn_calls := cs, cn_ep := ep\<rparr>)"
| response: "open_socket (cn_ep c) \<Longrightarrow> fresh_contexts randoms \<Longrightarrow>
    chatReceiveResponse E (delivered E alive this random randoms) chunk (cn_ep c) = (r, ep, ev) \<Longrightarrow>
    conn_step alive this c (c\<lparr>cn_ep := ep, cn_acked := cn_acked c @ acknowledged E chunk (cn_ep c)\<rparr>)"
| closing: "send_close_frame code (cn_ep c) = (r, ep, ev :: 'o server_event list) \<Longrightarrow> conn_step alive this c (c\<lparr>cn_ep := ep\<rparr>)"

inductive conn_reachable :: "('o \<Rightarrow> bool) \<Rightarrow> 'o \<Rightarrow> 'o conn \<Rightarrow> bool" for alive this where
  start: "cs_outgoing ep = Map.empty \<Longrightarrow> ep_queue ep = None \<Longrightarrow> ep_state ep = READY \<Longrightarrow>
    conn_reachable alive this (start_conn ep)"
| step: "conn_reachable alive this c \<Longrightarrow> conn_step alive this c d \<Longrightarrow> conn_reachable alive this d"

definition conn_inv :: "'o conn \<Rightarrow> bool" where
  "conn_inv c \<longleftrightarrow> (open_socket (cn_ep c) \<longrightarrow> outstanding_ok (cn_ep c))
     \<and> cn_arrived c = cn_acked c @ waiting (cn_ep c) @ concat (cn_calls c)"

lemma send_close_frame_keeps:
  assumes "send_close_frame code ep = (r, ep', ev)"
  shows "\<not> open_socket ep' \<and> waiting ep' = waiting ep"
  using assms
  by (auto simp: send_close_frame_def action_simps open_socket_def wsSendClose_def waiting_def split: if_splits)

lemma conn_step_inv: "conn_step alive this c d \<Longrightarrow> conn_inv c \<Longrightarrow> conn_inv d"
proof (induction rule: conn_step.induct)
  case (run c es cs randoms E r ep ev)
  then show ?case
    using deliver_keeps [OF run(3)] deliver_outstanding [OF run(3)] by (auto simp: conn_inv_def)
next
  case (response c randoms E random chunk r ep ev)
  then show ?case using respond_ok [OF response(1) _ response(2,3)] by (auto simp: conn_inv_def)
next
  case (closing code c r ep ev)
  then show ?case using send_close_frame_keeps [OF closing(1)] by (auto simp: conn_inv_def)
qed (simp add: conn_inv_def)

lemma reachable_conn_inv: "conn_reachable alive this c \<Longrightarrow> conn_inv c"
proof (induction rule: conn_reachable.induct)
  case (start ep)
  then show ?case by (auto simp: conn_inv_def start_conn_def waiting_def intro: outstanding_ok_none)
qed (blast intro: conn_step_inv)

text \<open>
  C10.  Nothing is lost and nothing is delivered twice: at any moment of a connection the envelopes
  it was given are those the client acknowledged, in order, followed by those that \<open>close\<close> would
  hand back to the message server; a request that waits for its response while the connection is
  open is for the first envelope not acknowledged.
\<close>

theorem nothing_lost:
  assumes "conn_reachable alive this c"
  shows "\<exists>rest. cn_arrived c = cn_acked c @ rest
    \<and> close_endpoint (cn_calls c) (cn_ep c)
      = (Inr (), cn_ep c, (if rest = [] then [] else [Stack rest]) @ [Destruct])
    \<and> (\<forall>ctxt e args. open_socket (cn_ep c) \<and> cs_outgoing (cn_ep c) ctxt = Some (e, args) \<longrightarrow>
        rest \<noteq> [] \<and> hd rest = e)"
proof (rule exI, intro conjI allI impI)
  have inv: "conn_inv c" using assms by (rule reachable_conn_inv)
  show "cn_arrived c = cn_acked c @ (waiting (cn_ep c) @ concat (cn_calls c))"
    using inv by (simp add: conn_inv_def)
  show "close_endpoint (cn_calls c) (cn_ep c) = (Inr (), cn_ep c,
      (if waiting (cn_ep c) @ concat (cn_calls c) = [] then [] else [Stack (waiting (cn_ep c) @ concat (cn_calls c))]) @ [Destruct])"
    by (simp add: close_endpoint_def close_server_def waiting_def Let_def aif_def action_simps)
  fix ctxt e args
  assume e: "open_socket (cn_ep c) \<and> cs_outgoing (cn_ep c) ctxt = Some (e, args)"
  then obtain q where "ep_queue (cn_ep c) = Some (e # q)"
    using inv outstanding_ok_entry unfolding conn_inv_def by (metis prod.inject)
  then show "waiting (cn_ep c) @ concat (cn_calls c) \<noteq> []" "hd (waiting (cn_ep c) @ concat (cn_calls c)) = e"
    by (simp_all add: waiting_def)
qed

definition sample_endpoint :: "nat endpoint" where
  "sample_endpoint =
     \<lparr>sv_connection = Some 1, sv_request = None, sv_handle = None, sv_login = None, sv_password = None,
      sv_websocket = Some ''chat'', sv_opcode = Some WEBSOCK_BINARY, sv_out = \<lparr>closing = False, ws_sent = []\<rparr>,
      cs_outgoing = Map.empty, cs_provisioningDone = False, ep_queue = None, ep_state = READY\<rparr>"

definition sample_run :: "nat conn" where
  "sample_run = (start_conn sample_endpoint)\<lparr>cn_calls := [[sample_envelope]], cn_arrived := [sample_envelope]\<rparr>"

lemma sample_run_reachable: "conn_reachable (\<lambda>_. True) 7 sample_run"
proof -
  have "conn_reachable (\<lambda>_. True) 7 (start_conn sample_endpoint)"
    by (rule conn_reachable.start) (simp_all add: sample_endpoint_def)
  from conn_reachable.step [OF this conn_step.arrive [of _ _ "start_conn sample_endpoint" "[sample_envelope]"]] show ?thesis
    by (simp add: sample_run_def start_conn_def)
qed

theorem nothing_lost_witness:
  "\<exists>rest. cn_arrived sample_run = cn_acked sample_run @ rest
    \<and> close_endpoint (cn_calls sample_run) (cn_ep sample_run)
      = (Inr (), cn_ep sample_run, (if rest = [] then [] else [Stack rest]) @ [Destruct])"
  using nothing_lost [OF sample_run_reachable] by blast

section \<open>A client that answers\<close>

text \<open>
  What a client makes of a frame with a request: a response with code OK for its id.  What was
  parsed is put into a new \<open>StringBuffer\<close>, which holds no empty strings.
\<close>

definition rebuffer :: "bytes list \<Rightarrow> bytes list" where
  "rebuffer = filter (\<lambda>s. s \<noteq> [])"

definition client_reply :: "asn_lib \<Rightarrow> http_codes \<Rightarrow> bytes \<Rightarrow> bytes list result" where
  "client_reply A H payload =
     rbind (receiveChatMessage [payload]) (\<lambda>m.
       case m of
         Ws_response _ \<Rightarrow> Inl (Error ''Unknown websocket message'')
       | Ws_request chunk \<Rightarrow>
           rbind (wsReceiveRequest A (rebuffer chunk) (str ''client'')) (\<lambda>(context, request, body).
           rbind (wsResponse H context (H HTTP_OK) None None) (\<lambda>msg.
           rbind (receiveChatMessage [msg]) (\<lambda>m.
             case m of
               Ws_response chunk \<Rightarrow> Inr (rebuffer chunk)
             | Ws_request _ \<Rightarrow> Inl (Error ''Unknown websocket message'')))))"

lemma rebuffer_simps [simp]: "concat (rebuffer cs) = concat cs" "[] \<notin> set (rebuffer cs)"
  by (induction cs) (auto simp: rebuffer_def)

lemma length_protoInt_loop:
  "unat v < 128 ^ Suc k \<Longrightarrow> length (protoInt_loop v s) \<le> length s + Suc k"
proof (induction k arbitrary: v s)
  case 0
  then have "v AND 0x7f = v" 
    unfolding mask7 by (intro word_unat_eq_iff [THEN iffD2]) (simp add: unsigned_take_bit_eq take_bit_nat_eq_self_iff flip: take_bit_eq_mask)
  then have "v AND (-128) = 0" by (simp only: and_not127_eq_0_iff)
  then show ?case by (simp add: protoInt_loop.simps)
next
  case (Suc k)
  have "unat (drop_bit 7 v) < 128 ^ Suc k"
    using Suc.prems by (simp add: unat_drop_bit_eq drop_bit_nat_def less_mult_imp_div_less)
  from Suc.IH [OF this, of "s @ [0x80 OR (ucast v AND 0x7f)]"] show ?case
    by (simp add: protoInt_loop.simps [of v s])
qed

lemma length_protoInt: "length (protoInt v) \<le> 5"
proof -
  have "unat v < 2 ^ LENGTH(32)" by (rule unsigned_less)
  then have "unat v < 128 ^ Suc 4" by simp
  from length_protoInt_loop [OF this, of "[]"] show ?thesis by (simp add: protoInt_def)
qed

lemma length_protoAsn_loop:
  "n < 128 ^ Suc k \<Longrightarrow> protoAsn_loop (asn_pad (asn_unum n)) s = Inr e \<Longrightarrow> length e \<le> length s + Suc k"
proof (induction k arbitrary: n s)
  case 0
  then have "length (asn_pad (asn_unum n)) = 1"
    using length_asn_pad_le [of n 0] by (cases "asn_pad (asn_unum n)") simp_all
  then show ?case using 0(2) by (auto simp: protoAsn_loop.simps)
next
  case (Suc k)
  let ?v = "asn_pad (asn_unum n)"
  show ?case
  proof (cases "length ?v = 1")
    case True
    then show ?thesis using Suc.prems(2) by (auto simp: protoAsn_loop.simps)
  next
    case False
    have n: "n div 128 < 128 ^ Suc k" using Suc.prems(1) by (simp add: less_mult_imp_div_less)
    have "protoAsn_loop (asn_pad (asn_unum (n div 128))) (s @ [0x80 OR (last ?v AND 0x7f)]) = Inr e"
      using Suc.prems(2) False by (simp add: protoAsn_loop.simps [of ?v] asn_rshift_pos)
    from Suc.IH [OF n this] show ?thesis by simp
  qed
qed

lemma length_protoAsn_8:
  assumes "length c = 8" "protoAsn c = Inr e"
  shows "length e \<le> 10"
proof -
  have c: "length c \<noteq> 1" "c \<noteq> []" using assms(1) by auto
  have "asn_uval c < 256 ^ 8" using asn_uval_lt [of c] assms(1) by simp
  then have n: "asn_uval c div 128 < 128 ^ Suc 8" by (simp add: less_mult_imp_div_less)
  have "protoAsn_loop (asn_pad (asn_unum (asn_uval c div 128))) [0x80 OR (last c AND 0x7f)] = Inr e"
    using assms c by (simp add: protoAsn_def protoAsn_loop.simps [of c] asn_rshift_pos)
  from length_protoAsn_loop [OF n this] show ?thesis by simp
qed

lemma length_comment: "length (comment H code) \<le> 64"
proof -
  have len: "length c \<le> 64" if "(s, c) \<in> set comment_cases" for s c
    using that by (auto simp: comment_cases_def)
  show ?thesis
  proof (cases "find (\<lambda>(s, c). H s = code) comment_cases")
    case (Some p)
    then have "p \<in> set comment_cases" by (metis find_Some_iff nth_mem)
    moreover obtain st c where "p = (st, c)" by (cases p) simp
    ultimately show ?thesis using Some len [of st c] by (simp add: comment_def)
  qed (simp add: comment_def)
qed

lemma wsResponse_short:
  assumes "length c = 8" "wsResponse H c code None None = Inr msg"
  shows "length msg < 2 ^ 31"
proof -
  obtain cid where "protoAsn c = Inr cid" "msg = [0x08, 0x02, 0x1A] @ protoStrbuf (response_bytes H code None cid [])"
    using assms(2) by (rule wsResponse_bytes) (simp add: header_lines_def)
  then show ?thesis
    using length_protoAsn_8 [OF assms(1), of cid] length_comment [of H code] length_protoInt [of code]
      length_protoInt [of "of_nat (length (comment H code))"] length_protoInt [of "of_nat (length (response_bytes H code None cid []))"]
    by (simp add: response_bytes_def protoStrbuf_def protoString_def line_fields_def)
qed

lemma client_reply_ok:
  assumes "asn_library A" "wsRequest verb path body hs c = Inr msg" "length c = 8" "length msg < 2 ^ 31"
  obtains chunk resp where "client_reply A H msg = Inr chunk"
    "wsReceiveResponse A chunk = Inr (c, resp, None)" "rs_code resp = H HTTP_OK"
proof -
  have c: "asn_encodable c" "padded c = c" using assms(3) by (auto simp: asn_encodable_def padded_def)
  have "msg \<noteq> []" using wsRequest_bytes [OF assms(2)] by blast
  then obtain ls chunk where rq: "receiveChatMessage [msg] = Inr (Ws_request chunk)"
    "\<And>cs'. concat cs' = concat chunk \<Longrightarrow> [] \<notin> set cs' \<Longrightarrow> \<exists>pieces rq. wsReceiveRequest A cs' (str ''client'') = Inr (c, rq, pieces)"
    using wsRequest_received_ok [OF assms(1,2) c(1) assms(4), of "[msg]" "str ''client''"] unfolding c(2) by (auto, blast)
  obtain rq body' where rq2: "wsReceiveRequest A (rebuffer chunk) (str ''client'') = Inr (c, rq, body')"
    using rq(2) [of "rebuffer chunk"] by auto
  obtain cid where "protoAsn c = Inr cid" using protoAsn_context [OF assms(3)] ..
  then obtain rmsg where rmsg: "wsResponse H c (H HTTP_OK) None None = Inr rmsg"
    by (simp add: wsResponse_def header_fields_def Let_def)
  have "rmsg \<noteq> []" using wsResponse_bytes [OF rmsg] by blast
  then obtain ls2 chunk2 where rs: "receiveChatMessage [rmsg] = Inr (Ws_response chunk2)"
    "\<forall>cs'. concat cs' = concat chunk2 \<longrightarrow> [] \<notin> set cs' \<longrightarrow> (\<exists>pieces. map_option concat pieces = None
      \<and> wsReceiveResponse A cs' = Inr (c, \<lparr>rs_code = H HTTP_OK, rs_comment = comment H (H HTTP_OK), rs_headers = headers_of ls2\<rparr>, pieces))"
    using wsResponse_received_ok [OF assms(1) rmsg c(1) wsResponse_short [OF assms(3) rmsg], of "[rmsg]"] unfolding c(2)
    by auto
  have "client_reply A H msg = Inr (rebuffer chunk2)"
    by (simp add: client_reply_def rq(1) rq2 rmsg rs(1))
  moreover obtain resp where "wsReceiveResponse A (rebuffer chunk2) = Inr (c, resp, None)" "rs_code resp = H HTTP_OK"
    using rs(2) [rule_format, of "rebuffer chunk2"] by auto
  ultimately show thesis by (rule that)
qed

lemma envelope_request_short:
  assumes "length c = 8" "envelope_request E body c = Inr msg"
    and "length body + length (ts_transport \<lparr>ts_time = fst (snd (en_clock E)), ts_ms = snd (snd (en_clock E))\<rparr>) \<le> 2 ^ 30"
  shows "length msg < 2 ^ 31"
proof -
  let ?ts = "ts_transport \<lparr>ts_time = fst (snd (en_clock E)), ts_ms = snd (snd (en_clock E))\<rparr>"
  let ?line = "str ''X-Signal-Timestamp'' @ str '':'' @ ?ts"
  obtain cid where cid: "protoAsn c = Inr cid"
    and msg: "msg = [0x08, 0x01, 0x12] @ protoStrbuf (request_bytes (str ''PUT'') (str ''/api/v1/message'') (Some body) cid [?line])"
    using assms(2) unfolding envelope_request_def
    by (rule wsRequest_bytes) (simp add: header_lines_def timestamp_header_def header_line_def)
  show ?thesis
    using length_protoAsn_8 [OF assms(1) cid] assms(3)
      length_protoInt [of "of_nat (length body)"] length_protoInt [of "of_nat (length ?line)"] length_protoInt [of 3]
      length_protoInt [of 15]
      length_protoInt [of "of_nat (length (request_bytes (str ''PUT'') (str ''/api/v1/message'') (Some body) cid [?line]))"]
    by (simp add: msg request_bytes_def protoStrbuf_def protoString_def line_fields_def)
qed

text \<open>The request for the first envelope of the queue is the last frame that was sent.\<close>

definition in_flight :: "bytes \<Rightarrow> 'o envelope \<Rightarrow> 'o envelope list \<Rightarrow> 'o endpoint \<Rightarrow> bool" where
  "in_flight c e q ep \<longleftrightarrow>
     open_socket ep \<and> cs_outgoing ep = [c \<mapsto> (e, [])] \<and> ep_queue ep = Some (e # q) \<and> ep_state ep = AWAIT_RESPONSE
     \<and> length c = 8 \<and> length (wf_payload (last (ws_sent (sv_out ep)))) < 2 ^ 31
     \<and> (\<exists>verb path body hs. wsRequest verb path body hs c = Inr (wf_payload (last (ws_sent (sv_out ep)))))"

text \<open>An envelope that can be sent: its text form exists, and the message has less than 2 GB.\<close>

definition deliverable :: "env \<Rightarrow> 'o envelope \<Rightarrow> bool" where
  "deliverable E e \<longleftrightarrow>
     (\<exists>body. envelope_transport (en_asn E) (en_hex E) e = Inr body
       \<and> length body + length (ts_transport \<lparr>ts_time = fst (snd (en_clock E)), ts_ms = snd (snd (en_clock E))\<rparr>) \<le> 2 ^ 30)"

text \<open>The client answers the last frame; \<open>random\<close> and \<open>randoms\<close> are drawn by the server.\<close>

definition client_answers ::
    "env \<Rightarrow> ('o \<Rightarrow> bool) \<Rightarrow> 'o \<Rightarrow> bytes \<times> bytes list \<Rightarrow> 'o endpoint \<Rightarrow> 'o endpoint" where
  "client_answers E alive this = (\<lambda>(random, randoms) ep.
     case client_reply (en_asn E) (en_http E) (wf_payload (last (ws_sent (sv_out ep)))) of
       Inl _ \<Rightarrow> ep
     | Inr chunk \<Rightarrow> fst (snd (chatReceiveResponse E (delivered E alive this random randoms) chunk ep)))"

fun answer_all ::
    "env \<Rightarrow> ('o \<Rightarrow> bool) \<Rightarrow> 'o \<Rightarrow> (bytes \<times> bytes list) list \<Rightarrow> 'o endpoint \<Rightarrow> 'o endpoint" where
  "answer_all E alive this [] ep = ep"
| "answer_all E alive this (i # is) ep = answer_all E alive this is (client_answers E alive this i ep)"

definition good_input :: "bytes \<times> bytes list \<Rightarrow> bool" where
  "good_input = (\<lambda>(random, randoms). length random = 16 \<and> fresh_contexts randoms \<and> randoms \<noteq> [])"

definition drained :: "'o endpoint \<Rightarrow> bool" where
  "drained ep \<longleftrightarrow> open_socket ep \<and> ep_queue ep = Some [] \<and> ep_state ep = READY \<and> cs_outgoing ep = Map.empty
     \<and> wf_payload (last (ws_sent (sv_out ep))) = empty_request"

lemma receipt_for_ok: "length random = 16 \<Longrightarrow> \<exists>r. receipt_for E random this e = Inr r"
  by (simp add: receipt_for_def Envelope_def uuid_generate_def Let_def)

lemma delivered_next:
  assumes "open_socket ep" "cs_outgoing ep = Map.empty" "ep_queue ep = Some (e # q)"
    and "good_input (random, randoms)" "\<forall>e\<in>set q. deliverable E e"
    and run: "delivered E alive this random randoms e (en_http E HTTP_OK) [] ep = (r, ep', ev)"
  shows "case q of [] \<Rightarrow> drained ep' | e2 # q2 \<Rightarrow> \<exists>c. in_flight c e2 q2 ep'"
proof -
  let ?ep = "ep\<lparr>ep_queue := Some q, ep_state := READY\<rparr>"
  have input: "length random = 16" "fresh_contexts randoms" "randoms \<noteq> []" using assms(4) by (auto simp: good_input_def)
  have op: "open_socket ?ep" "cs_outgoing ?ep = Map.empty" using assms(1,2) by simp_all
  have tail: "lpc_range (e # q) 1 (int (length (e # q)) - 1) = Inr q" by (simp add: lpc_range_def)
  let ?receipt = "aif (ev_type e \<noteq> RECEIPT)
          (abind (alift (receipt_for E random this e)) (\<lambda>r.
             aemit (if alive (ev_origin e) then Deliver (ev_origin e) [r] else Stack [r])))"
  let ?next = "case q of next # _ \<Rightarrow> sendEnvelope E randoms next | [] \<Rightarrow> emptyQueue"
  obtain ev1 where "?receipt ?ep = (Inr (), ?ep, ev1)"
    using receipt_for_ok [OF input(1), of E this e] that
    by (cases "ev_type e = RECEIPT") (auto simp: aif_def action_simps)
  moreover have "athen ?receipt ?next ?ep = (r, ep', ev)"
    using run tail assms(3) by (simp add: delivered_def aif_def [of True] action_simps)
  ultimately obtain ev2 where nx: "?next ?ep = (r, ep', ev2)"
    by (auto simp: athen_def abind_Inr split: prod.splits)
  show ?thesis
  proof (cases q)
    case Nil
    then have "ep' = add_frame empty_request ?ep" using nx emptyQueue_open [OF op(1)] by simp
    then show ?thesis using Nil op by (simp add: drained_def)
  next
    case (Cons e2 q2)
    from sendEnvelope_open [OF op(1) input(2), of E e2] show ?thesis
    proof cases
      case (1 e')
      moreover have "envelope_transport (en_asn E) (en_hex E) e2 \<noteq> Inl e'"
        using assms(5) Cons by (auto simp: deliverable_def)
      ultimately show ?thesis using op(2) input(3) by (cases randoms) auto
    next
      case (2 body c msg)
      have c: "length c = 8" using 2(2) input(2) by (simp add: fresh_contexts_def)
      have "length body + length (ts_transport \<lparr>ts_time = fst (snd (en_clock E)), ts_ms = snd (snd (en_clock E))\<rparr>) \<le> 2 ^ 30"
        using assms(5) Cons 2(1) by (auto simp: deliverable_def)
      then have "length msg < 2 ^ 31" by (rule envelope_request_short [OF c 2(4)])
      moreover have "ep' = (add_frame msg (?ep\<lparr>cs_outgoing := (cs_outgoing ?ep)(c \<mapsto> (e2, []))\<rparr>))\<lparr>ep_state := AWAIT_RESPONSE\<rparr>"
        using nx Cons 2(5) by simp
      ultimately have "in_flight c e2 q2 ep'"
        using op c 2(4) Cons by (auto simp: in_flight_def envelope_request_def)
      then show ?thesis using Cons by auto
    qed
  qed
qed

lemma client_answers_step:
  assumes "asn_library (en_asn E)" "in_flight c e q ep" "good_input i" "\<forall>e\<in>set q. deliverable E e"
  shows "case q of [] \<Rightarrow> drained (client_answers E alive this i ep) | e2 # q2 \<Rightarrow> \<exists>c. in_flight c e2 q2 (client_answers E alive this i ep)"
proof -
  obtain random randoms where i: "i = (random, randoms)" by (cases i)
  let ?msg = "wf_payload (last (ws_sent (sv_out ep)))"
  have fl: "open_socket ep" "cs_outgoing ep = [c \<mapsto> (e, [])]" "ep_queue ep = Some (e # q)" "length c = 8" "length ?msg < 2 ^ 31"
    using assms(2) by (simp_all add: in_flight_def)
  obtain verb path body hs where rq: "wsRequest verb path body hs c = Inr ?msg" using assms(2) by (auto simp: in_flight_def)
  obtain chunk resp where cl: "client_reply (en_asn E) (en_http E) ?msg = Inr chunk"
      "wsReceiveResponse (en_asn E) chunk = Inr (c, resp, None)" "rs_code resp = en_http E HTTP_OK"
    using client_reply_ok [OF assms(1) rq fl(4,5)] by blast
  let ?ep = "ep\<lparr>cs_outgoing := Map.empty\<rparr>"
  obtain r ep' ev where d: "delivered E alive this random randoms e (en_http E HTTP_OK) [] ?ep = (r, ep', ev)"
    by (cases "delivered E alive this random randoms e (en_http E HTTP_OK) [] ?ep") auto
  have "chatReceiveResponse E (delivered E alive this random randoms) chunk ep = (r, ep', ev)"
    using fl(1,2) cl(2,3) d by (simp add: chatReceiveResponse_def open_socket_def action_simps)
  then have "client_answers E alive this i ep = ep'" by (simp add: client_answers_def i cl(1))
  moreover have "open_socket ?ep" "cs_outgoing ?ep = Map.empty" "ep_queue ?ep = Some (e # q)" using fl by simp_all
  ultimately show ?thesis using delivered_next [OF _ _ _ assms(3) [unfolded i] assms(4) d] by (cases q) simp_all
qed

text \<open>
  C11.  A client that answers every request with OK gets every envelope of the queue: after as many
  answers as there are envelopes the queue is empty, no request is outstanding, the endpoint is
  ready, and the last frame sent tells the client that the queue is empty.
\<close>

theorem queue_drains:
  assumes "asn_library (en_asn E)" "in_flight c e q ep" "\<forall>e\<in>set q. deliverable E e"
    and "length is = Suc (length q)" "\<forall>i\<in>set is. good_input i"
  shows "drained (answer_all E alive this is ep)"
  using assms(2-5)
proof (induction q arbitrary: c e ep "is")
  case Nil
  then obtain i where "is = [i]" by (cases "is") auto
  then show ?case using client_answers_step [OF assms(1) Nil(1), of i alive this] Nil by simp
next
  case (Cons e2 q2)
  then obtain i is' where is': "is = i # is'" by (cases "is") auto
  then obtain c' where "in_flight c' e2 q2 (client_answers E alive this i ep)"
    using client_answers_step [OF assms(1) Cons.prems(1), of i alive this] Cons.prems by auto
  then show ?case using Cons.IH Cons.prems is' by simp
qed

lemma sample_in_flight:
  "\<exists>ep. in_flight (replicate 8 1) sample_envelope [] (ep :: nat endpoint)"
proof -
  obtain cid where cid: "protoAsn (replicate 8 1) = Inr cid" using protoAsn_context [of "replicate 8 1"] by auto
  obtain msg where msg: "wsRequest [] [] None None (replicate 8 1) = Inr msg"
    by (simp add: wsRequest_def cid header_fields_def)
  have "length msg < 2 ^ 31"
  proof -
    have "msg = [0x08, 0x01, 0x12] @ protoStrbuf (request_bytes [] [] None cid [])"
      using msg cid by (auto simp: wsRequest_def header_fields_def Let_def request_bytes_def line_fields_def)
    then show ?thesis
      using length_protoAsn_8 [of "replicate 8 1" cid] cid length_protoInt [of 0]
        length_protoInt [of "of_nat (length (request_bytes [] [] None cid []))"]
      by (simp add: request_bytes_def protoStrbuf_def protoString_def line_fields_def)
  qed
  then have "in_flight (replicate 8 1) sample_envelope [] (sample_endpoint
      \<lparr>sv_out := \<lparr>closing = False, ws_sent = [\<lparr>wf_opcode = WEBSOCK_BINARY, wf_mask = 0, wf_payload = msg\<rparr>]\<rparr>,
       cs_outgoing := [replicate 8 1 \<mapsto> (sample_envelope, [])], ep_queue := Some [sample_envelope], ep_state := AWAIT_RESPONSE\<rparr>)"
    using msg by (auto simp: in_flight_def sample_endpoint_def open_socket_def)
  then show ?thesis ..
qed

theorem queue_drains_witness:
  "\<exists>ep :: nat endpoint. in_flight (replicate 8 1) sample_envelope [] ep
    \<and> drained (answer_all (sample_env (Api None []) (\<lambda>_. None)) (\<lambda>_. True) 7 [(replicate 16 0, [replicate 8 2])] ep)"
proof -
  obtain ep :: "nat endpoint" where ep: "in_flight (replicate 8 1) sample_envelope [] ep" using sample_in_flight by blast
  have "asn_library (en_asn (sample_env (Api None []) (\<lambda>_. None)))"
    by (simp add: sample_env_def std_asn.asn_library_axioms)
  from queue_drains [OF this ep, of "[(replicate 16 0, [replicate 8 2])]" "\<lambda>_. True" 7] ep show ?thesis
    by (auto simp: good_input_def fresh_contexts_def)
qed

end
