(* ===== verification/Registration.thy ===== *)
theory Registration
  imports Rest Servers
begin

text \<open>
  Registration: the sessions in which a phone number is verified (\<^verbatim>\<open>src/sys/registration.c\<close>) and the
  handlers that lead through one and make an account (\<^verbatim>\<open>src/services/lib/chat/Registration.c\<close>).

  A session is a mapping with a fixed set of entries: a record.  It is passed around as a reference,
  so a change that a handler makes is seen in the store: \<open>put_session\<close>.  The functions of the
  registration server check that the caller is the registration service, which is the only one that
  calls them.  \<open>K\<close> and \<open>KI\<close> are the trees of the two stores.
\<close>

section \<open>Handlers that use a server\<close>

text \<open>
  The state is a server of the system and the handler's own connection: an atomic function of the
  server, and an action of the connection.
\<close>

definition on_server :: "('w \<Rightarrow> ('a \<times> 'w) result) \<Rightarrow> ('w \<times> 's, 'e, 'a) action" where
  "on_server f = (\<lambda>(w, s). case f w of Inl e \<Rightarrow> (Inl e, (w, s), []) | Inr (a, w) \<Rightarrow> (Inr a, (w, s), []))"

definition on_connection :: "('s, 'e, 'a) action \<Rightarrow> ('w \<times> 's, 'e, 'a) action" where
  "on_connection m = (\<lambda>(w, s). let (r, s, ev) = m s in (r, (w, s), ev))"

lemma on_server_run [action_simps]:
  "on_server f (w, s) = (case f w of Inl e \<Rightarrow> (Inl e, (w, s), []) | Inr (a, w) \<Rightarrow> (Inr a, (w, s), []))"
  by (simp add: on_server_def)

lemma on_connection_run [action_simps]:
  "on_connection m (w, s) = (let (r, s, ev) = m s in (r, (w, s), ev))"
  by (simp add: on_connection_def)

lemma abind_on [action_simps]:
  "abind (on_server f) g (w, s) = (case f w of Inl e \<Rightarrow> (Inl e, (w, s), []) | Inr (a, w) \<Rightarrow> g a (w, s))"
  "abind (on_connection (aemit x)) h (w, s) = (case h () (w, s) of (r, u, ev) \<Rightarrow> (r, u, x # ev))"
  by (simp_all add: abind_def on_server_def on_connection_def aemit_def split: sum.split prod.split)

lemma server_after [simp]:
  "fst (fst (snd (on_connection m (w, s)))) = w"
  "fst (fst (snd (abind (on_connection m) (\<lambda>_. aret ()) (w, s)))) = w"
  by (auto simp: on_connection_def abind_def aret_def split: prod.split sum.split)

lemma abind_alift [simp]: "abind (alift (Inr a)) f = f a" "abind (alift (Inl e)) f = afail e"
  by (rule ext, simp add: action_simps)+

section \<open>Sessions\<close>

record session =
  ss_phoneNumber :: bytes
  ss_id :: "bytes option"
  ss_pushToken :: "bytes option"
  ss_challenge :: "bytes option"
  ss_acceptCode :: bool
  ss_nextCode :: bool
  ss_verified :: bool

definition new_session :: "bytes \<Rightarrow> session" where
  "new_session phoneNumber =
     \<lparr>ss_phoneNumber = phoneNumber, ss_id = None, ss_pushToken = None, ss_challenge = None,
      ss_acceptCode = False, ss_nextCode = False, ss_verified = False\<rparr>"

record ('s, 'i) registration_server =
  rg_sessions :: 's
  rg_phoneIndex :: 'i

definition REG_DURATION :: lpcint where
  "REG_DURATION = 30 * 24 * 3600"

definition registration_create ::
    "('s, session timed, session timed) kvlib \<Rightarrow> ('i, bytes timed, bytes timed) kvlib
      \<Rightarrow> ('s, 'i) registration_server" where
  "registration_create K KI = \<lparr>rg_sessions = kv_new K 199, rg_phoneIndex = kv_new KI 249\<rparr>"

text \<open>
  \<open>getSessionId\<close>: the ID, the key of the session that was looked up or made, and the session, if
  there is one.  Of the two stores the index maps a number to the ID in hexadecimal, while the keys
  of the sessions are the random strings themselves.
\<close>

definition getSessionId ::
    "asn_lib \<Rightarrow> hex_lib \<Rightarrow> ('s, session timed, session timed) kvlib \<Rightarrow> ('i, bytes timed, bytes timed) kvlib \<Rightarrow> lpcint
      \<Rightarrow> bytes list \<Rightarrow> bytes option \<Rightarrow> ('s, 'i) registration_server
      \<Rightarrow> ((bytes \<times> bytes \<times> session option) \<times> ('s, 'i) registration_server) result" where
  "getSessionId A X K KI now randoms phoneNumber srv =
     rbind (phoneToNum A phoneNumber) (\<lambda>num.
     rbind (need phoneNumber) (\<lambda>phoneNumber.
       case exp_get KI now (rg_phoneIndex srv) num of
         Some sessionId \<Rightarrow> Inr ((sessionId, sessionId, exp_get K now (rg_sessions srv) sessionId), srv)
       | None \<Rightarrow>
           rbind (add_loop Inr (\<lambda>i. exp_add K REG_DURATION now (rg_sessions srv) i (Some (new_session phoneNumber))) randoms)
             (\<lambda>(key, sessions, rest).
             let sessionId = hex_format X key;
                 session = (new_session phoneNumber)\<lparr>ss_id := Some sessionId\<rparr>
             in Inr ((sessionId, key, Some session),
                  srv\<lparr>rg_sessions := exp_modify K sessions key (\<lambda>_. session),
                      rg_phoneIndex := exp_set KI REG_DURATION now (rg_phoneIndex srv) num (Some sessionId)\<rparr>))))"

definition getSession ::
    "hex_lib \<Rightarrow> ('s, session timed, session timed) kvlib \<Rightarrow> lpcint \<Rightarrow> bytes \<Rightarrow> ('s, 'i) registration_server
      \<Rightarrow> ((bytes \<times> session option) \<times> ('s, 'i) registration_server) result" where
  "getSession X K now sessionId srv =
     rmap (\<lambda>key. ((key, exp_get K now (rg_sessions srv) key), srv)) (hex_decode X sessionId)"

definition session_remove ::
    "asn_lib \<Rightarrow> hex_lib \<Rightarrow> ('s, session timed, session timed) kvlib \<Rightarrow> ('i, bytes timed, bytes timed) kvlib \<Rightarrow> lpcint
      \<Rightarrow> bytes \<Rightarrow> ('s, 'i) registration_server \<Rightarrow> ('s, 'i) registration_server result" where
  "session_remove A X K KI now sessionId srv =
     rbind (hex_decode X sessionId) (\<lambda>key.
       case exp_get K now (rg_sessions srv) key of
         None \<Rightarrow> Inr srv
       | Some values \<Rightarrow>
           rmap (\<lambda>num. srv\<lparr>rg_phoneIndex := exp_set KI REG_DURATION now (rg_phoneIndex srv) num None,
                           rg_sessions := exp_set K REG_DURATION now (rg_sessions srv) key None\<rparr>)
             (phoneToNum A (Some (ss_phoneNumber values))))"

definition put_session ::
    "('s, session timed, session timed) kvlib \<Rightarrow> bytes \<Rightarrow> session \<Rightarrow> ('s, 'i) registration_server
      \<Rightarrow> (unit \<times> ('s, 'i) registration_server) result" where
  "put_session K key session srv =
     Inr ((), srv\<lparr>rg_sessions := exp_modify K (rg_sessions srv) key (\<lambda>_. session)\<rparr>)"

section \<open>Verification\<close>

type_synonym ('s, 'i, 'o, 'z, 'a) registration_action =
  "(('s, 'i) registration_server \<times> ('o, 'z) rest_server_scheme, 'o server_event, 'a) action"

definition session_entity :: "session \<Rightarrow> json" where
  "session_entity session =
     jobj ([(''id'', jopt (ss_id session)),
            (''allowedToRequestCode'', jbool (ss_acceptCode session)),
            (''requestedInformation'', JArr (if ss_challenge session \<noteq> None then [JStr (str ''pushChallenge'')] else [])),
            (''verified'', jbool (ss_verified session))]
           @ (if ss_nextCode session then [(''nextVerificationAttempt'', JInt 0)] else []))"

definition respondVerification ::
    "env \<Rightarrow> bytes option \<Rightarrow> session option \<Rightarrow> lpcint \<Rightarrow> (('o, 'z) rest_server_scheme, 'o server_event, lpcint) action" where
  "respondVerification E ctxt session code =
     abind (alift (need session)) (\<lambda>session.
       respondJson E ctxt (if code \<noteq> 0 then code else en_http E HTTP_OK) (session_entity session) None)"

text \<open>\<open>random\<close> is the value of \<open>random_string(16)\<close> for the challenge.\<close>

definition postVerificationNewSession ::
    "env \<Rightarrow> ('s, session timed, session timed) kvlib \<Rightarrow> ('i, bytes timed, bytes timed) kvlib \<Rightarrow> bytes list \<Rightarrow> bytes
      \<Rightarrow> bytes option \<Rightarrow> json \<Rightarrow> ('s, 'i, 'o, 'z, lpcint) registration_action" where
  "postVerificationNewSession E K KI randoms random ctxt entity =
     abind (alift (jfield_str ''number'' entity)) (\<lambda>number.
     abind (on_server (getSessionId (en_asn E) (en_hex E) K KI (fst (en_clock E)) randoms number)) (\<lambda>(sessionId, key, session).
     abind (alift (need session)) (\<lambda>session.
     if ss_verified session then on_connection (respondVerification E ctxt (Some session) 0)
     else
       abind (alift (jfield_str ''pushToken'' entity)) (\<lambda>pushToken.
       abind (alift (jfield ''pushTokenType'' entity)) (\<lambda>pushTokenType.
       if pushToken = None \<or> pushTokenType \<noteq> JStr (str ''fcm'') then
         on_connection (respondVerification E ctxt (Some session) (en_http E HTTP_UNPROCESSABLE_CONTENT))
       else
         (let session = session\<lparr>ss_pushToken := pushToken\<rparr> in
          athen (on_server (put_session K key session))
          (if ss_challenge session = None then
             athen (on_connection (aemit (Send_challenge (the pushToken) (hex_format (en_hex E) random) ctxt sessionId)))
               (aret 0)
           else on_connection (respondVerification E ctxt (Some session) 0))))))))"

definition fcmChallengeSent ::
    "env \<Rightarrow> ('s, session timed, session timed) kvlib \<Rightarrow> bytes option \<Rightarrow> bytes \<Rightarrow> bytes \<Rightarrow> lpcint
      \<Rightarrow> ('s, 'i, 'o, 'z, unit) registration_action" where
  "fcmChallengeSent E K ctxt sessionId chal code =
     abind (on_server (getSession (en_hex E) K (fst (en_clock E)) sessionId)) (\<lambda>(key, session).
     abind
      (if code = en_http E HTTP_OK then
         abind (alift (need session)) (\<lambda>session.
           let session = session\<lparr>ss_challenge := Some chal\<rparr>
           in athen (on_server (put_session K key session)) (aret (Some session)))
       else aret session) (\<lambda>session.
     abind (on_connection (respondVerification E ctxt session code)) (\<lambda>_. aret ())))"

text \<open>A session that is needed to go on, or the response that there is none.\<close>

definition with_session ::
    "env \<Rightarrow> ('s, session timed, session timed) kvlib \<Rightarrow> bytes option \<Rightarrow> bytes
      \<Rightarrow> (bytes \<Rightarrow> session \<Rightarrow> ('s, 'i, 'o, 'z, lpcint) registration_action)
      \<Rightarrow> ('s, 'i, 'o, 'z, lpcint) registration_action" where
  "with_session E K ctxt sessionId f =
     abind (on_server (getSession (en_hex E) K (fst (en_clock E)) sessionId)) (\<lambda>(key, session).
       case session of
         None \<Rightarrow> on_connection (respond (en_http E) ctxt (en_http E HTTP_NOT_FOUND) None None None)
       | Some session \<Rightarrow> f key session)"

text \<open>The session after a challenge was presented.\<close>

definition accept_challenge :: "bytes option \<Rightarrow> session \<Rightarrow> session" where
  "accept_challenge chal session =
     (if chal \<noteq> None \<and> chal = ss_challenge session
      then session\<lparr>ss_challenge := None, ss_acceptCode := True\<rparr> else session)"

definition patchVerificationSession ::
    "env \<Rightarrow> ('s, session timed, session timed) kvlib \<Rightarrow> bytes option \<Rightarrow> bytes \<Rightarrow> json
      \<Rightarrow> ('s, 'i, 'o, 'z, lpcint) registration_action" where
  "patchVerificationSession E K ctxt sessionId entity =
     with_session E K ctxt sessionId (\<lambda>key session.
     abind (alift (jfield_str ''pushChallenge'' entity)) (\<lambda>chal.
       let session = accept_challenge chal session in
       athen (on_server (put_session K key session)) (on_connection (respondVerification E ctxt (Some session) 0))))"

definition getVerificationSession ::
    "env \<Rightarrow> ('s, session timed, session timed) kvlib \<Rightarrow> bytes option \<Rightarrow> bytes
      \<Rightarrow> ('s, 'i, 'o, 'z, lpcint) registration_action" where
  "getVerificationSession E K ctxt sessionId =
     with_session E K ctxt sessionId (\<lambda>key session.
     abind (on_server (getSession (en_hex E) K (fst (en_clock E)) sessionId)) (\<lambda>(key, session).
       on_connection (respondVerification E ctxt session 0)))"

definition postVerificationSessionCode ::
    "env \<Rightarrow> ('s, session timed, session timed) kvlib \<Rightarrow> bytes option \<Rightarrow> bytes \<Rightarrow> bytes option \<Rightarrow> json
      \<Rightarrow> ('s, 'i, 'o, 'z, lpcint) registration_action" where
  "postVerificationSessionCode E K ctxt sessionId acceptLanguage entity =
     with_session E K ctxt sessionId (\<lambda>key session.
       let session = session\<lparr>ss_nextCode := True\<rparr> in
       athen (on_server (put_session K key session)) (on_connection (respondVerification E ctxt (Some session) 0)))"

definition putVerificationSessionCode ::
    "env \<Rightarrow> ('s, session timed, session timed) kvlib \<Rightarrow> bytes option \<Rightarrow> bytes \<Rightarrow> json
      \<Rightarrow> ('s, 'i, 'o, 'z, lpcint) registration_action" where
  "putVerificationSessionCode E K ctxt sessionId entity =
     with_session E K ctxt sessionId (\<lambda>key session.
       let session = session\<lparr>ss_acceptCode := False, ss_nextCode := False, ss_verified := True\<rparr> in
       athen (on_server (put_session K key session)) (on_connection (respondVerification E ctxt (Some session) 0)))"

section \<open>Making an account\<close>

text \<open>\<open>"%s:%s"\<close> on the decoded credentials; nothing is assigned if there is no colon.\<close>

definition scan_credentials :: "bytes \<Rightarrow> bytes option \<times> bytes option" where
  "scan_credentials s =
     (case scan_upto (str '':'') s of None \<Rightarrow> (None, None) | Some (a, b) \<Rightarrow> (Some a, Some b))"

text \<open>
  The authorization is a pair of scheme and text, if there is one.  The continuation carries the
  arguments of its first stage and the context of its last.
\<close>

definition postRegistration ::
    "env \<Rightarrow> bytes option \<Rightarrow> (bytes \<times> bytes) option \<Rightarrow> bytes option \<Rightarrow> json
      \<Rightarrow> (('o, 'z) rest_server_scheme, 'o server_event, unit) action" where
  "postRegistration E ctxt authorization agent entity =
     (case authorization of
        Some (scheme, text) \<Rightarrow>
          if lower_case scheme \<noteq> str ''basic'' then
            abind (respond (en_http E) ctxt (en_http E HTTP_BAD_REQUEST) None None None) (\<lambda>_. aret ())
          else
            abind (alift (b64_decode (en_base64 E) text)) (\<lambda>cred.
            let (phoneNumber, password) = scan_credentials cred in
            abind (alift (jfield ''accountAttributes'' entity)) (\<lambda>attr.
              aemit (Call_out ''postRegistration2'' ctxt [V (jopt phoneNumber), V (jopt password), V (jopt agent), V attr])))
      | None \<Rightarrow> abind (respond (en_http E) ctxt (en_http E HTTP_BAD_REQUEST) None None None) (\<lambda>_. aret ()))"

text \<open>The attributes of a request, as the arguments of the two functions \<open>update\<close>.\<close>

definition read_capabilities :: "json \<Rightarrow> capabilities result" where
  "read_capabilities cap =
     rbind (jfield_int ''announcementGroup'' cap) (\<lambda>announcementGroup.
     rbind (jfield_int ''changeNumber'' cap) (\<lambda>changeNumber.
     rbind (jfield_int ''giftBadges'' cap) (\<lambda>giftBadges.
     rbind (jfield_int ''paymentActivation'' cap) (\<lambda>paymentActivation.
     rbind (jfield_int ''pni'' cap) (\<lambda>pni.
     rbind (jfield_int ''senderKey'' cap) (\<lambda>senderKey.
     rbind (jfield_int ''storage'' cap) (\<lambda>storage.
     rbind (jfield_int ''stories'' cap) (\<lambda>stories.
     rbind (jfield_int ''uuid'' cap) (\<lambda>uuid.
       Inr \<lparr>c_announcementGroup = announcementGroup, c_changeNumber = changeNumber, c_giftBadges = giftBadges,
            c_paymentActivation = paymentActivation, c_pni = pni, c_senderKey = senderKey, c_storage = storage,
            c_stories = stories, c_uuid = uuid\<rparr>)))))))))"

definition update_device :: "bytes option \<Rightarrow> json \<Rightarrow> device \<Rightarrow> device result" where
  "update_device agent attr d =
     rbind (jfield ''capabilities'' attr) (\<lambda>cap.
     rbind (jfield_str ''name'' attr) (\<lambda>name.
     rbind (jfield_int ''registrationId'' attr) (\<lambda>registrationId.
     rbind (jfield_int ''fetchesMessages'' attr) (\<lambda>fetchesMessages.
     rbind (read_capabilities cap) (\<lambda>c.
       Inr (device_update name registrationId agent fetchesMessages c d))))))"

definition update_account :: "base64_lib \<Rightarrow> json \<Rightarrow> account \<Rightarrow> account result" where
  "update_account B attr ac =
     rbind (jfield_int ''discoverableByPhoneNumber'' attr) (\<lambda>discoverable.
     rbind (jfield_str ''pin'' attr) (\<lambda>pin.
     rbind (jfield_int ''pniRegistrationId'' attr) (\<lambda>pniRegistrationId.
     rbind (jfield_str ''recoveryPassword'' attr) (\<lambda>recoveryPassword.
     rbind (jfield_str ''registrationLock'' attr) (\<lambda>registrationLock.
     rbind (jfield_str ''signalingKey'' attr) (\<lambda>signalingKey.
     rbind (rbind (rbind (jfield_str ''unidentifiedAccessKey'' attr) need) (b64_decode B)) (\<lambda>unidentifiedAccessKey.
     rbind (jfield_int ''unrestrictedUnidentifiedAccess'' attr) (\<lambda>unrestrictedAccess.
     rbind (jfield_int ''video'' attr) (\<lambda>video.
     rbind (jfield_int ''voice'' attr) (\<lambda>voice.
       Inr (account_update
         \<lparr>aa_discoverable = discoverable, aa_pin = pin, aa_pniRegistrationId = pniRegistrationId,
          aa_recoveryPassword = recoveryPassword, aa_registrationLock = registrationLock,
          aa_signalingKey = signalingKey, aa_unidentifiedAccessKey = Some unidentifiedAccessKey,
          aa_unrestrictedAccess = unrestrictedAccess, aa_video = video, aa_voice = voice\<rparr> ac)))))))))))"

text \<open>\<open>random\<close> is the salt of the device, \<open>randoms\<close> what a new identity is made from.\<close>

definition postRegistration2 ::
    "env \<Rightarrow> ('i, bytes, bytes) kvlib \<Rightarrow> bytes \<Rightarrow> bytes list \<Rightarrow> bytes option \<Rightarrow> bytes option \<Rightarrow> bytes option \<Rightarrow> json
      \<Rightarrow> 'i pni_server \<Rightarrow> (account \<times> 'i pni_server) result" where
  "postRegistration2 E KI random randoms phoneNumber password agent attr srv =
     rbind (need password) (\<lambda>password.
     let device = Device (en_hex E) (en_hkdf E) random (en_clock E) 1 password in
     rbind (update_device agent attr device) (\<lambda>device.
     rbind (need phoneNumber) (\<lambda>phoneNumber.
     rbind (pni_getId (en_asn E) KI randoms phoneNumber srv) (\<lambda>(pni, srv).
     rbind (update_account (en_base64 E) attr (Account (Some phoneNumber) (Some pni) device)) (\<lambda>account.
       Inr (account, srv))))))"

definition postRegistration3 ::
    "env \<Rightarrow> ('a, account, account) kvlib \<Rightarrow> ('i, bytes, bytes) kvlib \<Rightarrow> bytes list \<Rightarrow> account \<Rightarrow> ('a, 'i) account_server
      \<Rightarrow> (account \<times> ('a, 'i) account_server) result" where
  "postRegistration3 E KA KI randoms account srv = accounts_add (en_asn E) KA KI randoms account srv"

definition postRegistration4 ::
    "env \<Rightarrow> bytes option \<Rightarrow> account \<Rightarrow> (('o, 'z) rest_server_scheme, 'o server_event, unit) action" where
  "postRegistration4 E ctxt account =
     abind (alift (uuid_encode (en_hex E) (ac_id account))) (\<lambda>uuid.
     abind (alift (uuid_encode (en_hex E) (ac_pni account))) (\<lambda>pni.
     abind (alift (need (account_device 1 account))) (\<lambda>device.
     abind (respondJson E ctxt (en_http E HTTP_OK)
        (jobj [(''uuid'', JStr uuid), (''number'', jopt (ac_phoneNumber account)), (''pni'', JStr pni),
               (''storageCapable'', JInt (capability STORAGE device))]) None) (\<lambda>_. aret ()))))"

end
