(* ===== verification/RegistrationSpec.thy ===== *)
theory RegistrationSpec
  imports Registration RestSpec
begin

text \<open>
  What the registration service guarantees.  A request of a client, or a response of the push
  service, is a \<open>session_input\<close>, and the server runs any list of them from its creation, each at its
  own time.  A session is marked as one that may request a code only after the challenge that the
  push service delivered was presented (\<open>sessions_ok\<close>, kept by every step), a mark that the requests for
  and with a code do not look at; an account that was
  registered is found under its number and lets its first device log in.
\<close>

section \<open>Runs of the session server\<close>

datatype session_input =
    New_session "bytes list" bytes "bytes option" json
  | Challenge_sent "bytes option" bytes bytes lpcint
  | Patch_session "bytes option" bytes json
  | Get_session "bytes option" bytes
  | Post_code "bytes option" bytes "bytes option" json
  | Put_code "bytes option" bytes json

fun session_step ::
    "env \<Rightarrow> ('s, session timed, session timed) kvlib \<Rightarrow> ('i, bytes timed, bytes timed) kvlib \<Rightarrow> session_input
      \<Rightarrow> ('s, 'i, 'o, 'z, unit) registration_action" where
  "session_step E K KI (New_session randoms random ctxt entity) =
     athen (postVerificationNewSession E K KI randoms random ctxt entity) (aret ())"
| "session_step E K KI (Challenge_sent ctxt sessionId chal code) = fcmChallengeSent E K ctxt sessionId chal code"
| "session_step E K KI (Patch_session ctxt sessionId entity) =
     athen (patchVerificationSession E K ctxt sessionId entity) (aret ())"
| "session_step E K KI (Get_session ctxt sessionId) = athen (getVerificationSession E K ctxt sessionId) (aret ())"
| "session_step E K KI (Post_code ctxt sessionId language entity) =
     athen (postVerificationSessionCode E K ctxt sessionId language entity) (aret ())"
| "session_step E K KI (Put_code ctxt sessionId entity) = athen (putVerificationSessionCode E K ctxt sessionId entity) (aret ())"

text \<open>Every input comes on a connection of its own and at a time of its own.\<close>

fun session_run ::
    "env \<Rightarrow> ('s, session timed, session timed) kvlib \<Rightarrow> ('i, bytes timed, bytes timed) kvlib
      \<Rightarrow> (clock \<times> 'o rest_server \<times> session_input) list \<Rightarrow> ('s, 'i) registration_server \<Rightarrow> ('s, 'i) registration_server" where
  "session_run E K KI [] srv = srv"
| "session_run E K KI ((clk, conn, x) # xs) srv =
     session_run E K KI xs (fst (fst (snd (session_step (E\<lparr>en_clock := clk\<rparr>) K KI x (srv, conn)))))"

section \<open>What a session has seen\<close>

text \<open>The push service confirmed that it delivered the challenge.\<close>

definition confirmed :: "env \<Rightarrow> session_input list \<Rightarrow> bytes \<Rightarrow> bytes \<Rightarrow> bool" where
  "confirmed E xs key chal \<longleftrightarrow>
     (\<exists>ctxt sessionId. Challenge_sent ctxt sessionId chal (en_http E HTTP_OK) \<in> set xs
        \<and> hex_decode (en_hex E) sessionId = Inr key)"

text \<open>After that, a client presented it.\<close>

definition presented :: "env \<Rightarrow> session_input list \<Rightarrow> bytes \<Rightarrow> bool" where
  "presented E xs key \<longleftrightarrow>
     (\<exists>pre post chal ctxt sessionId entity. xs = pre @ Patch_session ctxt sessionId entity # post
        \<and> confirmed E pre key chal \<and> hex_decode (en_hex E) sessionId = Inr key
        \<and> jfield_str ''pushChallenge'' entity = Inr (Some chal))"

definition session_ok :: "env \<Rightarrow> session_input list \<Rightarrow> bytes \<Rightarrow> session \<Rightarrow> bool" where
  "session_ok E xs key se \<longleftrightarrow>
     (ss_acceptCode se \<longrightarrow> presented E xs key) \<and> (\<forall>chal. ss_challenge se = Some chal \<longrightarrow> confirmed E xs key chal)"

definition sessions_ok ::
    "env \<Rightarrow> ('s \<Rightarrow> bytes \<Rightarrow> session timed option) \<Rightarrow> session_input list \<Rightarrow> ('s, 'i) registration_server \<Rightarrow> bool" where
  "sessions_ok E kv xs srv \<longleftrightarrow>
     (\<forall>key t se. kv (rg_sessions srv) key = Some (t, Some se) \<longrightarrow> session_ok E xs key se)"

lemma confirmed_mono: "confirmed E xs key chal \<Longrightarrow> confirmed E (xs @ ys) key chal"
  by (auto simp: confirmed_def)

lemma presented_mono: "presented E xs key \<Longrightarrow> presented E (xs @ ys) key"
  unfolding presented_def by (metis append.assoc append_Cons)

lemma sessions_ok_mono: "sessions_ok E kv xs srv \<Longrightarrow> sessions_ok E kv (xs @ ys) srv"
  unfolding sessions_ok_def session_ok_def using confirmed_mono presented_mono by blast

lemma sessions_ok_clock [simp]: "sessions_ok (E\<lparr>en_clock := clk\<rparr>) kv xs srv \<longleftrightarrow> sessions_ok E kv xs srv"
  by (simp add: sessions_ok_def session_ok_def confirmed_def presented_def)

section \<open>Every handler keeps it\<close>

lemma ensures_on_connection: "ensures (\<lambda>(w, s). J w) (\<lambda>_. True) (\<lambda>_. True) (on_connection m)"
  by (auto simp: ensures_def on_connection_def split: prod.splits)

lemma ensures_on_server:
  assumes "\<And>w a w'. J w \<Longrightarrow> f w = Inr (a, w') \<Longrightarrow> J w' \<and> Q a"
  shows "ensures (\<lambda>(w, s). J w) (\<lambda>_. True) Q (on_server f)"
  using assms by (fastforce simp: ensures_def on_server_def split: sum.splits prod.splits)

locale session_store = expiring_store K kv
  for K :: "('s, session timed, session timed) kvlib" and kv :: "'s \<Rightarrow> bytes \<Rightarrow> session timed option" +
  fixes E :: env and xs :: "session_input list"
begin

abbreviation keeps :: "('a \<Rightarrow> bool) \<Rightarrow> (('s, 'i, 'o, 'z, 'a) registration_action) \<Rightarrow> bool" where
  "keeps Q m \<equiv> ensures (\<lambda>(w, s). sessions_ok E kv xs w) (\<lambda>_. True) Q m"

lemma get_ok: "sessions_ok E kv xs w \<Longrightarrow> exp_get K now (rg_sessions w) key = Some se \<Longrightarrow> session_ok E xs key se"
  by (auto simp: exp_get seen_def fresh_value_def sessions_ok_def bind_eq_Some_conv split: if_splits)

lemma modify_ok:
  "(\<And>j t se. kv t0 j = Some (t, Some se) \<Longrightarrow> j \<noteq> key \<Longrightarrow> session_ok E xs j se) \<Longrightarrow> session_ok E xs key se \<Longrightarrow>
    sessions_ok E kv xs (srv\<lparr>rg_sessions := exp_modify K t0 key (\<lambda>_. se)\<rparr>)"
  by (fastforce simp: sessions_ok_def split: if_splits)

lemma keeps_put: "session_ok E xs key se \<Longrightarrow> keeps (\<lambda>_. True) (on_server (put_session K key se))"
  by (rule ensures_on_server) (fastforce simp: put_session_def sessions_ok_def split: if_splits)

lemma keeps_getSession:
  "keeps (\<lambda>(key, se). hex_decode X sessionId = Inr key \<and> (\<forall>s. se = Some s \<longrightarrow> session_ok E xs key s))
     (on_server (getSession X K now sessionId))"
proof (rule ensures_on_server)
  fix w :: "('s, 'i) registration_server" and a w'
  assume w: "sessions_ok E kv xs w" and "getSession X K now sessionId w = Inr (a, w')"
  then obtain key where "hex_decode X sessionId = Inr key" "a = (key, exp_get K now (rg_sessions w) key)" "w' = w"
    by (auto simp: getSession_def rmap_def split: sum.splits)
  then show "sessions_ok E kv xs w' \<and> (case a of (key, se) \<Rightarrow> hex_decode X sessionId = Inr key \<and> (\<forall>s. se = Some s \<longrightarrow> session_ok E xs key s))"
    using w get_ok [OF w] by simp
qed

lemma new_session_ok: "session_ok E xs key ((new_session phoneNumber)\<lparr>ss_id := i\<rparr>)"
  by (simp add: session_ok_def new_session_def)

lemma keeps_getSessionId:
  fixes KI :: "('i, bytes timed, bytes timed) kvlib"
  shows "keeps (\<lambda>(i, key, se). \<forall>s. se = Some s \<longrightarrow> session_ok E xs key s)
     (on_server (getSessionId A X K KI now randoms phoneNumber))"
proof (rule ensures_on_server)
  fix w :: "('s, 'i) registration_server" and a w'
  assume w: "sessions_ok E kv xs w" and r: "getSessionId A X K KI now randoms phoneNumber w = Inr (a, w')"
  then obtain num phone where num: "phoneToNum A phoneNumber = Inr num" "phoneNumber = Some phone"
    by (auto simp: getSessionId_def need_def split: option.splits sum.splits)
  show "sessions_ok E kv xs w' \<and> (case a of (i, key, se) \<Rightarrow> \<forall>s. se = Some s \<longrightarrow> session_ok E xs key s)"
  proof (cases "exp_get KI now (rg_phoneIndex w) num")
    case (Some i)
    then have "a = (i, i, exp_get K now (rg_sessions w) i)" "w' = w"
      using r num by (auto simp: getSessionId_def)
    then show ?thesis using w get_ok [OF w] by simp
  next
    case None
    let ?add = "\<lambda>i. exp_add K REG_DURATION now (rg_sessions w) i (Some (new_session phone))"
    obtain key t rest where l: "add_loop Inr ?add randoms = Inr (key, t, rest)"
      and a: "a = (hex_format X key, key, Some ((new_session phone)\<lparr>ss_id := Some (hex_format X key)\<rparr>))"
      and w': "w' = w\<lparr>rg_sessions := exp_modify K t key (\<lambda>_. (new_session phone)\<lparr>ss_id := Some (hex_format X key)\<rparr>),
          rg_phoneIndex := exp_set KI REG_DURATION now (rg_phoneIndex w) num (Some (hex_format X key))\<rparr>"
      using r num None by (auto simp: getSessionId_def Let_def)
    have t: "kv t = (kv (rg_sessions w))(key \<mapsto> (now + REG_DURATION, Some (new_session phone)))"
      using add_loop_Inr [OF l] exp_add by blast
    have "session_ok E xs j se" if "kv t j = Some (tm, Some se)" "j \<noteq> key" for j tm se
      using w that t by (auto simp: sessions_ok_def)
    from modify_ok [OF this new_session_ok] have "sessions_ok E kv xs w'"
      by (simp add: w' sessions_ok_def)
    then show ?thesis by (simp add: a new_session_ok)
  qed
qed

lemma keeps_connection: "keeps (\<lambda>_. True) (on_connection m)"
  by (rule ensures_on_connection)

lemma keeps_update:
  assumes "session_ok E xs key se"
  shows "keeps (\<lambda>_. True) (athen (on_server (put_session K key se)) (on_connection m))"
  using assms by (intro ensures_then keeps_put keeps_connection)

lemma keeps_with_session:
  assumes "\<And>key se. hex_decode (en_hex F) sessionId = Inr key \<Longrightarrow> session_ok E xs key se \<Longrightarrow> keeps (\<lambda>_. True) (f key se)"
  shows "keeps (\<lambda>_. True) (with_session F K ctxt sessionId f)"
  unfolding with_session_def
  proof (rule ensures_bind [OF keeps_getSession], clarsimp)
  fix key se
  assume "hex_decode (en_hex F) sessionId = Inr key" and "\<forall>s. se = Some s \<longrightarrow> session_ok E xs key s"
  then show "keeps (\<lambda>_. True) (case se of None \<Rightarrow> on_connection (respond (en_http F) ctxt (en_http F HTTP_NOT_FOUND) None None None)
      | Some session \<Rightarrow> f key session)"
    by (cases se) (simp_all add: keeps_connection assms)
qed

lemma keeps_new: "keeps (\<lambda>_. True) (postVerificationNewSession F K KI randoms random ctxt entity)"
  unfolding postVerificationNewSession_def
  apply (rule ensures_seq, rule ensures_lift, simp)
  apply (rule ensures_bind [OF keeps_getSessionId], clarsimp)
  apply (rule ensures_bind [where R = "session_ok E xs key" for key], rule ensures_lift)
   apply (simp add: need_def split: option.splits)
  apply (intro ensures_if keeps_connection ensures_seq [OF ensures_lift])
     apply simp_all
  unfolding Let_def
  apply (rule ensures_then, rule keeps_put, simp add: session_ok_def)
  apply (intro ensures_if keeps_connection ensures_then ensures_ret, simp)
  done

lemma keeps_get: "keeps (\<lambda>_. True) (getVerificationSession F K ctxt sessionId)"
  unfolding getVerificationSession_def
  by (rule keeps_with_session, rule ensures_bind [OF keeps_getSession]) (auto intro: keeps_connection)

lemma keeps_post_code: "keeps (\<lambda>_. True) (postVerificationSessionCode F K ctxt sessionId language entity)"
  unfolding postVerificationSessionCode_def Let_def
  by (rule keeps_with_session, rule keeps_update) (simp add: session_ok_def)

lemma keeps_put_code: "keeps (\<lambda>_. True) (putVerificationSessionCode F K ctxt sessionId entity)"
  unfolding putVerificationSessionCode_def Let_def
  by (rule keeps_with_session, rule keeps_update) (simp add: session_ok_def)

text \<open>The two steps that use what the input says.\<close>

lemma keeps_confirm:
  assumes "code = en_http F HTTP_OK \<Longrightarrow> confirmed E xs key chal" and "\<forall>s. se = Some s \<longrightarrow> session_ok E xs key s"
  shows "keeps (\<lambda>_. True)
    (if code = en_http F HTTP_OK then
       abind (alift (need se)) (\<lambda>session.
         let session = session\<lparr>ss_challenge := Some chal\<rparr>
         in athen (on_server (put_session K key session)) (aret (Some session)))
     else aret se)"
  using assms by (cases se) (auto simp: session_ok_def Let_def intro!: ensures_then keeps_put ensures_ret ensures_fail)

lemma keeps_sent:
  assumes "xs = pre @ [Challenge_sent ctxt sessionId chal code]" and "en_http F = en_http E" "en_hex F = en_hex E"
  shows "keeps (\<lambda>_. True) (fcmChallengeSent F K ctxt sessionId chal code)"
  unfolding fcmChallengeSent_def
  apply (rule ensures_bind [OF keeps_getSession], clarsimp simp only: prod.case)
  apply (rule ensures_seq, rule keeps_confirm)
  using assms
    apply (auto simp: confirmed_def) [2]
  apply (intro ensures_seq keeps_connection ensures_ret, simp)
  done

lemma keeps_patch:
  assumes "xs = pre @ [Patch_session ctxt sessionId entity]" and "en_hex F = en_hex E"
  shows "keeps (\<lambda>_. True) (patchVerificationSession F K ctxt sessionId entity)"
  unfolding patchVerificationSession_def Let_def
proof (rule keeps_with_session)
  fix key se
  assume k: "hex_decode (en_hex F) sessionId = Inr key" and se: "session_ok E xs key se"
  have conf: "confirmed E pre key c" if "confirmed E xs key c" for c
    using that assms(1) by (auto simp: confirmed_def)
  have "session_ok E xs key (accept_challenge chal se)" if "jfield_str ''pushChallenge'' entity = Inr chal" for chal
  proof (cases "chal \<noteq> None \<and> chal = ss_challenge se")
    case True
    then obtain c where c: "chal = Some c" "ss_challenge se = Some c" by auto
    then have "confirmed E pre key c" using se conf by (simp add: session_ok_def)
    then have "presented E xs key"
      unfolding presented_def using assms k that c(1) by force
    then show ?thesis using True by (simp add: accept_challenge_def session_ok_def)
  next
    case False
    then show ?thesis using se by (auto simp: accept_challenge_def)
  qed
  then show "keeps (\<lambda>_. True)
    (abind (alift (jfield_str ''pushChallenge'' entity)) (\<lambda>chal.
       athen (on_server (put_session K key (accept_challenge chal se)))
         (on_connection (respondVerification F ctxt (Some (accept_challenge chal se)) 0))))"
    by (intro ensures_bind [OF ensures_lift] keeps_update)
qed

lemma keeps_step:
  assumes "xs = pre @ [x]"
  shows "keeps (\<lambda>_. True) (session_step (E\<lparr>en_clock := clk\<rparr>) K KI x)"
proof (cases x)
  case (Challenge_sent ctxt sessionId chal code)
  then show ?thesis using keeps_sent [of pre ctxt sessionId chal code "E\<lparr>en_clock := clk\<rparr>"] assms by simp
next
  case (Patch_session ctxt sessionId entity)
  then show ?thesis
    using ensures_then [OF keeps_patch [of pre ctxt sessionId entity "E\<lparr>en_clock := clk\<rparr>"] ensures_ret, of "\<lambda>_. True" "()"] assms
    by simp
qed (simp_all add: ensures_then ensures_ret keeps_new keeps_get keeps_post_code keeps_put_code)

end

lemma session_step_ok:
  assumes "kvstore K kv" and "sessions_ok E kv xs srv"
  shows "sessions_ok E kv (xs @ [x]) (fst (fst (snd (session_step (E\<lparr>en_clock := clk\<rparr>) K KI x (srv, conn)))))"
proof -
  have "session_store K kv" by (intro session_store.intro expiring_store.intro assms(1))
  note step = ensuresD(1) [OF session_store.keeps_step [OF this refl]]
  show ?thesis
    using step [of E xs x "(srv, conn)"] sessions_ok_mono [OF assms(2), of "[x]"]
    by (metis (mono_tags, lifting) case_prod_conv case_prod_unfold prod.collapse)
qed

lemma session_run_ok:
  assumes "kvstore K kv" and "sessions_ok E kv xs srv"
  shows "sessions_ok E kv (xs @ map (snd \<circ> snd) ys) (session_run E K KI ys srv)"
  using assms(2)
proof (induction ys arbitrary: xs srv)
  case (Cons y ys)
  obtain clk conn x where y: "y = (clk, conn, x)" by (cases y) auto
  show ?case using Cons.IH [OF session_step_ok [OF assms(1) Cons.prems]] by (simp add: y)
qed simp

section \<open>Properties\<close>

text \<open>The handlers of codes, for a session that is there: neither looks at what the session has seen.\<close>

lemma session_run_append: "session_run E K KI (xs @ ys) srv = session_run E K KI ys (session_run E K KI xs srv)"
  by (induction E K KI xs srv rule: session_run.induct) simp_all

context session_store begin

lemma exp_get_put:
  assumes "exp_get K now (rg_sessions srv) key = Some se"
  shows "exp_get K now (exp_modify K (rg_sessions srv) key (\<lambda>_. se')) key = Some se'"
  using assms by (auto simp: exp_get seen_def fresh_value_def bind_eq_Some_conv split: if_splits)

lemma code_steps:
  assumes "exp_get K (fst clk) (rg_sessions srv) key = Some se" "hex_decode (en_hex F) i = Inr key"
  shows "exp_get K (fst clk) (rg_sessions (session_run F K KI [(clk, conn, Post_code ctxt i language entity)] srv)) key
      = Some (se\<lparr>ss_nextCode := True\<rparr>)"
    "exp_get K (fst clk) (rg_sessions (session_run F K KI [(clk, conn, Put_code ctxt i entity)] srv)) key
      = Some (se\<lparr>ss_acceptCode := False, ss_nextCode := False, ss_verified := True\<rparr>)"
  using assms exp_get_put [OF assms(1)]
  by (simp_all add: postVerificationSessionCode_def putVerificationSessionCode_def with_session_def getSession_def put_session_def
      action_simps Let_def abind_assoc)

end

text \<open>
  C2. In every run of the service, for any requests in any order and at any times, a session that
  reads as allowed to request a code is one whose challenge the push service delivered and a client
  presented afterwards.  But that is only what clients are told: a session that is there, whatever it
  has seen, lets a client request a code, and is verified by the next request that presents any code.
\<close>

theorem allowed_only_after_challenge:
  assumes "kvstore K kv"
    and "exp_get K (fst clk) (rg_sessions (session_run E K KI xs (registration_create K KI))) key = Some se"
    and "hex_decode (en_hex E) i = Inr key"
  shows "(ss_acceptCode se \<longrightarrow> presented E (map (snd \<circ> snd) xs) key)
    \<and> exp_get K (fst clk) (rg_sessions (session_run E K KI (xs @ [(clk, conn, Post_code ctxt i language entity)])
         (registration_create K KI))) key = Some (se\<lparr>ss_nextCode := True\<rparr>)
    \<and> exp_get K (fst clk) (rg_sessions (session_run E K KI (xs @ [(clk, conn, Post_code ctxt i language entity),
           (clk, conn', Put_code ctxt' i entity')]) (registration_create K KI))) key
        = Some (se\<lparr>ss_acceptCode := False, ss_nextCode := False, ss_verified := True\<rparr>)"
proof -
  have K: "session_store K kv" by (intro session_store.intro expiring_store.intro assms(1))
  have "sessions_ok E kv [] (registration_create K KI)"
    by (simp add: sessions_ok_def registration_create_def kvstore.new [OF assms(1)])
  from session_run_ok [OF assms(1) this, of xs KI]
  have "sessions_ok E kv (map (snd \<circ> snd) xs) (session_run E K KI xs (registration_create K KI))" by simp
  then have "session_ok E (map (snd \<circ> snd) xs) key se" by (rule session_store.get_ok [OF K _ assms(2)])
  moreover note post = session_store.code_steps(1) [OF K assms(2,3), of KI conn ctxt language entity]
  moreover note session_store.code_steps(2) [OF K post assms(3), of KI conn' ctxt' entity']
  ultimately show ?thesis
    by (simp add: session_ok_def session_run_append del: session_run.simps) (simp add: session_run_append [symmetric])
qed

text \<open>What a registered device and account keep.\<close>

lemma update_device_keeps:
  "update_device agent attr d = Inr d' \<Longrightarrow> dv_id d' = dv_id d \<and> dv_authToken d' = dv_authToken d \<and> dv_salt d' = dv_salt d"
  by (auto simp: update_device_def device_update_def updateCapabilities_def Let_def)

lemma update_account_keeps:
  "update_account B attr ac = Inr ac' \<Longrightarrow>
    ac_devices ac' = ac_devices ac \<and> ac_phoneNumber ac' = ac_phoneNumber ac \<and> ac_pni ac' = ac_pni ac"
  by (auto simp: update_account_def account_update_def Let_def)

lemma verify_own_password: "fst (verifyPassword X HKDF clk pw (Device X HKDF random clk0 i pw))"
  by (simp add: verifyPassword_def Device_def hash_token_def Let_def setLastSeen_def)

lemma verify_same_token:
  "dv_authToken d = dv_authToken d0 \<Longrightarrow> dv_salt d = dv_salt d0 \<Longrightarrow>
    fst (verifyPassword X HKDF clk pw d) = fst (verifyPassword X HKDF clk pw d0)"
  by (simp add: verifyPassword_def setLastSeen_def Let_def)

lemma postRegistration2_Inr:
  assumes "postRegistration2 E KP random randoms (Some phone) (Some pw) agent attr ps = Inr (account, ps')"
  obtains d p where "ac_devices account = [(1, d)]" "ac_phoneNumber account = Some phone" "ac_pni account = Some p"
    "pni_getId (en_asn E) KP randoms phone ps = Inr (p, ps')"
    "\<And>clk. fst (verifyPassword (en_hex E) (en_hkdf E) clk pw d)"
proof -
  let ?d0 = "Device (en_hex E) (en_hkdf E) random (en_clock E) 1 pw"
  obtain d p where d: "update_device agent attr ?d0 = Inr d"
    and p: "pni_getId (en_asn E) KP randoms phone ps = Inr (p, ps')"
    and ac: "update_account (en_base64 E) attr (Account (Some phone) (Some p) d) = Inr account"
    using assms by (auto simp: postRegistration2_def Let_def)
  note k = update_device_keeps [OF d] and a = update_account_keeps [OF ac]
  have "dv_id d = 1" using k by (simp add: Device_def Let_def hash_token_def setLastSeen_def)
  moreover have "fst (verifyPassword (en_hex E) (en_hkdf E) clk pw d)" for clk
    using verify_same_token [of d ?d0] k verify_own_password by metis
  ultimately show thesis using that [of d p] a p by (simp add: Account_def)
qed

text \<open>
  C1. An account that was registered is found under its phone number and its new ID, keeps the
  identity of that number, and lets its first device log in with the password that was chosen: a
  request with these credentials reaches its handler.
\<close>

theorem registered_account_logs_in:
  assumes "kvstore KA kva" "kvstore KI kvi" "accounts_inv (en_asn E) kva kvi srv"
    and "postRegistration2 E KP random randoms (Some phone) (Some pw) agent attr ps = Inr (account, ps')"
    and "postRegistration3 E KA KI randoms' account srv = Inr (account', srv')"
  shows "accounts_getByNumber (en_asn E) KA KI (Some phone) srv' = Inr (Some account')
    \<and> (\<exists>p. ac_pni account' = Some p \<and> pni_getId (en_asn E) KP randoms phone ps = Inr (p, ps'))
    \<and> (\<exists>i d. ac_id account' = Some i \<and> accounts_get KA i srv' = Some account'
        \<and> (\<forall>invoke ctxt args h. authCall (E\<lparr>en_accounts := \<lambda>i. accounts_get KA i srv'\<rparr>) invoke ctxt i 1 (Some pw) args h
             = athen (aemit (Device_seen (set_device d account') d))
                 (invoke (h_function h) ctxt (params h @ [V_account (set_device d account'), V_device d] @ args))))"
proof -
  obtain d p where r: "ac_devices account = [(1, d)]" "ac_phoneNumber account = Some phone" "ac_pni account = Some p"
      "pni_getId (en_asn E) KP randoms phone ps = Inr (p, ps')"
    and pw: "\<And>clk. fst (verifyPassword (en_hex E) (en_hkdf E) clk pw d)"
    by (rule postRegistration2_Inr [OF assms(4)]) blast
  note ok = accounts_add_ok [OF assms(1-3) assms(5) [unfolded postRegistration3_def]]
  then obtain i where i: "account' = setId i account" "accounts_get KA i srv' = Some account'" by auto
  have dev: "account_device 1 account' = Some d" by (simp add: i(1) setId_def account_device_def r(1))
  obtain d' where v: "verifyPassword (en_hex E) (en_hkdf E) (en_clock E) pw d = (True, d')"
    using pw [of "en_clock E"] by (cases "verifyPassword (en_hex E) (en_hkdf E) (en_clock E) pw d") simp
  have call: "authCall (E\<lparr>en_accounts := \<lambda>i. accounts_get KA i srv'\<rparr>) invoke ctxt i 1 (Some pw) args h
      = athen (aemit (Device_seen (set_device d' account') d'))
          (invoke (h_function h) ctxt (params h @ [V_account (set_device d' account'), V_device d'] @ args))"
    for invoke ctxt args h
    by (subst authCall_def) (simp add: i(2) dev v Let_def)
  have "accounts_getByNumber (en_asn E) KA KI (Some phone) srv' = Inr (Some account')"
    using ok by (simp add: r(2))
  moreover have "ac_pni account' = Some p" "ac_id account' = Some i" by (simp_all add: i(1) setId_def r(3))
  ultimately show ?thesis using r(4) i(2) call by blast
qed

text \<open>
  C37. A second request for a session for the same number, while the first one lasts, raises an error:
  the session is looked up under the hexadecimal text of its ID, but was stored under the ID itself.
\<close>

theorem second_session_request_fails:
  assumes "kvstore K kvk" "kvstore KI kvi" "hex_library (en_hex E)"
    and keys: "\<And>key. kvk (rg_sessions srv) key \<noteq> None \<Longrightarrow> length key = 16" "\<And>r. r \<in> set randoms \<Longrightarrow> length r = 16"
    and number: "jfield_str ''number'' entity = Inr (Some phone)" "phoneToNum (en_asn E) (Some phone) = Inr num"
    and no_session: "seen (fst (en_clock E)) (kvi (rg_phoneIndex srv)) num = None"
    and first: "postVerificationNewSession E K KI randoms random ctxt entity (srv, conn) = (Inr code, (srv', conn'), evs)"
    and later: "fst clk = fst (en_clock E) + elapsed" "elapsed < REG_DURATION"
  shows "postVerificationNewSession (E\<lparr>en_clock := clk\<rparr>) K KI randoms' random' ctxt' entity (srv', conn2)
      = (Inl Bad_argument, (srv', conn2), [])"
proof -
  let ?now = "fst (en_clock E)"
  let ?add = "\<lambda>i. exp_add K REG_DURATION ?now (rg_sessions srv) i (Some (new_session phone))"
  have K: "expiring_store K kvk" and KI: "expiring_store KI kvi"
    by (rule expiring_store.intro, rule assms(1,2))+
  have get: "exp_get KI ?now (rg_phoneIndex srv) num = None"
    using no_session by (simp add: expiring_store.exp_get [OF KI])
  have new: "\<exists>key t rest. add_loop Inr ?add randoms = Inr (key, t, rest)"
    using first number get
    by (cases "add_loop Inr ?add randoms")
      (auto simp: postVerificationNewSession_def getSessionId_def action_simps abind_def Let_def)
  then obtain key t rest where l: "add_loop Inr ?add randoms = Inr (key, t, rest)" by blast
  let ?id = "hex_format (en_hex E) key"
  let ?se = "(new_session phone)\<lparr>ss_id := Some ?id\<rparr>"
  let ?t = "exp_modify K t key (\<lambda>_. ?se)"
  have srv': "rg_phoneIndex srv' = exp_set KI REG_DURATION ?now (rg_phoneIndex srv) num (Some ?id)"
    "\<exists>se. rg_sessions srv' = ?t \<or> rg_sessions srv' = exp_modify K ?t key (\<lambda>_. se)"
    using first number get l
    by (auto simp: postVerificationNewSession_def getSessionId_def action_simps abind_def Let_def put_session_def new_session_def
        split: if_splits sum.splits prod.splits)
  have "length key = 16" using add_loop_Inr [OF l] keys(2) by auto
  then have len: "length ?id = 32" using hex_library.length_format [OF assms(3)] by simp
  have "kvk (rg_sessions srv) ?id = None" using keys(1) [of ?id] len by (cases "kvk (rg_sessions srv) ?id = None") auto
  moreover have "?id \<noteq> key" using len \<open>length key = 16\<close> by auto
  moreover have "kvk t = (kvk (rg_sessions srv))(key \<mapsto> (?now + REG_DURATION, Some (new_session phone)))"
    using add_loop_Inr [OF l] expiring_store.exp_add [OF K] by blast
  ultimately have "kvk (rg_sessions srv') ?id = None"
    using srv'(2) expiring_store.exp_modify [OF K] by auto
  then have se: "exp_get K (fst clk) (rg_sessions srv') ?id = None"
    by (simp add: expiring_store.exp_get [OF K] seen_def)
  have "unat (REG_DURATION) < 2 ^ 31" "unat elapsed < 2 ^ 31"
    using later(2) by (simp_all add: REG_DURATION_def word_less_nat_alt)
  then have "exp_get KI (fst clk) (rg_phoneIndex srv') num = Some ?id"
    using later by (simp add: srv'(1) expiring_store.exp_get [OF KI] expiring_store.exp_set [OF KI] seen_def fresh_value_elapsed)
  then have "getSessionId (en_asn E) (en_hex E) K KI (fst clk) randoms' (Some phone) srv' = Inr ((?id, ?id, None), srv')"
    using number(2) se by (simp add: getSessionId_def)
  then show ?thesis
    by (simp add: postVerificationNewSession_def number(1) abind_on afail_run)
qed

section \<open>Sample runs\<close>

definition sample_new :: json where
  "sample_new = jobj [(''number'', JStr sample_phone), (''pushToken'', JStr [9]), (''pushTokenType'', JStr (str ''fcm''))]"

definition sample_inputs :: "(clock \<times> nat rest_server \<times> session_input) list" where
  "sample_inputs =
     [((0, (0, 0)), sample_conn, New_session [replicate 16 1] [7] None sample_new),
      ((0, (0, 0)), sample_conn, Challenge_sent None (hex_format std_hex (replicate 16 1)) [7] 200),
      ((0, (0, 0)), sample_conn, Patch_session None (hex_format std_hex (replicate 16 1)) (jobj [(''pushChallenge'', JStr [7])]))]"

definition sample_registration :: "nat \<Rightarrow> (bytes \<Rightarrow> session timed option, bytes \<Rightarrow> bytes timed option) registration_server" where
  "sample_registration n =
     session_run (sample_env (Api None []) (\<lambda>_. None)) std_kv std_kv (take n sample_inputs) (registration_create std_kv std_kv)"

lemma sample_registration_start:
  "\<exists>num. phoneToNum std_asn_lib (Some sample_phone) = Inr num
   \<and> sample_registration 1 = \<lparr>rg_sessions = [replicate 16 1 \<mapsto> (REG_DURATION, Some ((new_session sample_phone)
         \<lparr>ss_id := Some (hex_format std_hex (replicate 16 1)), ss_pushToken := Some [9]\<rparr>))],
       rg_phoneIndex = [num \<mapsto> (REG_DURATION, Some (hex_format std_hex (replicate 16 1)))]\<rparr>"
proof -
  obtain num where num: "phoneToNum std_asn_lib (Some sample_phone) = Inr num" using sample_num by blast
  show ?thesis
    by (simp add: num sample_registration_def sample_inputs_def sample_new_def sample_env_def registration_create_def postVerificationNewSession_def
        getSessionId_def jobj_def jfield_str_def jfield_def jstr_def action_simps put_session_def
        exp_get_def exp_add_def exp_modify_def exp_set_def std_kv_def new_session_def Let_def abind_assoc)
qed

lemma sample_registration_all:
  "rg_sessions (sample_registration 3) = [replicate 16 1 \<mapsto> (REG_DURATION, Some ((new_session sample_phone)
     \<lparr>ss_id := Some (hex_format std_hex (replicate 16 1)), ss_pushToken := Some [9], ss_acceptCode := True\<rparr>))]"
  using sample_registration_start
  by (auto simp: sample_registration_def sample_inputs_def sample_new_def sample_env_def sample_http_def fcmChallengeSent_def patchVerificationSession_def with_session_def
      getSession_def jobj_def jfield_str_def jfield_def jstr_def action_simps put_session_def accept_challenge_def
      exp_get_def exp_keyValue_def exp_modify_def std_kv_def new_session_def Let_def abind_assoc std_hex.decode_format REG_DURATION_def)

text \<open>
  The session of the sample was shown its challenge; one that only was made is verified all the same.
\<close>

theorem allowed_only_after_challenge_witness:
  "presented (sample_env (Api None []) (\<lambda>_. None)) (map (snd \<circ> snd) sample_inputs) (replicate 16 1)
  \<and> \<not> presented (sample_env (Api None []) (\<lambda>_. None)) (map (snd \<circ> snd) (take 1 sample_inputs)) (replicate 16 1)
  \<and> exp_get std_kv 0 (rg_sessions (session_run (sample_env (Api None []) (\<lambda>_. None)) std_kv std_kv
        (take 1 sample_inputs @ [((0, (0, 0)), sample_conn, Post_code None (hex_format std_hex (replicate 16 1)) None JNil),
           ((0, (0, 0)), sample_conn, Put_code None (hex_format std_hex (replicate 16 1)) JNil)])
        (registration_create std_kv std_kv))) (replicate 16 1)
      = Some ((new_session sample_phone)\<lparr>ss_id := Some (hex_format std_hex (replicate 16 1)), ss_pushToken := Some [9],
          ss_verified := True\<rparr>)"
proof -
  let ?E = "sample_env (Api None []) (\<lambda>_. None)" and ?key = "replicate 16 (1 :: byte)" and ?clk = "(0, (0, 0)) :: clock"
  let ?new = "(new_session sample_phone)\<lparr>ss_id := Some (hex_format std_hex ?key), ss_pushToken := Some [9]\<rparr>"
  have run: "sample_registration n = session_run ?E std_kv std_kv (take n sample_inputs) (registration_create std_kv std_kv)" for n
    by (simp add: sample_registration_def)
  have hex: "hex_decode (en_hex ?E) (hex_format std_hex ?key) = Inr ?key" by (simp add: sample_env_def std_hex.decode_format)
  obtain num where "rg_sessions (sample_registration 1) = [?key \<mapsto> (REG_DURATION, Some ?new)]"
    using sample_registration_start by auto
  then have "exp_get std_kv (fst ?clk) (rg_sessions (session_run ?E std_kv std_kv (take 1 sample_inputs)
      (registration_create std_kv std_kv))) ?key = Some ?new"
    unfolding run by (simp add: exp_get_def std_kv_def exp_keyValue_def REG_DURATION_def)
  note 1 = allowed_only_after_challenge [OF std_kv.kvstore_axioms this hex]
  have "exp_get std_kv (fst ?clk) (rg_sessions (session_run ?E std_kv std_kv (take 3 sample_inputs)
      (registration_create std_kv std_kv))) ?key = Some (?new\<lparr>ss_acceptCode := True\<rparr>)"
    using sample_registration_all unfolding run by (simp add: exp_get_def std_kv_def exp_keyValue_def REG_DURATION_def)
  note 3 = conjunct1 [OF allowed_only_after_challenge [OF std_kv.kvstore_axioms this hex]]
  have all: "take 3 sample_inputs = sample_inputs" by (simp add: sample_inputs_def)
  have "presented ?E (map (snd \<circ> snd) sample_inputs) ?key" using 3 unfolding all by simp
  moreover have "\<not> presented ?E (map (snd \<circ> snd) (take 1 sample_inputs)) ?key"
    by (auto simp: presented_def sample_inputs_def Cons_eq_append_conv)
  moreover have "(?new\<lparr>ss_acceptCode := False, ss_nextCode := False, ss_verified := True\<rparr>)
      = (new_session sample_phone)\<lparr>ss_id := Some (hex_format std_hex ?key), ss_pushToken := Some [9], ss_verified := True\<rparr>"
    by (simp add: new_session_def)
  ultimately show ?thesis using conjunct2 [OF conjunct2 [OF 1]] by simp
qed

lemma sample_first:
  "postVerificationNewSession (sample_env (Api None []) (\<lambda>_. None)) std_kv std_kv [replicate 16 1] [7] None sample_new
     (registration_create std_kv std_kv, sample_conn)
   = (Inr 0, (sample_registration 1, sample_conn),
      [Send_challenge [9] (hex_format std_hex [7]) None (hex_format std_hex (replicate 16 1))])"
proof -
  obtain num where num: "phoneToNum std_asn_lib (Some sample_phone) = Inr num" using sample_num by blast
  show ?thesis
    by (simp add: num sample_registration_def sample_inputs_def sample_new_def sample_env_def registration_create_def
        postVerificationNewSession_def getSessionId_def jobj_def jfield_str_def jfield_def jstr_def action_simps
        put_session_def exp_get_def exp_add_def exp_modify_def exp_set_def std_kv_def new_session_def Let_def abind_assoc)
qed

theorem second_session_request_fails_witness:
  "\<exists>srv. postVerificationNewSession (sample_env (Api None []) (\<lambda>_. None)) std_kv std_kv [replicate 16 1] [7] None sample_new
      (registration_create std_kv std_kv, sample_conn) = (Inr 0, (srv, sample_conn),
        [Send_challenge [9] (hex_format std_hex [7]) None (hex_format std_hex (replicate 16 1))])
    \<and> postVerificationNewSession ((sample_env (Api None []) (\<lambda>_. None))\<lparr>en_clock := (60, (60, 0))\<rparr>) std_kv std_kv [] [8] None sample_new
        (srv, sample_conn) = (Inl Bad_argument, (srv, sample_conn), [])"
proof -
  let ?E = "sample_env (Api None []) (\<lambda>_. None)"
  obtain num where num: "phoneToNum std_asn_lib (Some sample_phone) = Inr num" using sample_num by blast
  have hex: "hex_library (en_hex ?E)" by (simp add: sample_env_def std_hex.hex_library_axioms)
  have "postVerificationNewSession (?E\<lparr>en_clock := (60, (60, 0))\<rparr>) std_kv std_kv [] [8] None sample_new (sample_registration 1, sample_conn)
      = (Inl Bad_argument, (sample_registration 1, sample_conn), [])"
    by (rule second_session_request_fails [OF std_kv.kvstore_axioms std_kv.kvstore_axioms hex _ _ _ _ _ sample_first,
          where elapsed = 60 and num = num and phone = sample_phone])
      (simp_all add: num sample_env_def sample_new_def jobj_def jfield_str_def jfield_def jstr_def registration_create_def std_kv_def
        seen_def REG_DURATION_def)
  then show ?thesis using sample_first by blast
qed

definition sample_attributes :: json where
  "sample_attributes =
     (let flags = map (\<lambda>k. (k, JInt 1)) in
      jobj (flags [''registrationId'', ''fetchesMessages'', ''discoverableByPhoneNumber'', ''pniRegistrationId'',
            ''unrestrictedUnidentifiedAccess'', ''video'', ''voice'']
        @ [(''unidentifiedAccessKey'', JStr [1]),
           (''capabilities'', jobj (flags [''announcementGroup'', ''changeNumber'', ''giftBadges'', ''paymentActivation'',
              ''pni'', ''senderKey'', ''storage'', ''stories'', ''uuid'']))]))"

theorem registered_account_logs_in_witness:
  "\<exists>account ps account' srv i.
     postRegistration2 (sample_env (Api None []) (\<lambda>_. None)) std_kv [] [replicate 16 1] (Some sample_phone) (Some [7]) None
       sample_attributes (pni_create std_kv) = Inr (account, ps)
   \<and> postRegistration3 (sample_env (Api None []) (\<lambda>_. None)) std_kv std_kv [replicate 16 2] account (accounts_create std_kv std_kv)
       = Inr (account', srv)
   \<and> accounts_getByNumber std_asn_lib std_kv std_kv (Some sample_phone) srv = Inr (Some account')
   \<and> ac_id account' = Some i \<and> accounts_get std_kv i srv = Some account'"
proof -
  let ?E = "sample_env (Api None []) (\<lambda>_. None)"
  obtain num where num: "phoneToNum std_asn_lib (Some sample_phone) = Inr num" using sample_num by blast
  obtain p where "uuid_generate (replicate 16 1) = Inr p" using sample_uuid by blast
  then have "\<exists>ps. pni_getId std_asn_lib std_kv [replicate 16 1] sample_phone (pni_create std_kv) = Inr (p, ps)"
    using num by (simp add: pni_getId_def pni_add_def pni_create_def std_add std_new std_get)
  then obtain ps where p: "pni_getId std_asn_lib std_kv [replicate 16 1] sample_phone (pni_create std_kv) = Inr (p, ps)" ..
  obtain account where r: "postRegistration2 ?E std_kv [] [replicate 16 1] (Some sample_phone) (Some [7]) None
       sample_attributes (pni_create std_kv) = Inr (account, ps)" "ac_phoneNumber account = Some sample_phone"
    using p by (simp add: postRegistration2_def sample_env_def update_device_def update_account_def read_capabilities_def
        sample_attributes_def jobj_def jfield_int_def jfield_str_def jfield_def jint_def jstr_def Let_def
        account_update_def Account_def)
  obtain i where "uuid_generate (replicate 16 2) = Inr i"
    by (auto simp: uuid_generate_def)
  then obtain account' srv where a: "postRegistration3 ?E std_kv std_kv [replicate 16 2] account (accounts_create std_kv std_kv)
       = Inr (account', srv)"
    using num r(2) by (simp add: postRegistration3_def sample_env_def accounts_add_def accounts_create_def std_add std_new setId_def Let_def)
  have inv: "accounts_inv (en_asn ?E) id id (accounts_create std_kv std_kv)"
    using sample_inv by (simp add: sample_env_def)
  show ?thesis
    using registered_account_logs_in [OF std_kv.kvstore_axioms std_kv.kvstore_axioms inv r(1) a] r a
    by (auto simp: sample_env_def)
qed

end
