(* ===== verification/Handlers.thy ===== *)
theory Handlers
  imports RegistrationSpec
begin

text \<open>
  Handlers of the chat service that change an account or a device.  A handler is given both as objects,
  which the account server holds, too: a change of them is a change of the account in its store, under
  the ID of the account.  \<open>KA\<close> is the tree of the accounts.
\<close>

type_synonym ('a, 'i, 'o, 'z, 'r) account_action =
  "(('a, 'i) account_server \<times> ('o, 'z) rest_server_scheme, 'o server_event, 'r) action"

definition on_account ::
    "('a, account, account) kvlib \<Rightarrow> account \<Rightarrow> (account \<Rightarrow> account) \<Rightarrow> ('a, 'i, 'o, 'z, unit) account_action" where
  "on_account KA account f =
     abind (alift (need (ac_id account))) (\<lambda>i. on_server (\<lambda>srv. Inr ((), accounts_modify KA i f srv)))"

definition change_device :: "lpcint \<Rightarrow> (device \<Rightarrow> device) \<Rightarrow> account \<Rightarrow> account" where
  "change_device deviceId f ac =
     (case account_device deviceId ac of None \<Rightarrow> ac | Some d \<Rightarrow> set_device (f d) ac)"

definition on_device ::
    "('a, account, account) kvlib \<Rightarrow> account \<Rightarrow> device \<Rightarrow> (device \<Rightarrow> device) \<Rightarrow> ('a, 'i, 'o, 'z, unit) account_action" where
  "on_device KA account device f = on_account KA account (change_device (dv_id device) f)"

text \<open>A call of a server that is not a part of an account: its state is that of the server alone.\<close>

definition on_store :: "('w \<Rightarrow> ('r \<times> 'w) result) \<Rightarrow> ('w, 'e, 'r) action" where
  "on_store f = (\<lambda>w. case f w of Inl e \<Rightarrow> (Inl e, w, []) | Inr (r, w) \<Rightarrow> (Inr r, w, []))"

lemma on_store_run [action_simps]:
  "on_store f w = (case f w of Inl e \<Rightarrow> (Inl e, w, []) | Inr (r, w) \<Rightarrow> (Inr r, w, []))"
  by (simp add: on_store_def)

lemma abind_on_store [action_simps]:
  "abind (on_store f) g w = (case f w of Inl e \<Rightarrow> (Inl e, w, []) | Inr (r, w) \<Rightarrow> g r w)"
  by (simp add: abind_def on_store_def split: sum.split prod.split)

text \<open>A response without entity, of a function that returns nothing.\<close>

definition answer_plain :: "env \<Rightarrow> bytes option \<Rightarrow> http_status \<Rightarrow> (('o, 'z) rest_server_scheme, 'o server_event, unit) action" where
  "answer_plain E ctxt code = abind (respond (en_http E) ctxt (en_http E code) None None None) (\<lambda>_. aret ())"

lemma jstr_jopt [simp]: "jstr (jopt v) = Inr v"
  by (simp add: jstr_def jopt_def split: option.split)

lemma json_args [simp]: "jint (JInt i) = Inr i" "jstr (JStr s) = Inr (Some s)"
  by (simp_all add: jint_def jstr_def)

lemma abind_on_connection:
  "abind (on_connection m) g (w, s) =
     (case m s of (Inl e, t, ev) \<Rightarrow> (Inl e, (w, t), ev)
      | (Inr a, t, ev) \<Rightarrow> (case g a (w, t) of (r, u, ev') \<Rightarrow> (r, u, ev @ ev')))"
  by (simp add: abind_def on_connection_def split: prod.split sum.split)

lemma on_account_run:
  "ac_id account = Some i \<Longrightarrow> on_account KA account f (srv, s) = (Inr (), (accounts_modify KA i f srv, s), [])"
  by (simp add: on_account_def on_server_def)

lemma abind_on_account:
  "ac_id account = Some i \<Longrightarrow> abind (on_account KA account f) g (srv, s) = g () (accounts_modify KA i f srv, s)"
  by (simp add: abind_def on_account_run split: prod.split)

lemma abind_on_device:
  "ac_id account = Some i \<Longrightarrow>
     abind (on_device KA account device f) g (srv, s) = g () (accounts_modify KA i (change_device (dv_id device) f) srv, s)"
  by (simp add: on_device_def abind_on_account)

lemma change_device_other: "e \<noteq> dv_id (f d) \<Longrightarrow> account_device deviceId ac = Some d \<Longrightarrow>
   account_device e (change_device deviceId f ac) = account_device e ac"
  by (simp add: change_device_def account_device_def set_device_def AList.update_conv')

lemma change_device_same: "account_device deviceId ac = Some d \<Longrightarrow> dv_id (f d) = deviceId \<Longrightarrow>
   account_device deviceId (change_device deviceId f ac) = Some (f d)"
  by (simp add: change_device_def account_device_def set_device_def AList.update_conv')

lemma change_device_keeps [simp]:
  "ac_id (change_device i f ac) = ac_id ac" "ac_phoneNumber (change_device i f ac) = ac_phoneNumber ac"
  "ac_pni (change_device i f ac) = ac_pni ac" "ac_identityKey (change_device i f ac) = ac_identityKey ac"
  by (simp_all add: change_device_def set_device_def split: option.split)

lemma accounts_get_modify:
  assumes "kvstore KA kv"
  shows "accounts_get KA i (accounts_modify KA i f srv) = map_option f (accounts_get KA i srv)"
    "i \<noteq> j \<Longrightarrow> accounts_get KA i (accounts_modify KA j f srv) = accounts_get KA i srv"
  by (simp_all add: accounts_get_def accounts_modify_def kvstore.get [OF assms] kvstore.modify [OF assms])

text \<open>An account with its first device and a server that holds it, for the witnesses.\<close>

definition sample_owner :: account where
  "sample_owner = (Account None None sample_device)\<lparr>ac_id := Some [1]\<rparr>"

definition sample_accounts :: "(bytes \<rightharpoonup> account, bytes \<rightharpoonup> bytes) account_server" where
  "sample_accounts = (accounts_create std_kv std_kv)\<lparr>as_accounts := [[1] \<mapsto> sample_owner]\<rparr>"

lemma sample_owner_simps [simp]:
  "ac_id sample_owner = Some [1]" "account_device 1 sample_owner = Some sample_device" "dv_id sample_device = 1"
  "as_accounts sample_accounts = [[1] \<mapsto> sample_owner]"
  by (simp_all add: sample_owner_def sample_accounts_def Account_def sample_device_def Device_def account_device_def
      setLastSeen_def split_def Let_def)

end
