(* ===== verification/OfflineSpec.thy ===== *)
theory OfflineSpec
  imports DeliverySpec Handlers
begin

text \<open>
  Messages for devices that are not connected: the sending of \<^verbatim>\<open>services/lib/chat/Messages.c\<close> together
  with the mail boxes of \<^verbatim>\<open>sys/messages.c\<close>.
\<close>

text \<open>A message of a request: its type, its content and the device it is for.\<close>

type_synonym outgoing = "lpcint \<times> bytes \<times> lpcint"

definition message_json :: "outgoing \<Rightarrow> json" where
  "message_json = (\<lambda>(ty, content, d).
     jobj [(''type'', JInt ty), (''content'', JStr content), (''destinationDeviceId'', JInt d)])"

definition outgoing_device :: "outgoing \<Rightarrow> lpcint" where
  "outgoing_device m = snd (snd m)"

definition sendable :: "base64_lib \<Rightarrow> account \<Rightarrow> (lpcint \<Rightarrow> 'o option) \<Rightarrow> outgoing \<Rightarrow> bool" where
  "sendable B account present m \<longleftrightarrow>
     present (outgoing_device m) = None \<and> account_device (outgoing_device m) account \<noteq> None
   \<and> (\<exists>x. b64_decode B (fst (snd m)) = Inr x)"

text \<open>What is asked of others for the envelope of a message: a notification, and to keep the envelope.\<close>

definition kept :: "account \<Rightarrow> lpcint \<Rightarrow> 'o envelope \<times> outgoing \<Rightarrow> 'o server_event list" where
  "kept account urgent = (\<lambda>(e, m).
     [Notify (dv_gcmId (the (account_device (outgoing_device m) account))) urgent, Stack [e]])"

lemma make_envelope_ok:
  assumes "uuid_generate random = Inr g" "b64_decode B (fst (snd m)) = Inr x"
  shows "\<exists>e. make_envelope B random clk this src dev ts dest deviceId urgent (message_json m) = Inr (e, outgoing_device m)
    \<and> ev_destinationId e = dest \<and> ev_destinationDeviceId e = deviceId"
  using assms
  by (cases m) (simp add: make_envelope_def message_json_def outgoing_device_def jfield_int_def jfield_str_def jfield_def jobj_def
      need_def Envelope_def str_def)

lemma put_loop_offline:
  assumes "length randoms = length ms" "\<forall>r\<in>set randoms. \<exists>g. uuid_generate r = Inr g"
    and "\<forall>m\<in>set ms. sendable B account present m"
  shows "\<exists>es. put_loop B clk this present account src dev ts urgent deviceId Map.empty (zip randoms (map message_json ms))
      = (concat (map (kept account urgent) (zip es ms)), None)
    \<and> length es = length ms \<and> (\<forall>e\<in>set es. ev_destinationId e = ac_id account)
    \<and> map ev_destinationDeviceId es = take (length ms) (deviceId # map outgoing_device ms)"
  using assms
proof (induction ms arbitrary: randoms deviceId)
  case (Cons m ms)
  obtain r rs where rs: "randoms = r # rs" using Cons.prems(1) by (cases randoms) simp_all
  obtain g x where gx: "uuid_generate r = Inr g" "b64_decode B (fst (snd m)) = Inr x"
    using Cons.prems(2,3) by (auto simp: rs sendable_def)
  obtain e where e: "make_envelope B r clk this src dev ts (ac_id account) deviceId urgent (message_json m) = Inr (e, outgoing_device m)"
    "ev_destinationId e = ac_id account" "ev_destinationDeviceId e = deviceId"
    using make_envelope_ok [OF gx, of clk this src dev ts "ac_id account" deviceId urgent] by blast
  obtain d where d: "present (outgoing_device m) = None" "account_device (outgoing_device m) account = Some d"
    using Cons.prems(3) by (auto simp: sendable_def)
  obtain es where es: "put_loop B clk this present account src dev ts urgent (outgoing_device m) Map.empty (zip rs (map message_json ms))
      = (concat (map (kept account urgent) (zip es ms)), None)"
    "length es = length ms" "\<forall>e\<in>set es. ev_destinationId e = ac_id account"
    "map ev_destinationDeviceId es = take (length ms) (outgoing_device m # map outgoing_device ms)"
    using Cons.IH [of rs "outgoing_device m"] Cons.prems by (auto simp: rs)
  show ?case
    by (intro exI [of _ "e # es"]) (simp add: rs e d es kept_def)
qed simp

section \<open>Properties\<close>

text \<open>
  C13. Messages for devices that are not connected are answered with success, but the envelope of each
  is addressed to the device of the message before it, the first one to the device 0, which no account
  has.  The message server keeps it in the mail box of that device: the mail box of the device that the
  first message was for stays as it was.
\<close>

theorem offline_message_misfiled:
  assumes "message_stores KM kvm KB kvb" "ac_id account = Some i"
    and "length randoms = length ms" "\<forall>r\<in>set randoms. \<exists>g. uuid_generate r = Inr g"
    and "\<forall>m\<in>set ms. sendable B account (present i) m" "ms \<noteq> []"
  shows "\<exists>es. putMessages2 B H clk this present randoms ctxt (Some account) src dev (map message_json ms) ts urgent
      = (concat (map (kept account urgent) (zip es ms)), Inr (respond_json ctxt (H HTTP_OK) (jobj [(''needsSync'', jbool False)])))
    \<and> map ev_destinationDeviceId es = take (length ms) (0 # map outgoing_device ms)
    \<and> (\<forall>srv now. messages_inv kvm kvb srv \<and> kvm (ms_messages srv) (ev_guid (hd es)) = None \<longrightarrow>
        (\<exists>srv'. messages_stack KM KB now [hd es] srv = Inr srv'
          \<and> (\<forall>d. mailbox kvm kvb now (device_key d i) srv' =
                mailbox kvm kvb now (device_key d i) srv @ (if d = 0 then [hd es] else []))))"
proof -
  obtain es where es: "put_loop B clk this (present i) account src dev ts urgent 0 Map.empty (zip randoms (map message_json ms))
      = (concat (map (kept account urgent) (zip es ms)), None)"
    "length es = length ms" "\<forall>e\<in>set es. ev_destinationId e = ac_id account"
    "map ev_destinationDeviceId es = take (length ms) (0 # map outgoing_device ms)"
    using put_loop_offline [OF assms(3-5)] by blast
  obtain e es' where e: "es = e # es'" using es(2) assms(6) by (cases es) auto
  have d: "ev_destinationId e = Some i" "ev_destinationDeviceId e = 0"
    using es(3,4) assms(2,6) by (auto simp: e take_Cons split: nat.splits)
  have "\<exists>srv'. messages_stack KM KB now [hd es] srv = Inr srv'
      \<and> (\<forall>d. mailbox kvm kvb now (device_key d i) srv' = mailbox kvm kvb now (device_key d i) srv @ (if d = 0 then [hd es] else []))"
    if inv: "messages_inv kvm kvb srv" "kvm (ms_messages srv) (ev_guid (hd es)) = None" for srv now
  proof -
    have k: "message_stores.stack_key [e] (device_key 0 i)"
      using d by (simp add: message_stores.stack_key_def [OF assms(1)])
    obtain srv' where s: "messages_stack KM KB now [e] srv = Inr srv'"
      "\<And>elapsed j. unat elapsed < 2 ^ 31 \<Longrightarrow> mailbox kvm kvb (now + elapsed) j srv'
        = mailbox kvm kvb (now + elapsed) j srv @ (if j = device_key 0 i \<and> elapsed < MSG_DURATION then [e] else [])"
      using message_stores.stack_ok [OF assms(1) k inv(1), of now] inv(2) by (auto simp: e)
    have "device_key d i = device_key 0 i \<longleftrightarrow> d = 0" for d by (simp add: device_key_def)
    then show ?thesis using s(1) s(2) [of 0] by (simp add: e MSG_DURATION_def)
  qed
  then show ?thesis
    using es(1,4) assms(2) by (intro exI [of _ es]) (simp add: putMessages2_def)
qed

theorem offline_message_misfiled_witness:
  "\<exists>e. putMessages2 (en_base64 (sample_env (Api None []) (\<lambda>_. None))) (\<lambda>_. 200) (0, (0, 0)) (3 :: nat) (\<lambda>_ _. None) [replicate 16 1] None
        (Some sample_owner) (Some [2]) 1 [message_json (1, [5], 1)] \<lparr>ts_time = 0, ts_ms = 0\<rparr> 0
      = ([Notify (dv_gcmId sample_device) 0, Stack [e]], Inr (respond_json None 200 (jobj [(''needsSync'', jbool False)])))
    \<and> ev_destinationDeviceId e = 0"
proof -
  let ?B = "en_base64 (sample_env (Api None []) (\<lambda>_. None))"
  have s: "\<forall>m\<in>set [(1, [5], 1)]. sendable ?B sample_owner (\<lambda>_. None :: nat option) m"
    by (simp add: sendable_def outgoing_device_def sample_env_def)
  have l: "ac_id sample_owner = Some [1]" "length [replicate 16 (1 :: byte)] = length [(1 :: lpcint, [5 :: byte], 1 :: lpcint)]"
    "[(1 :: lpcint, [5 :: byte], 1 :: lpcint)] \<noteq> []" by simp_all
  have r: "\<forall>r\<in>set [replicate 16 (1 :: byte)]. \<exists>g. uuid_generate r = Inr g" using sample_uuid by simp
  obtain es where es: "putMessages2 ?B (\<lambda>_. 200) (0, (0, 0)) (3 :: nat) (\<lambda>_ _. None) [replicate 16 1] None
        (Some sample_owner) (Some [2]) 1 (map message_json [(1, [5], 1)]) \<lparr>ts_time = 0, ts_ms = 0\<rparr> 0
      = (concat (map (kept sample_owner 0) (zip es [(1, [5], 1)])), Inr (respond_json None 200 (jobj [(''needsSync'', jbool False)])))"
    "map ev_destinationDeviceId es = take (length [(1 :: lpcint, [5 :: byte], 1 :: lpcint)]) (0 # map outgoing_device [(1, [5], 1)])"
    using offline_message_misfiled [OF std_messages.message_stores_axioms l(1,2) r s l(3), of "\<lambda>_. 200" "(0, (0, 0))" 3 None
        "Some [2]" 1 "\<lparr>ts_time = 0, ts_ms = 0\<rparr>" 0] by blast
  then obtain e where "es = [e]" "ev_destinationDeviceId e = 0" by auto
  then show ?thesis using es(1) by (simp add: kept_def outgoing_device_def)
qed

end
