(* ===== verification/EndToEnd.thy ===== *)
theory EndToEnd
  imports OfflineSpec
begin

text \<open>
  A message on its whole way: from the request of the sender, through the endpoint of a device that is
  connected and the messages of its WebSocket, to the client; and the receipt on its way back.
\<close>

section \<open>The envelope in bytes\<close>

lemma protoAsn_num:
  assumes "n < 2 ^ 63"
  shows "\<exists>x. protoAsn (asn_num (int n)) = Inr x \<and> length x \<le> 9"
proof -
  have v: "asn_num (int n) = asn_pad (asn_unum n)" by (simp add: asn_num_def)
  have l: "length (asn_pad (asn_unum n)) \<le> Suc 7" by (rule length_asn_pad_le) (use assms in simp)
  then have "asn_encodable (asn_num (int n))" using asn_num_sign [of n] by (auto simp: asn_encodable_def v)
  then obtain x where x: "protoAsn (asn_num (int n)) = Inr x" by (rule protoAsn_flat)
  then have "protoAsn_loop (asn_pad (asn_unum n)) [] = Inr x" by (simp add: protoAsn_def v split: if_splits)
  then have "length x \<le> 9" using length_protoAsn_loop [of n 8 "[]" x] assms by simp
  then show ?thesis using x by blast
qed

lemma protoAsnTime_ok:
  assumes "asn_library A" "0 \<le> sint ms"
  shows "\<exists>x. protoAsnTime A t ms = Inr x \<and> length x \<le> 9"
proof -
  define u where "u = asn_uval (lib_encode A t)"
  define v where "v = nat (int u * 1000 mod 2 ^ 64 + sint ms)"
  have k: "asn_val [0x03, 0xe8] = 1000" by (simp add: asn_val_def asn_uval_Cons bit_simps)
  have m: "asn_val (lib_encode A ms) = sint ms" by (simp add: asn_library.encode [OF assms(1)])
  have u: "u < 2 ^ 40"
  proof -
    have "length (lib_encode A t) \<le> 5"
      using length_asn_num_le [of 4 "sint t"] sint_ge [of t] sint_lt [of t] by (simp add: asn_library.encode [OF assms(1)])
    then have "u < 256 ^ 5" using asn_uval_lt [of "lib_encode A t"] power_increasing [of "length (lib_encode A t)" 5 "256 :: nat"]
      by (simp add: u_def)
    then show ?thesis by simp
  qed
  have "sint ms < 2 ^ 31" using sint_lt [of ms] by simp
  then have v: "v < 2 ^ 63" "int v = int u * 1000 + sint ms" using assms(2) u by (simp_all add: v_def)
  have "protoAsnTime A t ms = protoAsn (asn_num (int v))"
    using v u assms(2)
    by (simp add: protoAsnTime_def asn_add_def asn_mult_def k m asn_val_nonneg u_def [symmetric] asn_trunc_nonneg)
  then show ?thesis using protoAsn_num [OF v(1)] by simp
qed

lemma ts_transport_short: "length (ts_transport t) \<le> 16"
proof -
  define f where "f = (if sint (ts_time t) < 0 then sint (ts_time t) + 4294967296 else sint (ts_time t))"
  have "f < 4294967296" using sint_lt [of "ts_time t"] by (auto simp: f_def)
  then have "nat (f div 1000) < 10000000000" by linarith
  then have "length (dec (nat (f div 1000))) \<le> 10" by (intro length_dec_le) simp_all
  moreover obtain tail where "ts_transport t = dec (nat (f div 1000)) @ drop (length tail - 6) tail"
    unfolding ts_transport_def Let_def f_def [symmetric] by blast
  ultimately show ?thesis by simp
qed

lemma length_uuid_generate: "uuid_generate random = Inr g \<Longrightarrow> length g = length random"
  by (auto simp: uuid_generate_def Let_def split: rbind_split)

text \<open>An envelope of an ordinary size, between two accounts.\<close>

definition ordinary :: "'o envelope \<Rightarrow> bool" where
  "ordinary e \<longleftrightarrow>
     (\<exists>i j. ev_sourceId e = Some i \<and> ev_destinationId e = Some j \<and> length i = 16 \<and> length j = 16)
   \<and> length (ev_guid e) = 16 \<and> 0 \<le> sint (ts_ms (ev_timestamp e)) \<and> 0 \<le> sint (ts_ms (ev_serverTimestamp e))
   \<and> (case ev_content e of None \<Rightarrow> True | Some c \<Rightarrow> length c \<le> 2 ^ 29)"

lemma ordinary_deliverable:
  assumes "asn_library (en_asn E)" "hex_library (en_hex E)" "ordinary e"
  shows "deliverable E e"
proof -
  obtain i j where ij: "ev_sourceId e = Some i" "ev_destinationId e = Some j" "length i = 16" "length j = 16" "length (ev_guid e) = 16"
    and ms: "0 \<le> sint (ts_ms (ev_timestamp e))" "0 \<le> sint (ts_ms (ev_serverTimestamp e))"
    using assms(3) by (auto simp: ordinary_def)
  obtain t1 t2 where t: "protoAsnTime (en_asn E) (ts_time (ev_timestamp e)) (ts_ms (ev_timestamp e)) = Inr t1" "length t1 \<le> 9"
    "protoAsnTime (en_asn E) (ts_time (ev_serverTimestamp e)) (ts_ms (ev_serverTimestamp e)) = Inr t2" "length t2 \<le> 9"
    using protoAsnTime_ok [OF assms(1) ms(1)] protoAsnTime_ok [OF assms(1) ms(2)] by blast
  obtain u1 u2 u3 where u: "uuid_encode (en_hex E) (Some (ev_guid e)) = Inr u1" "uuid_encode (en_hex E) (Some i) = Inr u2"
    "uuid_encode (en_hex E) (Some j) = Inr u3" "length u1 = 36" "length u2 = 36" "length u3 = 36"
    using uuid_decode_encode [OF assms(2)] ij by metis
  have c: "length (case ev_content e of None \<Rightarrow> [] | Some content \<Rightarrow> [0x42] @ protoStrbuf content) \<le> 2 ^ 29 + 6"
    using assms(3) length_protoInt by (cases "ev_content e")
      (auto simp: ordinary_def protoStrbuf_def intro!: order_trans [OF add_mono [OF length_protoInt order_refl]])
  show ?thesis
    unfolding deliverable_def envelope_transport_def
    using t(2,4) u(4-6) c length_protoInt [of "ev_type e"] length_protoInt [of "ev_sourceDeviceId e"] length_protoInt [of "ev_urgent e"]
      length_protoInt [of 36] ts_transport_short [of "\<lparr>ts_time = fst (snd (en_clock E)), ts_ms = snd (snd (en_clock E))\<rparr>"]
    by (simp add: t(1,3) u(1-3) ij(1,2) protoString_def)
qed

section \<open>The way to the client\<close>

text \<open>The envelope of a message for a device that is connected.\<close>

definition sent_as :: "'o envelope \<Rightarrow> 'o \<Rightarrow> bytes \<Rightarrow> lpcint \<Rightarrow> bytes \<Rightarrow> timestamp \<Rightarrow> lpcint \<Rightarrow> bytes \<Rightarrow> bool" where
  "sent_as e this source sourceDevice destination ts ty content \<longleftrightarrow>
     ev_origin e = this \<and> ev_sourceId e = Some source \<and> ev_sourceDeviceId e = sourceDevice
   \<and> ev_destinationId e = Some destination \<and> ev_timestamp e = ts \<and> ev_type e = ty \<and> ev_content e = Some content"

lemma put_online:
  assumes "ac_id account = Some i" "present i (outgoing_device m) = Some endpoint" "length random = 16"
    and "b64_decode B (fst (snd m)) = Inr x"
  shows "\<exists>e. putMessages2 B H clk this present [random] ctxt (Some account) (Some source) dev [message_json m] ts urgent
      = ([Deliver endpoint [e]], Inr (respond_json ctxt (H HTTP_OK) (jobj [(''needsSync'', jbool False)])))
    \<and> sent_as e this source dev i ts (fst m) x \<and> length (ev_guid e) = 16
    \<and> ev_serverTimestamp e = \<lparr>ts_time = fst (snd clk), ts_ms = snd (snd clk)\<rparr>"
proof -
  obtain g where g: "uuid_generate random = Inr g" using assms(3) by (auto simp: uuid_generate_def Let_def)
  obtain ty c d where m: "m = (ty, c, d)" by (cases m)
  obtain e where "make_envelope B random clk this (Some source) dev ts (Some i) 0 urgent (message_json m) = Inr (e, d)"
    "sent_as e this source dev i ts ty x" "ev_guid e = g" "ev_serverTimestamp e = \<lparr>ts_time = fst (snd clk), ts_ms = snd (snd clk)\<rparr>"
    using g assms(4)
    by (simp add: make_envelope_def message_json_def m jfield_int_def jfield_str_def jfield_def jobj_def need_def Envelope_def
        str_def sent_as_def)
  then show ?thesis
    using assms length_uuid_generate [OF g] by (auto simp: putMessages2_def m outgoing_device_def Let_def)
qed

lemma deliver_idle:
  assumes "open_socket ep" "ep_state ep = READY" "cs_outgoing ep = Map.empty" "waiting ep = []" "length c = 8"
    and "deliverable E e"
  shows "\<exists>ep' body. deliver E [c] [e] ep = (Inr (), ep', []) \<and> in_flight c e [] ep'
    \<and> envelope_transport (en_asn E) (en_hex E) e = Inr body
    \<and> envelope_request E body c = Inr (wf_payload (last (ws_sent (sv_out ep'))))"
proof -
  obtain body where body: "envelope_transport (en_asn E) (en_hex E) e = Inr body"
    "length body + length (ts_transport \<lparr>ts_time = fst (snd (en_clock E)), ts_ms = snd (snd (en_clock E))\<rparr>) \<le> 2 ^ 30"
    using assms(6) by (auto simp: deliverable_def)
  obtain msg where msg: "envelope_request E body c = Inr msg" using envelope_request_ok [OF assms(5)] by blast
  have q: "(case ep_queue ep of None \<Rightarrow> [e] | Some q \<Rightarrow> q @ [e]) = [e]"
    using assms(4) by (auto simp: waiting_def split: option.splits)
  let ?ep = "ep\<lparr>ep_queue := Some [e]\<rparr>"
  let ?ep' = "(add_frame msg (?ep\<lparr>cs_outgoing := (cs_outgoing ?ep)(c \<mapsto> (e, []))\<rparr>))\<lparr>ep_state := AWAIT_RESPONSE\<rparr>"
  have op: "open_socket ?ep" "fresh_contexts [c]" using assms(1,5) by (simp_all add: fresh_contexts_def)
  have "sendEnvelope E [c] e ?ep = (Inr (), ?ep', [])"
    using sendEnvelope_open [OF op, of E e] body(1) msg assms(3) by (cases rule: sendEnvelope_open [OF op, of E e]) auto
  then have "deliver E [c] [e] ep = (Inr (), ?ep', [])"
    using assms(2) by (simp add: deliver_def action_simps aif_def q)
  moreover have "in_flight c e [] ?ep'"
    using op assms(3,5) msg envelope_request_short [OF assms(5) msg body(2)] by (auto simp: in_flight_def envelope_request_def)
  ultimately show ?thesis using body(1) msg by (intro exI [of _ ?ep'] exI [of _ body]) simp
qed

text \<open>What the client reads, whatever pieces the frame and the message in it come in.\<close>

definition client_reads :: "env \<Rightarrow> bytes \<Rightarrow> bytes \<Rightarrow> bytes \<Rightarrow> bool" where
  "client_reads E msg context body \<longleftrightarrow>
     (\<forall>cs service. concat cs = msg \<and> [] \<notin> set cs \<longrightarrow>
       (\<exists>chunk headers. receiveChatMessage cs = Inr (Ws_request chunk)
         \<and> (\<forall>cs'. concat cs' = concat chunk \<and> [] \<notin> set cs' \<longrightarrow>
             (\<exists>pieces. concat pieces = body
               \<and> wsReceiveRequest (en_asn E) cs' service = Inr (context,
                   \<lparr>rq_method = str ''PUT'', rq_host = service, rq_path = str ''/api/v1/message'', rq_headers = headers\<rparr>, Some pieces)))))"

lemma envelope_read:
  assumes "asn_library (en_asn E)" "envelope_request E body c = Inr msg" "length c = 8" "length msg < 2 ^ 31"
  shows "client_reads E msg c body"
  unfolding client_reads_def
proof (intro allI impI)
  fix cs service
  assume cs: "concat cs = msg \<and> [] \<notin> set cs"
  have c: "asn_encodable c" "padded c = c" using assms(3) by (auto simp: asn_encodable_def padded_def)
  obtain ls chunk where r: "receiveChatMessage cs = Inr (Ws_request chunk)"
    "\<forall>cs'. concat cs' = concat chunk \<longrightarrow> [] \<notin> set cs' \<longrightarrow> (\<exists>pieces. map_option concat pieces = Some body
      \<and> wsReceiveRequest (en_asn E) cs' service = Inr (c,
          \<lparr>rq_method = str ''PUT'', rq_host = service, rq_path = str ''/api/v1/message'', rq_headers = headers_of ls\<rparr>, pieces))"
    using wsRequest_received_ok [OF assms(1) assms(2) [unfolded envelope_request_def] c(1) assms(4), of cs service] cs
    unfolding c(2) by blast
  then show "\<exists>chunk headers. receiveChatMessage cs = Inr (Ws_request chunk)
      \<and> (\<forall>cs'. concat cs' = concat chunk \<and> [] \<notin> set cs' \<longrightarrow> (\<exists>pieces. concat pieces = body
        \<and> wsReceiveRequest (en_asn E) cs' service = Inr (c,
            \<lparr>rq_method = str ''PUT'', rq_host = service, rq_path = str ''/api/v1/message'', rq_headers = headers\<rparr>, Some pieces)))"
    by (intro exI [of _ chunk] exI [of _ "headers_of ls"]) fastforce
qed

section \<open>The way back\<close>

text \<open>The receipt for an envelope, and whom it is given to.\<close>

definition receipt_of :: "'o envelope \<Rightarrow> 'o \<Rightarrow> 'o envelope \<Rightarrow> bool" where
  "receipt_of r this e \<longleftrightarrow>
     ev_type r = RECEIPT \<and> ev_origin r = this \<and> ev_sourceId r = ev_destinationId e
   \<and> ev_sourceDeviceId r = ev_destinationDeviceId e \<and> ev_destinationId r = ev_sourceId e
   \<and> ev_destinationDeviceId r = ev_sourceDeviceId e \<and> ev_timestamp r = ev_timestamp e \<and> ev_content r = None"

definition handed_to :: "('o \<Rightarrow> bool) \<Rightarrow> 'o \<Rightarrow> 'o envelope \<Rightarrow> 'o server_event" where
  "handed_to alive origin r = (if alive origin then Deliver origin [r] else Stack [r])"

lemma delivered_last:
  assumes "open_socket ep" "ep_queue ep = Some [e]" "cs_outgoing ep = Map.empty" "ev_type e \<noteq> RECEIPT" "length random = 16"
  shows "\<exists>r ep'. delivered E alive this random randoms e (en_http E HTTP_OK) [] ep = (Inr (), ep', [handed_to alive (ev_origin e) r])
    \<and> receipt_of r this e \<and> drained ep'"
proof -
  let ?ep = "ep\<lparr>ep_queue := Some [], ep_state := READY\<rparr>"
  obtain r where r: "receipt_for E random this e = Inr r" using receipt_for_ok [OF assms(5), of E this e] by blast
  have op: "open_socket ?ep" using assms(1) by simp
  have "delivered E alive this random randoms e (en_http E HTTP_OK) [] ep = (Inr (), add_frame empty_request ?ep, [handed_to alive (ev_origin e) r])"
    using assms(2,4) r emptyQueue_open [OF op]
    by (simp add: delivered_def aif_def action_simps lpc_range_def handed_to_def) (simp add: abind_def)
  moreover have "receipt_of r this e"
    using r by (auto simp: receipt_for_def receipt_of_def Envelope_def split: rbind_split)
  moreover have "drained (add_frame empty_request ?ep)" using op assms(3) by (simp add: drained_def)
  ultimately show ?thesis by blast
qed

text \<open>What the endpoint does with the response of the client, in whatever pieces it comes.\<close>

definition acknowledges ::
    "env \<Rightarrow> ('o \<Rightarrow> bool) \<Rightarrow> 'o \<Rightarrow> bytes \<Rightarrow> bytes list \<Rightarrow> 'o endpoint \<Rightarrow> bytes \<Rightarrow> 'o endpoint \<Rightarrow> 'o server_event list \<Rightarrow> bool" where
  "acknowledges E alive this random randoms ep msg ep' ev \<longleftrightarrow>
     (\<forall>cs. concat cs = msg \<and> [] \<notin> set cs \<longrightarrow>
       (\<exists>chunk. receiveChatMessage cs = Inr (Ws_response chunk)
         \<and> (\<forall>cs'. concat cs' = concat chunk \<and> [] \<notin> set cs' \<longrightarrow>
             chatReceiveResponse E (delivered E alive this random randoms) cs' ep = (Inr (), ep', ev))))"

lemma response_acknowledges:
  assumes "asn_library (en_asn E)" "in_flight c e [] ep" "ev_type e \<noteq> RECEIPT" "length random = 16"
    and "wsResponse (en_http E) c (en_http E HTTP_OK) None None = Inr msg"
  shows "\<exists>r ep'. acknowledges E alive this random randoms ep msg ep' [handed_to alive (ev_origin e) r] \<and> receipt_of r this e \<and> drained ep'"
proof -
  have fl: "open_socket ep" "cs_outgoing ep = [c \<mapsto> (e, [])]" "ep_queue ep = Some [e]" "length c = 8"
    using assms(2) by (simp_all add: in_flight_def)
  let ?ep = "ep\<lparr>cs_outgoing := Map.empty\<rparr>"
  have "open_socket ?ep" "ep_queue ?ep = Some [e]" "cs_outgoing ?ep = Map.empty" using fl by simp_all
  from delivered_last [OF this assms(3,4), of E alive this randoms] obtain r ep' where
    d: "delivered E alive this random randoms e (en_http E HTTP_OK) [] ?ep = (Inr (), ep', [handed_to alive (ev_origin e) r])"
      "receipt_of r this e" "drained ep'" by blast
  have c: "asn_encodable c" "padded c = c" using fl(4) by (auto simp: asn_encodable_def padded_def)
  have "acknowledges E alive this random randoms ep msg ep' [handed_to alive (ev_origin e) r]"
    unfolding acknowledges_def
  proof (intro allI impI)
    fix cs
    assume cs: "concat cs = msg \<and> [] \<notin> set cs"
    obtain ls chunk where r: "receiveChatMessage cs = Inr (Ws_response chunk)"
      "\<forall>cs'. concat cs' = concat chunk \<longrightarrow> [] \<notin> set cs' \<longrightarrow> (\<exists>pieces. map_option concat pieces = None
        \<and> wsReceiveResponse (en_asn E) cs' = Inr (c,
            \<lparr>rs_code = en_http E HTTP_OK, rs_comment = comment (en_http E) (en_http E HTTP_OK), rs_headers = headers_of ls\<rparr>, pieces))"
      using wsResponse_received_ok [OF assms(1,5) c(1) wsResponse_short [OF fl(4) assms(5)], of cs] cs unfolding c(2) by blast
    have "chatReceiveResponse E (delivered E alive this random randoms) cs' ep = (Inr (), ep', [handed_to alive (ev_origin e) r])"
      if "concat cs' = concat chunk \<and> [] \<notin> set cs'" for cs'
      using r(2) that fl(1,2) d(1) by (auto simp: chatReceiveResponse_def open_socket_def action_simps)
    then show "\<exists>chunk. receiveChatMessage cs = Inr (Ws_response chunk) \<and> (\<forall>cs'. concat cs' = concat chunk \<and> [] \<notin> set cs' \<longrightarrow>
        chatReceiveResponse E (delivered E alive this random randoms) cs' ep = (Inr (), ep', [handed_to alive (ev_origin e) r]))"
      using r(1) by blast
  qed
  then show ?thesis using d(2,3) by blast
qed

section \<open>Properties\<close>

text \<open>
  C6. A message for a connected device that waits for nothing goes all the way: the request of the sender
  makes an envelope with what it sent, its endpoint writes one frame, from which the client reads a
  request with the envelope, and the client's answer makes the endpoint hand a receipt to the sender,
  from the recipient and with the time stamp of the message, and tell the client that the queue is
  empty.  Neither depends on the pieces in which the frames are read.
\<close>

theorem message_round_trip:
  assumes "asn_library (en_asn E)" "hex_library (en_hex E)"
    and "ac_id account = Some i" "present i d = Some endpoint" "length i = 16" "length source = 16"
    and "b64_decode B content = Inr x" "length x \<le> 2 ^ 29" "ty \<noteq> RECEIPT"
    and "0 \<le> sint (ts_ms ts)" "0 \<le> sint (snd (snd clk))" "length random = 16" "length random' = 16" "length c = 8"
    and "open_socket ep" "ep_state ep = READY" "cs_outgoing ep = Map.empty" "waiting ep = []"
  shows "\<exists>e ep' body response r ep''.
      putMessages2 B H clk sender present [random] ctxt (Some account) (Some source) dev [message_json (ty, content, d)] ts urgent
        = ([Deliver endpoint [e]], Inr (respond_json ctxt (H HTTP_OK) (jobj [(''needsSync'', jbool False)])))
    \<and> sent_as e sender source dev i ts ty x
    \<and> deliver E [c] [e] ep = (Inr (), ep', [])
    \<and> envelope_transport (en_asn E) (en_hex E) e = Inr body
    \<and> client_reads E (wf_payload (last (ws_sent (sv_out ep')))) c body
    \<and> wsResponse (en_http E) c (en_http E HTTP_OK) None None = Inr response
    \<and> acknowledges E alive endpoint random' randoms ep' response ep'' [handed_to alive sender r]
    \<and> receipt_of r endpoint e \<and> drained ep''"
proof -
  have "present i (outgoing_device (ty, content, d)) = Some endpoint" "b64_decode B (fst (snd (ty, content, d))) = Inr x"
    using assms(4,7) by (simp_all add: outgoing_device_def)
  from put_online [where m = "(ty, content, d)" and present = present, OF assms(3) this(1) assms(12) this(2), of H clk sender ctxt source dev ts urgent] obtain e where
    e: "putMessages2 B H clk sender present [random] ctxt (Some account) (Some source) dev [message_json (ty, content, d)] ts urgent
        = ([Deliver endpoint [e]], Inr (respond_json ctxt (H HTTP_OK) (jobj [(''needsSync'', jbool False)])))"
      "sent_as e sender source dev i ts ty x" "length (ev_guid e) = 16"
      "ev_serverTimestamp e = \<lparr>ts_time = fst (snd clk), ts_ms = snd (snd clk)\<rparr>"
    by auto
  have o: "ev_origin e = sender" "ev_type e \<noteq> RECEIPT" using e(2) assms(9) by (simp_all add: sent_as_def)
  have "ordinary e" using e assms(5,6,8,10,11) by (simp add: ordinary_def sent_as_def)
  then have "deliverable E e" by (rule ordinary_deliverable [OF assms(1,2)])
  then obtain ep' body where dl: "deliver E [c] [e] ep = (Inr (), ep', [])" "in_flight c e [] ep'"
    "envelope_transport (en_asn E) (en_hex E) e = Inr body" "envelope_request E body c = Inr (wf_payload (last (ws_sent (sv_out ep'))))"
    using deliver_idle [OF assms(15-18,14)] by blast
  have "client_reads E (wf_payload (last (ws_sent (sv_out ep')))) c body"
    using dl(2) by (intro envelope_read [OF assms(1) dl(4) assms(14)]) (simp add: in_flight_def)
  moreover obtain cid where "protoAsn c = Inr cid" using protoAsn_context [OF assms(14)] ..
  then obtain msg where msg: "wsResponse (en_http E) c (en_http E HTTP_OK) None None = Inr msg"
    by (simp add: wsResponse_def header_fields_def Let_def)
  moreover obtain r ep'' where "acknowledges E alive endpoint random' randoms ep' msg ep'' [handed_to alive sender r]"
    "receipt_of r endpoint e" "drained ep''"
    using response_acknowledges [OF assms(1) dl(2) o(2) assms(13) msg, of alive endpoint randoms] unfolding o(1) by blast
  ultimately show ?thesis using e(1,2) dl(1,3) by blast
qed

definition sample_peer :: account where
  "sample_peer = sample_owner\<lparr>ac_id := Some (replicate 16 2)\<rparr>"

theorem message_round_trip_witness:
  "\<exists>e ep' body response r ep''.
      putMessages2 (en_base64 (sample_env (Api None []) (\<lambda>_. None))) sample_http (0, (0, 0)) 3 (\<lambda>_ _. Some 1) [replicate 16 1] None
        (Some sample_peer) (Some (replicate 16 5)) 1 [message_json (1, [5], 1)] \<lparr>ts_time = 0, ts_ms = 0\<rparr> 0
        = ([Deliver 1 [e]], Inr (respond_json None (sample_http HTTP_OK) (jobj [(''needsSync'', jbool False)])))
    \<and> sent_as e 3 (replicate 16 5) 1 (replicate 16 2) \<lparr>ts_time = 0, ts_ms = 0\<rparr> 1 [5]
    \<and> deliver (sample_env (Api None []) (\<lambda>_. None)) [replicate 8 1] [e] sample_endpoint = (Inr (), ep', [])
    \<and> envelope_transport (en_asn (sample_env (Api None []) (\<lambda>_. None))) (en_hex (sample_env (Api None []) (\<lambda>_. None))) e = Inr body
    \<and> client_reads (sample_env (Api None []) (\<lambda>_. None)) (wf_payload (last (ws_sent (sv_out ep')))) (replicate 8 1) body
    \<and> wsResponse (en_http (sample_env (Api None []) (\<lambda>_. None))) (replicate 8 1) (en_http (sample_env (Api None []) (\<lambda>_. None)) HTTP_OK) None None
        = Inr response
    \<and> acknowledges (sample_env (Api None []) (\<lambda>_. None)) (\<lambda>_. True) 1 (replicate 16 4) [] ep' response ep'' [handed_to (\<lambda>_. True) 3 r]
    \<and> receipt_of r 1 e \<and> drained ep''"
  by (rule message_round_trip)
    (simp_all add: sample_env_def std_asn.asn_library_axioms std_hex.hex_library_axioms sample_peer_def RECEIPT_def sample_endpoint_def
      open_socket_def waiting_def)

end
