(* ===== verification/Credentials.thy ===== *)
theory Credentials
  imports Uuid
begin

text \<open>
  Anonymous credentials: the system parameters (\<^verbatim>\<open>src/sys/params.c\<close>), key pairs
  (\<^verbatim>\<open>src/lib/KeyPair.c\<close>) and the messages of \<^verbatim>\<open>src/lib/protocol\<close>.

  The keys that \<open>CREDENTIALS_SERVER\<close> holds are arguments of the constructors, and so is the
  random string; \<open>PARAMS\<close>, a deterministic singleton, is the function \<open>credentialParams\<close>.
  An argument mapping is built entry by entry, the first error ending the constructor.
\<close>

section \<open>System parameters\<close>

fun get_points :: "zlib \<Rightarrow> nat \<Rightarrow> sho \<Rightarrow> (point list \<times> sho) result" where
  "get_points Z 0 sho = Inr ([], sho)"
| "get_points Z (Suc n) sho =
     rbind (getPoint Z sho) (\<lambda>(p, sho). rbind (get_points Z n sho) (\<lambda>(ps, sho). Inr (p # ps, sho)))"

fun get_scalars :: "zlib \<Rightarrow> nat \<Rightarrow> sho \<Rightarrow> (scalar list \<times> sho) result" where
  "get_scalars Z 0 sho = Inr ([], sho)"
| "get_scalars Z (Suc n) sho =
     rbind (getScalar Z sho) (\<lambda>(a, sho). rbind (get_scalars Z n sho) (\<lambda>(as, sho). Inr (a # as, sho)))"

definition CRED_G_w :: nat where "CRED_G_w = 0"
definition CRED_G_wprime :: nat where "CRED_G_wprime = 1"
definition CRED_G_x0 :: nat where "CRED_G_x0 = 2"
definition CRED_G_x1 :: nat where "CRED_G_x1 = 3"
definition CRED_G_y :: nat where "CRED_G_y = 4"
definition CRED_G_m1 :: nat where "CRED_G_m1 = 10"
definition CRED_G_m5 :: nat where "CRED_G_m5 = 14"
definition CRED_G_V :: nat where "CRED_G_V = 15"

lemmas cred_defs = CRED_G_w_def CRED_G_wprime_def CRED_G_x0_def CRED_G_x1_def CRED_G_y_def
  CRED_G_m1_def CRED_G_m5_def CRED_G_V_def

definition credentialParams :: "zlib \<Rightarrow> point list result" where
  "credentialParams Z =
     rbind (get_points Z 17 (ratchet (absorb [] (Sho (ShoHmacSha256 Z)
         (str ''Signal_ZKGroup_20200424_Constant_Credentials_SystemParams_Generate''))))) (\<lambda>(c, sho).
       rbind (lpc_range c 0 3) (\<lambda>a.
       rbind (lpc_range c 4 7) (\<lambda>y1.
       rbind (lpc_range c 14 15) (\<lambda>y5.
       rbind (lpc_range c 8 11) (\<lambda>m1.
       rbind (lpc_range c 16 16) (\<lambda>m5.
       rbind (lpc_range c 12 13) (\<lambda>v. Inr (a @ y1 @ y5 @ m1 @ m5 @ v))))))))"

definition profileKeyCommitmentParams :: "zlib \<Rightarrow> point list result" where
  "profileKeyCommitmentParams Z =
     rmap fst (get_points Z 3 (ratchet (absorb [] (Sho (ShoHmacSha256 Z)
       (str ''Signal_ZKGroup_20200424_Constant_ProfileKeyCommitment_SystemParams_Generate'')))))"

definition sho_of :: "zlib \<Rightarrow> string \<Rightarrow> sho" where
  "sho_of Z label = Sho (ShoHmacSha256 Z) (str label)"

definition profileKeyCredentialSho :: "zlib \<Rightarrow> sho" where
  "profileKeyCredentialSho Z =
     sho_of Z ''Signal_ZKGroup_20220508_Random_ServerSecretParams_IssueExpiringProfileKeyCredential''"

definition authCredentialWithPniSho :: "zlib \<Rightarrow> sho" where
  "authCredentialWithPniSho Z =
     sho_of Z ''Signal_ZKGroup_20220617_Random_ServerSecretParams_IssueAuthCredentialWithPni''"

definition credentialSho :: "zlib \<Rightarrow> sho" where
  "credentialSho Z = sho_of Z ''Signal_ZKCredential_Issuance_20230410''"

definition callLinkAuthCredentialSho :: "zlib \<Rightarrow> sho" where
  "callLinkAuthCredentialSho Z = sho_of Z ''20230421_Signal_CallLinkAuthCredential''"

section \<open>Key pairs\<close>

record key_pair =
  kp_w :: scalar
  kp_wprime :: scalar
  kp_W :: point
  kp_x0 :: scalar
  kp_x1 :: scalar
  kp_y :: "scalar list"
  kp_C_W :: point
  kp_I :: point

text \<open>\<open>for (...) I -= params[CRED_G_y + i] * y[i]\<close>\<close>

fun key_loop :: "zlib \<Rightarrow> point list \<Rightarrow> scalar list \<Rightarrow> nat list \<Rightarrow> point \<Rightarrow> point result" where
  "key_loop Z ps y [] I = Inr I"
| "key_loop Z ps y (i # is) I =
     rbind (lpc_index ps (CRED_G_y + i)) (\<lambda>g.
       rbind (lpc_index y i) (\<lambda>a. key_loop Z ps y is (point_sub Z I (point_mult Z g a))))"

definition KeyPair :: "zlib \<Rightarrow> sho \<Rightarrow> nat \<Rightarrow> nat \<Rightarrow> (key_pair \<times> sho) result" where
  "KeyPair Z sho sz nattr =
     (let nattr = (if nattr = 0 then sz else nattr) in
      rbind (credentialParams Z) (\<lambda>ps.
      rbind (getScalar Z sho) (\<lambda>(w, sho).
      rbind (lpc_index ps CRED_G_w) (\<lambda>Gw.
        let W = point_mult Z Gw w in
        rbind (getScalar Z sho) (\<lambda>(wprime, sho).
        rbind (getScalar Z sho) (\<lambda>(x0, sho).
        rbind (getScalar Z sho) (\<lambda>(x1, sho).
        rbind (get_scalars Z sz sho) (\<lambda>(y, sho).
        rbind (lpc_index ps CRED_G_wprime) (\<lambda>Gwprime.
          let C_W = point_add Z W (point_mult Z Gwprime wprime) in
          rbind (lpc_index ps CRED_G_V) (\<lambda>GV.
          rbind (lpc_index ps CRED_G_x0) (\<lambda>Gx0.
          rbind (lpc_index ps CRED_G_x1) (\<lambda>Gx1.
          rbind (key_loop Z ps y [0..<nattr]
              (point_sub Z (point_sub Z GV (point_mult Z Gx0 x0)) (point_mult Z Gx1 x1))) (\<lambda>I.
            Inr (\<lparr>kp_w = w, kp_wprime = wprime, kp_W = W, kp_x0 = x0, kp_x1 = x1, kp_y = y,
                  kp_C_W = C_W, kp_I = I\<rparr>, sho))))))))))))))"

fun prepare_loop :: "zlib \<Rightarrow> scalar list \<Rightarrow> nat \<Rightarrow> point list \<Rightarrow> point \<Rightarrow> point result" where
  "prepare_loop Z y i [] V = Inr V"
| "prepare_loop Z y i (M # Ms) V =
     rbind (lpc_index y i) (\<lambda>a. prepare_loop Z y (Suc i) Ms (point_add Z V (point_mult Z M a)))"

definition key_prepare :: "zlib \<Rightarrow> key_pair \<Rightarrow> sho \<Rightarrow> point list \<Rightarrow> ((scalar \<times> point \<times> point) \<times> sho) result" where
  "key_prepare Z key sho M =
     rbind (getScalar Z sho) (\<lambda>(t, sho).
     rbind (getPoint Z sho) (\<lambda>(U, sho).
       let V = point_add Z (kp_W key)
                 (point_mult Z U (scalar_add (kp_x0 key) (scalar_mult (kp_x1 key) t))) in
       rbind (prepare_loop Z (kp_y key) 0 M V) (\<lambda>V. Inr ((t, U, V), sho))))"

section \<open>Argument mappings\<close>

definition args_of :: "(string \<times> 'a result) list \<Rightarrow> (string \<times> 'a) list result" where
  "args_of xs = rmapM (\<lambda>(n, r). rmap (Pair n) r) xs"

fun add_all :: "(string \<times> string list) list \<Rightarrow> statement \<Rightarrow> statement result" where
  "add_all [] st = Inr st"
| "add_all ((lhs, rhs) # eqs) st = rbind (add_equation lhs rhs st) (add_all eqs)"

section \<open>AuthCredentialWithPniResponse\<close>

record auth_response =
  ar_t :: scalar
  ar_U :: point
  ar_V :: point
  ar_proof :: bytes

definition auth_equations :: "(string \<times> string list) list" where
  "auth_equations =
    [(''C_W'', [''w'', ''G_w'', ''wprime'', ''G_wprime'']),
     (''G_V-I'', [''x0'', ''G_x0'', ''x1'', ''G_x1'', ''y1'', ''G_y1'', ''y2'', ''G_y2'',
        ''y3'', ''G_y3'', ''y4'', ''G_y4'', ''y5'', ''G_y5'']),
     (''V'', [''w'', ''G_w'', ''x0'', ''U'', ''x1'', ''tU'', ''y1'', ''M1'', ''y2'', ''M2'',
        ''y3'', ''M3'', ''y4'', ''M4'', ''y5'', ''M5''])]"

definition auth_scalars :: "key_pair \<Rightarrow> scalar_args result" where
  "auth_scalars key = args_of
    [(''w'', Inr (kp_w key)), (''wprime'', Inr (kp_wprime key)), (''x0'', Inr (kp_x0 key)), (''x1'', Inr (kp_x1 key)),
     (''y1'', lpc_index (kp_y key) 0), (''y2'', lpc_index (kp_y key) 1), (''y3'', lpc_index (kp_y key) 2),
     (''y4'', lpc_index (kp_y key) 3), (''y5'', lpc_index (kp_y key) 4)]"

definition auth_points ::
    "zlib \<Rightarrow> point list \<Rightarrow> key_pair \<Rightarrow> scalar \<Rightarrow> point \<Rightarrow> point \<Rightarrow> point list \<Rightarrow> point_args result" where
  "auth_points Z params key t U V M = args_of
    [(''C_W'', Inr (kp_C_W key)), (''G_w'', lpc_index params CRED_G_w), (''G_wprime'', lpc_index params CRED_G_wprime),
     (''G_V-I'', rmap (\<lambda>g. point_sub Z g (kp_I key)) (lpc_index params CRED_G_V)),
     (''G_x0'', lpc_index params CRED_G_x0), (''G_x1'', lpc_index params CRED_G_x1),
     (''G_y1'', lpc_index params (CRED_G_y + 0)), (''G_y2'', lpc_index params (CRED_G_y + 1)),
     (''G_y3'', lpc_index params (CRED_G_y + 2)), (''G_y4'', lpc_index params (CRED_G_y + 3)),
     (''G_y5'', lpc_index params (CRED_G_y + 4)),
     (''V'', Inr V), (''U'', Inr U), (''tU'', Inr (point_mult Z U t)),
     (''M1'', lpc_index M 0), (''M2'', lpc_index M 1), (''M3'', lpc_index M 2), (''M4'', lpc_index M 3),
     (''M5'', lpc_index M 4)]"

text \<open>The attributes: two points of each UUID and one of the redemption time.\<close>

definition auth_attributes :: "zlib \<Rightarrow> point list \<Rightarrow> bytes \<Rightarrow> bytes \<Rightarrow> lpcint \<Rightarrow> point list result" where
  "auth_attributes Z params uuid pni redemptionTime =
     rbind (uuid_points Z uuid) (\<lambda>a.
     rbind (uuid_points Z pni) (\<lambda>b.
     rbind (lpc_index params CRED_G_m5) (\<lambda>g.
     rbind (timeScalar Z redemptionTime) (\<lambda>m. Inr (a @ b @ [point_mult Z g m])))))"

definition AuthCredentialWithPniResponse ::
    "zlib \<Rightarrow> key_pair \<Rightarrow> bytes \<Rightarrow> bytes \<Rightarrow> lpcint \<Rightarrow> bytes \<Rightarrow> auth_response result" where
  "AuthCredentialWithPniResponse Z key uuid pni redemptionTime random =
     rbind (credentialParams Z) (\<lambda>params.
     rbind (auth_attributes Z params uuid pni redemptionTime) (\<lambda>M.
     rbind (key_prepare Z key (ratchet (absorb random (authCredentialWithPniSho Z))) M) (\<lambda>((t, U, V), sho).
     rbind (add_all auth_equations Statement) (\<lambda>stmt.
     rbind (auth_scalars key) (\<lambda>scalarArgs.
     rbind (auth_points Z params key t U V M) (\<lambda>pointArgs.
     rbind (squeeze Z 32 sho) (\<lambda>(rnd, sho).
     rbind (prove Z stmt scalarArgs pointArgs [] rnd) (\<lambda>pf.
       Inr \<lparr>ar_t = t, ar_U = U, ar_V = V, ar_proof = pf\<rparr>))))))))"

definition auth_transport :: "zlib \<Rightarrow> auth_response \<Rightarrow> bytes" where
  "auth_transport Z r = [0] @ scalar_bytes Z (ar_t r) @ ar_U r @ ar_V r @ [0x40, 1, 0, 0, 0, 0, 0, 0] @ ar_proof r"

section \<open>CallLinkAuthCredentialResponse\<close>

definition calllink_equations :: "(string \<times> string list) list" where
  "calllink_equations =
    [(''C_W'', [''w'', ''G_w'', ''wprime'', ''G_wprime'']),
     (''G_V-I'', [''x0'', ''G_x0'', ''x1'', ''G_x1'', ''y0'', ''G_y0'', ''y1'', ''G_y1'', ''y2'', ''G_y2'']),
     (''V'', [''w'', ''G_w'', ''x0'', ''U'', ''x1'', ''tU'', ''y0'', ''M0'', ''y1'', ''M1'', ''y2'', ''M2''])]"

definition calllink_scalars :: "key_pair \<Rightarrow> scalar_args result" where
  "calllink_scalars key = args_of
    [(''w'', Inr (kp_w key)), (''wprime'', Inr (kp_wprime key)), (''x0'', Inr (kp_x0 key)), (''x1'', Inr (kp_x1 key)),
     (''y0'', lpc_index (kp_y key) 0), (''y1'', lpc_index (kp_y key) 1), (''y2'', lpc_index (kp_y key) 2)]"

definition calllink_points ::
    "zlib \<Rightarrow> point list \<Rightarrow> key_pair \<Rightarrow> scalar \<Rightarrow> point \<Rightarrow> point \<Rightarrow> point list \<Rightarrow> point_args result" where
  "calllink_points Z params key t U V M = args_of
    [(''C_W'', Inr (kp_C_W key)), (''G_w'', lpc_index params CRED_G_w), (''G_wprime'', lpc_index params CRED_G_wprime),
     (''G_V-I'', rmap (\<lambda>g. point_sub Z g (kp_I key)) (lpc_index params CRED_G_V)),
     (''G_x0'', lpc_index params CRED_G_x0), (''G_x1'', lpc_index params CRED_G_x1),
     (''G_y0'', lpc_index params (CRED_G_y + 0)), (''G_y1'', lpc_index params (CRED_G_y + 1)),
     (''G_y2'', lpc_index params (CRED_G_y + 2)),
     (''V'', Inr V), (''U'', Inr U), (''tU'', Inr (point_mult Z U t)),
     (''M0'', lpc_index M 0), (''M1'', lpc_index M 1), (''M2'', lpc_index M 2)]"

definition calllink_attributes :: "zlib \<Rightarrow> bytes \<Rightarrow> lpcint \<Rightarrow> point list result" where
  "calllink_attributes Z uuid redemptionTime =
     rbind (getPoint Z (ratchet (absorb (timeBytes (z_asn Z) redemptionTime) (callLinkAuthCredentialSho Z)))) (\<lambda>(p, sho).
     rbind (uuid_points Z uuid) (\<lambda>a. Inr (p # a)))"

definition CallLinkAuthCredentialResponse ::
    "zlib \<Rightarrow> key_pair \<Rightarrow> bytes \<Rightarrow> lpcint \<Rightarrow> bytes \<Rightarrow> auth_response result" where
  "CallLinkAuthCredentialResponse Z key uuid redemptionTime random =
     rbind (calllink_attributes Z uuid redemptionTime) (\<lambda>M.
     rbind (key_prepare Z key (ratchet (absorb random (credentialSho Z))) M) (\<lambda>((t, U, V), sho).
     rbind (add_all calllink_equations Statement) (\<lambda>stmt.
     rbind (calllink_scalars key) (\<lambda>scalarArgs.
     rbind (credentialParams Z) (\<lambda>params.
     rbind (calllink_points Z params key t U V M) (\<lambda>pointArgs.
     rbind (squeeze Z 32 sho) (\<lambda>(rnd, sho).
     rbind (prove Z stmt scalarArgs pointArgs [] rnd) (\<lambda>pf.
       Inr \<lparr>ar_t = t, ar_U = U, ar_V = V, ar_proof = pf\<rparr>))))))))"

definition calllink_transport :: "zlib \<Rightarrow> auth_response \<Rightarrow> bytes" where
  "calllink_transport Z r =
     [0, 0, 1, 0, 0, 0, 0, 0, 0] @ ar_proof r @ scalar_bytes Z (ar_t r) @ ar_U r @ ar_V r"

section \<open>Profile key commitments and requests\<close>

record commitment =
  cm_J1 :: point
  cm_J2 :: point
  cm_J3 :: point

definition commitment_transport :: "commitment \<Rightarrow> bytes" where
  "commitment_transport c = [0] @ cm_J1 c @ cm_J2 c @ cm_J3 c"

definition RemoteProfileKeyCommitment :: "bytes \<Rightarrow> commitment result" where
  "RemoteProfileKeyCommitment blob =
     (if length blob \<noteq> 97 then Inl (Error ''Bad ProfileKeyCommitment'')
      else
        rbind (lpc_range blob 1 32) (\<lambda>a.
        rbind (lpc_range blob 33 64) (\<lambda>b.
        rbind (lpc_range blob 65 (int (length blob) - 1)) (\<lambda>c.
          Inr \<lparr>cm_J1 = a, cm_J2 = b, cm_J3 = c\<rparr>))))"

record pkc_request =
  rq_publicKey :: point
  rq_D1 :: point
  rq_D2 :: point
  rq_E1 :: point
  rq_E2 :: point
  rq_proof :: bytes

definition request_equations :: "(string \<times> string list) list" where
  "request_equations =
    [(''Y'', [''y'', ''G'']), (''D1'', [''r1'', ''G'']), (''E1'', [''r2'', ''G'']), (''J3'', [''j3'', ''G_j3'']),
     (''D2-J1'', [''r1'', ''Y'', ''j3'', ''-G_j1'']), (''E2-J2'', [''r2'', ''Y'', ''j3'', ''-G_j2''])]"

definition request_points :: "zlib \<Rightarrow> commitment \<Rightarrow> pkc_request \<Rightarrow> point_args result" where
  "request_points Z c r =
     rbind (profileKeyCommitmentParams Z) (\<lambda>gs.
     rbind (lpc_index gs 0) (\<lambda>G_j1.
     rbind (lpc_index gs 1) (\<lambda>G_j2.
     rbind (lpc_index gs 2) (\<lambda>G_j3.
       Inr [(''Y'', rq_publicKey r), (''D1'', rq_D1 r), (''E1'', rq_E1 r), (''J3'', cm_J3 c), (''G_j3'', G_j3),
            (''D2-J1'', point_sub Z (rq_D2 r) (cm_J1 c)), (''-G_j1'', point_neg Z G_j1),
            (''E2-J2'', point_sub Z (rq_E2 r) (cm_J2 c)), (''-G_j2'', point_neg Z G_j2)]))))"

definition ProfileKeyCredentialRequest ::
    "zlib \<Rightarrow> commitment \<Rightarrow> point \<Rightarrow> point \<Rightarrow> point \<Rightarrow> point \<Rightarrow> point \<Rightarrow> bytes \<Rightarrow> pkc_request result" where
  "ProfileKeyCredentialRequest Z c publicKey D1 D2 E1 E2 pf =
     (let r = \<lparr>rq_publicKey = publicKey, rq_D1 = D1, rq_D2 = D2, rq_E1 = E1, rq_E2 = E2, rq_proof = pf\<rparr> in
      rbind (add_all request_equations Statement) (\<lambda>stmt.
      rbind (request_points Z c r) (\<lambda>pointArgs.
      rbind (verify Z stmt pf pointArgs []) (\<lambda>ok.
        if \<not> ok then Inl (Error ''Verification failed'') else Inr r))))"

definition request_transport :: "pkc_request \<Rightarrow> bytes" where
  "request_transport r =
     [0] @ rq_publicKey r @ rq_D1 r @ rq_D2 r @ rq_E1 r @ rq_E2 r @ [0xa0, 0, 0, 0, 0, 0, 0, 0] @ rq_proof r"

definition RemoteProfileKeyCredentialRequest :: "zlib \<Rightarrow> commitment \<Rightarrow> bytes \<Rightarrow> pkc_request result" where
  "RemoteProfileKeyCredentialRequest Z c blob =
     (if length blob \<noteq> 329 then Inl (Error ''Bad ProfileKeyCredentialRequest'')
      else rbind (lpc_range blob 161 168) (\<lambda>len.
        if len \<noteq> [0xa0, 0, 0, 0, 0, 0, 0, 0] then Inl (Error ''Bad ProfileKeyCredentialRequest'')
        else
          rbind (lpc_range blob 1 32) (\<lambda>Y.
          rbind (lpc_range blob 33 64) (\<lambda>D1.
          rbind (lpc_range blob 65 96) (\<lambda>D2.
          rbind (lpc_range blob 97 128) (\<lambda>E1.
          rbind (lpc_range blob 129 160) (\<lambda>E2.
          rbind (lpc_range blob 169 (int (length blob) - 1)) (\<lambda>pf.
            ProfileKeyCredentialRequest Z c Y D1 D2 E1 E2 pf))))))))"

section \<open>ProfileKeyCredentialResponse\<close>

record pkc_response =
  pr_t :: scalar
  pr_U :: point
  pr_S1 :: point
  pr_S2 :: point
  pr_expirationTime :: lpcint
  pr_proof :: bytes

definition profile_equations :: "(string \<times> string list) list" where
  "profile_equations =
    [(''C_W'', [''w'', ''G_w'', ''wprime'', ''G_wprime'']),
     (''G_V-I'', [''x0'', ''G_x0'', ''x1'', ''G_x1'', ''y1'', ''G_y1'', ''y2'', ''G_y2'',
        ''y3'', ''G_y3'', ''y4'', ''G_y4'', ''y5'', ''G_y5'']),
     (''S1'', [''y3'', ''D1'', ''y4'', ''E1'', ''rprime'', ''G'']),
     (''S2'', [''y3'', ''D2'', ''y4'', ''E2'', ''rprime'', ''Y'', ''w'', ''G_w'', ''x0'', ''U'', ''x1'', ''tU'',
        ''y1'', ''M1'', ''y2'', ''M2'', ''y5'', ''M5''])]"

definition profile_scalars :: "key_pair \<Rightarrow> scalar \<Rightarrow> scalar_args result" where
  "profile_scalars key rprime = args_of
    [(''w'', Inr (kp_w key)), (''wprime'', Inr (kp_wprime key)), (''x0'', Inr (kp_x0 key)), (''x1'', Inr (kp_x1 key)),
     (''y1'', lpc_index (kp_y key) 0), (''y2'', lpc_index (kp_y key) 1), (''y3'', lpc_index (kp_y key) 2),
     (''y4'', lpc_index (kp_y key) 3), (''y5'', lpc_index (kp_y key) 4), (''rprime'', Inr rprime)]"

definition profile_points ::
    "zlib \<Rightarrow> point list \<Rightarrow> key_pair \<Rightarrow> pkc_request \<Rightarrow> scalar \<Rightarrow> point \<Rightarrow> point \<Rightarrow> point \<Rightarrow> point list \<Rightarrow> point
      \<Rightarrow> point_args result" where
  "profile_points Z params key rq t U S1 S2 M M5 = args_of
    [(''C_W'', Inr (kp_C_W key)), (''G_w'', lpc_index params CRED_G_w), (''G_wprime'', lpc_index params CRED_G_wprime),
     (''G_V-I'', rmap (\<lambda>g. point_sub Z g (kp_I key)) (lpc_index params CRED_G_V)),
     (''G_x0'', lpc_index params CRED_G_x0), (''G_x1'', lpc_index params CRED_G_x1),
     (''G_y1'', lpc_index params (CRED_G_y + 0)), (''G_y2'', lpc_index params (CRED_G_y + 1)),
     (''G_y3'', lpc_index params (CRED_G_y + 2)), (''G_y4'', lpc_index params (CRED_G_y + 3)),
     (''G_y5'', lpc_index params (CRED_G_y + 4)),
     (''S1'', Inr S1), (''D1'', Inr (rq_D1 rq)), (''E1'', Inr (rq_E1 rq)),
     (''S2'', Inr S2), (''D2'', Inr (rq_D2 rq)), (''E2'', Inr (rq_E2 rq)), (''Y'', Inr (rq_publicKey rq)),
     (''U'', Inr U), (''tU'', Inr (point_mult Z U t)),
     (''M1'', lpc_index M 0), (''M2'', lpc_index M 1), (''M5'', Inr M5)]"

definition ProfileKeyCredentialResponse ::
    "zlib \<Rightarrow> key_pair \<Rightarrow> pkc_request \<Rightarrow> bytes \<Rightarrow> lpcint \<Rightarrow> bytes \<Rightarrow> pkc_response result" where
  "ProfileKeyCredentialResponse Z key rq uuid expirationTime random =
     rbind (uuid_points Z uuid) (\<lambda>M.
     rbind (key_prepare Z key (ratchet (absorb random (profileKeyCredentialSho Z))) M) (\<lambda>((t, U, Vprime), sho).
     rbind (getScalar Z sho) (\<lambda>(rprime, sho).
     rbind (credentialParams Z) (\<lambda>params.
     rbind (lpc_index params CRED_G_m5) (\<lambda>g5.
     rbind (timeScalar Z expirationTime) (\<lambda>m.
       let M5 = point_mult Z g5 m in
       rbind (lpc_index (kp_y key) 4) (\<lambda>y4.
       rbind (lpc_index (kp_y key) 2) (\<lambda>y2.
       rbind (lpc_index (kp_y key) 3) (\<lambda>y3.
         let R1 = point_mult Z (r_base Z) rprime;
             R2 = point_add Z (point_add Z (point_mult Z (rq_publicKey rq) rprime) Vprime) (point_mult Z M5 y4);
             S1 = point_add Z (point_add Z R1 (point_mult Z (rq_D1 rq) y2)) (point_mult Z (rq_E1 rq) y3);
             S2 = point_add Z (point_add Z R2 (point_mult Z (rq_D2 rq) y2)) (point_mult Z (rq_E2 rq) y3) in
         rbind (add_all profile_equations Statement) (\<lambda>stmt.
         rbind (profile_scalars key rprime) (\<lambda>scalarArgs.
         rbind (profile_points Z params key rq t U S1 S2 M M5) (\<lambda>pointArgs.
         rbind (squeeze Z 32 sho) (\<lambda>(rnd, sho).
         rbind (prove Z stmt scalarArgs pointArgs [] rnd) (\<lambda>pf.
           Inr \<lparr>pr_t = t, pr_U = U, pr_S1 = S1, pr_S2 = S2, pr_expirationTime = expirationTime,
                pr_proof = pf\<rparr>))))))))))))))"

definition profile_transport :: "zlib \<Rightarrow> pkc_response \<Rightarrow> bytes" where
  "profile_transport Z r =
     [0] @ scalar_bytes Z (pr_t r) @ pr_U r @ pr_S1 r @ pr_S2 r
     @ lib_reverse (z_asn Z) (timeBytes (z_asn Z) (pr_expirationTime r))
     @ [0x60, 1, 0, 0, 0, 0, 0, 0] @ pr_proof r"

end
