(* ===== verification/CredentialsSpec.thy ===== *)
theory CredentialsSpec
  imports Credentials
begin

text \<open>
  The credentials the server issues carry proofs that verify: the keys made by \<open>KeyPair\<close> satisfy
  the relations the statements ask for, and so does every issued response.
\<close>

section \<open>Parameters and keys\<close>

lemma sho_of_simps [simp]: "sho_hash (sho_of Z l) = ShoHmacSha256 Z" "sho_input (sho_of Z l) = None"
  by (simp_all add: sho_of_def)

lemma add_all_build: "add_all (map (\<lambda>(lhs, ts). (lhs, flat_terms ts)) eqs) st = build eqs st"
  by (induction eqs st rule: build.induct) (auto intro!: rbind_cong)

context zkp_library begin

lemma get_points_ok:
  assumes "sho_input sho = None" "known_hash (sho_hash sho)"
  obtains ps sho' where "get_points Z n sho = Inr (ps, sho')" "length ps = n" "\<forall>p\<in>set ps. valid p"
    "sho_input sho' = None" "sho_hash sho' = sho_hash sho"
proof -
  have "\<exists>ps sho'. get_points Z n sho = Inr (ps, sho') \<and> length ps = n \<and> (\<forall>p\<in>set ps. valid p)
    \<and> sho_input sho' = None \<and> sho_hash sho' = sho_hash sho"
    using assms
  proof (induction n arbitrary: sho)
    case (Suc n)
    obtain p sho1 where 1: "getPoint Z sho = Inr (p, sho1)" "valid p" "sho_input sho1 = None"
      "sho_hash sho1 = sho_hash sho"
      by (rule getPoint_known [OF Suc.prems])
    then obtain ps sho2 where "get_points Z n sho1 = Inr (ps, sho2)" "length ps = n" "\<forall>p\<in>set ps. valid p"
      "sho_input sho2 = None" "sho_hash sho2 = sho_hash sho"
      using Suc.IH [of sho1] Suc.prems(2) by auto
    with 1 show ?case by auto
  qed simp
  then show thesis using that by blast
qed

lemma get_scalars_ok:
  assumes "sho_input sho = None" "known_hash (sho_hash sho)"
  obtains as sho' where "get_scalars Z n sho = Inr (as, sho')" "length as = n" "\<forall>a\<in>set as. scalar_ok a"
    "sho_input sho' = None" "sho_hash sho' = sho_hash sho"
proof -
  have "\<exists>as sho'. get_scalars Z n sho = Inr (as, sho') \<and> length as = n \<and> (\<forall>a\<in>set as. scalar_ok a)
    \<and> sho_input sho' = None \<and> sho_hash sho' = sho_hash sho"
    using assms
  proof (induction n arbitrary: sho)
    case (Suc n)
    obtain a sho1 where 1: "getScalar Z sho = Inr (a, sho1)" "scalar_ok a" "sho_input sho1 = None"
      "sho_hash sho1 = sho_hash sho"
      by (rule getScalar_known [OF Suc.prems])
    then obtain as sho2 where "get_scalars Z n sho1 = Inr (as, sho2)" "length as = n" "\<forall>a\<in>set as. scalar_ok a"
      "sho_input sho2 = None" "sho_hash sho2 = sho_hash sho"
      using Suc.IH [of sho1] Suc.prems(2) by auto
    with 1 show ?case by auto
  qed simp
  then show thesis using that by blast
qed

lemma credentialParams_ok:
  obtains ps where "credentialParams Z = Inr ps" "length ps = 17" "\<forall>p\<in>set ps. valid p"
proof -
  let ?sho = "ratchet (absorb [] (Sho (ShoHmacSha256 Z)
    (str ''Signal_ZKGroup_20200424_Constant_Credentials_SystemParams_Generate'')))"
  obtain c sho where c: "get_points Z 17 ?sho = Inr (c, sho)" "length c = 17" "\<forall>p\<in>set c. valid p"
    by (rule get_points_ok [of ?sho 17]) simp_all
  let ?ps = "take 4 c @ take 4 (drop 4 c) @ take 2 (drop 14 c) @ take 4 (drop 8 c) @ take 1 (drop 16 c)
    @ take 2 (drop 12 c)"
  have "credentialParams Z = Inr ?ps"
    using c(1,2) by (simp add: credentialParams_def lpc_range_def)
  moreover have "length ?ps = 17" using c(2) by simp
  moreover have "\<forall>p\<in>set ?ps. valid p"
    using c(3) by (auto dest: in_set_takeD in_set_dropD)
  ultimately show thesis by (rule that)
qed

text \<open>The relations between the public and the secret part of a key of \<open>n\<close> attributes.\<close>

definition key_ok :: "point list \<Rightarrow> nat \<Rightarrow> nat \<Rightarrow> key_pair \<Rightarrow> bool" where
  "key_ok ps sz n key \<longleftrightarrow>
     scalar_ok (kp_w key) \<and> scalar_ok (kp_wprime key) \<and> scalar_ok (kp_x0 key) \<and> scalar_ok (kp_x1 key)
     \<and> length (kp_y key) = sz \<and> n \<le> sz \<and> (\<forall>a\<in>set (kp_y key). scalar_ok a)
     \<and> valid (kp_W key) \<and> valid (kp_C_W key) \<and> valid (kp_I key)
     \<and> dlog (kp_W key) = dlog (ps ! CRED_G_w) * asn_val (kp_w key) mod ell
     \<and> dlog (kp_C_W key) = (dlog (ps ! CRED_G_w) * asn_val (kp_w key)
         + dlog (ps ! CRED_G_wprime) * asn_val (kp_wprime key)) mod ell
     \<and> dlog (kp_I key) = (dlog (ps ! CRED_G_V) - dlog (ps ! CRED_G_x0) * asn_val (kp_x0 key)
         - dlog (ps ! CRED_G_x1) * asn_val (kp_x1 key)
         - (\<Sum>i\<leftarrow>[0..<n]. dlog (ps ! (CRED_G_y + i)) * asn_val (kp_y key ! i))) mod ell"

lemma key_loop_ok:
  assumes "length ps = 17" "\<forall>p\<in>set ps. valid p" "\<forall>a\<in>set y. scalar_ok a"
    "\<forall>i\<in>set is. i < length y \<and> i < 13" "valid I"
  shows "\<exists>I'. key_loop Z ps y is I = Inr I' \<and> valid I'
    \<and> dlog I' = (dlog I - (\<Sum>i\<leftarrow>is. dlog (ps ! (CRED_G_y + i)) * asn_val (y ! i))) mod ell"
  using assms(4,5)
proof (induction "is" arbitrary: I)
  case Nil
  then show ?case by (simp add: dlog_mod)
next
  case (Cons i "is")
  have v: "valid (ps ! (CRED_G_y + i))" "scalar_ok (y ! i)" "CRED_G_y + i < length ps" "i < length y"
    using Cons.prems assms(1-3) by (auto simp: cred_defs)
  let ?I = "point_sub Z I (point_mult Z (ps ! (CRED_G_y + i)) (y ! i))"
  obtain I' where "key_loop Z ps y is ?I = Inr I'" "valid I'"
    "dlog I' = (dlog ?I - (\<Sum>i\<leftarrow>is. dlog (ps ! (CRED_G_y + i)) * asn_val (y ! i))) mod ell"
    using Cons.IH [of ?I] Cons.prems v by auto
  then show ?case
    using v Cons.prems by (simp add: mod_simps algebra_simps)
qed

lemma KeyPair_ok:
  assumes "sho_input sho = None" "known_hash (sho_hash sho)" "credentialParams Z = Inr ps"
    "nattr \<le> sz" "sz \<le> 13" "n = (if nattr = 0 then sz else nattr)"
  obtains key sho' where "KeyPair Z sho sz nattr = Inr (key, sho')" "key_ok ps sz n key"
    "sho_input sho' = None" "sho_hash sho' = sho_hash sho"
proof -
  have ps: "length ps = 17" "\<forall>p\<in>set ps. valid p"
    using credentialParams_ok assms(3) by force+
  obtain w s1 where w: "getScalar Z sho = Inr (w, s1)" "scalar_ok w" "sho_input s1 = None" "sho_hash s1 = sho_hash sho"
    by (rule getScalar_known [OF assms(1,2)])
  obtain w' s2 where w': "getScalar Z s1 = Inr (w', s2)" "scalar_ok w'" "sho_input s2 = None" "sho_hash s2 = sho_hash sho"
    by (rule getScalar_known [of s1]) (use w assms(2) in simp_all)
  obtain x0 s3 where x0: "getScalar Z s2 = Inr (x0, s3)" "scalar_ok x0" "sho_input s3 = None" "sho_hash s3 = sho_hash sho"
    by (rule getScalar_known [of s2]) (use w' assms(2) in simp_all)
  obtain x1 s4 where x1: "getScalar Z s3 = Inr (x1, s4)" "scalar_ok x1" "sho_input s4 = None" "sho_hash s4 = sho_hash sho"
    by (rule getScalar_known [of s3]) (use x0 assms(2) in simp_all)
  obtain y s5 where y: "get_scalars Z sz s4 = Inr (y, s5)" "length y = sz" "\<forall>a\<in>set y. scalar_ok a"
      "sho_input s5 = None" "sho_hash s5 = sho_hash sho"
    by (rule get_scalars_ok [of s4 sz]) (use x1 assms(2) in simp_all)
  have idx: "CRED_G_w < length ps" "CRED_G_wprime < length ps" "CRED_G_V < length ps" "CRED_G_x0 < length ps"
    "CRED_G_x1 < length ps"
    using ps(1) by (simp_all add: cred_defs)
  then have val: "valid (ps ! CRED_G_w)" "valid (ps ! CRED_G_wprime)" "valid (ps ! CRED_G_V)" "valid (ps ! CRED_G_x0)"
    "valid (ps ! CRED_G_x1)"
    using ps(2) by simp_all
  let ?I0 = "point_sub Z (point_sub Z (ps ! CRED_G_V) (point_mult Z (ps ! CRED_G_x0) x0)) (point_mult Z (ps ! CRED_G_x1) x1)"
  have "n \<le> sz" using assms(4,6) by auto
  then obtain I where I: "key_loop Z ps y [0..<n] ?I0 = Inr I" "valid I"
    "dlog I = (dlog ?I0 - (\<Sum>i\<leftarrow>[0..<n]. dlog (ps ! (CRED_G_y + i)) * asn_val (y ! i))) mod ell"
    using key_loop_ok [OF ps y(3), of "[0..<n]" ?I0] val x0 x1 y(2) assms(5) by auto
  show thesis
  proof (rule that)
    show "KeyPair Z sho sz nattr = Inr (\<lparr>kp_w = w, kp_wprime = w', kp_W = point_mult Z (ps ! CRED_G_w) w,
        kp_x0 = x0, kp_x1 = x1, kp_y = y,
        kp_C_W = point_add Z (point_mult Z (ps ! CRED_G_w) w) (point_mult Z (ps ! CRED_G_wprime) w'), kp_I = I\<rparr>, s5)"
      using I(1) assms(3,6) w w' x0 x1 y idx by (simp add: KeyPair_def Let_def)
  qed (use I w w' x0 x1 y val \<open>n \<le> sz\<close> in \<open>simp_all add: key_ok_def mod_simps algebra_simps\<close>)
qed

end

section \<open>Issuing\<close>

context zkp_library begin

lemma prepare_loop_ok:
  assumes "\<forall>a\<in>set y. scalar_ok a"
  shows "i + length M \<le> length y \<Longrightarrow> \<forall>m\<in>set M. valid m \<Longrightarrow> valid V \<Longrightarrow>
    \<exists>V'. prepare_loop Z y i M V = Inr V' \<and> valid V'
      \<and> dlog V' = (dlog V + (\<Sum>k\<leftarrow>[0..<length M]. dlog (M ! k) * asn_val (y ! (i + k)))) mod ell"
proof (induction M arbitrary: i V)
  case Nil
  then show ?case by (simp add: dlog_mod)
next
  case (Cons m M)
  then have v: "valid m" "scalar_ok (y ! i)" "i < length y" using assms by simp_all
  let ?V = "point_add Z V (point_mult Z m (y ! i))"
  obtain V' where V': "prepare_loop Z y (Suc i) M ?V = Inr V'" "valid V'"
    "dlog V' = (dlog ?V + (\<Sum>k\<leftarrow>[0..<length M]. dlog (M ! k) * asn_val (y ! (Suc i + k)))) mod ell"
    using Cons.IH [of "Suc i" ?V] Cons.prems v by auto
  have "(\<Sum>k\<leftarrow>[0..<length (m # M)]. dlog ((m # M) ! k) * asn_val (y ! (i + k)))
      = dlog m * asn_val (y ! i) + (\<Sum>k\<leftarrow>[0..<length M]. dlog (M ! k) * asn_val (y ! (Suc i + k)))"
  proof -
    have "[0..<length (m # M)] = 0 # map Suc [0..<length M]"
      by (simp add: upt_conv_Cons map_Suc_upt del: upt_Suc)
    then show ?thesis by (simp add: comp_def del: upt_Suc)
  qed
  then show ?case
    using V' v Cons.prems by (simp add: mod_simps algebra_simps del: upt_Suc)
qed

lemma key_prepare_ok:
  assumes "key_ok ps sz n key" "sho_input sho = None" "known_hash (sho_hash sho)"
    "length M \<le> sz" "\<forall>m\<in>set M. valid m"
  obtains t U V sho' where "key_prepare Z key sho M = Inr ((t, U, V), sho')" "scalar_ok t" "valid U" "valid V"
    "sho_input sho' = None" "sho_hash sho' = sho_hash sho"
    "dlog V = (dlog (kp_W key) + dlog U * (asn_val (kp_x0 key) + asn_val (kp_x1 key) * asn_val t)
       + (\<Sum>k\<leftarrow>[0..<length M]. dlog (M ! k) * asn_val (kp_y key ! k))) mod ell"
proof -
  have key: "scalar_ok (kp_x0 key)" "scalar_ok (kp_x1 key)" "valid (kp_W key)" "\<forall>a\<in>set (kp_y key). scalar_ok a"
    "length (kp_y key) = sz"
    using assms(1) by (simp_all add: key_ok_def)
  obtain t s1 where t: "getScalar Z sho = Inr (t, s1)" "scalar_ok t" "sho_input s1 = None" "sho_hash s1 = sho_hash sho"
    by (rule getScalar_known [OF assms(2,3)])
  obtain U s2 where U: "getPoint Z s1 = Inr (U, s2)" "valid U" "sho_input s2 = None" "sho_hash s2 = sho_hash sho"
    by (rule getPoint_known [of s1]) (use t assms(3) in simp_all)
  let ?V = "point_add Z (kp_W key) (point_mult Z U (scalar_add (kp_x0 key) (scalar_mult (kp_x1 key) t)))"
  have V: "valid ?V" using key t U by simp
  obtain V' where "prepare_loop Z (kp_y key) 0 M ?V = Inr V'" "valid V'"
    "dlog V' = (dlog ?V + (\<Sum>k\<leftarrow>[0..<length M]. dlog (M ! k) * asn_val (kp_y key ! k))) mod ell"
    using prepare_loop_ok [OF key(4), of 0 M ?V] key(5) assms(4,5) V by auto
  then show thesis
    using t U key by (intro that [of t U V' s2]) (simp_all add: key_prepare_def Let_def asn_val_scalar_ops mod_simps)
qed

lemma uuid_points_ok:
  assumes "length uuid = 16"
  obtains p q where "uuid_points Z uuid = Inr [p, q]" "valid p" "valid q"
proof -
  let ?sho = "ratchet (absorb uuid (uuidSho Z))"
  obtain M1 sho where M1: "getPoint Z ?sho = Inr (M1, sho)" "valid M1"
    by (rule getPoint_known [of ?sho]) (simp_all add: uuidSho_def)
  define h where "h = z_hash Z ''SHA256'' uuid"
  have h: "length h = 32" by (simp add: h_def length_hash)
  define b where "b = take 8 h @ uuid @ take 8 (drop 24 h)"
  have b: "length b = 32" using h assms by (simp add: b_def)
  let ?b = "(b[0 := (b ! 0) AND 0xfe])[31 := (b ! 31) AND 0x3f]"
  have "lpc_range h 0 7 = Inr (take 8 h)" "lpc_range h 24 31 = Inr (take 8 (drop 24 h))"
    using h by (simp_all add: lpc_range_def)
  then have "uuid_points Z uuid = Inr [M1, r_map Z ?b]"
    using b by (simp add: uuid_points_def Let_def M1 flip: h_def b_def)
  moreover have "valid (r_map Z ?b)" using b by (intro valid_map) simp
  ultimately show thesis using M1(2) that by blast
qed

lemma timeScalar_ok:
  obtains m where "timeScalar Z time = Inr m" "scalar_ok m"
proof -
  let ?sho = "ratchet (absorb (timeBytes (z_asn Z) time) (timeSho Z))"
  obtain m sho where "getScalar Z ?sho = Inr (m, sho)" "scalar_ok m"
    by (rule getScalar_known [of ?sho]) (simp_all add: timeSho_def)
  then show thesis using that by (simp add: timeScalar_def)
qed

end

lemma args_of_simps [simp]:
  "args_of [] = Inr []"
  "args_of ((n, r) # xs) = rbind r (\<lambda>v. rbind (args_of xs) (\<lambda>vs. Inr ((n, v) # vs)))"
  by (simp_all add: args_of_def rmap_def rbind_assoc)

section \<open>AuthCredentialWithPniResponse\<close>

definition auth_eqs :: "equation list" where
  "auth_eqs =
    [(''C_W'', [(''w'', ''G_w''), (''wprime'', ''G_wprime'')]),
     (''G_V-I'', [(''x0'', ''G_x0''), (''x1'', ''G_x1''), (''y1'', ''G_y1''), (''y2'', ''G_y2''),
        (''y3'', ''G_y3''), (''y4'', ''G_y4''), (''y5'', ''G_y5'')]),
     (''V'', [(''w'', ''G_w''), (''x0'', ''U''), (''x1'', ''tU''), (''y1'', ''M1''), (''y2'', ''M2''),
        (''y3'', ''M3''), (''y4'', ''M4''), (''y5'', ''M5'')])]"

lemma auth_build: "add_all auth_equations Statement = build auth_eqs Statement"
  by (simp only: add_all_build [symmetric]) (simp add: auth_equations_def auth_eqs_def)

lemma auth_statement:
  obtains st where "build auth_eqs Statement = Inr st"
    "scalars st = [''w'', ''wprime'', ''x0'', ''x1'', ''y1'', ''y2'', ''y3'', ''y4'', ''y5'']"
    "points st = [''G'', ''C_W'', ''G_w'', ''G_wprime'', ''G_V-I'', ''G_x0'', ''G_x1'', ''G_y1'', ''G_y2'',
       ''G_y3'', ''G_y4'', ''G_y5'', ''V'', ''U'', ''tU'', ''M1'', ''M2'', ''M3'', ''M4'', ''M5'']"
proof -
  have "rmap (\<lambda>st. (scalars st, points st)) (build auth_eqs Statement)
    = Inr ([''w'', ''wprime'', ''x0'', ''x1'', ''y1'', ''y2'', ''y3'', ''y4'', ''y5''],
      [''G'', ''C_W'', ''G_w'', ''G_wprime'', ''G_V-I'', ''G_x0'', ''G_x1'', ''G_y1'', ''G_y2'',
       ''G_y3'', ''G_y4'', ''G_y5'', ''V'', ''U'', ''tU'', ''M1'', ''M2'', ''M3'', ''M4'', ''M5''])"
    by code_simp
  then show thesis using that by (cases "build auth_eqs Statement") auto
qed

section \<open>The ring of exponents\<close>

text \<open>
  The integers modulo the order as a type, a commutative ring: an equation between points is
  mapped into it by \<open>zof\<close> and proved by ring arithmetic.
\<close>

typedef zell = "{0..<ell}"
  by (rule exI [of _ 0]) simp

setup_lifting type_definition_zell

instantiation zell :: comm_ring_1 begin

lift_definition zero_zell :: zell is 0 by simp
lift_definition one_zell :: zell is 1 by (simp add: ell_def)
lift_definition plus_zell :: "zell \<Rightarrow> zell \<Rightarrow> zell" is "\<lambda>a b. (a + b) mod ell" by simp
lift_definition minus_zell :: "zell \<Rightarrow> zell \<Rightarrow> zell" is "\<lambda>a b. (a - b) mod ell" by simp
lift_definition uminus_zell :: "zell \<Rightarrow> zell" is "\<lambda>a. - a mod ell" by simp
lift_definition times_zell :: "zell \<Rightarrow> zell \<Rightarrow> zell" is "\<lambda>a b. a * b mod ell" by simp

instance
  by standard (transfer; simp add: mod_simps algebra_simps)+

end

lift_definition zof :: "int \<Rightarrow> zell" is "\<lambda>n. n mod ell" by simp

lemma zof_hom [simp]:
  "zof (a + b) = zof a + zof b"
  "zof (a - b) = zof a - zof b"
  "zof (- a) = - zof a"
  "zof (a * b) = zof a * zof b"
  "zof (a mod ell) = zof a"
  "zof 0 = 0"
  by (transfer; simp add: mod_simps)+

lemma zof_eq: "zof a = zof b \<longleftrightarrow> a mod ell = b mod ell"
  by transfer simp

lemma upt5: "[0..<5] = [0, 1, 2, 3, 4]"
  by (simp add: upt_rec)

context zkp_library begin

lemma dlog_eqI: "valid p \<Longrightarrow> zof (dlog p) = zof n \<Longrightarrow> dlog p = n mod ell"
  by (simp add: zof_eq dlog_mod)

lemma zof_of_dlog: "dlog p = n mod ell \<Longrightarrow> zof (dlog p) = zof n"
  by simp

text \<open>An issued response over given attributes.\<close>

lemma auth_proof:
  assumes "key_ok params 5 5 key" "length params = 17" "\<forall>p\<in>set params. valid p"
    "scalar_ok t" "valid U" "valid V" "length M = 5" "\<forall>m\<in>set M. valid m"
    "dlog V = (dlog (kp_W key) + dlog U * (asn_val (kp_x0 key) + asn_val (kp_x1 key) * asn_val t)
       + (\<Sum>k\<leftarrow>[0..<5]. dlog (M ! k) * asn_val (kp_y key ! k))) mod ell"
  obtains stmt sargs pargs pf where "add_all auth_equations Statement = Inr stmt"
    "auth_scalars key = Inr sargs" "auth_points Z params key t U V M = Inr pargs"
    "prove Z stmt sargs pargs msg rnd = Inr pf" "verify Z stmt pf pargs msg = Inr True" "length pf = 320"
proof -
  obtain stmt where stmt: "build auth_eqs Statement = Inr stmt"
    "scalars stmt = [''w'', ''wprime'', ''x0'', ''x1'', ''y1'', ''y2'', ''y3'', ''y4'', ''y5'']"
    "points stmt = [''G'', ''C_W'', ''G_w'', ''G_wprime'', ''G_V-I'', ''G_x0'', ''G_x1'', ''G_y1'', ''G_y2'',
       ''G_y3'', ''G_y4'', ''G_y5'', ''V'', ''U'', ''tU'', ''M1'', ''M2'', ''M3'', ''M4'', ''M5'']"
    by (rule auth_statement)
  have st: "st_ok stmt auth_eqs" using build_ok [OF stmt(1) Statement_ok] by simp
  note key = assms(1) [unfolded key_ok_def upt5]
  have y: "length (kp_y key) = 5" "\<And>i. i < 5 \<Longrightarrow> scalar_ok (kp_y key ! i)" using key by auto
  have g: "\<And>i. i < 17 \<Longrightarrow> valid (params ! i)" using assms(2,3) by simp
  have m: "\<And>i. i < 5 \<Longrightarrow> valid (M ! i)" using assms(7,8) by simp
  let ?y = "kp_y key"
  let ?sargs = "[(''w'', kp_w key), (''wprime'', kp_wprime key), (''x0'', kp_x0 key), (''x1'', kp_x1 key),
     (''y1'', ?y ! 0), (''y2'', ?y ! 1), (''y3'', ?y ! 2), (''y4'', ?y ! 3), (''y5'', ?y ! 4)]"
  let ?pargs = "[(''C_W'', kp_C_W key), (''G_w'', params ! 0), (''G_wprime'', params ! 1),
     (''G_V-I'', point_sub Z (params ! 15) (kp_I key)),
     (''G_x0'', params ! 2), (''G_x1'', params ! 3), (''G_y1'', params ! 4), (''G_y2'', params ! 5),
     (''G_y3'', params ! 6), (''G_y4'', params ! 7), (''G_y5'', params ! 8),
     (''V'', V), (''U'', U), (''tU'', point_mult Z U t),
     (''M1'', M ! 0), (''M2'', M ! 1), (''M3'', M ! 2), (''M4'', M ! 3), (''M5'', M ! 4)]"
  have sargs: "auth_scalars key = Inr ?sargs" by (simp add: auth_scalars_def y)
  have pargs: "auth_points Z params key t U V M = Inr ?pargs"
    using assms(2,7) by (simp add: auth_points_def cred_defs)
  have "\<exists>pf. prove Z stmt ?sargs ?pargs msg rnd = Inr pf \<and> verify Z stmt pf ?pargs msg = Inr True
    \<and> length pf = 32 * Suc (length (scalars stmt))"
  proof (rule verify_prove_named [OF st])
    show "\<forall>n\<in>set (scalars stmt). \<exists>a. map_of ?sargs n = Some a \<and> scalar_ok a"
      using key y(2) unfolding stmt(2) by simp
    show "\<forall>n\<in>set (points stmt). n \<noteq> ''G'' \<longrightarrow> (\<exists>p. map_of ?pargs n = Some p \<and> valid p)"
      using key g m assms(4-6) unfolding stmt(3) by simp
    have eqs: "zof (dlog (kp_W key)) = zof (dlog (params ! 0) * asn_val (kp_w key))"
      "zof (dlog (kp_C_W key)) = zof (dlog (params ! 0) * asn_val (kp_w key) + dlog (params ! 1) * asn_val (kp_wprime key))"
      using key by (simp_all only: cred_defs zof_hom)
    have I: "zof (dlog (kp_I key)) = zof (dlog (params ! 15) - dlog (params ! 2) * asn_val (kp_x0 key)
         - dlog (params ! 3) * asn_val (kp_x1 key)
         - (\<Sum>i\<leftarrow>[0, 1, 2, 3, 4]. dlog (params ! (4 + i)) * asn_val (kp_y key ! i)))"
      using key by (intro zof_of_dlog) (simp only: cred_defs)
    have V: "zof (dlog V) = zof (dlog (kp_W key) + dlog U * (asn_val (kp_x0 key) + asn_val (kp_x1 key) * asn_val t)
       + (\<Sum>k\<leftarrow>[0, 1, 2, 3, 4]. dlog (M ! k) * asn_val (kp_y key ! k)))"
      using assms(9) unfolding upt5 by (rule zof_of_dlog)
    have v: "valid (kp_W key)" "valid (kp_C_W key)" "valid (kp_I key)" using key by simp_all
    have "holds ?sargs ?pargs (auth_eqs ! 0)"
      unfolding holds_def auth_eqs_def
      using eqs v by (simp add: point_named_def scalar_named_def) (rule dlog_eqI, simp_all add: algebra_simps)
    moreover have "holds ?sargs ?pargs (auth_eqs ! 1)"
      unfolding holds_def auth_eqs_def
      using I v g assms(4-6) by (simp add: point_named_def scalar_named_def zof_eq [symmetric] algebra_simps)
    moreover have "holds ?sargs ?pargs (auth_eqs ! 2)"
      unfolding holds_def auth_eqs_def
      using V eqs v g m assms(4-6) by (simp add: point_named_def scalar_named_def) (rule dlog_eqI, simp_all add: algebra_simps)
    ultimately show "\<forall>q\<in>set auth_eqs. holds ?sargs ?pargs q"
      by (simp add: auth_eqs_def)
  qed (simp_all add: auth_eqs_def stmt(2,3))
  then show thesis
    using that stmt(1) sargs pargs by (auto simp: auth_build stmt(2))
qed

end

lemma auth_credential_ok:
  assumes "zkp_library Z valid dlog"
    and "sho_input sho = None" "sho_hash sho = ShoHmacSha256 Z" "KeyPair Z sho 5 0 = Inr (key, sho')"
    and "length uuid = 16" "length pni = 16"
  shows "\<exists>r params M stmt pargs.
    AuthCredentialWithPniResponse Z key uuid pni time random = Inr r
    \<and> credentialParams Z = Inr params
    \<and> auth_attributes Z params uuid pni time = Inr M
    \<and> add_all auth_equations Statement = Inr stmt
    \<and> auth_points Z params key (ar_t r) (ar_U r) (ar_V r) M = Inr pargs
    \<and> verify Z stmt (ar_proof r) pargs [] = Inr True
    \<and> length (auth_transport Z r) = 425 \<and> length (ar_proof r) = 0x140"
proof -
  note Z = assms(1)
  note hm = zkp_library.known_hash [OF Z]
  obtain params where params: "credentialParams Z = Inr params" "length params = 17" "\<forall>p\<in>set params. valid p"
    by (rule zkp_library.credentialParams_ok [OF Z])
  have key: "zkp_library.key_ok valid dlog params 5 5 key"
  proof -
    obtain key0 sho0 where "KeyPair Z sho 5 0 = Inr (key0, sho0)" "zkp_library.key_ok valid dlog params 5 5 key0"
      by (rule zkp_library.KeyPair_ok [OF Z assms(2) _ params(1), of 0 5 5]) (use hm assms(3) in simp_all)
    with assms(4) show ?thesis by simp
  qed
  obtain a b where ab: "uuid_points Z uuid = Inr [a, b]" "valid a" "valid b"
    by (rule zkp_library.uuid_points_ok [OF Z assms(5)])
  obtain c d where cd: "uuid_points Z pni = Inr [c, d]" "valid c" "valid d"
    by (rule zkp_library.uuid_points_ok [OF Z assms(6)])
  obtain m where m: "timeScalar Z time = Inr m" "scalar_ok m"
    by (rule zkp_library.timeScalar_ok [OF Z])
  have g: "valid (params ! 14)" using params(2,3) by simp
  define M where "M = [a, b, c, d, point_mult Z (params ! 14) m]"
  have M: "auth_attributes Z params uuid pni time = Inr M" "length M = 5" "\<forall>m\<in>set M. valid m"
    using ab cd m g params(2) zkp_library.point_mult_ok [OF Z]
    by (simp_all add: auth_attributes_def M_def cred_defs)
  let ?sho = "ratchet (absorb random (authCredentialWithPniSho Z))"
  obtain t U V s2 where prep: "key_prepare Z key ?sho M = Inr ((t, U, V), s2)" "scalar_ok t" "valid U" "valid V"
    "sho_input s2 = None" "sho_hash s2 = sho_hash ?sho"
    "dlog V = (dlog (kp_W key) + dlog U * (asn_val (kp_x0 key) + asn_val (kp_x1 key) * asn_val t)
       + (\<Sum>k\<leftarrow>[0..<5]. dlog (M ! k) * asn_val (kp_y key ! k))) mod ell"
    by (rule zkp_library.key_prepare_ok [OF Z key, of ?sho M])
      (use hm M in \<open>simp_all add: authCredentialWithPniSho_def\<close>)
  obtain rnd cv where rnd: "squeeze Z 32 s2 = Inr (rnd, s2\<lparr>sho_cv := cv, sho_input := None\<rparr>)"
    by (rule zkp_library.squeeze_known [OF Z prep(5), of 32]) (use hm prep(6) in \<open>simp_all add: authCredentialWithPniSho_def\<close>)
  obtain stmt sargs pargs pf where pf: "add_all auth_equations Statement = Inr stmt"
    "auth_scalars key = Inr sargs" "auth_points Z params key t U V M = Inr pargs"
    "prove Z stmt sargs pargs [] rnd = Inr pf" "verify Z stmt pf pargs [] = Inr True" "length pf = 320"
    by (rule zkp_library.auth_proof [OF Z key params(2,3) prep(2-4) M(2,3) prep(7)])
  let ?r = "\<lparr>ar_t = t, ar_U = U, ar_V = V, ar_proof = pf\<rparr>"
  have "AuthCredentialWithPniResponse Z key uuid pni time random = Inr ?r"
    by (simp add: AuthCredentialWithPniResponse_def params M prep(1) pf rnd)
  moreover have "length (auth_transport Z ?r) = 425"
    using prep(2-4) pf(6) zkp_library.length_scalar_bytes [OF Z] zkp_library.length_valid [OF Z]
    by (simp add: auth_transport_def)
  ultimately show ?thesis
    by (intro exI [of _ ?r] exI [of _ params] exI [of _ M] exI [of _ stmt] exI [of _ pargs]) (simp add: params M pf)
qed

text \<open>
  C34.  With a key that \<open>KeyPair\<close> made for five attributes, the server issues an
  \<open>AuthCredentialWithPniResponse\<close> for every pair of UUIDs and every time, and its proof is accepted
  by \<open>verify\<close> against the points the response and the key's public part determine; the exported
  blob has 425 bytes, so the length of the proof written in it (0x140) is right.
\<close>

theorem auth_credential_verifies:
  assumes "zkp_library Z valid dlog"
    and "sho_input sho = None" "sho_hash sho = ShoHmacSha256 Z" "KeyPair Z sho 5 0 = Inr (key, sho')"
    and "length uuid = 16" "length pni = 16"
  shows "\<exists>r params M stmt pargs.
    AuthCredentialWithPniResponse Z key uuid pni time random = Inr r
    \<and> credentialParams Z = Inr params
    \<and> auth_attributes Z params uuid pni time = Inr M
    \<and> add_all auth_equations Statement = Inr stmt
    \<and> auth_points Z params key (ar_t r) (ar_U r) (ar_V r) M = Inr pargs
    \<and> verify Z stmt (ar_proof r) pargs [] = Inr True
    \<and> length (auth_transport Z r) = 425 \<and> length (ar_proof r) = 0x140"
  by (rule auth_credential_ok [OF assms])

theorem auth_credential_verifies_witness:
  "\<exists>key sho'. KeyPair std_zlib (Sho (ShoHmacSha256 std_zlib) [1]) 5 0 = Inr (key, sho')
    \<and> (\<exists>r params M stmt pargs.
    AuthCredentialWithPniResponse std_zlib key (replicate 16 1) (replicate 16 2) 86400 [3] = Inr r
    \<and> credentialParams std_zlib = Inr params
    \<and> auth_attributes std_zlib params (replicate 16 1) (replicate 16 2) 86400 = Inr M
    \<and> add_all auth_equations Statement = Inr stmt
    \<and> auth_points std_zlib params key (ar_t r) (ar_U r) (ar_V r) M = Inr pargs
    \<and> verify std_zlib stmt (ar_proof r) pargs [] = Inr True
    \<and> length (auth_transport std_zlib r) = 425 \<and> length (ar_proof r) = 0x140)"
proof -
  let ?sho = "Sho (ShoHmacSha256 std_zlib) [1]"
  obtain params where "credentialParams std_zlib = Inr params" by (rule std_zkp.credentialParams_ok)
  then obtain key sho' where k: "KeyPair std_zlib ?sho 5 0 = Inr (key, sho')"
    by (elim std_zkp.KeyPair_ok [of ?sho _ 0 5 5, rotated 2]) simp_all
  show ?thesis
    by (rule exI [of _ key], rule exI [of _ sho'], rule conjI [OF k],
        rule auth_credential_verifies [OF std_zkp.zkp_library_axioms _ _ k]) simp_all
qed

end
