(* ===== verification/CredentialServer.thy ===== *)
theory CredentialServer
  imports Credentials ZkpSpec Rest
begin

text \<open>
  The credentials server (\<^verbatim>\<open>src/sys/credentials.c\<close>): its key pairs, and user names with passwords
  for other services, which are a time signed with a key.  The services that hand them out
  (\<^verbatim>\<open>src/services/lib/chat/Backup.c\<close>, \<^verbatim>\<open>Storage.c\<close>, \<^verbatim>\<open>Directory.c\<close>) and two that answer without
  looking at anything (\<^verbatim>\<open>chat/Config.c\<close>, \<^verbatim>\<open>storage/Storage.c\<close>).
\<close>

section \<open>Keys\<close>

definition serverSecretSho :: "zlib \<Rightarrow> sho" where
  "serverSecretSho Z = sho_of Z ''Signal_ZKGroup_20200424_Random_ServerSecretParams_Generate''"

definition genericServerSecretSho :: "zlib \<Rightarrow> sho" where
  "genericServerSecretSho Z = sho_of Z ''Signal_ZKCredential_CredentialPrivateKey_generate_20230410''"

record credentials_server =
  cr_userDeriveKey :: bytes
  cr_key :: bytes
  cr_authCredentialKey :: key_pair
  cr_signingKey :: scalar
  cr_publicKey :: point
  cr_receiptCredentialKey :: key_pair
  cr_profileKeyCredentialKey :: key_pair
  cr_authCredentialWithPniKey :: key_pair
  cr_credentialKey :: key_pair

definition getPubKey :: "key_pair \<Rightarrow> bytes list" where
  "getPubKey k = [kp_C_W k, kp_I k]"

text \<open>
  \<open>create\<close>: \<open>stored\<close> is the contents of the seed file, if there is one; \<open>random\<close> the values of the
  calls of \<open>secure_random\<close>.  The result is the object, the seed file and the text of the file with the
  public keys.
\<close>

definition credentials_create ::
    "zlib \<Rightarrow> base64_lib \<Rightarrow> bytes \<times> bytes \<times> bytes \<Rightarrow> bytes option
      \<Rightarrow> (credentials_server \<times> bytes \<times> bytes) result" where
  "credentials_create Z B = (\<lambda>(random1, random2, random3) stored.
     let generator = (case stored of None \<Rightarrow> random3 | Some g \<Rightarrow> g);
         sho = ratchet (absorb generator (serverSecretSho Z))
     in rbind (KeyPair Z sho 4 3) (\<lambda>(authCredentialKey, sho).
        rbind (KeyPair Z sho 4 4) (\<lambda>(unused1Key, sho).
        rbind (getScalar Z sho) (\<lambda>(signingKey, sho).
        let publicKey = point_mult Z (r_base Z) signingKey in
        rbind (KeyPair Z sho 4 2) (\<lambda>(receiptCredentialKey, sho).
        rbind (KeyPair Z sho 6 0) (\<lambda>(unused2Key, sho).
        rbind (KeyPair Z sho 5 0) (\<lambda>(profileKeyCredentialKey, sho).
        rbind (KeyPair Z sho 5 0) (\<lambda>(authCredentialWithPniKey, sho).
        let keys = getPubKey authCredentialKey @ getPubKey unused1Key @ [publicKey]
              @ getPubKey receiptCredentialKey @ getPubKey unused2Key
              @ getPubKey profileKeyCredentialKey @ getPubKey authCredentialWithPniKey;
            sho = ratchet (absorb generator (genericServerSecretSho Z))
        in rbind (KeyPair Z sho 7 0) (\<lambda>(credentialKey, sho).
          Inr (\<lparr>cr_userDeriveKey = random1, cr_key = random2, cr_authCredentialKey = authCredentialKey,
                cr_signingKey = signingKey, cr_publicKey = publicKey,
                cr_receiptCredentialKey = receiptCredentialKey,
                cr_profileKeyCredentialKey = profileKeyCredentialKey,
                cr_authCredentialWithPniKey = authCredentialWithPniKey, cr_credentialKey = credentialKey\<rparr>,
               generator, b64_encode B (0 # concat keys)))))))))))"

definition credentials_initialize :: "bytes \<Rightarrow> bytes \<Rightarrow> credentials_server \<Rightarrow> credentials_server" where
  "credentials_initialize userDeriveKey key srv = srv\<lparr>cr_userDeriveKey := userDeriveKey, cr_key := key\<rparr>"

section \<open>Signed times\<close>

definition colon :: bytes where "colon = str '':''"

text \<open>The signature of an ID and a time, as text.\<close>

definition signature :: "zlib \<Rightarrow> hex_lib \<Rightarrow> credentials_server \<Rightarrow> bytes \<Rightarrow> bool \<Rightarrow> bytes" where
  "signature Z X srv data trunc =
     (let signature = z_hmac Z (cr_key srv) data ''SHA256'';
          signature = (if trunc then take 10 signature else signature)
      in hex_format X signature)"

definition credentials_generate ::
    "zlib \<Rightarrow> hex_lib \<Rightarrow> lpcint \<Rightarrow> credentials_server \<Rightarrow> bytes \<Rightarrow> bool \<Rightarrow> bool \<Rightarrow> bool \<Rightarrow> bytes \<times> bytes" where
  "credentials_generate Z X time srv i derive trunc prepend =
     (let i = (if derive then hex_format X (take 10 (z_hmac Z (cr_userDeriveKey srv) i ''SHA256'')) else i);
          data = i @ colon @ int_str time
      in (i, (if prepend then data else int_str time) @ colon @ signature Z X srv data trunc))"

text \<open>\<open>"%d:%s"\<close>: a time and the rest after the colon.\<close>

definition scan_time :: "bytes \<Rightarrow> (lpcint \<times> bytes) option" where
  "scan_time s =
     (case scan_int s of
        None \<Rightarrow> None
      | Some (time, r) \<Rightarrow> if take 1 r = colon then Some (time, drop 1 r) else None)"

definition credentials_verify ::
    "zlib \<Rightarrow> hex_lib \<Rightarrow> credentials_server \<Rightarrow> bytes \<Rightarrow> bytes \<Rightarrow> bool \<Rightarrow> bool \<Rightarrow> lpcint" where
  "credentials_verify Z X srv i credential trunc prepend =
     (let parsed = (if prepend then
             (case scan_upto colon credential of
                None \<Rightarrow> None
              | Some (cid, r) \<Rightarrow> if scan_time r \<noteq> None \<and> cid = i then scan_time r else None)
           else scan_time credential)
      in case parsed of
           None \<Rightarrow> 0
         | Some (time, credential) \<Rightarrow>
             if credential \<noteq> signature Z X srv (i @ colon @ int_str time) trunc then 0 else time)"

section \<open>Handlers\<close>

text \<open>An account ID as an argument of a queued call.\<close>

definition V_id :: "bytes option \<Rightarrow> rest_value" where
  "V_id i = V (jopt i)"

definition reply_credentials ::
    "env \<Rightarrow> zlib \<Rightarrow> credentials_server \<Rightarrow> bytes option \<Rightarrow> bytes option \<Rightarrow> bool \<Rightarrow> bool
      \<Rightarrow> (('o, 'z) rest_server_scheme, 'o server_event, unit) action" where
  "reply_credentials E Z srv ctxt i derive prepend =
     abind (alift (uuid_encode (en_hex E) i)) (\<lambda>uuid.
       let (username, password) = credentials_generate Z (en_hex E) (fst (en_clock E)) srv uuid derive True prepend
       in abind (respondJson E ctxt (en_http E HTTP_OK)
            (jobj [(''username'', JStr username), (''password'', JStr password)]) None) (\<lambda>_. aret ()))"

definition getBackupAuth :: "bytes option \<Rightarrow> account \<Rightarrow> device \<Rightarrow> (('o, 'z) rest_server_scheme, 'o server_event, unit) action" where
  "getBackupAuth ctxt account device = aemit (Call_out ''getBackupAuth2'' ctxt [V_id (ac_id account)])"

definition getBackupAuth2 ::
    "env \<Rightarrow> zlib \<Rightarrow> credentials_server \<Rightarrow> bytes option \<Rightarrow> bytes option
      \<Rightarrow> (('o, 'z) rest_server_scheme, 'o server_event, unit) action" where
  "getBackupAuth2 E Z srv ctxt i = reply_credentials E Z srv ctxt i False True"

definition getStorageAuth :: "bytes option \<Rightarrow> account \<Rightarrow> device \<Rightarrow> (('o, 'z) rest_server_scheme, 'o server_event, unit) action" where
  "getStorageAuth ctxt account device = aemit (Call_out ''getStorageAuth2'' ctxt [V_id (ac_id account)])"

definition getStorageAuth2 ::
    "env \<Rightarrow> zlib \<Rightarrow> credentials_server \<Rightarrow> bytes option \<Rightarrow> bytes option
      \<Rightarrow> (('o, 'z) rest_server_scheme, 'o server_event, unit) action" where
  "getStorageAuth2 E Z srv ctxt i = reply_credentials E Z srv ctxt i False True"

definition getDirectoryAuth :: "bytes option \<Rightarrow> account \<Rightarrow> device \<Rightarrow> (('o, 'z) rest_server_scheme, 'o server_event, unit) action" where
  "getDirectoryAuth ctxt account device = aemit (Call_out ''getDirectoryAuth2'' ctxt [V_id (ac_id account)])"

definition getDirectoryAuth2 ::
    "env \<Rightarrow> zlib \<Rightarrow> credentials_server \<Rightarrow> bytes option \<Rightarrow> bytes option
      \<Rightarrow> (('o, 'z) rest_server_scheme, 'o server_event, unit) action" where
  "getDirectoryAuth2 E Z srv ctxt i = reply_credentials E Z srv ctxt i True False"

definition getConfig ::
    "env \<Rightarrow> bytes option \<Rightarrow> account option \<Rightarrow> device option
      \<Rightarrow> (('o, 'z) rest_server_scheme, 'o server_event, lpcint) action" where
  "getConfig E ctxt account device =
     respondJson E ctxt (en_http E HTTP_OK) (jobj [(''config'', JArr [])]) None"

definition getStorageManifest :: "env \<Rightarrow> bytes option \<Rightarrow> (('o, 'z) rest_server_scheme, 'o server_event, lpcint) action" where
  "getStorageManifest E ctxt = respond (en_http E) ctxt (en_http E HTTP_UNAUTHORIZED) None None None"

definition getStorageManifestVersion ::
    "env \<Rightarrow> bytes option \<Rightarrow> bytes \<Rightarrow> (('o, 'z) rest_server_scheme, 'o server_event, lpcint) action" where
  "getStorageManifestVersion E ctxt version = respond (en_http E) ctxt (en_http E HTTP_UNAUTHORIZED) None None None"

section \<open>Properties\<close>

lemma colon_not_digit: "\<not> is_digit (hd (colon @ s))"
  by (simp add: colon_def str_def is_digit_def)

lemma length_colon: "length colon = 1" "colon \<noteq> []"
  by (simp_all add: colon_def str_def)

lemma scan_time_str: "scan_time (int_str time @ colon @ s) = Some (time, s)"
  using scan_int_str [of "colon @ s" time] colon_not_digit [of s] by (simp add: scan_time_def length_colon)

lemma scan_time_Some:
  assumes "scan_time s = Some (time, r)"
  shows "\<exists>digits. s = digits @ colon @ r \<and> scan_int (digits @ colon @ r) = Some (time, colon @ r)"
proof -
  obtain r' where r': "scan_int s = Some (time, r')" "take 1 r' = colon" "r = drop 1 r'"
    using assms by (auto simp: scan_time_def split: option.splits if_splits prod.splits)
  then have "r' = colon @ r" by (metis append_take_drop_id)
  moreover have "\<exists>digits. s = digits @ r'"
    using r'(1) unfolding scan_int_def Let_def
    by (auto split: if_splits) (metis append_Cons list.collapse takeWhile_dropWhile_id, metis takeWhile_dropWhile_id)
  ultimately show ?thesis using r'(1) by blast
qed

lemma scan_user: "of_char CHR '':'' \<notin> set i \<Longrightarrow> scan_upto colon (i @ colon @ s) = Some (i, s)"
  using scan_upto_char [of "of_char CHR '':''" i s] by (simp add: colon_def str_def)

text \<open>
  The password that \<open>generate\<close> makes for a user name is accepted by \<open>verify\<close> for that user name,
  which returns the time it was made at, for every combination of the three flags; with the user
  name put in front, the name must not contain a colon.
\<close>

theorem verify_generate:
  assumes "credentials_generate Z X time srv i derive trunc prepend = (user, password)"
    and "prepend \<Longrightarrow> of_char CHR '':'' \<notin> set user"
  shows "credentials_verify Z X srv user password trunc prepend = time"
  using assms
  by (auto simp: credentials_generate_def credentials_verify_def Let_def scan_time_str scan_user)

definition sample_credentials :: credentials_server where
  "sample_credentials =
     (let k = \<lparr>kp_w = [], kp_wprime = [], kp_W = [], kp_x0 = [], kp_x1 = [], kp_y = [], kp_C_W = [], kp_I = []\<rparr> in
      credentials_initialize [5] [6] \<lparr>cr_userDeriveKey = [], cr_key = [], cr_authCredentialKey = k,
        cr_signingKey = [], cr_publicKey = [], cr_receiptCredentialKey = k,
        cr_profileKeyCredentialKey = k, cr_authCredentialWithPniKey = k, cr_credentialKey = k\<rparr>)"

theorem verify_generate_witness:
  "let (user, password) = credentials_generate std_zlib std_hex 77 sample_credentials [0x61] False True True
   in credentials_verify std_zlib std_hex sample_credentials user password True True = 77"
proof -
  have user: "fst (credentials_generate std_zlib std_hex 77 sample_credentials [0x61] False True True) = [0x61]"
    by (simp add: credentials_generate_def Let_def)
  show ?thesis
    using verify_generate [of std_zlib std_hex 77 sample_credentials "[0x61]" False True True, OF prod.collapse [symmetric]]
    by (simp add: user case_prod_unfold Let_def)
qed

text \<open>
  \<open>verify\<close> returns a time other than 0 only for a password that ends in the signature, with the
  server's key, of that very user name and time.
\<close>

theorem verify_sound:
  assumes "credentials_verify Z X srv user password trunc prepend = time" and "time \<noteq> 0"
  shows "\<exists>front. password = front @ colon @ signature Z X srv (user @ colon @ int_str time) trunc
           \<and> (prepend \<longrightarrow> take (length user + 1) password = user @ colon)"
proof (cases prepend)
  case False
  then show ?thesis
    using assms scan_time_Some [of password]
    by (fastforce simp: credentials_verify_def Let_def split: option.splits if_splits)
next
  case True
  then obtain r where r: "scan_upto colon password = Some (user, r)"
      "scan_time r = Some (time, signature Z X srv (user @ colon @ int_str time) trunc)"
    using assms by (auto simp: credentials_verify_def Let_def split: option.splits if_splits)
  have "password = user @ colon @ r" by (rule scan_upto_Some [OF r(1)])
  moreover obtain digits where "r = digits @ colon @ signature Z X srv (user @ colon @ int_str time) trunc"
    using scan_time_Some [OF r(2)] by blast
  ultimately show ?thesis
    using True by (intro exI [of _ "user @ colon @ digits"]) (simp add: length_colon)
qed

theorem verify_sound_witness:
  "let password = [0x61] @ colon @ int_str 77 @ colon
         @ signature std_zlib std_hex sample_credentials ([0x61] @ colon @ int_str 77) True
   in \<exists>front. password = front @ colon @ signature std_zlib std_hex sample_credentials ([0x61] @ colon @ int_str 77) True
        \<and> take (length ([0x61] :: bytes) + 1) password = [0x61] @ colon"
proof -
  have user: "of_char CHR '':'' \<notin> set [0x61 :: 8 word]" by simp
  have "credentials_verify std_zlib std_hex sample_credentials [0x61]
      ([0x61] @ colon @ int_str 77 @ colon
         @ signature std_zlib std_hex sample_credentials ([0x61] @ colon @ int_str 77) True) True True = 77"
    unfolding credentials_verify_def scan_user [OF user] by (simp add: scan_time_str Let_def)
  moreover have "(77 :: lpcint) \<noteq> 0" by simp
  ultimately show ?thesis using verify_sound [of std_zlib std_hex sample_credentials "[0x61]" _ True True 77] by (simp only: Let_def) blast
qed

end
