(* ===== verification/Params.thy ===== *)
theory Params
  imports CredentialsSpec CredentialServer
begin

text \<open>
  The object with the system parameters (\<^verbatim>\<open>src/sys/params.c\<close>): two lists of points and ten hash
  objects, made once when the object is compiled.  Hash objects change when they are used, and they
  are shared by reference; here they live in a store, a list of their states indexed by reference.
  Every function of the object returns a clone.  The other theories compute the parameters where
  they are used; the property says that they get what the object hands out, whatever its
  callers did with the clones they were given before.
\<close>

section \<open>Hash objects in a store\<close>

type_synonym sho_store = "sho list"

definition new_sho :: "sho \<Rightarrow> sho_store \<Rightarrow> nat \<times> sho_store" where
  "new_sho sho h = (length h, h @ [sho])"

definition sho_clone :: "nat \<Rightarrow> sho_store \<Rightarrow> nat \<times> sho_store" where
  "sho_clone r h = new_sho (h ! r) h"

text \<open>
  What a caller can do with a reference; \<open>getScalar\<close>, \<open>getPoint\<close> and \<open>getPointSingleElligator\<close>
  change the object by their call of \<open>squeeze\<close>, and one that fails leaves it as it was.
\<close>

datatype sho_call = Absorb bytes | Ratchet | Squeeze nat

definition sho_apply :: "zlib \<Rightarrow> sho_call \<Rightarrow> sho \<Rightarrow> sho" where
  "sho_apply Z c sho =
     (case c of
        Absorb s \<Rightarrow> absorb s sho
      | Ratchet \<Rightarrow> ratchet sho
      | Squeeze n \<Rightarrow> (case squeeze Z n sho of Inl e \<Rightarrow> sho | Inr (output, sho') \<Rightarrow> sho'))"

definition sho_act :: "zlib \<Rightarrow> sho_call \<Rightarrow> nat \<Rightarrow> sho_store \<Rightarrow> sho_store" where
  "sho_act Z c r h = h[r := sho_apply Z c (h ! r)]"

section \<open>The object\<close>

definition signSho :: "zlib \<Rightarrow> sho" where
  "signSho Z = sho_of Z ''Signal_ZKGroup_20200424_Random_ServerSecretParams_Sign''"

definition authCredentialSho :: "zlib \<Rightarrow> sho" where
  "authCredentialSho Z = sho_of Z ''Signal_ZKGroup_20200424_Random_ServerSecretParams_IssueAuthCredential''"

record params_server =
  pa_cParams :: "point list"
  pa_pkcParams :: "point list"
  pa_ssSho :: nat
  pa_gssSho :: nat
  pa_sSho :: nat
  pa_pkcSho :: nat
  pa_acSho :: nat
  pa_apcSho :: nat
  pa_uuidSho :: nat
  pa_timeSho :: nat
  pa_credSho :: nat
  pa_clSho :: nat

definition params_create :: "zlib \<Rightarrow> sho_store \<Rightarrow> (params_server \<times> sho_store) result" where
  "params_create Z h =
     rbind (credentialParams Z) (\<lambda>cParams.
     rbind (profileKeyCommitmentParams Z) (\<lambda>pkcParams.
       let (ss, h) = new_sho (serverSecretSho Z) h;
           (gss, h) = new_sho (genericServerSecretSho Z) h;
           (s, h) = new_sho (signSho Z) h;
           (pkc, h) = new_sho (profileKeyCredentialSho Z) h;
           (ac, h) = new_sho (authCredentialSho Z) h;
           (apc, h) = new_sho (authCredentialWithPniSho Z) h;
           (uuid, h) = new_sho (uuidSho Z) h;
           (time, h) = new_sho (timeSho Z) h;
           (cred, h) = new_sho (credentialSho Z) h;
           (cl, h) = new_sho (callLinkAuthCredentialSho Z) h
       in Inr (\<lparr>pa_cParams = cParams, pa_pkcParams = pkcParams, pa_ssSho = ss, pa_gssSho = gss, pa_sSho = s,
            pa_pkcSho = pkc, pa_acSho = ac, pa_apcSho = apc, pa_uuidSho = uuid, pa_timeSho = time,
            pa_credSho = cred, pa_clSho = cl\<rparr>, h)))"

text \<open>The functions, each with the hash object that it is to return.\<close>

definition params_ask :: "(params_server \<Rightarrow> nat) \<Rightarrow> params_server \<Rightarrow> sho_store \<Rightarrow> nat \<times> sho_store" where
  "params_ask field p h = sho_clone (field p) h"

definition params_fields :: "zlib \<Rightarrow> ((params_server \<Rightarrow> nat) \<times> sho) list" where
  "params_fields Z =
     [(pa_ssSho, serverSecretSho Z), (pa_gssSho, genericServerSecretSho Z), (pa_sSho, signSho Z),
      (pa_pkcSho, profileKeyCredentialSho Z), (pa_acSho, authCredentialSho Z),
      (pa_apcSho, authCredentialWithPniSho Z), (pa_uuidSho, uuidSho Z), (pa_timeSho, timeSho Z),
      (pa_credSho, credentialSho Z), (pa_clSho, callLinkAuthCredentialSho Z)]"

definition params_points :: "(params_server \<Rightarrow> point list) \<Rightarrow> params_server \<Rightarrow> point list result" where
  "params_points field p = lpc_range (field p) 0 (int (length (field p)) - 1)"

section \<open>Its callers\<close>

text \<open>
  The references that the rest of the program holds, and the store: it asks for clones, makes hash
  objects of its own, and changes any object to which it has a reference.
\<close>

inductive clients :: "zlib \<Rightarrow> params_server \<Rightarrow> sho_store \<Rightarrow> nat set \<Rightarrow> sho_store \<Rightarrow> bool"
  for Z p start where
  idle: "clients Z p start {} start"
| ask: "clients Z p start own h \<Longrightarrow> (field, sho) \<in> set (params_fields Z) \<Longrightarrow> params_ask field p h = (r, h') \<Longrightarrow>
    clients Z p start (insert r own) h'"
| make: "clients Z p start own h \<Longrightarrow> new_sho sho h = (r, h') \<Longrightarrow> clients Z p start (insert r own) h'"
| change: "clients Z p start own h \<Longrightarrow> r \<in> own \<Longrightarrow> clients Z p start own (sho_act Z c r h)"

text \<open>The objects of the start are out of reach, and stay what they were.\<close>

lemma clients_keep:
  "clients Z p start own h \<Longrightarrow> length start \<le> length h \<and> (\<forall>r\<in>own. length start \<le> r \<and> r < length h)
    \<and> take (length start) h = start"
proof (induction rule: clients.induct)
  case (ask own h field sho r h')
  then show ?case by (auto simp: params_ask_def sho_clone_def new_sho_def)
next
  case (make own h sho r h')
  then show ?case by (auto simp: new_sho_def)
next
  case (change own h r c)
  then show ?case by (auto simp: sho_act_def)
qed simp

lemma params_create_objects:
  assumes "params_create Z h0 = Inr (p, h)" "(field, sho) \<in> set (params_fields Z)"
  shows "field p < length h \<and> h ! field p = sho"
  using assms by (auto simp: params_create_def params_fields_def new_sho_def nth_append split: sum.splits)

lemma params_create_points:
  assumes "params_create Z h0 = Inr (p, h)"
  shows "credentialParams Z = Inr (pa_cParams p)" "profileKeyCommitmentParams Z = Inr (pa_pkcParams p)"
  using assms by (auto simp: params_create_def new_sho_def split: sum.splits)

lemma params_points_all: "params_points field p = Inr (field p)"
  using lpc_range_nat [of 0 "length (field p)" "field p"] by (simp add: params_points_def)

text \<open>It is made without an error, whatever the store holds.\<close>

context zkp_library begin

lemma profileKeyCommitmentParams_ok:
  obtains gs where "profileKeyCommitmentParams Z = Inr gs"
proof -
  let ?sho = "ratchet (absorb [] (Sho (ShoHmacSha256 Z)
    (str ''Signal_ZKGroup_20200424_Constant_ProfileKeyCommitment_SystemParams_Generate'')))"
  obtain c sho where "get_points Z 3 ?sho = Inr (c, sho)"
    by (rule get_points_ok [of ?sho 3]) simp_all
  then show thesis using that by (simp add: profileKeyCommitmentParams_def)
qed

lemma params_create_ok:
  obtains p start where "params_create Z h = Inr (p, start)" "start = h @ map snd (params_fields Z)"
    "pa_ssSho p = length h" "pa_sSho p = length h + 2"
proof -
  obtain cs where cs: "credentialParams Z = Inr cs" by (rule credentialParams_ok)
  obtain gs where gs: "profileKeyCommitmentParams Z = Inr gs" by (rule profileKeyCommitmentParams_ok)
  show thesis
    by (rule that, simp add: params_create_def cs gs new_sho_def) (simp_all add: params_fields_def)
qed

end

section \<open>Properties\<close>

text \<open>
  C32. The parameters do not change: whatever the program did with the objects it was given, the
  next one that it is given has the state that was made at the start, and is shared with nobody; the
  points are those that the definitions of the other theories compute.
\<close>

theorem params_undisturbed:
  assumes "params_create Z h0 = Inr (p, start)" "clients Z p start own h"
  shows "credentialParams Z = params_points pa_cParams p
    \<and> profileKeyCommitmentParams Z = params_points pa_pkcParams p
    \<and> list_all (\<lambda>(field, sho). case params_ask field p h of (r, h') \<Rightarrow>
         h' ! r = sho \<and> r \<notin> own \<and> r \<notin> {pa_ssSho p, pa_gssSho p, pa_sSho p, pa_pkcSho p, pa_acSho p, pa_apcSho p,
           pa_uuidSho p, pa_timeSho p, pa_credSho p, pa_clSho p}) (params_fields Z)"
proof -
  have keep: "length start \<le> length h" "\<forall>r\<in>own. r < length h" "take (length start) h = start"
    using clients_keep [OF assms(2)] by auto
  have obj: "field p < length h \<and> h ! field p = sho" if "(field, sho) \<in> set (params_fields Z)" for field sho
    using params_create_objects [OF assms(1) that] keep nth_take [of "field p" "length start" h] by simp
  then have "\<forall>(field, sho)\<in>set (params_fields Z). field p < length h" by blast
  then have fresh: "length h \<notin> {pa_ssSho p, pa_gssSho p, pa_sSho p, pa_pkcSho p, pa_acSho p, pa_apcSho p,
      pa_uuidSho p, pa_timeSho p, pa_credSho p, pa_clSho p}"
    by (simp add: params_fields_def)
  show ?thesis
    using keep(2) obj fresh
    by (auto simp: params_create_points [OF assms(1)] params_points_all list_all_iff params_ask_def
        sho_clone_def new_sho_def)
qed

text \<open>A clone is taken, changed, and asked for again.\<close>

lemma params_undisturbed_witness:
  "\<exists>p start. params_create std_zlib [] = Inr (p, start)
    \<and> credentialParams std_zlib = params_points pa_cParams p
    \<and> (case params_ask pa_sSho p (sho_act std_zlib (Absorb [1]) 10 (start @ [signSho std_zlib])) of
         (r, h) \<Rightarrow> r = 11 \<and> h ! r = signSho std_zlib)"
proof -
  obtain p start where p: "params_create std_zlib [] = Inr (p, start)" "start = [] @ map snd (params_fields std_zlib)"
    "pa_sSho p = length ([] :: sho_store) + 2"
    by (rule std_zkp.params_create_ok)
  have len: "length start = 10" by (simp add: p(2) params_fields_def)
  have n2: "start ! pa_sSho p = signSho std_zlib" by (simp add: p(2,3) params_fields_def)
  have "params_ask pa_sSho p start = (10, start @ [signSho std_zlib])"
    by (simp add: params_ask_def sho_clone_def new_sho_def n2 len)
  then have "clients std_zlib p start {10} (start @ [signSho std_zlib])"
    using clients.ask [OF clients.idle, of pa_sSho "signSho std_zlib" std_zlib p start 10]
    by (simp add: params_fields_def)
  then have "clients std_zlib p start {10} (sho_act std_zlib (Absorb [1]) 10 (start @ [signSho std_zlib]))"
    by (rule clients.change) simp
  note all = params_undisturbed [OF p(1) this]
  have "(pa_sSho, signSho std_zlib) \<in> set (params_fields std_zlib)" by (simp add: params_fields_def)
  with all have "case params_ask pa_sSho p (sho_act std_zlib (Absorb [1]) 10 (start @ [signSho std_zlib])) of
      (r, h) \<Rightarrow> h ! r = signSho std_zlib"
    by (fastforce simp: list_all_iff)
  then show ?thesis
    using all p(1) len by (auto simp: params_ask_def sho_clone_def new_sho_def sho_act_def)
qed

end
