(* ===== verification/EventLoop.thy ===== *)
theory EventLoop
  imports Action
begin

text \<open>
  Deferred calls.  A function that another object calls does nothing but \<open>call_out\<close> with the delay 0:
  the call runs later, with the object that caused it as an argument, after those that were deferred
  before it.  A call that destructs its object is the last one that runs.
\<close>

type_synonym ('c, 'o) deferred = "('c \<times> 'o option) list"

definition later :: "'c \<Rightarrow> 'o option \<Rightarrow> ('c, 'o) deferred \<Rightarrow> ('c, 'o) deferred" where
  "later c prev pending = pending @ [(c, prev)]"

text \<open>
  What can happen to an object from a state \<open>s\<close>: the calls that were made so far, those that are
  pending, the state, the events, and whether the object is gone.  Calls come in at any time; \<open>defr\<close>
  is what the functions that are called do to the queue, \<open>act\<close> what runs later.
\<close>

inductive loop ::
    "('c \<Rightarrow> 'o option \<Rightarrow> ('c, 'o) deferred \<Rightarrow> ('c, 'o) deferred) \<Rightarrow> ('c \<Rightarrow> 'o option \<Rightarrow> ('s, 'e, unit) action)
      \<Rightarrow> ('e \<Rightarrow> bool) \<Rightarrow> 's \<Rightarrow> ('c \<times> 'o option) list \<Rightarrow> ('c, 'o) deferred \<Rightarrow> 's \<Rightarrow> 'e list \<Rightarrow> bool \<Rightarrow> bool"
  for defr act gone s where
  start: "loop defr act gone s [] [] s [] False"
| call: "loop defr act gone s made pending t ev False \<Longrightarrow>
    loop defr act gone s (made @ [(c, prev)]) (defr c prev pending) t ev False"
| run: "loop defr act gone s made ((c, prev) # pending) t ev False \<Longrightarrow> act c prev t = (r, u, ev') \<Longrightarrow> \<not> list_ex gone ev' \<Longrightarrow>
    loop defr act gone s made pending u (ev @ ev') False"
| finish: "loop defr act gone s made ((c, prev) # pending) t ev False \<Longrightarrow> act c prev t = (r, u, ev') \<Longrightarrow> list_ex gone ev' \<Longrightarrow>
    loop defr act gone s made pending u (ev @ ev') True"

text \<open>The calls one after the other, without a queue.\<close>

fun run_calls ::
    "('c \<Rightarrow> 'o option \<Rightarrow> ('s, 'e, unit) action) \<Rightarrow> ('e \<Rightarrow> bool) \<Rightarrow> ('c, 'o) deferred \<Rightarrow> 's \<Rightarrow> 's \<times> 'e list \<times> bool" where
  "run_calls act gone [] s = (s, [], False)"
| "run_calls act gone ((c, prev) # cs) s =
     (case act c prev s of (r, t, ev) \<Rightarrow>
        if list_ex gone ev then (t, ev, True)
        else (case run_calls act gone cs t of (u, ev', over) \<Rightarrow> (u, ev @ ev', over)))"

lemma run_calls_append:
  "run_calls act gone cs s = (t, ev, False) \<Longrightarrow>
    run_calls act gone (cs @ ds) s = (case run_calls act gone ds t of (u, ev', over) \<Rightarrow> (u, ev @ ev', over))"
  by (induction cs arbitrary: s t ev) (auto split: prod.splits if_splits)

lemma loop_defer_all:
  assumes "\<And>c prev pending. defr c prev pending = pending @ [(c, prev)]"
  shows "loop defr act gone s made pending t ev False \<Longrightarrow> loop defr act gone s (made @ cs) (pending @ cs) t ev False"
proof (induction cs arbitrary: made pending)
  case (Cons c cs)
  from Cons.IH [OF loop.call [OF Cons.prems, of "fst c" "snd c"]] show ?case by (simp add: assms)
qed simp

lemma loop_run_all:
  "loop defr act gone s made cs t ev False \<Longrightarrow> run_calls act gone cs t = (u, ev', over) \<Longrightarrow>
    \<exists>pending. loop defr act gone s made pending u (ev @ ev') over \<and> (over \<or> pending = [])"
proof (induction cs arbitrary: t ev ev')
  case (Cons c cs)
  obtain c' p where c: "c = (c', p)" by (cases c)
  obtain r v ev1 where a: "act c' p t = (r, v, ev1)" by (cases "act c' p t") auto
  show ?case
  proof (cases "list_ex gone ev1")
    case True
    then show ?thesis using loop.finish [OF Cons.prems(1) [unfolded c] a] Cons.prems(2) by (auto simp: c a)
  next
    case False
    obtain ev2 where r: "run_calls act gone cs v = (u, ev2, over)" "ev' = ev1 @ ev2"
      using Cons.prems(2) False by (auto simp: c a split: prod.splits)
    from Cons.IH [OF loop.run [OF Cons.prems(1) [unfolded c] a False] r(1)] show ?thesis by (simp add: r(2))
  qed
qed auto

text \<open>
  The contract of an object whose functions belong to a connection: a call is put at the end of the queue,
  with the object that made it; \<open>conn\<close> is the connection in its
  state; a call caused by another object does nothing, and no call replaces the connection.  \<open>ok\<close> is
  an invariant of the state that this may depend on.
\<close>

locale event_loop =
  fixes defr :: "'c \<Rightarrow> 'o option \<Rightarrow> ('c, 'o) deferred \<Rightarrow> ('c, 'o) deferred"
    and act :: "'c \<Rightarrow> 'o option \<Rightarrow> ('s, 'e, unit) action" and conn :: "'s \<Rightarrow> 'o option" and ok :: "'s \<Rightarrow> bool"
  assumes defers: "defr c prev pending = pending @ [(c, prev)]"
    and foreign: "ok s \<Longrightarrow> prev \<noteq> conn s \<Longrightarrow> act c prev s = (Inr (), s, [])"
    and keeps: "ok s \<Longrightarrow> act c prev s = (r, t, ev) \<Longrightarrow> ok t \<and> conn t = conn s"
begin

definition own :: "'s \<Rightarrow> ('c, 'o) deferred \<Rightarrow> ('c, 'o) deferred" where
  "own s = filter (\<lambda>(c, prev). prev = conn s)"

lemma loop_runs_own:
  assumes "loop defr act gone s made pending t ev over" "ok s"
  shows "\<exists>ran. made = ran @ pending \<and> run_calls act gone (own s ran) s = (t, ev, over) \<and> conn t = conn s \<and> ok t"
  using assms
proof induction
  case (call made pending t ev c prev)
  then show ?case by (auto simp: defers)
next
  case (run made c prev pending t ev r u ev')
  then obtain ran where ran: "made = ran @ (c, prev) # pending" "run_calls act gone (own s ran) s = (t, ev, False)" "conn t = conn s" "ok t"
    by blast
  show ?case
  proof (rule exI [of _ "ran @ [(c, prev)]"], cases "prev = conn s")
    case True
    then show "made = (ran @ [(c, prev)]) @ pending \<and> run_calls act gone (own s (ran @ [(c, prev)])) s = (u, ev @ ev', False) \<and> conn u = conn s \<and> ok u"
      using ran run keeps [OF ran(4)] by (simp add: own_def run_calls_append [OF ran(2) [unfolded own_def]])
  next
    case False
    then have "u = t" "ev' = []" using foreign [OF ran(4), of prev c] run(2) ran(3) by auto
    then show "made = (ran @ [(c, prev)]) @ pending \<and> run_calls act gone (own s (ran @ [(c, prev)])) s = (u, ev @ ev', False) \<and> conn u = conn s \<and> ok u"
      using ran False by (simp add: own_def)
  qed
next
  case (finish made c prev pending t ev r u ev')
  then obtain ran where ran: "made = ran @ (c, prev) # pending" "run_calls act gone (own s ran) s = (t, ev, False)" "conn t = conn s" "ok t"
    by blast
  have "prev = conn s" using foreign [OF ran(4), of prev c] finish(2,3) ran(3) by fastforce
  then have "run_calls act gone (own s (ran @ [(c, prev)])) s = (u, ev @ ev', True)"
    using finish by (simp add: own_def run_calls_append [OF ran(2) [unfolded own_def]])
  then show ?case using ran keeps [OF ran(4) finish(2)] by (intro exI [of _ "ran @ [(c, prev)]"]) simp
qed (simp add: own_def)

lemma own_runs_in_loop:
  assumes "run_calls act gone (own s made) s = (t, ev, over)" "ok s"
  shows "\<exists>pending. loop defr act gone s made pending t ev over"
proof -
  have eq: "run_calls act gone cs u = run_calls act gone (own u cs) u" if "ok u" for cs u
    using that
  proof (induction cs arbitrary: u)
    case (Cons c cs)
    obtain d p where c: "c = (d, p)" by (cases c)
    obtain r v ev1 where a: "act d p u = (r, v, ev1)" by (cases "act d p u") auto
    have o: "own v cs = own u cs" using keeps [OF Cons.prems a] by (simp add: own_def)
    show ?case
    proof (cases "p = conn u")
      case True
      have "own u (c # cs) = c # own u cs" using True by (simp add: own_def c)
      then show ?thesis using Cons.IH [of v] o keeps [OF Cons.prems a] by (simp add: c a)
    next
      case False
      have "own u (c # cs) = own u cs" using False by (simp add: own_def c)
      then show ?thesis using Cons.IH [of u] Cons.prems foreign [OF Cons.prems False] by (simp add: c)
    qed
  qed (simp add: own_def)
  have "run_calls act gone made s = (t, ev, over)" by (rule trans [OF eq [OF assms(2)] assms(1)])
  moreover have "loop defr act gone s made made s [] False" using loop_defer_all [OF defers loop.start, of act gone s made] by simp
  ultimately show ?thesis using loop_run_all [of defr act gone s made made s "[]"] by auto
qed

end

end
