(* ===== verification/Client.thy ===== *)
theory Client
  imports RestSpec
begin

text \<open>
  A connection to an HTTPS or WebSocket server as a client (\<^verbatim>\<open>src/lib/rest/Client.c\<close>), and an object
  that makes one request and passes the response on (\<^verbatim>\<open>src/obj/oneshot.c\<close>).

  As for the server, what the connection and others are asked to do is an event, the functions
  of the inheriting object that are called by name are arguments, and \<open>'k\<close> are continuations; their
  call with a code and an entity is the event \<open>C_run\<close>.  \<open>prev\<close> is the object that caused a deferred
  call, \<open>caller\<close> the value of \<open>previous_object()\<close> in it.  Random strings are taken from a list.
  Compiling the session object at first use is left to the platform.
\<close>

record client_response =
  cp_code :: lpcint
  cp_header :: "bytes \<Rightarrow> header_value"

datatype client_handle = H_function string | H_call "string option" "rest_arg list"

record client_out =
  co_method :: bytes
  co_path :: bytes
  co_fields :: "(bytes \<times> http_field) list"

datatype ('o, 'k) client_event =
    C_request client_out | C_entity bytes | C_expect_chunk | C_expect_entity lpcint | C_expect_frame
  | C_done | C_terminate | C_destruct | C_call_out string lpcint | C_connect | C_token bytes
  | C_run 'k lpcint "bytes option"

record 'o rest_client =
  cl_connection :: "'o option"
  cl_response :: "client_response option"
  cl_handle :: "client_handle option"
  cl_chunks :: "bytes list option"
  cl_websocket :: "string option"
  cl_opcode :: "ws_opcode option"
  cl_out :: ws_out
  cl_outgoing :: "bytes \<rightharpoonup> string \<times> rest_arg list"

type_synonym ('o, 'k, 'z, 'a) client_action = "(('o, 'z) rest_client_scheme, ('o, 'k) client_event, 'a) action"

definition CLIENT_MASK :: lpcint where "CLIENT_MASK = 0x12345678"

section \<open>Connecting\<close>

definition client_create :: "'o \<Rightarrow> string \<Rightarrow> ('o, 'k, 'z, unit) client_action" where
  "client_create conn function =
     athen (amod (\<lambda>s. s\<lparr>cl_outgoing := Map.empty, cl_connection := Some conn, cl_handle := Some (H_function function)\<rparr>))
       (aemit C_connect)"

text \<open>\<open>connected\<close> is this function with the code of \<open>HTTP_OK\<close>; \<open>started\<close> is the function called by name.\<close>

definition connectFailed ::
    "(string \<Rightarrow> lpcint \<Rightarrow> ('o, 'k, 'z, unit) client_action) \<Rightarrow> lpcint \<Rightarrow> 'o option \<Rightarrow> ('o, 'k, 'z, unit) client_action" where
  "connectFailed started errorcode prev =
     abind (aget id) (\<lambda>s.
       aif (prev = cl_connection s)
        (case cl_handle s of
           Some (H_function f) \<Rightarrow> started f errorcode
         | _ \<Rightarrow> afail Bad_argument))"

definition connected ::
    "env \<Rightarrow> (string \<Rightarrow> lpcint \<Rightarrow> ('o, 'k, 'z, unit) client_action) \<Rightarrow> 'o option \<Rightarrow> ('o, 'k, 'z, unit) client_action" where
  "connected E started prev = connectFailed started (en_http E HTTP_OK) prev"

section \<open>Sending\<close>

definition client_call :: "('o, 'k) client_event \<Rightarrow> ('o, 'k, 'z, unit) client_action" where
  "client_call e = abind (aget cl_connection) (\<lambda>c. if c = None then afail Bad_argument else aemit e)"

definition client_sendChunk :: "bytes \<Rightarrow> ('o, 'k, 'z, unit) client_action" where
  "client_sendChunk chunk =
     abind (aget id) (\<lambda>s.
     if cl_websocket s = None then afail (Error ''Not a WebSocket connection'')
     else case wsSendChunk chunk CLIENT_MASK (cl_out s) of
            Inl e \<Rightarrow> afail e
          | Inr out \<Rightarrow>
              if cl_connection s = None then afail Bad_argument
              else amod (\<lambda>s. s\<lparr>cl_out := out\<rparr>))"

definition client_close_frame :: "bytes \<Rightarrow> lpcint \<Rightarrow> ('o, 'k, 'z, unit) client_action" where
  "client_close_frame code mask' =
     abind (aget id) (\<lambda>s.
       if cl_connection s = None \<and> \<not> closing (cl_out s)
       then athen (amod (\<lambda>s. s\<lparr>cl_out := (cl_out s)\<lparr>closing := True\<rparr>\<rparr>)) (afail Bad_argument)
       else amod (\<lambda>s. s\<lparr>cl_out := wsSendClose code mask' (cl_out s)\<rparr>))"

definition client_sendClose :: "bytes \<Rightarrow> ('o, 'k, 'z, unit) client_action" where
  "client_sendClose code =
     abind (aget cl_websocket) (\<lambda>w.
       if w = None then afail (Error ''Not a WebSocket connection'') else client_close_frame code CLIENT_MASK)"

definition request_fields :: "bytes \<Rightarrow> bytes option \<Rightarrow> bytes option \<Rightarrow> headers option \<Rightarrow> (bytes \<times> http_field) list" where
  "request_fields host type entity extraHeaders =
     [(str ''Host'', F_value (Hstr host)), (str ''User-Agent'', F_products)]
     @ (case entity of
          None \<Rightarrow> []
        | Some b \<Rightarrow> [(str ''Content-Type'', F_value (Hstr (case type of None \<Rightarrow> [] | Some t \<Rightarrow> t))),
                     (str ''Content-Length'', F_int (of_nat (length b)))])
     @ (case extraHeaders of None \<Rightarrow> [] | Some hs \<Rightarrow> rev (map (\<lambda>(k, v). (k, F_value v)) hs))"

definition httpRequest ::
    "string \<Rightarrow> bytes \<Rightarrow> bytes \<Rightarrow> bytes option \<Rightarrow> bytes option \<Rightarrow> headers option \<Rightarrow> ('o, 'k, 'z, unit) client_action" where
  "httpRequest verb host path type entity extraHeaders =
     athen (client_call (C_request
       \<lparr>co_method = str verb, co_path = path, co_fields = request_fields host type entity extraHeaders\<rparr>))
     (case entity of None \<Rightarrow> aret () | Some b \<Rightarrow> client_call (C_entity b))"

definition request ::
    "bytes list \<Rightarrow> string \<Rightarrow> bytes \<Rightarrow> bytes \<Rightarrow> bytes option \<Rightarrow> bytes option \<Rightarrow> headers option \<Rightarrow> string option
      \<Rightarrow> rest_arg list \<Rightarrow> ('o, 'k, 'z, unit) client_action" where
  "request randoms verb host path type entity extraHeaders function arguments =
     abind (aget id) (\<lambda>s.
       if cl_websocket s \<noteq> None then
         abind
          (case function of
             None \<Rightarrow> aret [1]
           | Some f \<Rightarrow>
               (case find (\<lambda>c. cl_outgoing s c = None) randoms of
                  None \<Rightarrow> afail Not_enough_fuel
                | Some context \<Rightarrow>
                    athen (amod (\<lambda>s. s\<lparr>cl_outgoing := (cl_outgoing s)(context \<mapsto> (f, arguments))\<rparr>)) (aret context)))
          (\<lambda>context. abind (alift (wsRequest (str verb) path entity extraHeaders context)) client_sendChunk)
       else
         athen (httpRequest verb host path type entity extraHeaders)
           (amod (\<lambda>s. s\<lparr>cl_handle := Some (H_call function arguments)\<rparr>)))"

section \<open>Responses\<close>

type_synonym ('s, 'e) client_handlers = "string \<Rightarrow> bytes option \<Rightarrow> client_response \<Rightarrow> rest_value list \<Rightarrow> ('s, 'e, unit) action"

definition client_arg :: "env \<Rightarrow> (bytes \<Rightarrow> header_value) \<Rightarrow> bytes option \<Rightarrow> rest_arg \<Rightarrow> rest_value result" where
  "client_arg E hdr entity a =
     (case a of
        Header name \<Rightarrow> Inr (header_arg (hdr (str name)))
      | ARG_ENTITY \<Rightarrow> Inr (case entity of None \<Rightarrow> V JNil | Some b \<Rightarrow> V_entity b)
      | ARG_ENTITY_JSON \<Rightarrow>
          (let decode = rmap V (rbind (need entity) (en_json_decode E)) in
           case hdr (str ''Content-Type'') of
             H_nil \<Rightarrow> decode
           | H_int i \<Rightarrow> if i = 0 then decode else Inl Bad_argument
           | H_str s \<Rightarrow> if lower_case s = str ''application/json'' then decode else Inr (V JNil)
           | _ \<Rightarrow> Inl Bad_argument)
      | _ \<Rightarrow> Inr (V_arg a))"

text \<open>\<open>call\<close>: the arguments are replaced from the last to the first.\<close>

definition client_invoke ::
    "env \<Rightarrow> (('o, 'z) rest_client_scheme, ('o, 'k) client_event) client_handlers \<Rightarrow> bytes option \<Rightarrow> client_response
      \<Rightarrow> string option \<Rightarrow> rest_arg list \<Rightarrow> bytes option \<Rightarrow> ('o, 'k, 'z, unit) client_action" where
  "client_invoke E invoke ctxt parsed function args entity =
     abind (alift (rmap rev (rmapM (client_arg E (cp_header parsed) entity) (rev args)))) (\<lambda>args.
     abind (alift (need function)) (\<lambda>f. invoke f ctxt parsed args))"

text \<open>\<open>call(nil, response, handle[0], handle[1 ..], entity)\<close>\<close>

definition call_handle ::
    "env \<Rightarrow> (('o, 'z) rest_client_scheme, ('o, 'k) client_event) client_handlers \<Rightarrow> bytes option
      \<Rightarrow> ('o, 'k, 'z, unit) client_action" where
  "call_handle E invoke entity =
     abind (aget id) (\<lambda>s.
       case (cl_response s, cl_handle s) of
         (Some resp, Some (H_call f args)) \<Rightarrow> client_invoke E invoke None resp f args entity
       | _ \<Rightarrow> afail Bad_argument)"

definition header_true :: "header_value \<Rightarrow> bool" where
  "header_true v \<longleftrightarrow> v \<noteq> H_nil \<and> v \<noteq> H_int 0"

definition receiveResponse ::
    "env \<Rightarrow> (('o, 'z) rest_client_scheme, ('o, 'k) client_event) client_handlers \<Rightarrow> client_response \<Rightarrow> 'o option
      \<Rightarrow> ('o, 'k, 'z, unit) client_action" where
  "receiveResponse E invoke resp prev =
     abind (aget cl_connection) (\<lambda>connection.
     aif (prev = connection)
      (athen (amod (\<lambda>s. s\<lparr>cl_response := Some resp\<rparr>))
       (if header_true (cp_header resp (str ''Transfer-Encoding'')) then
          athen (amod (\<lambda>s. s\<lparr>cl_chunks := Some []\<rparr>)) (client_call C_expect_chunk)
        else
          (case cp_header resp (str ''Content-Length'') of
             H_nil \<Rightarrow> call_handle E invoke None
           | H_int len \<Rightarrow>
               if REST_LENGTH_LIMIT <s len then afail (Error ''Content-Length too large'')
               else abind (aget cl_handle) (\<lambda>h.
                 case h of
                   Some (H_call f args) \<Rightarrow>
                     if ARG_ENTITY_JSON \<in> set args \<and> 65535 <s len then afail (Error ''JSON entity too large'')
                     else client_call (C_expect_entity len)
                 | _ \<Rightarrow> afail Bad_argument)
           | _ \<Rightarrow> afail (Error ''Bad Content-Length'')))))"

definition receiveChunk ::
    "env \<Rightarrow> (('o, 'z) rest_client_scheme, ('o, 'k) client_event) client_handlers \<Rightarrow> bytes option \<Rightarrow> 'o option
      \<Rightarrow> ('o, 'k, 'z, unit) client_action" where
  "receiveChunk E invoke chunk prev =
     abind (aget id) (\<lambda>s.
     aif (prev = cl_connection s)
      (case chunk of
         Some c \<Rightarrow>
           abind (alift (need (cl_chunks s))) (\<lambda>cs.
             athen (amod (\<lambda>s. s\<lparr>cl_chunks := Some (cs @ [c])\<rparr>)) (client_call C_expect_chunk))
       | None \<Rightarrow>
           athen (amod (\<lambda>s. s\<lparr>cl_chunks := None\<rparr>)) (call_handle E invoke (map_option concat (cl_chunks s)))))"

definition client_receiveEntity ::
    "env \<Rightarrow> (('o, 'z) rest_client_scheme, ('o, 'k) client_event) client_handlers \<Rightarrow> bytes option \<Rightarrow> 'o option
      \<Rightarrow> ('o, 'k, 'z, unit) client_action" where
  "client_receiveEntity E invoke entity prev =
     abind (aget cl_connection) (\<lambda>connection. aif (prev = connection) (call_handle E invoke entity))"

section \<open>WebSocket connections\<close>

definition client_upgrade :: "string \<Rightarrow> ('o, 'k, 'z, unit) client_action" where
  "client_upgrade service =
     athen (amod (\<lambda>s. s\<lparr>cl_websocket := Some service\<rparr>))
     (abind (aget cl_connection) (\<lambda>connection. aif (connection \<noteq> None) (aemit C_expect_frame)))"

definition client_respond ::
    "env \<Rightarrow> bytes \<Rightarrow> lpcint \<Rightarrow> bytes option \<Rightarrow> headers option \<Rightarrow> ('o, 'k, 'z, unit) client_action" where
  "client_respond E ctxt code entity extraHeaders =
     abind (alift (wsResponse (en_http E) ctxt code entity extraHeaders)) client_sendChunk"

definition client_receiveWsFrame :: "ws_opcode option \<Rightarrow> 'o option \<Rightarrow> ('o, 'k, 'z, unit) client_action" where
  "client_receiveWsFrame opcode prev =
     abind (aget cl_connection) (\<lambda>connection.
       aif (prev = connection) (amod (\<lambda>s. s\<lparr>cl_opcode := opcode\<rparr>)))"

text \<open>What \<open>call\<close> reads of a request or a response that came in a WebSocket message.\<close>

definition ws_parsed :: "env \<Rightarrow> lpcint \<Rightarrow> bytes option \<Rightarrow> client_response" where
  "ws_parsed E code hs = \<lparr>cp_code = code, cp_header = en_fields E hs\<rparr>"

definition client_receiveWsRequest ::
    "env \<Rightarrow> (('o, 'z) rest_client_scheme, ('o, 'k) client_event) client_handlers \<Rightarrow> bytes list
      \<Rightarrow> ('o, 'k, 'z, unit) client_action" where
  "client_receiveWsRequest E invoke chunk =
     abind (alift (wsReceiveRequest (en_asn E) chunk (str ''client''))) (\<lambda>(context, request, body).
       case lookup_path (str ''client'') (rq_method request) (rq_path request) (en_api E) of
         None \<Rightarrow> client_respond E context (en_http E HTTP_NOT_FOUND) None None
       | Some h \<Rightarrow>
           client_invoke E invoke (Some context) (ws_parsed E 0 (rq_headers request)) (Some (h_function h)) (h_args h)
             (map_option concat body))"

definition client_receiveWsResponse ::
    "env \<Rightarrow> (('o, 'z) rest_client_scheme, ('o, 'k) client_event) client_handlers \<Rightarrow> bytes list
      \<Rightarrow> ('o, 'k, 'z, unit) client_action" where
  "client_receiveWsResponse E invoke chunk =
     abind (alift (wsReceiveResponse (en_asn E) chunk)) (\<lambda>(context, resp, body).
     abind (aget (\<lambda>s. cl_outgoing s context)) (\<lambda>callback.
       case callback of
         None \<Rightarrow> aret ()
       | Some (f, args) \<Rightarrow>
           athen (amod (\<lambda>s. s\<lparr>cl_outgoing := (cl_outgoing s)(context := None)\<rparr>))
             (client_invoke E invoke (Some context) (ws_parsed E (rs_code resp) (rs_headers resp)) (Some f) args
               (map_option concat body))))"

text \<open>The test is of \<open>caller\<close>, not of \<open>prev\<close>.\<close>

definition client_receiveWsChunk ::
    "env \<Rightarrow> (('o, 'z) rest_client_scheme, ('o, 'k) client_event) client_handlers
      \<Rightarrow> (string \<Rightarrow> bytes list \<Rightarrow> ('o, 'k, 'z, unit) client_action) \<Rightarrow> bytes list \<Rightarrow> 'o option \<Rightarrow> 'o option
      \<Rightarrow> ('o, 'k, 'z, unit) client_action" where
  "client_receiveWsChunk E invoke receive_chunk chunk prev caller =
     abind (aget id) (\<lambda>s.
       aif (caller = cl_connection s)
        (athen
          (if cl_opcode s = Some WEBSOCK_CLOSE then client_close_frame (case chunk of [] \<Rightarrow> [] | p # _ \<Rightarrow> p) 0
           else if cl_websocket s = Some ''chat'' then
             abind (alift (receiveChatMessage chunk)) (\<lambda>m.
               case m of
                 Ws_request c \<Rightarrow> client_receiveWsRequest E invoke c
               | Ws_response c \<Rightarrow> client_receiveWsResponse E invoke c)
           else (case cl_websocket s of
                   None \<Rightarrow> afail Bad_argument
                 | Some w \<Rightarrow> receive_chunk w chunk))
          (abind (aget cl_connection) (\<lambda>connection.
             aif (connection \<noteq> None) (aemit C_expect_frame)))))"

section \<open>The end of a request and of the connection\<close>

definition doneResponse :: "('o, 'k, 'z, unit) client_action" where
  "doneResponse =
     abind (aget id) (\<lambda>s.
       aif (cl_connection s \<noteq> None)
         (if cl_websocket s = None then aemit C_done
          else aif (cl_opcode s = Some WEBSOCK_CLOSE) (aemit C_terminate)))"

definition client_doneChunk :: "'o option \<Rightarrow> ('o, 'k, 'z, unit) client_action" where
  "client_doneChunk prev =
     abind (aget id) (\<lambda>s.
       aif (prev = cl_connection s \<and> cl_opcode s = Some WEBSOCK_CLOSE) (client_call C_terminate))"

definition client_terminate :: "('o, 'k, 'z, unit) client_action" where
  "client_terminate = abind (aget cl_connection) (\<lambda>connection. aif (connection \<noteq> None) (aemit C_terminate))"

definition client_close :: "('o, 'k, 'z, unit) client_action" where
  "client_close = aemit C_destruct"

definition client_disconnected :: "('o, 'k, 'z, unit) client_action \<Rightarrow> 'o option \<Rightarrow> ('o, 'k, 'z, unit) client_action" where
  "client_disconnected close prev =
     abind (aget cl_connection) (\<lambda>connection. aif (prev = connection) close)"

section \<open>A single request\<close>

record ('o, 'k) oneshot = "'o rest_client" +
  os_address :: bytes
  os_path :: bytes
  os_entity :: bytes
  os_headers :: "headers option"
  os_callback :: "'k option"

type_synonym ('o, 'k, 'a) oneshot_action = "(('o, 'k) oneshot, ('o, 'k) client_event, 'a) action"

definition oneshot_create ::
    "'o \<Rightarrow> bytes \<Rightarrow> bytes \<Rightarrow> bytes \<Rightarrow> headers option \<Rightarrow> 'k option \<Rightarrow> ('o, 'k, unit) oneshot_action" where
  "oneshot_create conn address path entity headers callback =
     athen (client_create conn ''created'')
       (amod (\<lambda>s. s\<lparr>os_address := address, os_path := path, os_entity := entity, os_headers := headers,
                   os_callback := callback\<rparr>))"

text \<open>\<open>callback->runNext(code, entity)\<close>, which fails if there is no callback.\<close>

definition run_callback :: "lpcint \<Rightarrow> bytes option \<Rightarrow> ('o, 'k, unit) oneshot_action" where
  "run_callback code entity =
     abind (aget os_callback) (\<lambda>c. case c of None \<Rightarrow> afail Bad_argument | Some k \<Rightarrow> aemit (C_run k code entity))"

definition created :: "env \<Rightarrow> lpcint \<Rightarrow> ('o, 'k, unit) oneshot_action" where
  "created E code =
     (if code = en_http E HTTP_OK then
        abind (aget id) (\<lambda>s.
          request [] ''POST'' (os_address s) (os_path s) (Some (str ''application/json'')) (Some (os_entity s)) (os_headers s)
            (Some ''response'') [ARG_ENTITY])
      else athen (run_callback code None) (aemit C_destruct))"

definition oneshot_response :: "client_response \<Rightarrow> bytes option \<Rightarrow> ('o, 'k, unit) oneshot_action" where
  "oneshot_response resp entity =
     athen (run_callback (cp_code resp) entity)
     (athen (amod (\<lambda>s. s\<lparr>os_callback := None\<rparr>))
     (athen doneResponse client_terminate))"

definition oneshot_close :: "('o, 'k, unit) oneshot_action" where
  "oneshot_close =
     abind (aget os_callback) (\<lambda>c.
       athen (aif (c \<noteq> None) (run_callback (-1) None)) client_close)"

section \<open>Properties\<close>

text \<open>What can happen to such an object, and a run that ends with its destruction.\<close>

datatype oneshot_input = Created lpcint | Response client_response "bytes option" | Close

fun oneshot_step :: "env \<Rightarrow> oneshot_input \<Rightarrow> ('o, 'k, unit) oneshot_action" where
  "oneshot_step E (Created code) = created E code"
| "oneshot_step E (Response resp entity) = oneshot_response resp entity"
| "oneshot_step E Close = oneshot_close"

fun oneshot_run :: "env \<Rightarrow> oneshot_input list \<Rightarrow> ('o, 'k) oneshot \<Rightarrow> ('o, 'k) client_event list \<times> bool" where
  "oneshot_run E [] s = ([], False)"
| "oneshot_run E (x # xs) s =
     (let (r, s, ev) = oneshot_step E x s in
      if C_destruct \<in> set ev then (ev, True)
      else let (evs, over) = oneshot_run E xs s in (ev @ evs, over))"

fun callback_run :: "('o, 'k) client_event \<Rightarrow> bool" where
  "callback_run (C_run k code entity) = True"
| "callback_run e = False"

lemma ensures_client_call:
  assumes "P e" and "Q ()"
  shows "ensures I P Q (client_call e)"
  unfolding client_call_def using assms
  by (intro ensures_seq [OF ensures_get] ensures_if ensures_fail ensures_emit) simp_all

lemma ensures_client_sendChunk:
  assumes "\<And>s out. I s \<Longrightarrow> I (s\<lparr>cl_out := out\<rparr>)" and "Q ()"
  shows "ensures I P Q (client_sendChunk chunk)"
  unfolding client_sendChunk_def
  by (intro ensures_seq [OF ensures_get] ensures_if ensures_fail; simp split: sum.split)
    (use assms in \<open>auto intro!: ensures_fail ensures_mod\<close>)

text \<open>A request says nothing to the continuation and keeps it.\<close>

lemma ensures_request:
  "ensures (\<lambda>s. os_callback s = c) (\<lambda>e. \<not> callback_run e \<and> e \<noteq> C_destruct) (\<lambda>_. True)
     (request randoms verb host path type entity hs f args)"
  unfolding request_def httpRequest_def
  apply (rule ensures_seq [OF ensures_get], simp)
  apply (rule ensures_if)
   apply (rule ensures_seq)
    apply (auto split: option.split intro!: ensures_ret ensures_fail ensures_then ensures_mod) [1]
   apply (intro ensures_seq [OF ensures_lift] ensures_client_sendChunk; simp)
  apply (intro ensures_then ensures_client_call ensures_mod ensures_option ensures_ret; simp)
  done

lemma doneResponse_quiet:
  "doneResponse s = (r, s', ev) \<Longrightarrow> r = Inr () \<and> s' = s \<and> \<not> (\<exists>e\<in>set ev. callback_run e) \<and> C_destruct \<notin> set ev"
  by (auto simp: doneResponse_def action_simps aif_def split: if_splits)

lemma client_terminate_quiet:
  "client_terminate s = (r, s', ev) \<Longrightarrow> r = Inr () \<and> s' = s \<and> \<not> (\<exists>e\<in>set ev. callback_run e) \<and> C_destruct \<notin> set ev"
  by (auto simp: client_terminate_def action_simps aif_def split: if_splits)

text \<open>One step: the callback runs if the object had it, and then it is gone or the object is.\<close>

lemma oneshot_step_callback:
  fixes s :: "('o, 'k) oneshot"
  assumes "oneshot_step E x s = (r, s', ev)"
  shows "filter callback_run ev = [] \<and> os_callback s' = os_callback s \<and> (C_destruct \<in> set ev \<longrightarrow> os_callback s = None)
    \<or> (\<exists>k code entity. os_callback s = Some k \<and> filter callback_run ev = [C_run k code entity]
        \<and> (C_destruct \<in> set ev \<or> os_callback s' = None))"
proof (cases x)
  case (Created code)
  show ?thesis
  proof (cases "code = en_http E HTTP_OK")
    case True
    then have run: "request [] ''POST'' (os_address s) (os_path s) (Some (str ''application/json'')) (Some (os_entity s)) (os_headers s)
            (Some ''response'') [ARG_ENTITY] s = (r, s', ev)"
      using assms Created by (simp add: created_def action_simps)
    note e = ensuresD [OF ensures_request refl run]
    have "filter callback_run ev = []" using e(2) by (simp add: filter_empty_conv)
    then show ?thesis using e by blast
  next
    case False
    then show ?thesis
      using assms Created by (cases "os_callback s") (auto simp: created_def run_callback_def action_simps abind_assoc)
  qed
next
  case (Response resp entity)
  then have run: "oneshot_response resp entity s = (r, s', ev)" using assms by simp
  show ?thesis
  proof (cases "os_callback s")
    case None
    then show ?thesis using run by (auto simp: oneshot_response_def run_callback_def action_simps abind_assoc)
  next
    case (Some k)
    let ?s = "s\<lparr>os_callback := None\<rparr>"
    obtain r1 s1 e1 where d: "doneResponse ?s = (r1, s1, e1 :: ('o, 'k) client_event list)" by (metis prod_cases3)
    note dq = doneResponse_quiet [OF d]
    obtain r2 s2 e2 where t: "client_terminate ?s = (r2, s2, e2 :: ('o, 'k) client_event list)" by (metis prod_cases3)
    note tq = client_terminate_quiet [OF t]
    have "ev = C_run k (cp_code resp) entity # e1 @ e2" "s' = ?s"
      using run Some d t dq tq by (auto simp: oneshot_response_def run_callback_def action_simps abind_assoc abind_def)
    moreover have "filter callback_run e1 = []" "filter callback_run e2 = []"
      using dq tq by (auto simp: filter_empty_conv)
    ultimately show ?thesis using Some by simp
  qed
next
  case Close
  then show ?thesis
    using assms by (cases "os_callback s")
      (auto simp: oneshot_close_def run_callback_def client_close_def action_simps aif_def abind_assoc)
qed

lemma oneshot_run_None: "os_callback s = None \<Longrightarrow> oneshot_run E xs s = (evs, over) \<Longrightarrow> filter callback_run evs = []"
proof (induction xs arbitrary: s evs)
  case (Cons x xs)
  obtain r s' ev where st: "oneshot_step E x s = (r, s', ev)" by (metis prod_cases3)
  from oneshot_step_callback [OF st] Cons.prems(1) have "filter callback_run ev = []" "os_callback s' = None" by auto
  then show ?case using Cons.prems(2) st Cons.IH [of s'] by (auto split: if_splits prod.splits)
qed simp

text \<open>
  C16. The continuation of a single request runs at most once, for any results of connecting, any
  responses and any end of the connection; and it has run when the object is destructed.
\<close>

theorem oneshot_callback_once:
  assumes "oneshot_run E xs s = (evs, over)" and "os_callback s = Some k"
  shows "filter callback_run evs = [] \<and> \<not> over \<or> (\<exists>code entity. filter callback_run evs = [C_run k code entity])"
  using assms
proof (induction xs arbitrary: s evs)
  case (Cons x xs)
  obtain r s' ev where st: "oneshot_step E x s = (r, s', ev)" by (metis prod_cases3)
  obtain evs1 over1 where rest: "oneshot_run E xs s' = (evs1, over1)" by fastforce
  have ev: "evs = (if C_destruct \<in> set ev then ev else ev @ evs1)" "over = (if C_destruct \<in> set ev then True else over1)"
    using Cons.prems(1) st rest by (auto split: if_splits)
  from oneshot_step_callback [OF st] consider
      "filter callback_run ev = []" "os_callback s' = Some k" "C_destruct \<notin> set ev"
    | code entity where "filter callback_run ev = [C_run k code entity]" "C_destruct \<in> set ev \<or> os_callback s' = None"
    using Cons.prems(2) by fastforce
  then show ?case
  proof cases
    case 1
    then show ?thesis using Cons.IH [of s' evs1] rest ev by simp
  next
    case 2
    then show ?thesis using oneshot_run_None [OF _ rest] ev by auto
  qed
qed simp

text \<open>
  A WebSocket chunk is dropped unless the object that is calling is the connection itself; the
  deferred call in which this is tested has no calling object, so a client never reads a message.
\<close>

theorem client_drops_chunks:
  assumes "caller \<noteq> cl_connection s"
  shows "client_receiveWsChunk E invoke receive_chunk chunk prev caller s = (Inr (), s, [])"
  using assms by (simp add: client_receiveWsChunk_def action_simps aif_def)

definition sample_oneshot :: "(nat, nat) oneshot" where
  "sample_oneshot =
     \<lparr>cl_connection = Some 1, cl_response = None, cl_handle = Some (H_function ''created''), cl_chunks = None,
      cl_websocket = None, cl_opcode = None, cl_out = \<lparr>closing = False, ws_sent = []\<rparr>, cl_outgoing = Map.empty,
      os_address = [], os_path = [], os_entity = [], os_headers = None, os_callback = Some 7\<rparr>"

theorem oneshot_callback_once_witness:
  "let (evs, over) = oneshot_run (sample_env (Api None []) (\<lambda>_. None))
       [Created 200, Response \<lparr>cp_code = 204, cp_header = (\<lambda>_. H_nil)\<rparr> None, Close] sample_oneshot
   in over \<and> (\<exists>code entity. filter callback_run evs = [C_run 7 code entity])"
proof -
  let ?E = "sample_env (Api None []) (\<lambda>_. None)"
  let ?xs = "[Created 200, Response \<lparr>cp_code = 204, cp_header = (\<lambda>_. H_nil)\<rparr> None, Close]"
  obtain evs over where r: "oneshot_run ?E ?xs sample_oneshot = (evs, over)" by fastforce
  then have "over"
    by (auto simp: sample_env_def sample_http_def sample_oneshot_def created_def request_def httpRequest_def client_call_def
        oneshot_response_def run_callback_def doneResponse_def client_terminate_def oneshot_close_def client_close_def
        action_simps aif_def abind_assoc split: if_splits)
  then show ?thesis using oneshot_callback_once [OF r, of 7] r by (simp add: sample_oneshot_def)
qed

theorem client_drops_chunks_witness:
  "client_receiveWsChunk (sample_env (Api None []) (\<lambda>_. None)) (\<lambda>_ _ _ _. aret ()) (\<lambda>_ _. aret ()) [[1]] (Some 1) None sample_oneshot
    = (Inr (), sample_oneshot, [])"
  by (rule client_drops_chunks) (simp add: sample_oneshot_def)

end
