(* ===== verification/Flow.thy ===== *)
theory Flow
  imports EventLoop Client DeliverySpec
begin

text \<open>
  The functions by which the connection calls its server (\<^verbatim>\<open>src/lib/rest/Server.c\<close>) or client
  (\<^verbatim>\<open>src/lib/rest/Client.c\<close>) object: each defers a call of the function that does the work, with the
  calling object as its last argument.  A deferred call is kept with the environment it will run in.
  The queue holds the calls of these functions; what the object itself defers (the stages of its
  continuations, the delivery of envelopes) is not in it.
\<close>

section \<open>Server\<close>

datatype server_call =
    S_receiveRequest lpcint "rest_request option" | S_receiveEntity "bytes option"
  | S_receiveWsFrame "ws_opcode option" | S_receiveWsChunk "bytes list" | S_doneChunk | S_disconnected

type_synonym 'o server_pending = "(env \<times> server_call, 'o) deferred"

definition server_receiveRequest :: "env \<Rightarrow> lpcint \<Rightarrow> rest_request option \<Rightarrow> 'o option \<Rightarrow> 'o server_pending \<Rightarrow> 'o server_pending" where
  "server_receiveRequest E code rq = later (E, S_receiveRequest code rq)"

definition server_receiveEntity :: "env \<Rightarrow> bytes option \<Rightarrow> 'o option \<Rightarrow> 'o server_pending \<Rightarrow> 'o server_pending" where
  "server_receiveEntity E entity = later (E, S_receiveEntity entity)"

definition server_receiveWsFrame :: "env \<Rightarrow> ws_opcode option \<Rightarrow> 'o option \<Rightarrow> 'o server_pending \<Rightarrow> 'o server_pending" where
  "server_receiveWsFrame E opcode = later (E, S_receiveWsFrame opcode)"

definition server_receiveWsChunk :: "env \<Rightarrow> bytes list \<Rightarrow> 'o option \<Rightarrow> 'o server_pending \<Rightarrow> 'o server_pending" where
  "server_receiveWsChunk E chunk = later (E, S_receiveWsChunk chunk)"

definition server_doneChunk :: "env \<Rightarrow> 'o option \<Rightarrow> 'o server_pending \<Rightarrow> 'o server_pending" where
  "server_doneChunk E = later (E, S_doneChunk)"

definition server_disconnected :: "env \<Rightarrow> 'o option \<Rightarrow> 'o server_pending \<Rightarrow> 'o server_pending" where
  "server_disconnected E = later (E, S_disconnected)"

text \<open>What the call of each of them does to the queue.\<close>

definition server_defer :: "env \<times> server_call \<Rightarrow> 'o option \<Rightarrow> 'o server_pending \<Rightarrow> 'o server_pending" where
  "server_defer = (\<lambda>(E, c).
     case c of
       S_receiveRequest code rq \<Rightarrow> server_receiveRequest E code rq
     | S_receiveEntity entity \<Rightarrow> server_receiveEntity E entity
     | S_receiveWsFrame opcode \<Rightarrow> server_receiveWsFrame E opcode
     | S_receiveWsChunk chunk \<Rightarrow> server_receiveWsChunk E chunk
     | S_doneChunk \<Rightarrow> server_doneChunk E
     | S_disconnected \<Rightarrow> server_disconnected E)"

lemmas server_defer_defs = server_receiveRequest_def server_receiveEntity_def server_receiveWsFrame_def
  server_receiveWsChunk_def server_doneChunk_def server_disconnected_def later_def

lemma server_defer_last: "server_defer c prev q = q @ [(c, prev)]"
  by (cases c; cases "snd c") (simp_all add: server_defer_def server_defer_defs)

text \<open>What the inheriting service provides: its handlers, and the functions that are called by name.\<close>

record ('s, 'e) service =
  sc_invoke :: "('s, 'e) handlers"
  sc_prev_host :: "bytes option"
  sc_response :: "bytes list \<Rightarrow> ('s, 'e, unit) action"
  sc_receive :: "string \<Rightarrow> bytes list \<Rightarrow> ('s, 'e, unit) action"
  sc_close :: "('s, 'e, unit) action"

text \<open>The function that runs a deferred call.\<close>

definition server_act ::
    "(('o, 'z) rest_server_scheme, 'o server_event) service \<Rightarrow> env \<times> server_call \<Rightarrow> 'o option
      \<Rightarrow> (('o, 'z) rest_server_scheme, 'o server_event, unit) action" where
  "server_act S = (\<lambda>(E, c) prev.
     case c of
       S_receiveRequest code rq \<Rightarrow> receiveRequest E (sc_invoke S) (sc_prev_host S) code rq prev
     | S_receiveEntity entity \<Rightarrow> receiveEntity E (sc_invoke S) entity prev
     | S_receiveWsFrame opcode \<Rightarrow> receiveWsFrame opcode prev
     | S_receiveWsChunk chunk \<Rightarrow> receiveWsChunk E (sc_invoke S) (sc_response S) (sc_receive S) chunk prev
     | S_doneChunk \<Rightarrow> doneChunk prev
     | S_disconnected \<Rightarrow> disconnected (sc_close S) prev)"

definition server_gone :: "'o server_event \<Rightarrow> bool" where
  "server_gone e \<longleftrightarrow> e = Destruct"

section \<open>No function replaces the connection\<close>

definition fixes_conn :: "('s \<Rightarrow> 'o option) \<Rightarrow> ('s, 'e, 'a) action \<Rightarrow> bool" where
  "fixes_conn conn m \<longleftrightarrow> (\<forall>c. ensures (\<lambda>s. conn s = c) (\<lambda>_. True) (\<lambda>_. True) m)"

named_theorems fixes_conn_intros

lemma fixes_conn_basic [fixes_conn_intros]:
  "fixes_conn conn (aret a)" "fixes_conn conn (afail e)" "fixes_conn conn (alift r)" "fixes_conn conn (aget f)" "fixes_conn conn (aemit x)"
  by (auto simp: fixes_conn_def intro!: ensures_intros)

lemma fixes_conn_mod [fixes_conn_intros]:
  "(\<And>s. conn (f s) = conn s) \<Longrightarrow> fixes_conn conn (amod f)"
  by (auto simp: fixes_conn_def intro!: ensures_intros)

lemma fixes_conn_bind [fixes_conn_intros]:
  "fixes_conn conn m \<Longrightarrow> (\<And>a. fixes_conn conn (f a)) \<Longrightarrow> fixes_conn conn (abind m f)"
  by (auto simp: fixes_conn_def intro!: ensures_seq)

lemma fixes_conn_then [fixes_conn_intros]: "fixes_conn conn m \<Longrightarrow> fixes_conn conn n \<Longrightarrow> fixes_conn conn (athen m n)"
  unfolding athen_def by (intro fixes_conn_bind)

lemma fixes_conn_rules [fixes_conn_intros]:
  "fixes_conn conn m \<Longrightarrow> fixes_conn conn n \<Longrightarrow> fixes_conn conn (acatch m n)"
  "fixes_conn conn m' \<Longrightarrow> fixes_conn conn (aif b m')"
  "fixes_conn conn m \<Longrightarrow> fixes_conn conn n \<Longrightarrow> fixes_conn conn (if b then m else n)"
  by (auto simp: fixes_conn_def intro!: ensures_rules)

lemma fixes_conn_cases [fixes_conn_intros]:
  "fixes_conn conn m \<Longrightarrow> (\<And>a. fixes_conn conn (f a)) \<Longrightarrow> fixes_conn conn (case x of None \<Rightarrow> m | Some a \<Rightarrow> f a)"
  "(\<And>e. fixes_conn conn (g e)) \<Longrightarrow> (\<And>a. fixes_conn conn (f a)) \<Longrightarrow> fixes_conn conn (case y of Inl e \<Rightarrow> g e | Inr a \<Rightarrow> f a)"
  "(\<And>a b. fixes_conn conn (h a b)) \<Longrightarrow> fixes_conn conn (case p of (a, b) \<Rightarrow> h a b)"
  by (auto split: option.split sum.split prod.split)

lemma fixes_conn_sending [fixes_conn_intros]:
  "fixes_conn sv_connection (connection_call e)" "fixes_conn sv_connection (sendChunk chunk)" "fixes_conn sv_connection (send_close_frame code)"
  unfolding connection_call_def sendChunk_def send_close_frame_def by (intro fixes_conn_intros; simp)+

lemma fixes_conn_respond [fixes_conn_intros]: "fixes_conn sv_connection (respond H ctxt code type entity extra)"
  unfolding respond_def httpRespond_def Let_def by (intro fixes_conn_intros; simp)

lemma fixes_conn_args [fixes_conn_intros]: "fixes_conn sv_connection (substArg E ctxt rq entity args i h)"
  unfolding substArg_def auth_arg_def queue_auth_def json_arg_def refuse_def Let_def
  by (auto intro!: fixes_conn_intros split: rest_value.split rest_arg.split header_value.split)

lemma fixes_conn_subst_args [fixes_conn_intros]: "fixes_conn sv_connection (subst_args E ctxt rq entity h i args)"
  by (induction i arbitrary: args) (auto intro!: fixes_conn_intros split: rest_value.split json.split)

lemma fixes_conn_call [fixes_conn_intros]:
  assumes "\<And>f ctxt args. fixes_conn sv_connection (invoke f ctxt args)"
  shows "fixes_conn sv_connection (rest_call E invoke ctxt rq entity callee)"
  unfolding rest_call_def by (intro fixes_conn_intros assms)

text \<open>The contract of a service: none of its functions replaces the connection.\<close>

definition service_ok :: "(('o, 'z) rest_server_scheme, 'o server_event) service \<Rightarrow> bool" where
  "service_ok S \<longleftrightarrow>
     (\<forall>f ctxt args. fixes_conn sv_connection (sc_invoke S f ctxt args))
   \<and> (\<forall>chunk. fixes_conn sv_connection (sc_response S chunk))
   \<and> (\<forall>w chunk. fixes_conn sv_connection (sc_receive S w chunk)) \<and> fixes_conn sv_connection (sc_close S)"

lemma server_act_fixes:
  assumes "service_ok S"
  shows "fixes_conn sv_connection (server_act S c prev)"
proof -
  obtain E d where c: "c = (E, d)" by (cases c)
  have ok: "fixes_conn sv_connection (sc_invoke S f ctxt args)" "fixes_conn sv_connection (sc_response S chunk)"
    "fixes_conn sv_connection (sc_receive S w chunk)" "fixes_conn sv_connection (sc_close S)" for f ctxt args w chunk
    using assms by (simp_all add: service_ok_def)
  show ?thesis
  proof (cases d)
    case (S_receiveRequest code rq)
    show ?thesis
      unfolding c S_receiveRequest server_act_def receiveRequest_def Let_def prod.case server_call.case
      by (auto intro!: fixes_conn_intros ok split: header_value.split)
  next
    case (S_receiveWsChunk chunk)
    show ?thesis
      unfolding c S_receiveWsChunk server_act_def receiveWsChunk_def receiveWsRequest_def prod.case server_call.case
      by (auto intro!: fixes_conn_intros ok split: ws_message.split)
  qed (auto simp: c server_act_def receiveEntity_def receiveWsFrame_def doneChunk_def disconnected_def
      intro!: fixes_conn_intros ok)
qed

lemma server_act_foreign:
  assumes "prev \<noteq> sv_connection s"
  shows "server_act S c prev s = (Inr (), s, [])"
  using assms
  by (cases c; cases "snd c")
    (simp_all add: server_act_def receiveRequest_def receiveEntity_def receiveWsFrame_def receiveWsChunk_def doneChunk_def
      disconnected_def action_simps aif_def Let_def)

lemma server_event_loop:
  assumes "service_ok S"
  shows "event_loop server_defer (server_act S) sv_connection (\<lambda>s. True)"
proof
  show "server_defer c prev q = q @ [(c, prev)]" for c prev and q :: "'o server_pending"
    by (rule server_defer_last)
  show "prev \<noteq> sv_connection s \<Longrightarrow> server_act S c prev s = (Inr (), s, [])" for prev s c by (rule server_act_foreign)
  show "server_act S c prev s = (r, t, ev) \<Longrightarrow> True \<and> sv_connection t = sv_connection s" for c prev s r t ev
    using server_act_fixes [OF assms, of c prev] unfolding fixes_conn_def by (blast dest: ensuresD(1))
qed

text \<open>The chat service: calls of handlers are events, responses and the end of a connection are its own.\<close>

definition chat_service ::
    "env \<Rightarrow> ('o \<Rightarrow> bool) \<Rightarrow> 'o \<Rightarrow> bytes \<Rightarrow> bytes list \<Rightarrow> 'o envelope list list \<Rightarrow> ('o endpoint, 'o server_event) service" where
  "chat_service E alive this random randoms callouts =
     \<lparr>sc_invoke = (\<lambda>f ctxt args. aemit (Invoke f ctxt args)), sc_prev_host = None,
      sc_response = chatReceiveResponse E (delivered E alive this random randoms),
      sc_receive = (\<lambda>w chunk. aemit (Invoke (w @ ''ReceiveChunk'') None [])),
      sc_close = close_endpoint callouts\<rparr>"

lemma fixes_conn_endpoint [fixes_conn_intros]:
  "fixes_conn sv_connection (sendEnvelope E randoms e)" "fixes_conn sv_connection emptyQueue"
  unfolding sendEnvelope_def emptyQueue_def chatSendRequest_def by (intro fixes_conn_intros; simp)+

lemma chat_service_ok: "service_ok (chat_service E alive this random randoms callouts)"
  unfolding service_ok_def chat_service_def service.simps chatReceiveResponse_def delivered_def sendClose_def
    close_endpoint_def close_server_def Let_def
  by (auto intro!: fixes_conn_intros split: list.split)

interpretation chat: event_loop server_defer "server_act (chat_service E alive this random randoms callouts)" sv_connection "\<lambda>s. True"
  for E alive this random randoms callouts
  by (rule server_event_loop [OF chat_service_ok])

section \<open>Client\<close>

datatype client_deferred =
    D_receiveResponse client_response | D_receiveChunk "bytes option" | D_receiveEntity "bytes option"
  | D_receiveWsFrame "ws_opcode option" | D_receiveWsChunk "bytes list" | D_doneChunk | D_disconnected

type_synonym 'o client_pending = "(env \<times> client_deferred, 'o) deferred"

definition later_receiveResponse :: "env \<Rightarrow> client_response \<Rightarrow> 'o option \<Rightarrow> 'o client_pending \<Rightarrow> 'o client_pending" where
  "later_receiveResponse E resp = later (E, D_receiveResponse resp)"

definition later_receiveChunk :: "env \<Rightarrow> bytes option \<Rightarrow> 'o option \<Rightarrow> 'o client_pending \<Rightarrow> 'o client_pending" where
  "later_receiveChunk E chunk = later (E, D_receiveChunk chunk)"

definition later_receiveEntity :: "env \<Rightarrow> bytes option \<Rightarrow> 'o option \<Rightarrow> 'o client_pending \<Rightarrow> 'o client_pending" where
  "later_receiveEntity E entity = later (E, D_receiveEntity entity)"

definition later_receiveWsFrame :: "env \<Rightarrow> ws_opcode option \<Rightarrow> 'o option \<Rightarrow> 'o client_pending \<Rightarrow> 'o client_pending" where
  "later_receiveWsFrame E opcode = later (E, D_receiveWsFrame opcode)"

definition later_receiveWsChunk :: "env \<Rightarrow> bytes list \<Rightarrow> 'o option \<Rightarrow> 'o client_pending \<Rightarrow> 'o client_pending" where
  "later_receiveWsChunk E chunk = later (E, D_receiveWsChunk chunk)"

definition later_doneChunk :: "env \<Rightarrow> 'o option \<Rightarrow> 'o client_pending \<Rightarrow> 'o client_pending" where
  "later_doneChunk E = later (E, D_doneChunk)"

definition later_disconnected :: "env \<Rightarrow> 'o option \<Rightarrow> 'o client_pending \<Rightarrow> 'o client_pending" where
  "later_disconnected E = later (E, D_disconnected)"

text \<open>What the call of each of them does to the queue.\<close>

definition client_defer :: "env \<times> client_deferred \<Rightarrow> 'o option \<Rightarrow> 'o client_pending \<Rightarrow> 'o client_pending" where
  "client_defer = (\<lambda>(E, c).
     case c of
       D_receiveResponse resp \<Rightarrow> later_receiveResponse E resp
     | D_receiveChunk chunk \<Rightarrow> later_receiveChunk E chunk
     | D_receiveEntity entity \<Rightarrow> later_receiveEntity E entity
     | D_receiveWsFrame opcode \<Rightarrow> later_receiveWsFrame E opcode
     | D_receiveWsChunk chunk \<Rightarrow> later_receiveWsChunk E chunk
     | D_doneChunk \<Rightarrow> later_doneChunk E
     | D_disconnected \<Rightarrow> later_disconnected E)"

lemmas client_defer_defs = later_receiveResponse_def later_receiveChunk_def later_receiveEntity_def
  later_receiveWsFrame_def later_receiveWsChunk_def later_doneChunk_def later_disconnected_def later_def

lemma client_defer_last: "client_defer c prev q = q @ [(c, prev)]"
  by (cases c; cases "snd c") (simp_all add: client_defer_def client_defer_defs)

text \<open>What the inheriting object provides; \<open>cb_caller\<close> is \<open>previous_object()\<close> in a deferred call.\<close>

record ('o, 's, 'e) callbacks =
  cb_invoke :: "('s, 'e) client_handlers"
  cb_receive :: "string \<Rightarrow> bytes list \<Rightarrow> ('s, 'e, unit) action"
  cb_close :: "('s, 'e, unit) action"
  cb_caller :: "'o option"

definition client_act ::
    "('o, ('o, 'z) rest_client_scheme, ('o, 'k) client_event) callbacks \<Rightarrow> env \<times> client_deferred \<Rightarrow> 'o option
      \<Rightarrow> ('o, 'k, 'z, unit) client_action" where
  "client_act S = (\<lambda>(E, c) prev.
     case c of
       D_receiveResponse resp \<Rightarrow> receiveResponse E (cb_invoke S) resp prev
     | D_receiveChunk chunk \<Rightarrow> receiveChunk E (cb_invoke S) chunk prev
     | D_receiveEntity entity \<Rightarrow> client_receiveEntity E (cb_invoke S) entity prev
     | D_receiveWsFrame opcode \<Rightarrow> client_receiveWsFrame opcode prev
     | D_receiveWsChunk chunk \<Rightarrow> client_receiveWsChunk E (cb_invoke S) (cb_receive S) chunk prev (cb_caller S)
     | D_doneChunk \<Rightarrow> client_doneChunk prev
     | D_disconnected \<Rightarrow> client_disconnected (cb_close S) prev)"

definition client_gone :: "('o, 'k) client_event \<Rightarrow> bool" where
  "client_gone e \<longleftrightarrow> (case e of C_destruct \<Rightarrow> True | _ \<Rightarrow> False)"

lemma fixes_conn_client [fixes_conn_intros]:
  "fixes_conn cl_connection (client_call e)" "fixes_conn cl_connection (client_sendChunk chunk)"
  "fixes_conn cl_connection (client_close_frame code mask')" "fixes_conn cl_connection doneResponse"
  "fixes_conn cl_connection client_terminate" "fixes_conn cl_connection client_close"
  unfolding client_call_def client_sendChunk_def client_close_frame_def doneResponse_def client_terminate_def client_close_def
  by (intro fixes_conn_intros; simp)+

lemma fixes_conn_invoke [fixes_conn_intros]:
  assumes "\<And>f ctxt parsed args. fixes_conn cl_connection (invoke f ctxt parsed args)"
  shows "fixes_conn cl_connection (client_invoke E invoke ctxt parsed function args entity)"
    "fixes_conn cl_connection (call_handle E invoke entity)"
  unfolding call_handle_def client_invoke_def
  by (auto intro!: fixes_conn_intros assms split: option.split client_handle.split)

definition callbacks_ok :: "('o, ('o, 'z) rest_client_scheme, ('o, 'k) client_event) callbacks \<Rightarrow> bool" where
  "callbacks_ok S \<longleftrightarrow>
     (\<forall>f ctxt parsed args. fixes_conn cl_connection (cb_invoke S f ctxt parsed args))
   \<and> (\<forall>w chunk. fixes_conn cl_connection (cb_receive S w chunk)) \<and> fixes_conn cl_connection (cb_close S)"

lemma client_act_fixes:
  assumes "callbacks_ok S"
  shows "fixes_conn cl_connection (client_act S c prev)"
proof -
  obtain E d where c: "c = (E, d)" by (cases c)
  have ok: "fixes_conn cl_connection (cb_invoke S f ctxt parsed args)" "fixes_conn cl_connection (cb_receive S w chunk)"
    "fixes_conn cl_connection (cb_close S)" for f ctxt parsed args w chunk
    using assms by (simp_all add: callbacks_ok_def)
  show ?thesis
  proof (cases d)
    case (D_receiveResponse resp)
    show ?thesis
      unfolding c D_receiveResponse client_act_def receiveResponse_def prod.case client_deferred.case
      by (auto intro!: fixes_conn_intros ok split: header_value.split client_handle.split)
  next
    case (D_receiveWsChunk chunk)
    show ?thesis
      unfolding c D_receiveWsChunk client_act_def client_receiveWsChunk_def client_receiveWsRequest_def
        client_receiveWsResponse_def client_respond_def prod.case client_deferred.case
      by (auto intro!: fixes_conn_intros ok split: ws_message.split)
  qed (auto simp: c client_act_def receiveChunk_def client_receiveEntity_def client_receiveWsFrame_def client_doneChunk_def
      client_disconnected_def intro!: fixes_conn_intros ok)
qed

lemma client_act_foreign:
  assumes "prev \<noteq> cl_connection s" "cb_caller S \<noteq> cl_connection s"
  shows "client_act S c prev s = (Inr (), s, [])"
  using assms
  by (cases c; cases "snd c")
    (simp_all add: client_act_def receiveResponse_def receiveChunk_def client_receiveEntity_def client_receiveWsFrame_def
      client_receiveWsChunk_def client_doneChunk_def client_disconnected_def action_simps aif_def)

lemma client_event_loop:
  assumes "callbacks_ok S"
  shows "event_loop client_defer (client_act S) cl_connection (\<lambda>s. cb_caller S \<noteq> cl_connection s)"
proof
  show "client_defer c prev q = q @ [(c, prev)]" for c prev and q :: "'o client_pending"
    by (rule client_defer_last)
  show "cb_caller S \<noteq> cl_connection s \<Longrightarrow> prev \<noteq> cl_connection s \<Longrightarrow> client_act S c prev s = (Inr (), s, [])" for prev s c
    by (rule client_act_foreign)
  have "client_act S c prev s = (r, t, ev) \<Longrightarrow> cl_connection t = cl_connection s" for c prev s r t ev
    using client_act_fixes [OF assms, of c prev] unfolding fixes_conn_def by (blast dest: ensuresD(1))
  then show "cb_caller S \<noteq> cl_connection s \<Longrightarrow> client_act S c prev s = (r, t, ev) \<Longrightarrow>
      cb_caller S \<noteq> cl_connection t \<and> cl_connection t = cl_connection s" for c prev s r t ev
    by simp
qed

text \<open>An object that makes one request: the only function it lets be called is \<open>response\<close>.\<close>

definition oneshot_callbacks :: "'o \<Rightarrow> ('o, ('o, 'k) oneshot, ('o, 'k) client_event) callbacks" where
  "oneshot_callbacks this =
     \<lparr>cb_invoke = (\<lambda>f ctxt parsed args. if f = ''response'' then
          (case args of [V_entity b] \<Rightarrow> oneshot_response parsed (Some b) | _ \<Rightarrow> oneshot_response parsed None) else afail Bad_argument),
      cb_receive = (\<lambda>w chunk. afail Bad_argument), cb_close = oneshot_close, cb_caller = Some this\<rparr>"

lemma oneshot_callbacks_ok: "callbacks_ok (oneshot_callbacks this)"
  unfolding callbacks_ok_def oneshot_callbacks_def callbacks.simps oneshot_response_def oneshot_close_def run_callback_def
  by (auto intro!: fixes_conn_intros split: list.split rest_value.split)

lemma oneshot_caller [simp]: "cb_caller (oneshot_callbacks this) = Some this"
  by (simp add: oneshot_callbacks_def)

interpretation oneshot: event_loop client_defer "client_act (oneshot_callbacks this)" cl_connection "\<lambda>s. Some this \<noteq> cl_connection s" for this
  using client_event_loop [OF oneshot_callbacks_ok, of this] by simp

text \<open>What the loop does to such an object is what the calls of its connection do.\<close>

lemma oneshot_deferred:
  assumes "loop client_defer (client_act (oneshot_callbacks this)) client_gone s made rest t ev over" "cl_connection s \<noteq> Some this"
  shows "\<exists>ran. made = ran @ rest
    \<and> run_calls (client_act (oneshot_callbacks this)) client_gone (filter (\<lambda>(c, prev). prev = cl_connection s) ran) s = (t, ev, over)"
  using oneshot.loop_runs_own [OF assms(1)] not_sym [OF assms(2)] by (auto simp: oneshot.own_def)

section \<open>Properties\<close>

text \<open>The calls that were made by the connection of a state.\<close>

definition own_calls :: "('o, 'z) rest_server_scheme \<Rightarrow> 'o server_pending \<Rightarrow> 'o server_pending" where
  "own_calls s = filter (\<lambda>(c, prev). prev = sv_connection s)"

text \<open>
  C12. Deferring is invisible: whatever calls of the six functions (\<open>server_defer\<close>) come in, from any object
  and at any time, and whenever the deferred ones run, what the chat service does is what it does when just the calls of its own
  connection run one after the other, in the order they were made, up to the one that ends it; and
  every such run is possible.
\<close>

theorem deferred_calls_in_order:
  "(loop server_defer (server_act (chat_service E alive this random randoms callouts)) server_gone s made rest t ev over \<longrightarrow>
      (\<exists>ran. made = ran @ rest \<and> sv_connection t = sv_connection s
        \<and> run_calls (server_act (chat_service E alive this random randoms callouts)) server_gone (own_calls s ran) s = (t, ev, over)))
    \<and> (run_calls (server_act (chat_service E alive this random randoms callouts)) server_gone (own_calls s made) s = (t, ev, over) \<longrightarrow>
      (\<exists>rest'. loop server_defer (server_act (chat_service E alive this random randoms callouts)) server_gone s made rest' t ev over))"
  using chat.loop_runs_own [of E alive this random randoms callouts server_gone s made rest t ev over]
    chat.own_runs_in_loop [of E alive this random randoms callouts server_gone s made t ev over]
  by (auto simp: chat.own_def own_calls_def)

text \<open>A frame of another object, one of the connection, and the end of the connection.\<close>

definition sample_calls :: "((env \<times> server_call) \<times> nat option) list" where
  "sample_calls =
     (let E = sample_env (Api None []) (\<lambda>_. None) in
      [((E, S_receiveWsFrame (Some WEBSOCK_CLOSE)), Some 5), ((E, S_receiveWsFrame (Some WEBSOCK_BINARY)), Some 1),
       ((E, S_disconnected), Some 1)])"

theorem deferred_calls_in_order_witness:
  "\<exists>rest t. loop server_defer (server_act (chat_service (sample_env (Api None []) (\<lambda>_. None)) (\<lambda>_. True) 3 [] [] [])) server_gone sample_endpoint
      sample_calls rest t [Destruct] True \<and> sv_opcode t = Some WEBSOCK_BINARY"
proof -
  let ?S = "server_act (chat_service (sample_env (Api None []) (\<lambda>_. None)) (\<lambda>_. True) (3 :: nat) [] [] [])"
  have c: "sv_connection sample_endpoint = Some 1" "ep_queue sample_endpoint = None" by (simp_all add: sample_endpoint_def)
  have "own_calls sample_endpoint sample_calls =
      [((sample_env (Api None []) (\<lambda>_. None), S_receiveWsFrame (Some WEBSOCK_BINARY)), Some 1),
       ((sample_env (Api None []) (\<lambda>_. None), S_disconnected), Some 1)]"
    by (simp add: sample_calls_def own_calls_def c Let_def)
  then have "run_calls ?S server_gone (own_calls sample_endpoint sample_calls) sample_endpoint
      = (sample_endpoint\<lparr>sv_opcode := Some WEBSOCK_BINARY\<rparr>, [Destruct], True)"
    by (simp add: server_act_def receiveWsFrame_def disconnected_def action_simps aif_def chat_service_def close_endpoint_def
        close_server_def server_gone_def Let_def c)
  then show ?thesis
    using conjunct2 [OF deferred_calls_in_order, of "sample_env (Api None []) (\<lambda>_. None)" "\<lambda>_. True" "3 :: nat" "[]" "[]" "[]"
        sample_endpoint sample_calls] by fastforce
qed

end
