(* ===== verification/Startup.thy ===== *)
theory Startup
  imports Params Flow
begin

text \<open>
  Start and upgrade of the system (\<^verbatim>\<open>src/initd.c\<close>), the manager of TLS connections
  (\<^verbatim>\<open>src/sys/tls_server.c\<close>), the object of a connection (\<^verbatim>\<open>src/services/obj/server.c\<close>) and the
  choices of a TLS client (\<^verbatim>\<open>src/lib/TlsClientSession.c\<close>).

  The system is a table of the objects that are loaded, each with the number of the compilation that
  made it, so that an object that was replaced can be told from one that kept its state; and the
  state of those objects whose \<open>create\<close> reads files, calls another object, or includes the services.
  What the \<open>create\<close> of the other objects makes is in their own theories.
  Compiling an object that is loaded replaces its program, keeps its variables and does not call \<open>create\<close>.
  Files, kernel objects (\<open>si_find\<close>, by the name of their macro), host names and random strings are a
  parameter.
\<close>

section \<open>The system\<close>

record 'o tls_server =
  tl_userd :: "'o option"
  tl_certificate :: "bytes option"
  tl_key :: "bytes option"

record 'o system =
  sy_objects :: "string \<rightharpoonup> nat"
  sy_count :: nat
  sy_params :: "(params_server \<times> sho_store) option"
  sy_credentials :: "credentials_server option"
  sy_api :: "api option"
  sy_tls :: "'o tls_server option"
  sy_seed :: "bytes option"
  sy_public :: "bytes option"

text \<open>
  \<open>si_random n\<close> are the strings that \<open>secure_random\<close> returns to the object of compilation \<open>n\<close>,
  \<open>si_host\<close> gives the host names of \<^verbatim>\<open>config/services\<close> by the names of their macros.
\<close>

record 'o site =
  si_zlib :: zlib
  si_base64 :: base64_lib
  si_random :: "nat \<Rightarrow> bytes \<times> bytes \<times> bytes"
  si_host :: "string \<Rightarrow> bytes"
  si_find :: "string \<Rightarrow> 'o option"
  si_read :: "string \<Rightarrow> bytes option"

datatype start_event = Set_manager string int

type_synonym ('o, 'a) start_action = "('o system, start_event, 'a) action"

section \<open>Compiling objects\<close>

definition tls_create :: "'o site \<Rightarrow> ('o, unit) start_action" where
  "tls_create S =
     athen (aemit (Set_manager ''binary'' 8443))
     (amod (\<lambda>s. s\<lparr>sy_tls := Some \<lparr>tl_userd = si_find S ''USERD'',
        tl_certificate = si_read S ''~/config/cert/server.pem'', tl_key = si_read S ''~/config/cert/server.key''\<rparr>\<rparr>))"

definition api_create :: "'o site \<Rightarrow> api" where
  "api_create S = rest_api_create (si_host S ''CHAT_SERVER'') (si_host S ''STORAGE_SERVER'') (si_host S ''CDSI_SERVER'')"

text \<open>\<open>create\<close> of the object \<open>n\<close>; that of the credentials calls the object of the parameters.\<close>

definition object_create :: "'o site \<Rightarrow> string \<Rightarrow> nat \<Rightarrow> ('o, unit) start_action" where
  "object_create S path n =
     (if path = ''sys/tls_server'' then tls_create S
      else if path = ''sys/rest_api'' then amod (\<lambda>s. s\<lparr>sy_api := Some (api_create S)\<rparr>)
      else if path = ''sys/params'' then
        abind (alift (params_create (si_zlib S) [])) (\<lambda>p. amod (\<lambda>s. s\<lparr>sy_params := Some p\<rparr>))
      else if path = ''sys/credentials'' then
        abind (aget id) (\<lambda>s.
        if sy_params s = None then afail Bad_argument
        else abind (alift (credentials_create (si_zlib S) (si_base64 S) (si_random S n) (sy_seed s)))
          (\<lambda>(c, seed, public). amod (\<lambda>s. s\<lparr>sy_credentials := Some c, sy_seed := Some seed, sy_public := Some public\<rparr>)))
      else aret ())"

definition compile_object :: "'o site \<Rightarrow> string \<Rightarrow> ('o, unit) start_action" where
  "compile_object S path =
     abind (aget id) (\<lambda>s.
     if sy_objects s path \<noteq> None then aret ()
     else athen (object_create S path (sy_count s))
       (amod (\<lambda>t. t\<lparr>sy_objects := (sy_objects t)(path \<mapsto> sy_count s), sy_count := sy_count s + 1\<rparr>)))"

definition destruct_object :: "string \<Rightarrow> ('o, unit) start_action" where
  "destruct_object path = amod (\<lambda>s.
     let s = s\<lparr>sy_objects := (sy_objects s)(path := None)\<rparr> in
     if path = ''sys/tls_server'' then s\<lparr>sy_tls := None\<rparr>
     else if path = ''sys/rest_api'' then s\<lparr>sy_api := None\<rparr>
     else if path = ''sys/params'' then s\<lparr>sy_params := None\<rparr>
     else if path = ''sys/credentials'' then s\<lparr>sy_credentials := None\<rparr>
     else s)"

primrec compile_objects :: "'o site \<Rightarrow> string list \<Rightarrow> ('o, unit) start_action" where
  "compile_objects S [] = aret ()"
| "compile_objects S (p # ps) = athen (compile_object S p) (compile_objects S ps)"

section \<open>Start and upgrade\<close>

definition startup_paths :: "string list" where
  "startup_paths =
     [''lib/KVstoreExp'', ''lib/KVstoreObj'', ''lib/Device'', ''lib/Account'', ''lib/Profile'',
      ''lib/Timestamp'', ''lib/Envelope'', ''lib/ShoHmacSha256'', ''lib/ShoSha256'', ''lib/KeyPair'',
      ''lib/zkp/Scalar'', ''lib/zkp/RistrettoPoint'', ''lib/zkp/RemoteProof'', ''lib/zkp/Statement'',
      ''lib/protocol/RemoteProfileKeyCommitment'', ''lib/protocol/RemoteProfileKeyCredentialRequest'',
      ''lib/protocol/ProfileKeyCredentialResponse'', ''lib/protocol/AuthCredentialWithPniResponse'',
      ''lib/protocol/CallLinkAuthCredentialResponse'', ''obj/oneshot'', ''obj/fcm_sender'',
      ''obj/kvnode_exp'', ''obj/kvnode_obj'',
      ''sys/tls_server'', ''sys/rest_api'', ''sys/params'', ''sys/cert'', ''sys/credentials'',
      ''sys/registration'', ''sys/fcm_relay'', ''sys/accounts'', ''sys/pni'', ''sys/keys'', ''sys/profiles'',
      ''sys/online'', ''sys/messages'', ''sys/provisioning'', ''services/obj/server'',
      ''benchmark/lib/TlsClientSession'', ''benchmark/obj/client'', ''benchmark/obj/sim_client'',
      ''benchmark/obj/sim_server'', ''benchmark/obj/sim_tls_client'', ''benchmark/obj/sim_tls_server'']"

definition startup :: "'o site \<Rightarrow> ('o, unit) start_action" where
  "startup S = compile_objects S startup_paths"

definition upgrade :: "'o site \<Rightarrow> ('o, lpcint) start_action" where
  "upgrade S =
     abind (aget (\<lambda>s. sy_objects s ''sys/provisioning'')) (\<lambda>found.
     athen (aif (found = None)
       (athen (destruct_object ''sys/params'')
       (athen (destruct_object ''sys/credentials'')
       (compile_objects S
          [''lib/protocol/AuthCredentialWithPniResponse'', ''lib/protocol/CallLinkAuthCredentialResponse'',
           ''sys/params'', ''sys/credentials'', ''sys/provisioning'']))))
     (athen (destruct_object ''sys/rest_api'')
     (athen (compile_object S ''sys/rest_api'')
     (aret 1))))"

section \<open>TLS\<close>

text \<open>\<open>server\<close> and \<open>conn\<close> are the objects that are cloned; the library of connections is outside the repository.\<close>

datatype 'o tls_event =
    Clone_server 'o
  | Clone_connection 'o 'o "bytes option" "bytes option" "bytes list"

definition tls_hosts :: "'o site \<Rightarrow> bytes list" where
  "tls_hosts S = map (si_host S)
     [''CHAT_SERVER'', ''STORAGE_SERVER'', ''CDSI_SERVER'', ''UPTIME_SERVER'', ''BACKUP_SERVER'', ''VOIP_SERVER'',
      ''VOIP_STAGING_SERVER'', ''VOIP_TEST_SERVER'', ''VOIP_DEV_SERVER'', ''CONTENTPROXY_SERVER'', ''CAPTCHA_SERVER'',
      ''UPDATES_SERVER'']"

text \<open>\<open>create\<close> of a clone of the server object, from the state \<open>blank\<close> of its variables.\<close>

definition server_create :: "(('o, 'k, 'z) chat_socket_scheme, 'o server_event, unit) action" where
  "server_create = chat_create"

text \<open>The result is the connection, and the state in which the clone of the server object is left.\<close>

definition tls_select ::
    "'o site \<Rightarrow> 'o tls_server \<Rightarrow> 'o option \<Rightarrow> 'o \<Rightarrow> 'o \<Rightarrow> ('o, 'k, 'z) chat_socket_scheme
      \<Rightarrow> ('o \<times> ('o, 'k, 'z) chat_socket_scheme) option \<times> 'o tls_event list" where
  "tls_select S tls prev server conn blank =
     (if prev = tl_userd tls
      then (Some (conn, fst (snd (athen server_create (init_server conn) blank))),
            [Clone_server server, Clone_connection conn server (tl_certificate tls) (tl_key tls) (tls_hosts S)])
      else (None, []))"

definition query_mode :: "int \<Rightarrow> 'o \<Rightarrow> int" where "query_mode MODE_RAW obj = MODE_RAW"
definition query_timeout :: "'o \<Rightarrow> int" where "query_timeout obj = 10"

text \<open>What a TLS client offers, with the constants of the TLS library as a parameter.\<close>

definition cipherSuites :: "(string \<Rightarrow> bytes) \<Rightarrow> bytes list" where
  "cipherSuites TLS = map TLS
     [''TLS_AES_256_GCM_SHA384'', ''TLS_AES_128_GCM_SHA256'', ''TLS_CHACHA20_POLY1305_SHA256'',
      ''TLS_AES_128_CCM_SHA256'', ''TLS_AES_128_CCM_8_SHA256'']"

definition supportedGroups :: "(string \<Rightarrow> bytes) \<Rightarrow> bytes list" where
  "supportedGroups TLS = map TLS
     [''TLS_X25519'', ''TLS_X448'', ''TLS_SECP256R1'', ''TLS_SECP384R1'', ''TLS_SECP521R1'',
      ''TLS_FFDHE2048'', ''TLS_FFDHE3072'', ''TLS_FFDHE4096'', ''TLS_FFDHE6144'', ''TLS_FFDHE8192'']"

section \<open>What the objects of the start are\<close>

text \<open>The keys depend on the seed alone; the two random strings are the only other state.\<close>

lemma seed_decides_keys:
  assumes "credentials_create Z B r (Some g) = Inr (c, seed, public)"
  shows "credentials_create Z B r' (Some g)
    = Inr (c\<lparr>cr_userDeriveKey := fst r', cr_key := fst (snd r')\<rparr>, g, public)"
  using assms by (cases r; cases r') (auto simp: credentials_create_def Let_def split: sum.splits prod.splits)

text \<open>Without a seed file, the string that is drawn becomes the seed.\<close>

lemma first_seed: "credentials_create Z B (a, b, g) None = credentials_create Z B (a, b, g) (Some g)"
  by (simp add: credentials_create_def)

lemma seed_lasts:
  assumes "credentials_create Z B r stored = Inr (c, g, public)"
  shows "credentials_create Z B r' (Some g) = Inr (c\<lparr>cr_userDeriveKey := fst r', cr_key := fst (snd r')\<rparr>, g, public)"
proof -
  obtain a b d where r: "r = (a, b, d)" by (cases r)
  have g: "g = (case stored of None \<Rightarrow> d | Some x \<Rightarrow> x)"
    using assms by (auto simp: r credentials_create_def Let_def split: sum.splits prod.splits)
  have "credentials_create Z B r (Some g) = Inr (c, g, public)"
    using assms by (cases stored) (simp_all add: r g first_seed)
  then show ?thesis by (rule seed_decides_keys)
qed

definition stateful :: "string set" where
  "stateful = {''sys/tls_server'', ''sys/rest_api'', ''sys/params'', ''sys/credentials''}"

lemma compile_plain:
  assumes "path \<notin> stateful" "sy_objects s path = None"
  shows "compile_object S path s
    = (Inr (), s\<lparr>sy_objects := (sy_objects s)(path \<mapsto> sy_count s), sy_count := sy_count s + 1\<rparr>, [])"
  using assms by (simp add: compile_object_def object_create_def stateful_def action_simps)

lemma compile_loaded: "sy_objects s path \<noteq> None \<Longrightarrow> compile_object S path s = (Inr (), s, [])"
  by (simp add: compile_object_def action_simps)

lemma compile_objects_append:
  "compile_objects S (ps @ qs) = athen (compile_objects S ps) (compile_objects S qs)"
proof (induction ps)
  case Nil
  show ?case by (rule ext) (simp add: athen_def abind_def aret_run)
qed (simp add: athen_def abind_assoc)

lemma compile_objects_plain:
  assumes "distinct ps" "set ps \<inter> stateful = {}" "\<forall>p\<in>set ps. sy_objects s p = None"
  shows "compile_objects S ps s
    = (Inr (), s\<lparr>sy_objects := sy_objects s ++ map_of (zip ps [sy_count s..<sy_count s + length ps]),
         sy_count := sy_count s + length ps\<rparr>, [])"
  using assms
proof (induction ps arbitrary: s)
  case (Cons p ps)
  let ?s = "s\<lparr>sy_objects := (sy_objects s)(p \<mapsto> sy_count s), sy_count := sy_count s + 1\<rparr>"
  have "compile_object S p s = (Inr (), ?s, [])" using Cons.prems by (intro compile_plain) auto
  moreover have "compile_objects S ps ?s
    = (Inr (), ?s\<lparr>sy_objects := sy_objects ?s ++ map_of (zip ps [sy_count ?s..<sy_count ?s + length ps]),
         sy_count := sy_count ?s + length ps\<rparr>, [])"
    using Cons.prems by (intro Cons.IH) auto
  moreover have "sy_objects ?s ++ map_of (zip ps [sy_count ?s..<sy_count ?s + length ps])
      = sy_objects s ++ map_of (zip (p # ps) [sy_count s..<sy_count s + length (p # ps)])"
  proof -
    have "[sy_count s..<sy_count s + length (p # ps)] = sy_count s # [sy_count ?s..<sy_count ?s + length ps]"
      by (simp add: upt_conv_Cons del: upt_Suc)
    moreover have "p \<notin> dom (map_of (zip ps [sy_count ?s..<sy_count ?s + length ps]))"
      using Cons.prems(1) by (auto dest!: map_of_SomeD set_zip_leftD)
    ultimately show ?thesis by (simp add: map_add_upd_left del: upt_Suc)
  qed
  ultimately show ?case by (simp add: athen_abind abind_Inr del: upt_Suc)
qed (simp add: aret_run)

text \<open>The two objects that cannot be made without the parameters.\<close>

lemma compile_params:
  assumes "params_create (si_zlib S) [] = Inr ps" "sy_objects s ''sys/params'' = None"
  shows "compile_object S ''sys/params'' s
    = (Inr (), s\<lparr>sy_params := Some ps, sy_objects := (sy_objects s)(''sys/params'' \<mapsto> sy_count s),
        sy_count := sy_count s + 1\<rparr>, [])"
  using assms by (simp add: compile_object_def object_create_def action_simps abind_assoc)

lemma compile_credentials:
  assumes "credentials_create (si_zlib S) (si_base64 S) (si_random S (sy_count s)) (sy_seed s) = Inr (c, g, public)"
    "sy_objects s ''sys/credentials'' = None" "sy_params s \<noteq> None"
  shows "compile_object S ''sys/credentials'' s
    = (Inr (), s\<lparr>sy_credentials := Some c, sy_seed := Some g, sy_public := Some public,
        sy_objects := (sy_objects s)(''sys/credentials'' \<mapsto> sy_count s), sy_count := sy_count s + 1\<rparr>, [])"
  using assms by (simp add: compile_object_def object_create_def action_simps abind_assoc)

lemma compile_api:
  assumes "sy_objects s ''sys/rest_api'' = None"
  shows "compile_object S ''sys/rest_api'' s
    = (Inr (), s\<lparr>sy_api := Some (api_create S), sy_objects := (sy_objects s)(''sys/rest_api'' \<mapsto> sy_count s),
        sy_count := sy_count s + 1\<rparr>, [])"
  using assms by (simp add: compile_object_def object_create_def action_simps abind_assoc)

lemma compile_tls:
  assumes "sy_objects s ''sys/tls_server'' = None"
  shows "compile_object S ''sys/tls_server'' s
    = (Inr (), s\<lparr>sy_tls := Some \<lparr>tl_userd = si_find S ''USERD'',
          tl_certificate = si_read S ''~/config/cert/server.pem'', tl_key = si_read S ''~/config/cert/server.key''\<rparr>,
        sy_objects := (sy_objects s)(''sys/tls_server'' \<mapsto> sy_count s),
        sy_count := sy_count s + 1\<rparr>, [Set_manager ''binary'' 8443])"
  using assms by (simp add: compile_object_def object_create_def tls_create_def action_simps abind_assoc)

lemmas compile_stateful = compile_tls compile_api compile_params compile_credentials

text \<open>The start makes every object, and waits for connections on one port.\<close>

definition before_tls :: "string list" where "before_tls = take 23 startup_paths"
definition after_credentials :: "string list" where "after_credentials = drop 28 startup_paths"

lemma startup_paths_parts:
  "startup_paths = before_tls @ [''sys/tls_server'', ''sys/rest_api'', ''sys/params'', ''sys/cert'', ''sys/credentials'']
     @ after_credentials"
  by (simp add: before_tls_def after_credentials_def startup_paths_def)

lemma startup_paths_distinct: "distinct startup_paths" "length before_tls = 23"
  "set before_tls \<inter> stateful = {}" "set after_credentials \<inter> stateful = {}"
  by code_simp+

lemma startup_makes_all:
  assumes "params_create (si_zlib S) [] = Inr ps" "sy_objects s = Map.empty" "sy_count s = 0"
    "credentials_create (si_zlib S) (si_base64 S) (si_random S 27) (sy_seed s) = Inr (c, g, public)"
  shows "\<exists>t. startup S s = (Inr (), t, [Set_manager ''binary'' 8443]) \<and> dom (sy_objects t) = set startup_paths
    \<and> sy_params t = Some ps \<and> sy_credentials t = Some c \<and> sy_api t = Some (api_create S)
    \<and> sy_seed t = Some g \<and> sy_public t = Some public"
proof -
  have d: "distinct before_tls" "distinct after_credentials" "set before_tls \<inter> set after_credentials = {}"
    "distinct (before_tls @ [''sys/tls_server'', ''sys/rest_api'', ''sys/params'', ''sys/cert'', ''sys/credentials''])"
    "''sys/cert'' \<notin> set after_credentials"
    using startup_paths_distinct(1) unfolding startup_paths_parts by auto
  define s1 where "s1 = s\<lparr>sy_objects := map_of (zip before_tls [0..<23]), sy_count := 23\<rparr>"
  have 1: "compile_objects S before_tls s = (Inr (), s1, [])"
    using compile_objects_plain [of before_tls s S] d(1) startup_paths_distinct(2,3) assms(2,3)
    by (simp add: s1_def del: upt_Suc upt_rec_numeral)
  have dom1: "dom (sy_objects s1) = set before_tls"
    using startup_paths_distinct(2) by (simp add: s1_def del: upt_Suc upt_rec_numeral)
  have s1: "sy_seed s1 = sy_seed s" "sy_count s1 = 23" by (simp_all add: s1_def)
  have none: "sy_objects s1 p = None" if "p \<notin> set before_tls" for p using that dom1 by auto
  obtain s2 where s2: "compile_objects S [''sys/tls_server'', ''sys/rest_api'', ''sys/params'', ''sys/cert'', ''sys/credentials''] s1
      = (Inr (), s2, [Set_manager ''binary'' 8443])"
    "dom (sy_objects s2) = set before_tls \<union> {''sys/tls_server'', ''sys/rest_api'', ''sys/params'', ''sys/cert'', ''sys/credentials''}"
    "sy_params s2 = Some ps" "sy_credentials s2 = Some c" "sy_api s2 = Some (api_create S)"
    "sy_seed s2 = Some g" "sy_public s2 = Some public"
    using d(4) assms(1,4) none dom1
    by (simp add: athen_abind abind_def compile_stateful compile_plain stateful_def aret_run s1 insert_commute)
  have "p \<notin> dom (sy_objects s2)" if "p \<in> set after_credentials" for p
    using that d startup_paths_distinct(4) unfolding s2(2) by (auto simp: stateful_def)
  then have none2: "\<forall>p\<in>set after_credentials. sy_objects s2 p = None" by auto
  define s3 where "s3 = s2\<lparr>sy_objects := sy_objects s2
      ++ map_of (zip after_credentials [sy_count s2..<sy_count s2 + length after_credentials]),
    sy_count := sy_count s2 + length after_credentials\<rparr>"
  have 3: "compile_objects S after_credentials s2 = (Inr (), s3, [])"
    unfolding s3_def by (rule compile_objects_plain [OF d(2) startup_paths_distinct(4) none2])
  have "startup S s = (Inr (), s3, [Set_manager ''binary'' 8443])"
    unfolding startup_def startup_paths_parts compile_objects_append athen_abind abind_def 1 prod.case sum.case Let_def
      s2(1) 3 by simp
  moreover have "dom (sy_objects s3) = set startup_paths"
    unfolding startup_paths_parts by (simp add: s3_def s2(2) Un_ac)
  ultimately show ?thesis
    using s2(3-7) by (simp add: s3_def)
qed

text \<open>
  A system without the three objects that the upgrade adds; nothing is known of the credentials it had.
\<close>

lemma upgrade_old:
  assumes "params_create (si_zlib S) [] = Inr ps"
    and "sy_objects s ''lib/protocol/AuthCredentialWithPniResponse'' = None"
      "sy_objects s ''lib/protocol/CallLinkAuthCredentialResponse'' = None" "sy_objects s ''sys/provisioning'' = None"
    and "credentials_create (si_zlib S) (si_base64 S) (si_random S (sy_count s + 3)) (sy_seed s) = Inr (c, g, public)"
  shows "upgrade S s = (Inr 1, s\<lparr>sy_params := Some ps, sy_api := Some (api_create S),
      sy_credentials := Some c, sy_seed := Some g, sy_public := Some public,
      sy_objects := (sy_objects s)(''lib/protocol/AuthCredentialWithPniResponse'' \<mapsto> sy_count s,
        ''lib/protocol/CallLinkAuthCredentialResponse'' \<mapsto> sy_count s + 1, ''sys/params'' \<mapsto> sy_count s + 2,
        ''sys/credentials'' \<mapsto> sy_count s + 3, ''sys/provisioning'' \<mapsto> sy_count s + 4, ''sys/rest_api'' \<mapsto> sy_count s + 5),
      sy_count := sy_count s + 6\<rparr>, [])"
  unfolding upgrade_def aif_def
  using assms
  by (simp add: athen_abind abind_def aget_run amod_run aret_run destruct_object_def compile_stateful compile_plain stateful_def
      Let_def numeral_eq_Suc fun_upd_twist)

text \<open>Once the object that was new is there, an upgrade makes only the registry again.\<close>

lemma upgrade_current:
  assumes "sy_objects s ''sys/provisioning'' \<noteq> None"
  shows "upgrade S s = (Inr 1, s\<lparr>sy_api := Some (api_create S),
      sy_objects := (sy_objects s)(''sys/rest_api'' \<mapsto> sy_count s), sy_count := sy_count s + 1\<rparr>, [])"
proof -
  obtain n where "sy_objects s ''sys/provisioning'' = Some n" using assms by auto
  then show ?thesis
    unfolding upgrade_def aif_def
    by (simp add: athen_abind abind_def aget_run amod_run aret_run destruct_object_def compile_api Let_def)
qed

text \<open>The object of the credentials is made from every seed.\<close>

context zkp_library begin

lemma credentials_create_ok: "\<exists>c public. credentials_create Z B r (Some g) = Inr (c, g, public)"
proof -
  have ok: "\<exists>key sho'. KeyPair Z sho sz n = Inr (key, sho') \<and> sho_input sho' = None \<and> sho_hash sho' = ShoHmacSha256 Z"
    if "sho_input sho = None" "sho_hash sho = ShoHmacSha256 Z" "n \<le> sz" "sz \<le> 13" for sho sz n
  proof -
    obtain ps where ps: "credentialParams Z = Inr ps" by (rule credentialParams_ok)
    show ?thesis
      by (rule KeyPair_ok [of sho ps n sz, OF that(1) _ ps that(3,4) refl]) (use that(2) in auto)
  qed
  have scalar: "\<exists>a sho'. getScalar Z sho = Inr (a, sho') \<and> sho_input sho' = None \<and> sho_hash sho' = ShoHmacSha256 Z"
    if "sho_input sho = None" "sho_hash sho = ShoHmacSha256 Z" for sho
    by (rule getScalar_known [OF that(1)]) (use that(2) in auto)
  let ?sho = "ratchet (absorb g (serverSecretSho Z))" and ?gen = "ratchet (absorb g (genericServerSecretSho Z))"
  have start: "sho_input ?sho = None" "sho_hash ?sho = ShoHmacSha256 Z" "sho_input ?gen = None" "sho_hash ?gen = ShoHmacSha256 Z"
    by (simp_all add: serverSecretSho_def genericServerSecretSho_def)
  obtain k1 s1 where 1: "KeyPair Z ?sho 4 3 = Inr (k1, s1)" "sho_input s1 = None" "sho_hash s1 = ShoHmacSha256 Z"
    using ok [OF start(1,2), of 3 4] by auto
  obtain k2 s2 where 2: "KeyPair Z s1 4 4 = Inr (k2, s2)" "sho_input s2 = None" "sho_hash s2 = ShoHmacSha256 Z"
    using ok [OF 1(2,3), of 4 4] by auto
  obtain a s3 where 3: "getScalar Z s2 = Inr (a, s3)" "sho_input s3 = None" "sho_hash s3 = ShoHmacSha256 Z"
    using scalar [OF 2(2,3)] by auto
  obtain k4 s4 where 4: "KeyPair Z s3 4 2 = Inr (k4, s4)" "sho_input s4 = None" "sho_hash s4 = ShoHmacSha256 Z"
    using ok [OF 3(2,3), of 2 4] by auto
  obtain k5 s5 where 5: "KeyPair Z s4 6 0 = Inr (k5, s5)" "sho_input s5 = None" "sho_hash s5 = ShoHmacSha256 Z"
    using ok [OF 4(2,3), of 0 6] by auto
  obtain k6 s6 where 6: "KeyPair Z s5 5 0 = Inr (k6, s6)" "sho_input s6 = None" "sho_hash s6 = ShoHmacSha256 Z"
    using ok [OF 5(2,3), of 0 5] by auto
  obtain k7 s7 where 7: "KeyPair Z s6 5 0 = Inr (k7, s7)"
    using ok [OF 6(2,3), of 0 5] by auto
  obtain k8 s8 where 8: "KeyPair Z ?gen 7 0 = Inr (k8, s8)"
    using ok [OF start(3,4), of 0 7] by auto
  show ?thesis
    by (cases r) (simp add: credentials_create_def Let_def 1(1) 2(1) 3(1) 4(1) 5(1) 6(1) 7 8)
qed

end

text \<open>Only the manager of users gets a connection, and the object behind it answers to that one alone.\<close>

lemma selected_server_connection:
  assumes "tls_select site tls prev server conn blank = (Some (conn', s), events)" "sv_connection blank = None"
    "loop server_defer (server_act (chat_service E alive server random randoms callouts)) server_gone s made rest t ev over"
  shows "prev = tl_userd tls \<and> conn' = conn \<and> sv_connection t = Some conn"
proof -
  have s: "prev = tl_userd tls" "conn' = conn" "sv_connection s = Some conn"
    using assms(1,2) by (auto simp: tls_select_def server_create_def chat_create_def init_server_def action_simps split: if_splits)
  then show ?thesis using chat.loop_runs_own [OF assms(3)] by auto
qed

section \<open>Properties\<close>

text \<open>
  C31. An upgrade of a system without the objects of 0.9.1 makes these, and those of the parameters, the
  credentials and the registry again; every other object keeps its state.  Whatever the credentials
  were, they are made again from the seed file, or from a random string that becomes the seed, and the
  file with the public parameters is written again: clients need the new one, as the notes on upgrading
  say.  From then on they last: a second upgrade makes only the registry again, and a start of the system
  from its files makes the same keys and the same public file; only the two strings with which
  times are signed are drawn again.
\<close>

theorem upgrade_makes_keys_again:
  assumes "params_create (si_zlib S) [] = Inr ps"
    and "sy_objects s ''lib/protocol/AuthCredentialWithPniResponse'' = None"
      "sy_objects s ''lib/protocol/CallLinkAuthCredentialResponse'' = None" "sy_objects s ''sys/provisioning'' = None"
    and "credentials_create (si_zlib S) (si_base64 S) (si_random S (sy_count s + 3)) (sy_seed s) = Inr (c, g, public)"
  shows "\<exists>t u v. upgrade S s = (Inr 1, t, [])
    \<and> sy_objects t = (sy_objects s)(''lib/protocol/AuthCredentialWithPniResponse'' \<mapsto> sy_count s,
        ''lib/protocol/CallLinkAuthCredentialResponse'' \<mapsto> sy_count s + 1, ''sys/params'' \<mapsto> sy_count s + 2,
        ''sys/credentials'' \<mapsto> sy_count s + 3, ''sys/provisioning'' \<mapsto> sy_count s + 4, ''sys/rest_api'' \<mapsto> sy_count s + 5)
    \<and> sy_credentials t = Some c \<and> sy_seed t = Some g \<and> sy_public t = Some public
    \<and> sy_params t = Some ps \<and> sy_api t = Some (api_create S) \<and> sy_tls t = sy_tls s
    \<and> upgrade S t = (Inr 1, u, [])
    \<and> u = t\<lparr>sy_objects := (sy_objects t)(''sys/rest_api'' \<mapsto> sy_count t), sy_count := sy_count t + 1\<rparr>
    \<and> startup S \<lparr>sy_objects = Map.empty, sy_count = 0, sy_params = None, sy_credentials = None, sy_api = None, sy_tls = None,
          sy_seed = sy_seed t, sy_public = sy_public t\<rparr> = (Inr (), v, [Set_manager ''binary'' 8443])
    \<and> dom (sy_objects v) = set startup_paths \<and> sy_params v = Some ps \<and> sy_seed v = sy_seed t \<and> sy_public v = sy_public t
    \<and> sy_credentials v = Some (c\<lparr>cr_userDeriveKey := fst (si_random S 27), cr_key := fst (snd (si_random S 27))\<rparr>)"
proof -
  obtain t where t: "upgrade S s = (Inr 1, t, [])" and t_def: "t = fst (snd (upgrade S s))"
    using upgrade_old [OF assms] by simp
  note t_parts = t_def [unfolded upgrade_old [OF assms] fst_conv snd_conv]
  have "sy_objects t ''sys/provisioning'' \<noteq> None" by (simp add: t_parts)
  note again = upgrade_current [OF this, of S]
  let ?u = "t\<lparr>sy_objects := (sy_objects t)(''sys/rest_api'' \<mapsto> sy_count t), sy_count := sy_count t + 1\<rparr>"
  have u: "upgrade S t = (Inr 1, ?u, [])" unfolding again by (simp add: t_parts)
  let ?s = "\<lparr>sy_objects = Map.empty, sy_count = 0, sy_params = None, sy_credentials = None, sy_api = None, sy_tls = None,
          sy_seed = sy_seed t, sy_public = sy_public t\<rparr>"
  have "credentials_create (si_zlib S) (si_base64 S) (si_random S 27) (Some g)
      = Inr (c\<lparr>cr_userDeriveKey := fst (si_random S 27), cr_key := fst (snd (si_random S 27))\<rparr>, g, public)"
    by (rule seed_lasts [OF assms(5)])
  then have "credentials_create (si_zlib S) (si_base64 S) (si_random S 27) (sy_seed ?s)
      = Inr (c\<lparr>cr_userDeriveKey := fst (si_random S 27), cr_key := fst (snd (si_random S 27))\<rparr>, g, public)"
    by (simp add: t_parts)
  from startup_makes_all [of S ps ?s, OF assms(1) _ _ this] obtain v where
    v: "startup S ?s = (Inr (), v, [Set_manager ''binary'' 8443])" "dom (sy_objects v) = set startup_paths" "sy_params v = Some ps"
      "sy_credentials v = Some (c\<lparr>cr_userDeriveKey := fst (si_random S 27), cr_key := fst (snd (si_random S 27))\<rparr>)"
      "sy_seed v = Some g" "sy_public v = Some public"
    by auto
  show ?thesis
    by (intro exI [of _ t] exI [of _ ?u] exI [of _ v] conjI t u v(1-4)) (simp_all add: t_parts v(5,6))
qed

text \<open>A system whose credentials and public file are of another making.\<close>

definition plain_base64 :: base64_lib where
  "plain_base64 = \<lparr>b64_encode = (\<lambda>s. s), b64_decode = Inr, b64_urlEncode = (\<lambda>s. s)\<rparr>"

definition sample_site :: "nat site" where
  "sample_site = \<lparr>si_zlib = std_zlib, si_base64 = plain_base64, si_random = (\<lambda>n. ([0], [1], [2])), si_host = str,
     si_find = (\<lambda>_. Some 7), si_read = (\<lambda>_. Some [])\<rparr>"

definition old_system :: "bytes option \<Rightarrow> nat system" where
  "old_system seed = \<lparr>sy_objects = [''sys/accounts'' \<mapsto> 5, ''sys/params'' \<mapsto> 6, ''sys/credentials'' \<mapsto> 7, ''sys/rest_api'' \<mapsto> 8],
     sy_count = 41, sy_params = None, sy_credentials = None, sy_api = None, sy_tls = None,
     sy_seed = seed, sy_public = Some [1, 2, 3]\<rparr>"

theorem upgrade_makes_keys_again_witness:
  "\<exists>c public t v. upgrade sample_site (old_system None) = (Inr 1, t, [])
    \<and> sy_objects t ''sys/accounts'' = Some 5 \<and> sy_credentials t = Some c \<and> sy_seed t = Some [2] \<and> sy_public t = Some public
    \<and> startup sample_site \<lparr>sy_objects = Map.empty, sy_count = 0, sy_params = None, sy_credentials = None, sy_api = None, sy_tls = None,
          sy_seed = sy_seed t, sy_public = sy_public t\<rparr> = (Inr (), v, [Set_manager ''binary'' 8443])
    \<and> sy_credentials v = Some (c\<lparr>cr_userDeriveKey := [0], cr_key := [1]\<rparr>) \<and> sy_public v = Some public"
proof -
  obtain ps start where ps: "params_create std_zlib [] = Inr (ps, start)" by (rule std_zkp.params_create_ok)
  obtain c public where c: "credentials_create std_zlib plain_base64 ([0], [1], [2]) None = Inr (c, [2], public)"
    unfolding first_seed using std_zkp.credentials_create_ok by blast
  let ?s = "old_system None" and ?S = sample_site
  have s: "si_zlib ?S = std_zlib" "si_base64 ?S = plain_base64" "\<And>n. si_random ?S n = ([0], [1], [2])"
    "sy_seed ?s = None" "sy_objects ?s ''sys/accounts'' = Some 5"
    "sy_objects ?s ''lib/protocol/AuthCredentialWithPniResponse'' = None"
    "sy_objects ?s ''lib/protocol/CallLinkAuthCredentialResponse'' = None" "sy_objects ?s ''sys/provisioning'' = None"
    by (simp_all add: old_system_def sample_site_def)
  note run = upgrade_makes_keys_again [of ?S "(ps, start)" ?s, unfolded s(1-4), OF ps s(6-8) c]
  then obtain t v where t: "upgrade ?S ?s = (Inr 1, t, [])" "sy_credentials t = Some c" "sy_seed t = Some [2]" "sy_public t = Some public"
    "sy_objects t ''sys/accounts'' = Some 5"
    "startup ?S \<lparr>sy_objects = Map.empty, sy_count = 0, sy_params = None, sy_credentials = None, sy_api = None, sy_tls = None,
        sy_seed = sy_seed t, sy_public = sy_public t\<rparr> = (Inr (), v, [Set_manager ''binary'' 8443])"
    "sy_credentials v = Some (c\<lparr>cr_userDeriveKey := [0], cr_key := [1]\<rparr>)" "sy_public v = sy_public t"
    using s(5) by (elim exE conjE) simp
  then show ?thesis by (intro exI [of _ c] exI [of _ public] exI [of _ t] exI [of _ v]) simp
qed

end
