(* ===== verification/Discovery.thy ===== *)
theory Discovery
  imports CredentialServer ChatSocket ProtoRead Servers
begin

text \<open>
  Contact discovery (\<^verbatim>\<open>src/services/lib/cdsi/Discovery.c\<close>): a WebSocket connection on which a client
  asks which of a list of phone numbers have an account.

  A StringBuffer that is read again answers with the non-empty strings that were appended to it:
  \<open>buffer\<close>.  The account of a phone number is an argument, \<open>by_number\<close>: what \<open>getByNumber\<close> of the
  account server returns when the function runs.  Rows of results are the text of a number, of an
  identity and of an account ID; sizes of arrays are natural numbers, as the platform bounds them
  far below the range of its integers.
\<close>

datatype cdsi_state = STATE_INIT | STATE_HANDSHAKE | STATE_RECEIVE | STATE_RECEIVE_ACK | STATE_DONE

definition BATCH_SIZE :: nat where "BATCH_SIZE = 5"

definition CLOSE_ILLEGAL_ARG :: bytes where "CLOSE_ILLEGAL_ARG = [0x0f, 0xa3]"
definition CLOSE_FAILURE :: bytes where "CLOSE_FAILURE = [0x0f, 0xae]"

record 'o discovery = "'o rest_server" +
  cd_state :: cdsi_state
  cd_numbers :: "bytes list option"

type_synonym ('o, 'z, 'a) cdsi_action = "(('o, 'z) discovery_scheme, 'o server_event, 'a) action"

section \<open>Opening the connection\<close>

definition getDiscovery ::
    "env \<Rightarrow> zlib \<Rightarrow> credentials_server \<Rightarrow> bytes option \<Rightarrow> bytes \<Rightarrow> (bytes \<times> bytes) option \<Rightarrow> bytes option \<Rightarrow> bytes option
      \<Rightarrow> bytes option \<Rightarrow> bytes option \<Rightarrow> ('o, 'z, lpcint) cdsi_action" where
  "getDiscovery E Z srv ctxt enclave auth upgrade connection key version =
     (let unauthorized = respond (en_http E) ctxt (en_http E HTTP_UNAUTHORIZED) None None None in
      case auth of
        None \<Rightarrow> unauthorized
      | Some (scheme, text) \<Rightarrow>
          if lower_case scheme \<noteq> str ''basic'' then unauthorized
          else abind (alift (b64_decode (en_base64 E) text)) (\<lambda>cred.
            case scan_upto colon cred of
              None \<Rightarrow> unauthorized
            | Some (user, credential) \<Rightarrow>
                if credentials_verify Z (en_hex E) srv user credential True False = 0 then unauthorized
                else if upgrade_ok upgrade connection key version then
                  athen (aemit (Call_out ''attest'' None [])) (upgradeToWebSocket E ''cdsi'' (the key) None None)
                else respond (en_http E) ctxt (en_http E HTTP_BAD_REQUEST) None None None))"

definition attest :: "('o, 'z, unit) cdsi_action" where
  "attest = athen (sendChunk (str ''CDSI'')) (amod (\<lambda>s. s\<lparr>cd_state := STATE_HANDSHAKE\<rparr>))"

section \<open>Requests\<close>

definition buffer :: "bytes list \<Rightarrow> pstate" where
  "buffer ps = \<lparr>ps_chunks = filter (\<lambda>p. p \<noteq> []) ps, ps_buf = None, ps_off = 0\<rparr>"

fun phone_numbers_loop :: "nat \<Rightarrow> pstate \<Rightarrow> (bytes list \<times> pstate) result" where
  "phone_numbers_loop 0 st = Inr ([], st)"
| "phone_numbers_loop (Suc n) st =
     rbind (parseBytes st 8) (\<lambda>(s, st). rbind (phone_numbers_loop n st) (\<lambda>(ns, st). Inr (s # ns, st)))"

definition parsePhoneNumbers :: "bytes list \<Rightarrow> bytes list result" where
  "parsePhoneNumbers chunk =
     (let len = length (concat chunk) in
      if len mod 8 \<noteq> 0 then Inl (Error ''Bad phone number list'')
      else rmap fst (phone_numbers_loop (len div 8) (buffer chunk)))"

text \<open>\<open>if (c == tag) { value = parse; c = next byte }\<close>\<close>

definition opt_field ::
    "lpcint \<Rightarrow> (pstate \<Rightarrow> ('a \<times> pstate) result) \<Rightarrow> lpcint \<Rightarrow> pstate \<Rightarrow> (('a option \<times> lpcint) \<times> pstate) result" where
  "opt_field tag P c st =
     (if c = tag then rbind (P st) (\<lambda>(v, st). rbind (parseByte st) (\<lambda>(c, st). Inr ((Some v, c), st)))
      else Inr ((None, c), st))"

text \<open>
  The tags are octal in the source, except for that of \<open>aciWithoutUak\<close>, which is 100 in decimal; its
  value and those of \<open>aciUaks\<close>, \<open>discardE164s\<close> and the token are not used.
\<close>

definition parseClientRequest :: "bytes list \<Rightarrow> bytes list option result" where
  "parseClientRequest chunk =
     rbind (parseByte \<lparr>ps_chunks = chunk, ps_buf = None, ps_off = 0\<rparr>) (\<lambda>(c, st).
     rbind (opt_field 0x0a parseStrbuf c st) (\<lambda>((aciUaks, c), st).
     rbind (opt_field 0x12 parseStrbuf c st) (\<lambda>((prevE164s, c), st).
     rbind (opt_field 0x1a parseStrbuf c st) (\<lambda>((newE164s, c), st).
     rbind (opt_field 0x22 parseStrbuf c st) (\<lambda>((discardE164s, c), st).
     rbind (opt_field 0x32 parseString c st) (\<lambda>((token, c), st).
       if c = 0x38 then rmap (\<lambda>_. None) (parseInt st)
       else
         rbind (if c = 100 then rmap (\<lambda>_. ()) (parseInt st) else Inr ()) (\<lambda>_.
         rbind (parsePhoneNumbers (case prevE164s of None \<Rightarrow> [] | Some ps \<Rightarrow> ps)) (\<lambda>prev.
         rbind (parsePhoneNumbers (case newE164s of None \<Rightarrow> [] | Some ps \<Rightarrow> ps)) (\<lambda>new.
           Inr (Some (prev @ new)))))))))))"

section \<open>Responses\<close>

definition sendTokenResponse :: "('o, 'z, unit) cdsi_action" where
  "sendTokenResponse = sendChunk ([0x1a] @ protoString (str ''OK''))"

text \<open>\<open>implode(results[i .. j], "")\<close>\<close>

definition implode_rows :: "bytes option list \<Rightarrow> bytes result" where
  "implode_rows rows = rmap concat (rmapM need rows)"

text \<open>The strings that are appended to \<open>triples\<close>: 1638 rows of 40 bytes are the most that fit in one.\<close>

function triple_pieces :: "nat \<Rightarrow> bytes option list \<Rightarrow> bytes list result" where
  "triple_pieces i results =
     (if i + 1638 < length results
      then rbind (implode_rows (take 1638 (drop i results))) (\<lambda>p.
             rmap (\<lambda>ps. p # ps) (triple_pieces (i + 1638) results))
      else rmap (\<lambda>p. [p]) (implode_rows (drop i results)))"
  by auto
termination by (relation "measure (\<lambda>(i, results). length results - i)") auto

declare triple_pieces.simps [simp del]

definition sendClientResponse :: "bytes option list \<Rightarrow> ('o, 'z, unit) cdsi_action" where
  "sendClientResponse results =
     abind (alift (triple_pieces 0 results)) (\<lambda>triples.
       sendChunk ([0x0a] @ protoStrbuf (concat triples) @ [0x20] @ protoInt 0))"

definition NO_ACCOUNT :: bytes where "NO_ACCOUNT = replicate 32 0"

definition cdsi_row :: "(bytes \<Rightarrow> account option result) \<Rightarrow> bytes \<Rightarrow> bytes result" where
  "cdsi_row by_number number =
     rbind (numToPhone number) (\<lambda>phone.
     rbind (by_number phone) (\<lambda>account.
       case account of
         None \<Rightarrow> Inr (number @ NO_ACCOUNT)
       | Some ac \<Rightarrow>
           rbind (need (ac_pni ac)) (\<lambda>pni. rbind (need (ac_id ac)) (\<lambda>i. Inr (number @ pni @ i)))))"

text \<open>The loop over \<open>n\<close> numbers from \<open>i\<close>.\<close>

fun batch_loop ::
    "(bytes \<Rightarrow> account option result) \<Rightarrow> bytes list \<Rightarrow> nat \<Rightarrow> nat \<Rightarrow> bytes option list \<Rightarrow> bytes option list result" where
  "batch_loop by_number numbers 0 i results = Inr results"
| "batch_loop by_number numbers (Suc n) i results =
     rbind (lpc_index numbers i) (\<lambda>number.
     rbind (cdsi_row by_number number) (\<lambda>row.
       batch_loop by_number numbers n (i + 1) (results[i := Some row])))"

definition batch_end :: "bytes list \<Rightarrow> nat \<Rightarrow> nat" where
  "batch_end numbers offset =
     (if offset + BATCH_SIZE < length numbers then offset + BATCH_SIZE else length numbers)"

definition cdsiBatch ::
    "env \<Rightarrow> (bytes \<Rightarrow> account option result) \<Rightarrow> bytes list \<Rightarrow> bytes option list \<Rightarrow> nat \<Rightarrow> ('o, 'z, unit) cdsi_action" where
  "cdsiBatch E by_number numbers results offset =
     (let size = batch_end numbers offset in
      abind (alift (batch_loop by_number numbers (size - offset) offset results)) (\<lambda>results.
        if size < length numbers then
          aemit (Call_out ''cdsiBatch'' None
            [V (JArr (map JStr numbers)), V (JArr (map jopt results)), V (JInt (of_nat size))])
        else
          athen (sendClientResponse results) (sendClose (en_status_1000 E @ str ''OK''))))"

section \<open>The protocol\<close>

definition set_state :: "cdsi_state \<Rightarrow> ('o, 'z, unit) cdsi_action" where
  "set_state st = amod (\<lambda>s. s\<lparr>cd_state := st\<rparr>)"

definition cdsiReceiveChunk :: "bytes list \<Rightarrow> ('o, 'z, unit) cdsi_action" where
  "cdsiReceiveChunk chunk =
     abind (aget cd_state) (\<lambda>state.
       case state of
         STATE_INIT \<Rightarrow> athen (sendClose CLOSE_ILLEGAL_ARG) (set_state STATE_DONE)
       | STATE_HANDSHAKE \<Rightarrow>
           if chunk \<noteq> [] \<and> hd chunk = str ''Client''
           then athen (sendChunk (str ''Ready'')) (set_state STATE_RECEIVE)
           else athen (sendClose CLOSE_ILLEGAL_ARG) (set_state STATE_DONE)
       | STATE_RECEIVE \<Rightarrow>
           acatch
            (abind (alift (parseClientRequest chunk)) (\<lambda>numbers.
             athen (amod (\<lambda>s. s\<lparr>cd_numbers := numbers\<rparr>))
              (if numbers \<noteq> None then athen sendTokenResponse (set_state STATE_RECEIVE_ACK)
               else athen (sendClose CLOSE_ILLEGAL_ARG) (set_state STATE_DONE))))
            (athen (sendClose CLOSE_FAILURE) (set_state STATE_DONE))
       | STATE_RECEIVE_ACK \<Rightarrow>
           athen
            (acatch
              (abind (alift (parseClientRequest chunk)) (\<lambda>request.
               abind (aget cd_numbers) (\<lambda>numbers.
               aif (request = None)
                 (abind (alift (need numbers)) (\<lambda>numbers.
                    aemit (Call_out ''cdsiBatch'' None
                      [V (JArr (map JStr numbers)), V (JArr (map (\<lambda>_. JNil) numbers)), V (JInt 0)]))))))
              (sendClose CLOSE_FAILURE))
            (set_state STATE_DONE)
       | STATE_DONE \<Rightarrow> sendClose CLOSE_ILLEGAL_ARG)"

end
