(* ===== verification/DiscoverySpec.thy ===== *)
theory DiscoverySpec
  imports Discovery RestSpec
begin

text \<open>
  What contact discovery answers.  The lookup is spread over calls of \<open>cdsiBatch\<close> that each take
  five numbers; \<open>run_lookup\<close> runs them one after the other, each with the accounts of its own time,
  and is shown to be one pass over all numbers.  A client's request is read in any chunks, a
  connection makes at most one lookup, and the dialogue of a client that follows the protocol ends
  with the rows of all its numbers.
\<close>

section \<open>Batches\<close>

fun lookup_args :: "'o server_event \<Rightarrow> (bytes list \<times> bytes option list \<times> nat) option" where
  "lookup_args (Call_out f ctxt [V (JArr ns), V (JArr rs), V (JInt i)]) =
     (if f = ''cdsiBatch''
      then Some (map (\<lambda>j. case j of JStr s \<Rightarrow> s | _ \<Rightarrow> []) ns, map (\<lambda>j. case j of JStr s \<Rightarrow> Some s | _ \<Rightarrow> None) rs, unat i)
      else None)"
| "lookup_args ev = None"

text \<open>\<open>get i\<close> is the registry of accounts when the batch from \<open>i\<close> runs.\<close>

fun run_lookup ::
    "nat \<Rightarrow> env \<Rightarrow> (nat \<Rightarrow> bytes \<Rightarrow> account option result) \<Rightarrow> bytes list \<Rightarrow> bytes option list \<Rightarrow> nat \<Rightarrow> ('o, 'z, unit) cdsi_action" where
  "run_lookup 0 E get numbers results i s = (Inl Not_enough_fuel, s, [])"
| "run_lookup (Suc n) E get numbers results i s =
     (let (r, s, ev) = cdsiBatch E (get i) numbers results i s in
      case List.map_filter lookup_args ev of
        (numbers, results, i) # _ \<Rightarrow> run_lookup n E get numbers results i s
      | [] \<Rightarrow> (r, s, ev))"

text \<open>The rows from the number \<open>i\<close> on; the batch of the number \<open>k\<close> starts at \<open>k - k mod 5\<close>.\<close>

definition rows_from :: "(nat \<Rightarrow> bytes \<Rightarrow> account option result) \<Rightarrow> bytes list \<Rightarrow> nat \<Rightarrow> bytes list result" where
  "rows_from get numbers i = rmapM (\<lambda>k. cdsi_row (get (k - k mod 5)) (numbers ! k)) [i..<length numbers]"

lemma rmapM_append: "rmapM f (xs @ ys) = rbind (rmapM f xs) (\<lambda>as. rmap (\<lambda>bs. as @ bs) (rmapM f ys))"
  by (induction xs) (auto simp: rmap_def rbind_def split: sum.split)

lemma rmapM_cong: "(\<And>x. x \<in> set xs \<Longrightarrow> f x = g x) \<Longrightarrow> rmapM f xs = rmapM g xs"
  by (induction xs) auto

lemma batch_loop_rows:
  assumes "i + n \<le> length numbers" "length results = length numbers"
  shows "batch_loop by_number numbers n i results
    = rmap (\<lambda>rows. take i results @ map Some rows @ drop (i + n) results)
        (rmapM (\<lambda>k. cdsi_row by_number (numbers ! k)) [i..<i + n])"
  using assms
proof (induction n arbitrary: i results)
  case (Suc n)
  have i: "lpc_index numbers i = Inr (numbers ! i)" using Suc.prems by (simp add: lpc_index_def)
  have upt: "[i..<i + Suc n] = i # [i + 1..<i + 1 + n]" by (simp add: upt_conv_Cons del: upt_Suc)
  show ?case
  proof (cases "cdsi_row by_number (numbers ! i)")
    case (Inr row)
    have "take (i + 1) (results[i := Some row]) = take i results @ [Some row]"
      using Suc.prems by (simp add: take_Suc_conv_app_nth)
    then show ?thesis
      using Suc.IH [of "i + 1" "results[i := Some row]"] Suc.prems Inr i
      unfolding upt by (cases "rmapM (\<lambda>k. cdsi_row by_number (numbers ! k)) [i + 1..<i + 1 + n]")
        (simp_all add: rmap_def)
  next
    case (Inl e)
    then show ?thesis using i unfolding upt by simp
  qed
qed (simp add: rmap_def)

lemma implode_rows_Some: "implode_rows (map Some rows) = Inr (concat rows)"
proof -
  have "rmapM need (map Some rows) = Inr rows" by (induction rows) simp_all
  then show ?thesis by (simp add: implode_rows_def rmap_def)
qed

text \<open>Every string that is made has at most 65520 bytes, which the platform's limit of 65535 allows.\<close>

lemma triple_pieces_rows:
  "\<exists>ps. triple_pieces i (map Some rows) = Inr ps \<and> concat ps = concat (drop i rows)
    \<and> ((\<forall>r\<in>set rows. length r \<le> 40) \<longrightarrow> (\<forall>p\<in>set ps. length p \<le> 65520))"
proof (induction i "map Some rows" rule: triple_pieces.induct)
  case (1 i)
  have len: "length (concat (take 1638 (drop i rows))) \<le> 65520" if "\<forall>r\<in>set rows. length r \<le> 40"
  proof -
    have "sum_list (map length (take 1638 (drop i rows))) \<le> sum_list (map (\<lambda>_. 40) (take 1638 (drop i rows)))"
      using that by (intro sum_list_mono) (auto dest: in_set_takeD in_set_dropD)
    also have "\<dots> \<le> 65520" by (simp add: sum_list_triv)
    finally show ?thesis by (simp add: length_concat)
  qed
  show ?case
  proof (cases "i + 1638 < length rows")
    case True
    have t: "take 1638 (drop i (map Some rows)) = map Some (take 1638 (drop i rows))" by (simp add: take_map drop_map)
    obtain ps where ps: "triple_pieces (i + 1638) (map Some rows) = Inr ps" "concat ps = concat (drop (i + 1638) rows)"
        "(\<forall>r\<in>set rows. length r \<le> 40) \<longrightarrow> (\<forall>p\<in>set ps. length p \<le> 65520)"
      using 1 True t implode_rows_Some by auto
    have "triple_pieces i (map Some rows) = Inr (concat (take 1638 (drop i rows)) # ps)"
      using True ps(1) t by (subst triple_pieces.simps) (simp add: implode_rows_Some rmap_def)
    moreover have "concat (take 1638 (drop i rows)) @ concat (drop (i + 1638) rows) = concat (drop i rows)"
      by (metis add.commute append_take_drop_id concat_append drop_drop)
    ultimately show ?thesis using ps len by simp
  next
    case False
    then have "triple_pieces i (map Some rows) = Inr [concat (drop i rows)]"
      by (subst triple_pieces.simps) (simp add: implode_rows_Some rmap_def drop_map)
    moreover have "take 1638 (drop i rows) = drop i rows" using False by simp
    ultimately show ?thesis using len by auto
  qed
qed

text \<open>What is sent when all rows are there.\<close>

definition discovery_response :: "bytes list \<Rightarrow> bytes" where
  "discovery_response rows = [0x0a] @ protoStrbuf (concat rows) @ [0x20] @ protoInt 0"

definition open_connection :: "('o, 'z) rest_server_scheme \<Rightarrow> bool" where
  "open_connection s \<longleftrightarrow> sv_connection s \<noteq> None \<and> sv_websocket s \<noteq> None \<and> \<not> closing (sv_out s)"

definition sent_chunk :: "bytes \<Rightarrow> ws_out \<Rightarrow> ws_out" where
  "sent_chunk chunk out = out\<lparr>ws_sent := ws_sent out @ [\<lparr>wf_opcode = WEBSOCK_BINARY, wf_mask = 0, wf_payload = chunk\<rparr>]\<rparr>"

lemma sendChunk_ready: "open_connection s \<Longrightarrow> sendChunk chunk s = (Inr (), s\<lparr>sv_out := sent_chunk chunk (sv_out s)\<rparr>, [])"
  by (auto simp: open_connection_def sendChunk_def wsSendChunk_def sent_chunk_def action_simps)

lemma abind_sendChunk:
  "open_connection s \<Longrightarrow> abind (sendChunk chunk) f s = f () (s\<lparr>sv_out := sent_chunk chunk (sv_out s)\<rparr>)"
  by (simp add: abind_def sendChunk_ready split: prod.split)

lemma sendClose_ready: "open_connection s \<Longrightarrow> sendClose code s = (Inr (), s\<lparr>sv_out := wsSendClose code 0 (sv_out s)\<rparr>, [])"
  by (auto simp: open_connection_def sendClose_def send_close_frame_def action_simps)

lemma open_connection_sent: "open_connection s \<Longrightarrow> open_connection (s\<lparr>sv_out := sent_chunk chunk (sv_out s)\<rparr>)"
  by (simp add: open_connection_def sent_chunk_def)

definition answered :: "env \<Rightarrow> bytes list \<Rightarrow> ('o, 'z) rest_server_scheme \<Rightarrow> ('o, 'z) rest_server_scheme" where
  "answered E rows s =
     s\<lparr>sv_out := wsSendClose (en_status_1000 E @ str ''OK'') 0 (sent_chunk (discovery_response rows) (sv_out s))\<rparr>"

lemma sendClientResponse_rows:
  assumes "open_connection s"
  shows "sendClientResponse (map Some rows) s = (Inr (), s\<lparr>sv_out := sent_chunk (discovery_response rows) (sv_out s)\<rparr>, [])"
proof -
  obtain ps where "triple_pieces 0 (map Some rows) = Inr ps" "concat ps = concat rows"
    using triple_pieces_rows [of 0 rows] by auto
  then show ?thesis
    using sendChunk_ready [OF assms] by (simp add: sendClientResponse_def discovery_response_def action_simps)
qed

lemma rows_from_split:
  assumes "i mod 5 = 0" "j = batch_end numbers i" "i \<le> length numbers"
  shows "rows_from get numbers i = rbind (rmapM (\<lambda>k. cdsi_row (get i) (numbers ! k)) [i..<j]) (\<lambda>rows.
      rmap (\<lambda>rest. rows @ rest) (rows_from get numbers j))"
proof -
  have j: "i \<le> j" "j \<le> length numbers" "j \<le> i + 5"
    using assms by (auto simp: batch_end_def BATCH_SIZE_def)
  have "k - k mod 5 = i" if "k \<in> set [i..<j]" for k
  proof -
    define r where "r = k - i"
    have "k = i + r" "r < 5" using that j(3) by (auto simp: r_def)
    moreover have "(i + r) mod 5 = r" using assms(1) \<open>r < 5\<close> by (metis add.commute add_0 mod_add_right_eq mod_less)
    ultimately show ?thesis by simp
  qed
  then have "rmapM (\<lambda>k. cdsi_row (get (k - k mod 5)) (numbers ! k)) [i..<j] = rmapM (\<lambda>k. cdsi_row (get i) (numbers ! k)) [i..<j]"
    by (intro rmapM_cong) simp
  moreover have "[i..<length numbers] = [i..<j] @ [j..<length numbers]"
    using j by (metis le_add_diff_inverse upt_add_eq_append)
  ultimately show ?thesis by (simp only: rows_from_def rmapM_append)
qed

lemma run_lookup_rows:
  assumes "i mod 5 = 0" "i \<le> length numbers" "length done_rows = i" "length numbers < 2 ^ 32"
    and "length numbers - i < n" "open_connection s"
  shows "run_lookup n E get numbers (map Some done_rows @ replicate (length numbers - i) None) i s
    = (case rows_from get numbers i of
         Inl e \<Rightarrow> (Inl e, s, [])
       | Inr rows \<Rightarrow> (Inr (), answered E (done_rows @ rows) s, []))"
  using assms
proof (induction n arbitrary: i done_rows)
  case (Suc n)
  let ?j = "batch_end numbers i" and ?results = "map Some done_rows @ replicate (length numbers - i) None"
  have j: "i \<le> ?j" "?j \<le> length numbers" "?j < length numbers \<Longrightarrow> ?j = i + 5"
    using Suc.prems by (auto simp: batch_end_def BATCH_SIZE_def)
  note loop = batch_loop_rows [of i "?j - i" numbers ?results "get i"]
  show ?case
  proof (cases "rmapM (\<lambda>k. cdsi_row (get i) (numbers ! k)) [i..<?j]")
    case (Inl e)
    then show ?thesis
      using loop j Suc.prems by (simp add: cdsiBatch_def Let_def rows_from_split [OF Suc.prems(1) refl Suc.prems(2)] action_simps map_filter_def)
  next
    case (Inr rows)
    have l: "batch_loop (get i) numbers (?j - i) i ?results
        = Inr (map Some (done_rows @ rows) @ replicate (length numbers - ?j) None)"
      using loop j Suc.prems Inr by simp
    have len: "length (done_rows @ rows) = ?j" using rmapM_length [OF Inr] Suc.prems j by simp
    show ?thesis
    proof (cases "?j < length numbers")
      case True
      have "unat (of_nat ?j :: lpcint) = ?j"
        using j(2) Suc.prems(4) by (simp add: unsigned_of_nat take_bit_nat_eq_self)
      then have "run_lookup (Suc n) E get numbers ?results i s
          = run_lookup n E get numbers (map Some (done_rows @ rows) @ replicate (length numbers - ?j) None) ?j s"
        using True by (simp add: cdsiBatch_def Let_def l action_simps map_filter_def jopt_def comp_def map_replicate_const)
      moreover have "?j mod 5 = 0" using j(3) [OF True] Suc.prems(1) by simp
      ultimately show ?thesis
        using Suc.IH [of ?j "done_rows @ rows"] len j(2) Suc.prems j(3) [OF True] Inr
        by (simp add: rows_from_split [OF Suc.prems(1) refl Suc.prems(2)] split: sum.split)
    next
      case False
      then have e: "?j = length numbers" using j(2) by simp
      have "rows_from get numbers ?j = Inr []" by (simp add: rows_from_def e)
      then show ?thesis
        using sendClientResponse_rows [OF Suc.prems(6), of "done_rows @ rows"]
        by (simp add: sendClose_ready [OF open_connection_sent [OF Suc.prems(6)]] cdsiBatch_def Let_def e l [unfolded e, simplified] action_simps map_filter_def Inr [unfolded e] rows_from_split [OF Suc.prems(1) refl Suc.prems(2)]
            abind_Inr answered_def)
    qed
  qed
qed simp

section \<open>Requests\<close>

text \<open>What a client sends: the numbers of earlier requests and new ones, 8 bytes each, and the acknowledgement.\<close>

definition client_request :: "bytes list \<Rightarrow> bytes list \<Rightarrow> bytes" where
  "client_request prev new = [0x12] @ protoStrbuf (concat prev) @ [0x1a] @ protoStrbuf (concat new)"

definition token_ack :: bytes where
  "token_ack = [0x38] @ protoInt 1"

lemma length_concat_8: "\<forall>n\<in>set ns. length n = 8 \<Longrightarrow> length (concat ns) = 8 * length ns"
  by (induction ns) auto

lemma phone_numbers_loop_reads:
  "\<forall>n\<in>set ns. length n = 8 \<Longrightarrow> ps_ok st \<Longrightarrow> pending st = concat ns \<Longrightarrow>
    \<exists>st'. phone_numbers_loop (length ns) st = Inr (ns, st')"
proof (induction ns arbitrary: st)
  case (Cons n ns)
  have "reads False (\<lambda>st. parseBytes st 8) (n @ concat ns) ((=) n) (concat ns)"
    by (rule reads_parses [OF parseBytes_parses_pos]) (use Cons.prems(1) in \<open>simp_all add: flat_bytes_def\<close>)
  then obtain st1 where "parseBytes st 8 = Inr (n, st1)" "ps_ok st1" "pending st1 = concat ns"
    using Cons.prems by (auto elim: readsE)
  then show ?case using Cons.IH [of st1] Cons.prems(1) by auto
qed simp

lemma parsePhoneNumbers_concat:
  assumes "\<forall>n\<in>set ns. length n = 8" "concat ps = concat ns"
  shows "parsePhoneNumbers ps = Inr ns"
proof -
  have "concat (filter (\<lambda>p. p \<noteq> []) ps) = concat ps" by (induction ps) simp_all
  then have "ps_ok (buffer ps)" "pending (buffer ps) = concat ns"
    using assms(2) by (auto simp: buffer_def ps_ok_def pending_def)
  then obtain st where "phone_numbers_loop (length ns) (buffer ps) = Inr (ns, st)"
    using phone_numbers_loop_reads [OF assms(1)] by blast
  then show ?thesis
    using assms length_concat_8 [OF assms(1)] by (simp add: parsePhoneNumbers_def Let_def)
qed

lemma opt_field_skip: "c \<noteq> tag \<Longrightarrow> opt_field tag P c st = Inr ((None, c), st)"
  by (simp add: opt_field_def)

text \<open>A field that is there, with the byte after it.\<close>

lemma opt_field_strbuf:
  assumes "short s" "ps_ok st" "pending st = protoStrbuf s @ r"
  obtains ps st' where "opt_field tag parseStrbuf tag st
      = Inr ((Some ps, case r of [] \<Rightarrow> -1 | b # _ \<Rightarrow> ucast b), st')"
    "concat ps = s" "ps_ok st'" "pending st' = tl r"
proof -
  obtain ps st1 where st1: "parseStrbuf st = Inr (ps, st1)" "concat ps = s" "ps_ok st1" "pending st1 = r"
    using reads_strbuf [OF assms(1), of False r] assms(2,3) by (auto elim: readsE)
  show thesis
  proof (cases r)
    case Nil
    then obtain st2 where "parseByte st1 = Inr (-1, st2)" "ps_ok st2" "pending st2 = []"
      using parseByte_Nil st1 by blast
    then show thesis using that st1(1,2) Nil by (simp add: opt_field_def)
  next
    case (Cons b r')
    then obtain st2 where "parseByte st1 = Inr (ucast b, st2)" "ps_ok st2" "pending st2 = r'"
      using parseByte_Cons st1 by metis
    then show thesis using that st1(1,2) Cons by (simp add: opt_field_def)
  qed
qed

lemma opt_field_last:
  assumes "short s" "ps_ok st" "pending st = protoStrbuf s"
  shows "\<exists>ps st'. opt_field tag parseStrbuf tag st = Inr ((Some ps, -1), st') \<and> concat ps = s"
proof -
  have "pending st = protoStrbuf s @ []" using assms(3) by simp
  then obtain ps st' where "opt_field tag parseStrbuf tag st = Inr ((Some ps, case [] of [] \<Rightarrow> -1 | b # _ \<Rightarrow> ucast (b :: byte)), st')"
      "concat ps = s"
    by (rule opt_field_strbuf [OF assms(1,2)])
  then show ?thesis by simp
qed

lemma parseClientRequest_numbers:
  assumes "\<forall>n\<in>set prev \<union> set new. length n = 8" "short (concat prev)" "short (concat new)"
    and "concat cs = client_request prev new" "[] \<notin> set cs"
  shows "parseClientRequest cs = Inr (Some (prev @ new))"
proof -
  have fresh: "\<lparr>ps_chunks = cs, ps_buf = None, ps_off = 0\<rparr> = fresh cs" by (simp add: fresh_def)
  have "ps_ok (fresh cs)" "pending (fresh cs) = 0x12 # protoStrbuf (concat prev) @ 0x1a # protoStrbuf (concat new)"
    using assms(4,5) by (simp_all add: client_request_def)
  then obtain st1 where st1: "parseByte (fresh cs) = Inr (0x12, st1)" "ps_ok st1"
      "pending st1 = protoStrbuf (concat prev) @ 0x1a # protoStrbuf (concat new)"
    by (rule parseByte_Cons) auto
  obtain ps st2 where st2: "opt_field 0x12 parseStrbuf 0x12 st1 = Inr ((Some ps, 0x1a), st2)"
      "concat ps = concat prev" "ps_ok st2" "pending st2 = protoStrbuf (concat new)"
    using opt_field_strbuf [OF assms(2) st1(2,3)] by auto
  obtain ns st3 where st3: "opt_field 0x1a parseStrbuf 0x1a st2 = Inr ((Some ns, -1), st3)" "concat ns = concat new"
    using opt_field_last [OF assms(3) st2(3,4), of "0x1a"] by blast
  have "parsePhoneNumbers ps = Inr prev" "parsePhoneNumbers ns = Inr new"
    using parsePhoneNumbers_concat st2(2) st3(2) assms(1) by auto
  then show ?thesis
    unfolding parseClientRequest_def fresh by (simp add: st1(1) st2(1) st3(1) opt_field_skip)
qed

lemma parseClientRequest_ack:
  assumes "concat cs = token_ack" "[] \<notin> set cs"
  shows "parseClientRequest cs = Inr None"
proof -
  have fresh: "\<lparr>ps_chunks = cs, ps_buf = None, ps_off = 0\<rparr> = fresh cs" by (simp add: fresh_def)
  have "ps_ok (fresh cs)" "pending (fresh cs) = 0x38 # protoInt 1" using assms by (simp_all add: token_ack_def)
  then obtain st1 where st1: "parseByte (fresh cs) = Inr (0x38, st1)" "ps_ok st1" "pending st1 = protoInt 1"
    by (rule parseByte_Cons) auto
  then obtain st2 where "parseInt st1 = Inr (1, st2)"
    using intc.reads_enc [of 1 "[]"] by (auto elim: readsE)
  then show ?thesis
    unfolding parseClientRequest_def fresh by (simp add: st1(1) opt_field_skip)
qed

section \<open>Properties\<close>

text \<open>The state of a connection on which the dialogue is at some point.\<close>

definition dialogue_at :: "cdsi_state \<Rightarrow> ('o, 'z) discovery_scheme \<Rightarrow> bool" where
  "dialogue_at st s \<longleftrightarrow> cd_state s = st \<and> open_connection s"

definition lookup_event :: "bytes list \<Rightarrow> 'o server_event" where
  "lookup_event numbers = Call_out ''cdsiBatch'' None
     [V (JArr (map JStr numbers)), V (JArr (map (\<lambda>_. JNil) numbers)), V (JInt 0)]"

text \<open>
  C7. Discovery answers with the rows of all numbers.  On a connection on which the client said
  \<open>Client\<close>, its request is read in whatever chunks it comes, the acknowledgement starts the lookup,
  and the batches of five, each of which sees the accounts as they are when it runs, send the rows
  of all numbers in order and close the connection.  If a number has no phone number or an account
  cannot be read, nothing is sent at all.
\<close>

theorem discovery_answers:
  assumes "dialogue_at STATE_RECEIVE s"
    and "\<forall>n\<in>set prev \<union> set new. length n = 8" "short (concat prev)" "short (concat new)"
    and "concat cs = client_request prev new" "[] \<notin> set cs" "concat as = token_ack" "[] \<notin> set as"
    and "length (prev @ new) < n" "length (prev @ new) < 2 ^ 32"
  shows "\<exists>s1 s2. cdsiReceiveChunk cs s = (Inr (), s1, [])
    \<and> sv_out s1 = sent_chunk ([0x1a] @ protoString (str ''OK'')) (sv_out s)
    \<and> cdsiReceiveChunk as s1 = (Inr (), s2, [lookup_event (prev @ new)]) \<and> sv_out s2 = sv_out s1
    \<and> run_lookup n E get (prev @ new) (replicate (length (prev @ new)) None) 0 s2
      = (case rows_from get (prev @ new) 0 of
           Inl e \<Rightarrow> (Inl e, s2, [])
         | Inr rows \<Rightarrow> (Inr (), answered E rows s2, []))"
proof -
  define s1 where "s1 = s\<lparr>cd_numbers := Some (prev @ new), sv_out := sent_chunk ([0x1a] @ protoString (str ''OK'')) (sv_out s),
      cd_state := STATE_RECEIVE_ACK\<rparr>"
  define s2 where "s2 = s1\<lparr>cd_state := STATE_DONE\<rparr>"
  have s: "cd_state s = STATE_RECEIVE" "open_connection (s\<lparr>cd_numbers := Some (prev @ new)\<rparr>)"
    using assms(1) by (simp_all add: dialogue_at_def open_connection_def)
  have "abind (alift (parseClientRequest cs)) (\<lambda>numbers.
        athen (amod (\<lambda>s. s\<lparr>cd_numbers := numbers\<rparr>))
         (if numbers \<noteq> None then athen sendTokenResponse (set_state STATE_RECEIVE_ACK)
          else athen (sendClose CLOSE_ILLEGAL_ARG) (set_state STATE_DONE))) s = (Inr (), s1, [])"
    by (simp add: parseClientRequest_numbers [OF assms(2-6)] action_simps sendTokenResponse_def abind_sendChunk [OF s(2)]
        set_state_def s1_def)
  then have 1: "cdsiReceiveChunk cs s = (Inr (), s1, [])"
    by (simp add: cdsiReceiveChunk_def action_simps s(1) acatch_Inr)
  have "cd_state s1 = STATE_RECEIVE_ACK" "cd_numbers s1 = Some (prev @ new)" by (simp_all add: s1_def)
  then have 2: "cdsiReceiveChunk as s1 = (Inr (), s2, [lookup_event (prev @ new)])"
    by (simp add: cdsiReceiveChunk_def action_simps parseClientRequest_ack [OF assms(7,8)] abind_def acatch_def aif_def
        set_state_def s2_def lookup_event_def)
  have "open_connection s2"
    using assms(1) by (simp add: dialogue_at_def open_connection_def s2_def s1_def sent_chunk_def)
  then have "run_lookup n E get (prev @ new) (replicate (length (prev @ new)) None) 0 s2
      = (case rows_from get (prev @ new) 0 of
           Inl e \<Rightarrow> (Inl e, s2, [])
         | Inr rows \<Rightarrow> (Inr (), answered E rows s2, []))"
    using run_lookup_rows [of 0 "prev @ new" "[]" n s2 E get] assms(9,10) by (simp split: sum.split)
  moreover have "sv_out s1 = sent_chunk ([0x1a] @ protoString (str ''OK'')) (sv_out s)" "sv_out s2 = sv_out s1"
    by (simp_all add: s1_def s2_def)
  ultimately show ?thesis using 1 2 by blast
qed

text \<open>
  A connection makes at most one lookup: once the state is \<open>STATE_DONE\<close> it stays, and only the step
  into it can start one.
\<close>

fun receive_chunks :: "bytes list list \<Rightarrow> ('o, 'z) discovery_scheme \<Rightarrow> 'o server_event list \<times> ('o, 'z) discovery_scheme" where
  "receive_chunks [] s = ([], s)"
| "receive_chunks (c # cs) s =
     (let (r, s, ev) = cdsiReceiveChunk c s; (evs, s) = receive_chunks cs s in (ev @ evs, s))"

lemma sendChunk_keeps:
  fixes s :: "('o, 'z) discovery_scheme"
  assumes "sendChunk chunk s = (r, s', ev)"
  shows "ev = [] \<and> cd_state s' = cd_state s \<and> cd_numbers s' = cd_numbers s"
  using assms by (auto simp: sendChunk_def action_simps split: if_splits sum.splits)

lemma sendClose_keeps:
  fixes s :: "('o, 'z) discovery_scheme"
  assumes "sendClose code s = (r, s', ev)"
  shows "ev = [] \<and> cd_state s' = cd_state s \<and> cd_numbers s' = cd_numbers s"
  using assms by (auto simp: sendClose_def send_close_frame_def action_simps split: if_splits sum.splits)

text \<open>A step from one state to another sends nothing to other objects, except for the lookup.\<close>

definition quiet :: "cdsi_state set \<Rightarrow> ('o, 'z, unit) cdsi_action \<Rightarrow> bool" where
  "quiet S m \<longleftrightarrow> (\<forall>s r s' ev. m s = (r, s', ev) \<longrightarrow>
     ev = [] \<and> cd_state s' \<in> insert (cd_state s) S \<and> cd_numbers s' = cd_numbers s)"

lemma quiet_send: "quiet S (sendChunk c)" "quiet S (sendClose c)"
  unfolding quiet_def by (auto dest!: sendChunk_keeps sendClose_keeps)

lemma quiet_set_state: "st \<in> S \<Longrightarrow> quiet S (set_state st)"
  by (simp add: quiet_def set_state_def action_simps)

lemma quiet_then: "quiet S m \<Longrightarrow> quiet S n \<Longrightarrow> quiet S (athen m n)"
  unfolding quiet_def athen_def by (fastforce elim!: abind_eqD)

lemma quiet_if: "quiet S m \<Longrightarrow> quiet S n \<Longrightarrow> quiet S (if b then m else n)"
  by simp

lemmas quiet_rules = quiet_send quiet_set_state quiet_then

lemma quietD: "quiet S m \<Longrightarrow> m s = (r, s', ev) \<Longrightarrow> ev = [] \<and> cd_state s' \<in> insert (cd_state s) S \<and> cd_numbers s' = cd_numbers s"
  by (auto simp: quiet_def)

lemma step_other:
  assumes "cdsiReceiveChunk c s = (r, s', ev)" "cd_state s \<notin> {STATE_RECEIVE, STATE_RECEIVE_ACK}"
  shows "ev = [] \<and> cd_state s' \<noteq> STATE_RECEIVE_ACK"
proof -
  have q: "quiet {STATE_DONE, STATE_RECEIVE} (athen (sendClose CLOSE_ILLEGAL_ARG) (set_state STATE_DONE))"
    "quiet {STATE_DONE, STATE_RECEIVE} (athen (sendChunk (str ''Ready'')) (set_state STATE_RECEIVE))"
    by (intro quiet_rules; simp)+
  show ?thesis
  proof (cases "cd_state s")
    case STATE_INIT
    then have "athen (sendClose CLOSE_ILLEGAL_ARG) (set_state STATE_DONE) s = (r, s', ev)"
      using assms(1) by (simp add: cdsiReceiveChunk_def action_simps)
    from quietD [OF q(1) this] STATE_INIT show ?thesis by auto
  next
    case STATE_HANDSHAKE
    then have "(if c \<noteq> [] \<and> hd c = str ''Client'' then athen (sendChunk (str ''Ready'')) (set_state STATE_RECEIVE)
        else athen (sendClose CLOSE_ILLEGAL_ARG) (set_state STATE_DONE)) s = (r, s', ev)"
      using assms(1) by (simp add: cdsiReceiveChunk_def action_simps)
    from quietD [OF quiet_if [OF q(2,1)] this] STATE_HANDSHAKE show ?thesis by auto
  next
    case STATE_DONE
    then have "sendClose CLOSE_ILLEGAL_ARG s = (r, s', ev)"
      using assms(1) by (simp add: cdsiReceiveChunk_def action_simps)
    from sendClose_keeps [OF this] STATE_DONE show ?thesis by simp
  qed (use assms(2) in simp_all)
qed

lemma step_receive:
  assumes "cdsiReceiveChunk c s = (r, s', ev)" "cd_state s = STATE_RECEIVE"
  shows "ev = [] \<and> (cd_state s' = STATE_RECEIVE_ACK \<longrightarrow> (\<exists>ns. parseClientRequest c = Inr (Some ns) \<and> cd_numbers s' = Some ns))"
proof -
  have q: "quiet {STATE_DONE} (athen (sendClose CLOSE_ILLEGAL_ARG) (set_state STATE_DONE))"
    "quiet {STATE_DONE} (athen (sendClose CLOSE_FAILURE) (set_state STATE_DONE))"
    "quiet {STATE_RECEIVE_ACK} (athen sendTokenResponse (set_state STATE_RECEIVE_ACK))"
    unfolding sendTokenResponse_def by (intro quiet_rules; simp)+
  let ?body = "\<lambda>numbers. athen (amod (\<lambda>s. s\<lparr>cd_numbers := numbers\<rparr>))
      (if numbers \<noteq> None then athen sendTokenResponse (set_state STATE_RECEIVE_ACK)
       else athen (sendClose CLOSE_ILLEGAL_ARG) (set_state STATE_DONE))"
  let ?fail = "athen (sendClose CLOSE_FAILURE) (set_state STATE_DONE)"
  have run: "acatch (abind (alift (parseClientRequest c)) ?body) ?fail s = (r, s', ev)"
    using assms by (simp add: cdsiReceiveChunk_def action_simps)
  show ?thesis
  proof (cases "parseClientRequest c")
    case (Inl e)
    then have "?fail s = (r, s', ev)" using run by (auto simp: acatch_def action_simps split: prod.splits)
    from quietD [OF q(2) this] assms(2) show ?thesis by auto
  next
    case (Inr numbers)
    let ?s = "s\<lparr>cd_numbers := numbers\<rparr>"
    obtain r1 s1 ev1 where b: "(if numbers \<noteq> None then athen sendTokenResponse (set_state STATE_RECEIVE_ACK)
       else athen (sendClose CLOSE_ILLEGAL_ARG) (set_state STATE_DONE)) ?s = (r1, s1, ev1)"
      by (metis prod_cases3)
    have s1: "ev1 = [] \<and> cd_numbers s1 = numbers \<and> (cd_state s1 = STATE_RECEIVE_ACK \<longrightarrow> numbers \<noteq> None)"
    proof (cases numbers)
      case None
      then have "athen (sendClose CLOSE_ILLEGAL_ARG) (set_state STATE_DONE) ?s = (r1, s1, ev1)" using b by simp
      from quietD [OF q(1) this] assms(2) None show ?thesis by auto
    next
      case (Some ns)
      then have "athen sendTokenResponse (set_state STATE_RECEIVE_ACK) ?s = (r1, s1, ev1)" using b by simp
      from quietD [OF q(3) this] Some show ?thesis by auto
    qed
    have "abind (alift (parseClientRequest c)) ?body s = (r1, s1, ev1)"
      using b Inr by (simp add: action_simps)
    then consider "(r, s', ev) = (r1, s1, ev1)" | r2 s2 ev2 where "?fail s1 = (r2, s2, ev2)" "(r, s', ev) = (r2, s2, ev1 @ ev2)"
      using run by (cases r1) (auto simp: acatch_def split: prod.splits)
    then show ?thesis
    proof cases
      case 1
      then show ?thesis using s1 Inr by auto
    next
      case 2
      then show ?thesis using quietD [OF q(2) 2(1)] s1 Inr by auto
    qed
  qed
qed

lemma step_ack:
  assumes "cdsiReceiveChunk c s = (r, s', ev)" "cd_state s = STATE_RECEIVE_ACK" "cd_numbers s = Some ns"
  shows "(ev = [] \<or> ev = [lookup_event ns] \<and> parseClientRequest c = Inr None)
    \<and> (cd_state s' = STATE_DONE \<or> ev = [] \<and> cd_state s' = STATE_RECEIVE_ACK \<and> cd_numbers s' = Some ns)"
proof (cases "parseClientRequest c")
  case (Inl e)
  then have "athen (sendClose CLOSE_FAILURE) (set_state STATE_DONE) s = (r, s', ev)"
    using assms(1,2) by (auto simp: cdsiReceiveChunk_def acatch_def abind_def athen_def action_simps split: prod.splits)
  moreover have "quiet {STATE_DONE} (athen (sendClose CLOSE_FAILURE) (set_state STATE_DONE))"
    by (intro quiet_rules; simp)
  ultimately show ?thesis using assms(2,3) by (auto dest: quietD)
next
  case (Inr request)
  then show ?thesis
    using assms by (cases request) (auto simp: cdsiReceiveChunk_def acatch_def abind_def athen_def aif_def action_simps
        set_state_def lookup_event_def)
qed

lemma receive_chunks_done:
  "cd_state s = STATE_DONE \<Longrightarrow> receive_chunks cs s = (evs, s') \<Longrightarrow> evs = []"
proof (induction cs arbitrary: s evs)
  case (Cons c cs)
  obtain r s1 ev where st: "cdsiReceiveChunk c s = (r, s1, ev)" by (metis prod_cases3)
  then have "sendClose CLOSE_ILLEGAL_ARG s = (r, s1, ev)"
    using Cons.prems(1) by (simp add: cdsiReceiveChunk_def action_simps)
  from sendClose_keeps [OF this] Cons.prems st Cons.IH show ?case by (auto split: prod.splits)
qed simp

text \<open>
  C36. A connection makes at most one lookup, for any chunks in any order: of the numbers of a request
  that was received before, and only after a later chunk that is the acknowledgement.
\<close>

theorem one_lookup:
  assumes "receive_chunks cs s = (evs, s')" "cd_state s \<noteq> STATE_RECEIVE_ACK"
  shows "evs = [] \<or> (\<exists>pre c mid d post ns. cs = pre @ c # mid @ d # post
    \<and> parseClientRequest c = Inr (Some ns) \<and> parseClientRequest d = Inr None \<and> evs = [lookup_event ns])"
proof -
  have acked: "evs = [] \<or> (\<exists>mid d post. cs = mid @ d # post \<and> parseClientRequest d = Inr None \<and> evs = [lookup_event ns])"
    if "receive_chunks cs s = (evs, s')" "cd_state s = STATE_RECEIVE_ACK" "cd_numbers s = Some ns"
    for cs s evs ns using that
  proof (induction cs arbitrary: s evs)
    case (Cons c cs)
    obtain r s1 ev where st: "cdsiReceiveChunk c s = (r, s1, ev)" by (metis prod_cases3)
    obtain evs1 where rest: "receive_chunks cs s1 = (evs1, s')" "evs = ev @ evs1"
      using Cons.prems(1) st by (auto split: prod.splits)
    note a = step_ack [OF st Cons.prems(2,3)]
    show ?case
    proof (cases "cd_state s1 = STATE_DONE")
      case True
      then have "evs1 = []" using receive_chunks_done rest(1) by blast
      then show ?thesis using a rest(2) by (metis append_Nil append_Nil2)
    next
      case False
      then have "ev = []" "cd_state s1 = STATE_RECEIVE_ACK" "cd_numbers s1 = Some ns" using a by auto
      then show ?thesis using Cons.IH [OF rest(1)] rest(2) by (metis append_Cons append_Nil)
    qed
  qed simp
  show ?thesis using assms
  proof (induction cs arbitrary: s evs)
    case (Cons c cs)
    obtain r s1 ev where st: "cdsiReceiveChunk c s = (r, s1, ev)" by (metis prod_cases3)
    obtain evs1 where rest: "receive_chunks cs s1 = (evs1, s')" "evs = ev @ evs1"
      using Cons.prems(1) st by (auto split: prod.splits)
    show ?case
    proof (cases "cd_state s1 = STATE_RECEIVE_ACK")
      case True
      then have s: "cd_state s = STATE_RECEIVE" using step_other [OF st] Cons.prems(2) by auto
      then obtain ns where ns: "parseClientRequest c = Inr (Some ns)" "cd_numbers s1 = Some ns" "ev = []"
        using step_receive [OF st s] True by auto
      from acked [OF rest(1) True ns(2)] show ?thesis
        using ns(1,3) rest(2) by (metis append_Nil)
    next
      case False
      have "ev = []" using step_other [OF st] step_receive [OF st] Cons.prems(2) by blast
      then show ?thesis using Cons.IH [OF rest(1) False] rest(2) by (metis append_Cons append_Nil)
    qed
  qed simp
qed

definition sample_discovery :: "nat discovery" where
  "sample_discovery =
     \<lparr>sv_connection = Some 1, sv_request = None, sv_handle = None, sv_login = None, sv_password = None,
      sv_websocket = Some ''cdsi'', sv_opcode = None, sv_out = \<lparr>closing = False, ws_sent = []\<rparr>,
      cd_state = STATE_RECEIVE, cd_numbers = None\<rparr>"

lemma sample_chunks:
  "concat [client_request [] [replicate 8 1]] = client_request [] [replicate 8 1]" "[] \<notin> set [client_request [] [replicate 8 1]]"
  "concat [token_ack] = token_ack" "[] \<notin> set [token_ack]"
  by (simp_all add: client_request_def token_ack_def)

theorem discovery_answers_witness:
  "\<exists>s1 s2. cdsiReceiveChunk [client_request [] [replicate 8 1]] sample_discovery = (Inr (), s1, [])
    \<and> cdsiReceiveChunk [token_ack] s1 = (Inr (), s2, [lookup_event [replicate 8 1]])
    \<and> run_lookup 2 (sample_env (Api None []) (\<lambda>_. None)) (\<lambda>_ _. Inr None) [replicate 8 1] [None] 0 s2
      = (case rows_from (\<lambda>_ _. Inr None) [replicate 8 1] 0 of
           Inl e \<Rightarrow> (Inl e, s2, [])
         | Inr rows \<Rightarrow> (Inr (), answered (sample_env (Api None []) (\<lambda>_. None)) rows s2, []))"
proof -
  have s: "dialogue_at STATE_RECEIVE sample_discovery"
    by (simp add: dialogue_at_def open_connection_def sample_discovery_def)
  show ?thesis
    using discovery_answers [OF s _ _ _ sample_chunks, of 2 "sample_env (Api None []) (\<lambda>_. None)" "\<lambda>_ _. Inr None"]
    by (auto simp: short_def)
qed

theorem one_lookup_witness:
  "\<exists>evs s'. receive_chunks [[client_request [] [replicate 8 1]], [token_ack]] sample_discovery = (evs, s')
    \<and> (evs = [] \<or> (\<exists>pre c mid d post ns. [[client_request [] [replicate 8 1]], [token_ack]] = pre @ c # mid @ d # post
        \<and> parseClientRequest c = Inr (Some ns) \<and> parseClientRequest d = Inr None \<and> evs = [lookup_event ns]))"
proof -
  obtain evs s' where r: "receive_chunks [[client_request [] [replicate 8 1]], [token_ack]] sample_discovery = (evs, s')"
    by fastforce
  show ?thesis using one_lookup [OF r] r by (simp add: sample_discovery_def)
qed

end
