(* ===== verification/FcmSpec.thy ===== *)
theory FcmSpec
  imports Fcm
begin

text \<open>
  The queue of push notifications as a state machine.  What the sender waits for is a list of jobs:
  deferred calls of its own functions, an attempt to connect, a request without a response, a
  request for a token, the notice that the connection is gone.  A step runs a job, with any result
  the services may return, appends a message, or loses the connection.  In every reachable state the
  messages have exactly one driver (\<open>fcm_inv\<close>), so that a queue that is not empty is never stuck; if
  the services accept everything it is worked off in order.  A message without a target is the
  exception: it makes the sender stop for good.
\<close>

section \<open>Steps\<close>

datatype fcm_job = Job_call string | Job_connecting | Job_request | Job_token | Job_gone

fun jobs_of :: "('o, 'k) client_event \<Rightarrow> fcm_job list" where
  "jobs_of (C_call_out f n) = [Job_call f]"
| "jobs_of C_connect = [Job_connecting]"
| "jobs_of (C_request r) = [Job_request]"
| "jobs_of (C_token t) = [Job_token]"
| "jobs_of e = []"

text \<open>A job: \<open>code\<close> and \<open>entity\<close> are what a service answers, \<open>conn\<close> the object of a new connection.\<close>

fun run_job ::
    "env \<Rightarrow> (bytes \<Rightarrow> bytes \<Rightarrow> bytes) \<Rightarrow> 'o \<Rightarrow> lpcint \<Rightarrow> bytes option \<Rightarrow> fcm_job \<Rightarrow> ('o, 'k, unit) fcm_action" where
  "run_job E sign conn code entity (Job_call f) =
     (if f = ''sendMessage'' then sendMessage conn
      else if f = ''startConnection'' then startConnection conn
      else getAccessToken E sign)"
| "run_job E sign conn code entity Job_connecting = started E code"
| "run_job E sign conn code entity Job_request = fcm_response E code"
| "run_job E sign conn code entity Job_token = storeAccessToken E conn code entity"
| "run_job E sign conn code entity Job_gone = fcm_close"

text \<open>The services answer a request for a token with a token, or with a code after which it is tried again.\<close>

definition token_answer :: "env \<Rightarrow> lpcint \<Rightarrow> bytes option \<Rightarrow> bool" where
  "token_answer E code entity \<longleftrightarrow>
     (if code = en_http E HTTP_OK then
        \<exists>b j t. entity = Some b \<and> en_json_decode E b = Inr j \<and> jfield_str ''access_token'' j = Inr (Some t)
      else code \<noteq> en_http E HTTP_BAD_REQUEST \<and> code \<noteq> en_http E HTTP_UNAUTHORIZED)"

definition complete :: "'k fcm_message \<Rightarrow> bool" where
  "complete m \<longleftrightarrow> fm_target m \<noteq> None \<and> fm_message m \<noteq> None"

inductive fcm_step ::
    "env \<Rightarrow> (bytes \<Rightarrow> bytes \<Rightarrow> bytes) \<Rightarrow> ('o, 'k) fcm_sender \<times> fcm_job list \<Rightarrow> ('o, 'k) client_event list
      \<Rightarrow> ('o, 'k) fcm_sender \<times> fcm_job list \<Rightarrow> bool"
  for E sign where
  job: "js = xs @ j # ys \<Longrightarrow> run_job E sign conn code entity j s = (r, s', ev) \<Longrightarrow>
      (j = Job_token \<Longrightarrow> token_answer E code entity) \<Longrightarrow>
      fcm_step E sign (s, js) ev (s', xs @ ys @ concat (map jobs_of ev))"
| append: "complete m \<Longrightarrow> enqueue E sign conn m s = (r, s', ev) \<Longrightarrow>
      fcm_step E sign (s, js) ev (s', js @ concat (map jobs_of ev))"
| lost: "fc_active s \<Longrightarrow> cl_connection s \<noteq> None \<Longrightarrow>
      fcm_step E sign (s, js) [] (s\<lparr>cl_connection := None\<rparr>, filter (\<lambda>j. j \<noteq> Job_request) js @ [Job_gone])"

section \<open>One driver\<close>

definition configured :: "('o, 'k) fcm_sender \<Rightarrow> bool" where
  "configured s \<longleftrightarrow> fc_projectId s \<noteq> None \<and> fc_keyId s \<noteq> None \<and> fc_clientEmail s \<noteq> None \<and> fc_tokenUri s \<noteq> None
     \<and> cl_websocket s = None"

text \<open>Jobs that carry on with the queue.\<close>

definition drivers :: "fcm_job list \<Rightarrow> fcm_job list" where
  "drivers js = filter (\<lambda>j. j \<noteq> Job_gone) js"

definition driver_ok :: "('o, 'k) fcm_sender \<Rightarrow> fcm_job \<Rightarrow> bool" where
  "driver_ok s j \<longleftrightarrow>
     (case j of
        Job_call f \<Rightarrow> \<not> fc_requested s \<and> (f = ''sendMessage'' \<and> fc_accessToken s \<noteq> None
            \<or> f = ''startConnection'' \<and> \<not> fc_active s \<and> fc_accessToken s \<noteq> None \<or> f = ''getAccessToken'')
      | Job_connecting \<Rightarrow> \<not> fc_requested s \<and> \<not> fc_active s \<and> cl_connection s \<noteq> None \<and> fc_accessToken s \<noteq> None
      | Job_request \<Rightarrow> fc_requested s \<and> fc_active s \<and> cl_connection s \<noteq> None \<and> fc_accessToken s \<noteq> None
      | Job_token \<Rightarrow> \<not> fc_requested s
      | Job_gone \<Rightarrow> False)"

text \<open>
  \<open>lost_connection\<close>: the connection is gone and the sender was not told yet.  A message whose request
  was lost with it, or that could not be sent because of it, is taken up again when it is.
\<close>

definition lost_connection :: "('o, 'k) fcm_sender \<Rightarrow> bool" where
  "lost_connection s \<longleftrightarrow> fc_active s \<and> cl_connection s = None"

definition goes_on :: "('o, 'k) fcm_sender \<Rightarrow> fcm_job list \<Rightarrow> bool" where
  "goes_on s ds \<longleftrightarrow>
     (if fc_queue s = [] then ds = [] \<and> \<not> fc_requested s
      else (\<exists>j. ds = [j] \<and> driver_ok s j) \<or> ds = [] \<and> lost_connection s \<and> fc_requested s \<and> fc_accessToken s \<noteq> None)"

definition sender_ok :: "('o, 'k) fcm_sender \<Rightarrow> bool" where
  "sender_ok s \<longleftrightarrow> configured s \<and> (\<forall>m\<in>set (fc_queue s). complete m)"

definition fcm_inv :: "('o, 'k) fcm_sender \<times> fcm_job list \<Rightarrow> bool" where
  "fcm_inv = (\<lambda>(s, js). sender_ok s \<and> goes_on s (drivers js)
     \<and> length (filter (\<lambda>j. j = Job_gone) js) = (if lost_connection s then 1 else 0))"

lemma fcm_text_complete: "complete m \<Longrightarrow> \<exists>t. fcm_text m = Inr t"
  by (auto simp: complete_def fcm_text_def)

text \<open>What the functions do in the states in which they run.\<close>

lemma client_create_run:
  "client_create conn f s = (Inr (), s\<lparr>cl_outgoing := Map.empty, cl_connection := Some conn, cl_handle := Some (H_function f)\<rparr>, [C_connect])"
  by (simp add: client_create_def action_simps)

lemma sendMessage_idle:
  "\<not> fc_active s \<Longrightarrow> sendMessage conn s
    = (Inr (), s\<lparr>cl_outgoing := Map.empty, cl_connection := Some conn, cl_handle := Some (H_function ''started'')\<rparr>, [C_connect])"
  by (simp add: sendMessage_def startConnection_def client_create_run action_simps)

lemma sendMessage_active:
  assumes "configured s" "fc_active s" "fc_accessToken s \<noteq> None" "fc_queue s = m # q" "complete m"
  shows "\<exists>r ev. sendMessage conn s = (if cl_connection s = None then (Inl Bad_argument, s\<lparr>fc_requested := True\<rparr>, [])
      else (Inr (), s\<lparr>fc_requested := True, cl_handle := Some (H_call (Some ''response'') [ARG_ENTITY])\<rparr>, [C_request r, C_entity ev]))"
  using assms fcm_text_complete [OF assms(5)]
  by (auto simp: sendMessage_def configured_def request_def httpRequest_def client_call_def action_simps abind_assoc)

lemma getAccessToken_run: "configured s \<Longrightarrow> \<exists>t. getAccessToken E sign s = (Inr (), s, [C_token t])"
  by (auto simp: getAccessToken_def configured_def action_simps)

lemma finish_message_run:
  "fc_queue s = m # q \<Longrightarrow> finish_message code s = (Inr (), s\<lparr>fc_queue := q\<rparr>,
     (case fm_callback m of None \<Rightarrow> [] | Some k \<Rightarrow> [C_run k code None]) @ (if q \<noteq> [] then [C_call_out ''sendMessage'' 0] else []))"
  by (cases "fm_callback m") (auto simp: finish_message_def action_simps aif_def abind_assoc)

text \<open>One step of the driver.\<close>

definition stays :: "('o, 'k) fcm_sender \<Rightarrow> ('o, 'k) fcm_sender \<Rightarrow> fcm_job list \<Rightarrow> bool" where
  "stays s s' ds \<longleftrightarrow> sender_ok s' \<and> (lost_connection s' \<longleftrightarrow> lost_connection s) \<and> Job_gone \<notin> set ds \<and> goes_on s' ds"

lemma sendMessage_stays:
  assumes "sender_ok s" "fc_queue s \<noteq> []" "\<not> fc_requested s" "fc_accessToken s \<noteq> None"
    and "sendMessage conn s = (r, s', ev)"
  shows "stays s s' (concat (map jobs_of ev))"
proof -
  obtain m q where q: "fc_queue s = m # q" using assms(2) by (cases "fc_queue s") auto
  have ok: "configured s" "complete m" using assms(1) q by (auto simp: sender_ok_def)
  show ?thesis
  proof (cases "fc_active s")
    case True
    obtain rq t where "sendMessage conn s = (if cl_connection s = None then (Inl Bad_argument, s\<lparr>fc_requested := True\<rparr>, [])
      else (Inr (), s\<lparr>fc_requested := True, cl_handle := Some (H_call (Some ''response'') [ARG_ENTITY])\<rparr>, [C_request rq, C_entity t]))"
      using sendMessage_active [OF ok(1) True assms(4) q ok(2)] by blast
    then show ?thesis
      using assms q True
      by (auto simp: stays_def sender_ok_def configured_def lost_connection_def goes_on_def driver_ok_def split: if_splits)
  next
    case False
    then show ?thesis
      using assms q
      by (auto simp: sendMessage_idle stays_def sender_ok_def configured_def lost_connection_def goes_on_def driver_ok_def)
  qed
qed

lemma getAccessToken_stays:
  assumes "sender_ok s" "fc_queue s \<noteq> []" "\<not> fc_requested s" "getAccessToken E sign s = (r, s', ev)"
  shows "stays s s' (concat (map jobs_of ev))"
proof -
  obtain t where "getAccessToken E sign s = (Inr (), s, [C_token t])"
    using getAccessToken_run [of s E sign] assms(1) by (auto simp: sender_ok_def)
  then show ?thesis using assms by (simp add: stays_def goes_on_def driver_ok_def)
qed

lemma fcm_response_stays:
  assumes "sender_ok s" "fc_queue s \<noteq> []" "driver_ok s Job_request" "fcm_response E code s = (r, s', ev)"
  shows "stays s s' (concat (map jobs_of ev))"
proof -
  obtain m q where q: "fc_queue s = m # q" using assms(2) by (cases "fc_queue s") auto
  obtain c where c: "cl_connection s = Some c" "cl_websocket s = None"
    using assms(1,3) by (auto simp: driver_ok_def sender_ok_def configured_def)
  have d: "doneResponse t = (Inr (), t, [C_done])" if "cl_connection t = Some c" "cl_websocket t = None" for t :: "('a, 'b) fcm_sender"
    using that by (simp add: doneResponse_def action_simps aif_def)
  note simps = fcm_response_def action_simps abind_assoc q c finish_message_run d Let_def
      stays_def sender_ok_def configured_def lost_connection_def goes_on_def driver_ok_def complete_def
  show ?thesis
    using assms by (auto simp: simps abind_def split: if_splits option.splits)
qed

lemma storeAccessToken_stays:
  assumes "sender_ok s" "fc_queue s \<noteq> []" "\<not> fc_requested s" "token_answer E code entity"
    and "storeAccessToken E conn code entity s = (r, s', ev)"
  shows "stays s s' (concat (map jobs_of ev))"
proof (cases "code = en_http E HTTP_OK")
  case True
  obtain t where t: "rbind (rbind (need entity) (en_json_decode E)) (jfield_str ''access_token'') = Inr (Some t)"
    using assms(4) True by (auto simp: token_answer_def)
  let ?s = "s\<lparr>fc_accessToken := Some t\<rparr>"
  have "sendMessage conn ?s = (r, s', ev)"
    using assms(5) True t by (simp add: storeAccessToken_def action_simps)
  from sendMessage_stays [OF _ _ _ _ this] assms(1-3) show ?thesis
    by (simp add: stays_def sender_ok_def configured_def lost_connection_def)
next
  case False
  then show ?thesis
    using assms by (auto simp: storeAccessToken_def token_answer_def action_simps stays_def goes_on_def driver_ok_def)
qed

lemma driver_stays:
  assumes "sender_ok s" "fc_queue s \<noteq> []" "driver_ok s j" "j = Job_token \<Longrightarrow> token_answer E code entity"
    and "run_job E sign conn code entity j s = (r, s', ev)"
  shows "stays s s' (concat (map jobs_of ev))"
proof (cases j)
  case (Job_call f)
  then show ?thesis
    using assms sendMessage_stays [of s conn r s' ev] getAccessToken_stays [of s E sign r s' ev]
    by (auto simp: driver_ok_def startConnection_def client_create_run stays_def sender_ok_def configured_def
        lost_connection_def goes_on_def split: if_splits)
next
  case Job_connecting
  then show ?thesis
    using assms by (auto simp: driver_ok_def started_def action_simps stays_def sender_ok_def configured_def
        lost_connection_def goes_on_def split: if_splits)
next
  case Job_request
  then show ?thesis using assms fcm_response_stays by simp
next
  case Job_token
  then show ?thesis using assms storeAccessToken_stays [of s E code entity conn r s' ev] by (simp add: driver_ok_def)
next
  case Job_gone
  then show ?thesis using assms(3) by (simp add: driver_ok_def)
qed

text \<open>A message that is appended starts the driver only if there is none.\<close>

lemma enqueue_stays:
  assumes "sender_ok s" "goes_on s ds" "complete m" "enqueue E sign conn m s = (r, s', ev)"
  shows "sender_ok s' \<and> (lost_connection s' \<longleftrightarrow> lost_connection s) \<and> Job_gone \<notin> set (concat (map jobs_of ev))
    \<and> goes_on s' (ds @ concat (map jobs_of ev))"
proof (cases "fc_queue s = []")
  case True
  let ?s = "s\<lparr>fc_queue := [m]\<rparr>"
  have s: "sender_ok ?s" "fc_queue ?s \<noteq> []" "\<not> fc_requested ?s" "ds = []" "lost_connection ?s \<longleftrightarrow> lost_connection s"
    using assms(1-3) True by (simp_all add: sender_ok_def configured_def goes_on_def lost_connection_def)
  have run: "(if fc_accessToken ?s = None then getAccessToken E sign else sendMessage conn) ?s = (r, s', ev)"
    using assms(4) True by (simp add: enqueue_def action_simps aif_def)
  have "stays ?s s' (concat (map jobs_of ev))"
  proof (cases "fc_accessToken ?s = None")
    case True
    have "getAccessToken E sign ?s = (r, s', ev)" using run unfolding if_P [OF True] .
    then show ?thesis by (rule getAccessToken_stays [OF s(1-3)])
  next
    case False
    have "sendMessage conn ?s = (r, s', ev)" using run unfolding if_not_P [OF False] .
    then show ?thesis by (rule sendMessage_stays [OF s(1-3) False])
  qed
  then show ?thesis using s(4,5) by (simp add: stays_def)
next
  case False
  then have "s' = s\<lparr>fc_queue := fc_queue s @ [m]\<rparr>" "ev = []"
    using assms(4) by (auto simp: enqueue_def action_simps aif_def split: if_splits)
  then show ?thesis
    using assms(1-3) False by (auto simp: sender_ok_def configured_def goes_on_def lost_connection_def driver_ok_def split: fcm_job.splits)
qed

lemma drivers_append: "drivers (xs @ ys) = drivers xs @ drivers ys"
  by (simp add: drivers_def)

lemma drivers_none: "drivers xs = [] \<longleftrightarrow> (\<forall>j\<in>set xs. j = Job_gone)"
  by (auto simp: drivers_def filter_empty_conv)

lemma drivers_same: "Job_gone \<notin> set ds \<Longrightarrow> drivers ds = ds"
  by (auto simp: drivers_def intro: filter_True)

lemma gones_same: "Job_gone \<notin> set ds \<Longrightarrow> filter (\<lambda>j. j = Job_gone) ds = []"
  by (auto simp: filter_empty_conv)

lemma fcm_close_run:
  "fcm_close s = (Inr (), s\<lparr>fc_active := False, fc_requested := False\<rparr>,
     if fc_requested s then [C_call_out ''startConnection'' 0] else [])"
  by (cases s) (auto simp: fcm_close_def action_simps aif_def)

lemma driver_ok_lost:
  "driver_ok s j \<Longrightarrow> lost_connection s \<Longrightarrow>
    \<not> fc_requested s \<and> driver_ok (s\<lparr>fc_active := False, fc_requested := False\<rparr>) j"
  by (cases j) (auto simp: driver_ok_def lost_connection_def)

lemma fcm_step_inv: "fcm_step E sign x ev y \<Longrightarrow> fcm_inv x \<Longrightarrow> fcm_inv y"
proof (induction rule: fcm_step.induct)
  case (job js xs j ys conn code entity s r s' ev)
  show ?case
  proof (cases "j = Job_gone")
    case True
    have gone: "lost_connection s" "filter (\<lambda>j. j = Job_gone) (xs @ ys) = []"
      using job.prems job.hyps(1) True by (auto simp: fcm_inv_def split: if_splits)
    have "run_job E sign conn code entity Job_gone s = (r, s', ev)" using job.hyps(2) True by simp
    then have s': "s' = s\<lparr>fc_active := False, fc_requested := False\<rparr>"
      and ev: "ev = (if fc_requested s then [C_call_out ''startConnection'' 0] else [])"
      by (simp_all add: fcm_close_run)
    have g: "goes_on s (drivers (xs @ ys))" "sender_ok s"
      using job.prems job.hyps(1) True by (simp_all add: fcm_inv_def drivers_def)
    have "goes_on s' (drivers (xs @ ys @ concat (map jobs_of ev)))"
    proof (cases "\<exists>j. drivers (xs @ ys) = [j] \<and> driver_ok s j")
      case True
      then obtain j where j: "drivers (xs @ ys) = [j]" "driver_ok s j" by blast
      have "\<not> fc_requested s" "driver_ok s' j" using j(2) gone(1) driver_ok_lost by (auto simp: s')
      then show ?thesis using g(1) j by (auto simp: goes_on_def ev s' drivers_append split: if_splits)
    next
      case False
      then have "drivers (xs @ ys) = []" "fc_queue s = [] \<longleftrightarrow> \<not> fc_requested s" "fc_requested s \<Longrightarrow> fc_accessToken s \<noteq> None"
        using g(1) by (auto simp: goes_on_def split: if_splits)
      then show ?thesis by (auto simp: goes_on_def ev s' drivers_append drivers_def driver_ok_def)
    qed
    moreover have "sender_ok s'" "\<not> lost_connection s'" using g(2) by (simp_all add: s' sender_ok_def configured_def lost_connection_def)
    moreover have "filter (\<lambda>j. j = Job_gone) (xs @ ys @ concat (map jobs_of ev)) = []" using gone(2) by (simp add: ev)
    ultimately show ?thesis by (simp add: fcm_inv_def)
  next
    case False
    then have "fc_queue s \<noteq> [] \<and> driver_ok s j \<and> drivers xs = [] \<and> drivers ys = []"
      using job.prems job.hyps(1) by (auto simp: fcm_inv_def goes_on_def drivers_def append_eq_Cons_conv split: if_splits)
    moreover have "sender_ok s" "length (filter (\<lambda>j. j = Job_gone) (xs @ ys)) = (if lost_connection s then 1 else 0)"
      using job.prems job.hyps(1) False by (simp_all add: fcm_inv_def)
    moreover have "stays s s' (concat (map jobs_of ev))"
      using calculation by (intro driver_stays [OF _ _ _ job.hyps(3,2)]) simp_all
    ultimately show ?thesis
      by (simp add: fcm_inv_def stays_def drivers_append drivers_same gones_same)
  qed
next
  case (append m conn s r s' ev js)
  then show ?case
    using enqueue_stays [OF _ _ append.hyps(1,2), of "drivers js"]
    by (auto simp: fcm_inv_def drivers_append drivers_same gones_same)
next
  case (lost s js)
  have f: "filter (\<lambda>j. j = Job_gone) (filter (\<lambda>j. j \<noteq> Job_request) js) = filter (\<lambda>j. j = Job_gone) js"
    by (induction js) auto
  have d: "drivers (filter (\<lambda>j. j \<noteq> Job_request) js) = filter (\<lambda>j. j \<noteq> Job_request) (drivers js)"
    by (auto simp: drivers_def filter_filter intro: filter_cong)
  have g: "sender_ok s" "goes_on s (drivers js)" "filter (\<lambda>j. j = Job_gone) js = []" "\<not> lost_connection s"
    using lost by (auto simp: fcm_inv_def lost_connection_def)
  have "goes_on (s\<lparr>cl_connection := None\<rparr>) (filter (\<lambda>j. j \<noteq> Job_request) (drivers js))"
  proof (cases "fc_queue s = []")
    case True
    then show ?thesis using g(2) by (simp add: goes_on_def)
  next
    case False
    then obtain j where j: "drivers js = [j]" "driver_ok s j" using g(2,4) by (auto simp: goes_on_def)
    then show ?thesis using lost.hyps False by (cases j) (auto simp: goes_on_def driver_ok_def lost_connection_def)
  qed
  then show ?case
    using g lost.hyps f by (simp add: fcm_inv_def drivers_append d sender_ok_def configured_def lost_connection_def)
      (simp add: drivers_def)
qed

section \<open>Progress\<close>

text \<open>The services accept everything, and the jobs run in the order in which they were queued.\<close>

fun fcm_serve ::
    "env \<Rightarrow> (bytes \<Rightarrow> bytes \<Rightarrow> bytes) \<Rightarrow> 'o \<Rightarrow> bytes \<Rightarrow> nat \<Rightarrow> ('o, 'k) fcm_sender \<times> fcm_job list
      \<Rightarrow> (('o, 'k) fcm_sender \<times> fcm_job list) \<times> ('o, 'k) client_event list" where
  "fcm_serve E sign conn t 0 x = (x, [])"
| "fcm_serve E sign conn t (Suc n) (s, []) = ((s, []), [])"
| "fcm_serve E sign conn t (Suc n) (s, j # js) =
     (let (r, s, ev) = run_job E sign conn (en_http E HTTP_OK) (Some t) j s;
          (y, evs) = fcm_serve E sign conn t n (s, js @ concat (map jobs_of ev))
      in (y, ev @ evs))"

text \<open>What the continuations of the queue will be told.\<close>

definition to_run :: "lpcint \<Rightarrow> 'k fcm_message list \<Rightarrow> ('o, 'k) client_event list" where
  "to_run code q = concat (map (\<lambda>m. case fm_callback m of None \<Rightarrow> [] | Some k \<Rightarrow> [C_run k code None]) q)"

text \<open>The steps that are left, at most.\<close>

definition driver_rank :: "('o, 'k) fcm_sender \<Rightarrow> fcm_job \<Rightarrow> nat" where
  "driver_rank s j =
     (case j of
        Job_request \<Rightarrow> 1
      | Job_call f \<Rightarrow>
          if f = ''sendMessage'' \<and> fc_active s \<and> \<not> lost_connection s then 2 else if f = ''getAccessToken'' then 5 else 4
      | Job_connecting \<Rightarrow> 3
      | _ \<Rightarrow> 4)"

lemma driver_rank_pos [simp]: "driver_rank s j \<noteq> 0" and driver_rank_le: "driver_rank s j \<le> 5"
  by (cases j; simp add: driver_rank_def)+

definition fcm_rank :: "('o, 'k) fcm_sender \<Rightarrow> fcm_job list \<Rightarrow> nat" where
  "fcm_rank s ds =
     (if fc_queue s = [] then (if lost_connection s then 1 else 0)
      else 2 * (length (fc_queue s) - 1)
        + (case ds of [] \<Rightarrow> 5 | j # _ \<Rightarrow> driver_rank s j + (if lost_connection s then 2 else 0)))"

definition progress :: "lpcint \<Rightarrow> nat \<Rightarrow> 'k fcm_message list \<Rightarrow> ('o, 'k) fcm_sender \<Rightarrow> ('o, 'k) client_event list \<Rightarrow> bool" where
  "progress ok n q s' ev \<longleftrightarrow>
     fcm_rank s' (concat (map jobs_of ev)) < n \<and> filter callback_run ev @ to_run ok (fc_queue s') = to_run ok q"

lemma sendMessage_progress:
  assumes "sender_ok s" "fc_queue s \<noteq> []" "fc_accessToken s \<noteq> None" "sendMessage conn s = (r, s', ev)"
  shows "progress ok (2 * (length (fc_queue s) - 1) + (if lost_connection s then 6 else if fc_active s then 2 else 4))
    (fc_queue s) s' ev"
proof -
  obtain m q where q: "fc_queue s = m # q" using assms(2) by (cases "fc_queue s") auto
  have ok: "configured s" "complete m" using assms(1) q by (auto simp: sender_ok_def)
  show ?thesis
  proof (cases "fc_active s")
    case True
    obtain rq t where "sendMessage conn s = (if cl_connection s = None then (Inl Bad_argument, s\<lparr>fc_requested := True\<rparr>, [])
      else (Inr (), s\<lparr>fc_requested := True, cl_handle := Some (H_call (Some ''response'') [ARG_ENTITY])\<rparr>, [C_request rq, C_entity t]))"
      using sendMessage_active [OF ok(1) True assms(3) q ok(2)] by blast
    then show ?thesis
      using assms(4) q True
      by (auto simp: progress_def fcm_rank_def driver_rank_def lost_connection_def split: if_splits)
  next
    case False
    then show ?thesis
      using assms(4) q
      by (auto simp: sendMessage_idle progress_def fcm_rank_def driver_rank_def lost_connection_def)
  qed
qed

lemma getAccessToken_progress:
  assumes "sender_ok s" "fc_queue s \<noteq> []" "getAccessToken E sign s = (r, s', ev)"
  shows "progress ok (2 * (length (fc_queue s) - 1) + (if lost_connection s then 7 else 5)) (fc_queue s) s' ev"
proof -
  obtain t where "getAccessToken E sign s = (Inr (), s, [C_token t])"
    using getAccessToken_run [of s E sign] assms(1) by (auto simp: sender_ok_def)
  then show ?thesis using assms by (simp add: progress_def fcm_rank_def driver_rank_def)
qed

lemma fcm_response_progress:
  assumes "sender_ok s" "fc_queue s \<noteq> []" "driver_ok s Job_request" "fcm_response E (en_http E HTTP_OK) s = (r, s', ev)"
    and "en_http E HTTP_OK \<noteq> en_http E HTTP_NOT_FOUND"
  shows "progress (en_http E HTTP_OK) (2 * (length (fc_queue s) - 1) + 1) (fc_queue s) s' ev"
proof -
  obtain m q where q: "fc_queue s = m # q" using assms(2) by (cases "fc_queue s") auto
  obtain c where c: "cl_connection s = Some c" "cl_websocket s = None" "fc_active s"
    using assms(1,3) by (auto simp: driver_ok_def sender_ok_def configured_def)
  have d: "doneResponse t = (Inr (), t, [C_done])" if "cl_connection t = Some c" "cl_websocket t = None" for t :: "('a, 'b) fcm_sender"
    using that by (simp add: doneResponse_def action_simps aif_def)
  show ?thesis
    using assms(4,5) by (cases q) (auto simp: fcm_response_def action_simps abind_assoc q c finish_message_run d abind_def
        progress_def fcm_rank_def driver_rank_def lost_connection_def to_run_def split: option.splits)
qed

lemma driver_progress:
  assumes "sender_ok s" "fc_queue s \<noteq> []" "driver_ok s j" "token_answer E (en_http E HTTP_OK) (Some t)"
    and "run_job E sign conn (en_http E HTTP_OK) (Some t) j s = (r, s', ev)"
    and "en_http E HTTP_OK \<noteq> en_http E HTTP_NOT_FOUND"
  shows "progress (en_http E HTTP_OK) (fcm_rank s [j]) (fc_queue s) s' ev"
proof (cases j)
  case (Job_call f)
  consider "f = ''sendMessage''" "fc_accessToken s \<noteq> None" | "f = ''startConnection''" "\<not> fc_active s" | "f = ''getAccessToken''"
    using assms(3) Job_call by (auto simp: driver_ok_def)
  then show ?thesis
  proof cases
    case 1
    then have "sendMessage conn s = (r, s', ev)" using assms(5) Job_call by simp
    from sendMessage_progress [OF assms(1,2) 1(2) this, of "en_http E HTTP_OK"] show ?thesis
      using 1 assms(2) Job_call by (auto simp: fcm_rank_def driver_rank_def lost_connection_def split: if_splits)
  next
    case 2
    then show ?thesis
      using assms(2,5) Job_call
      by (auto simp: startConnection_def client_create_run progress_def fcm_rank_def driver_rank_def lost_connection_def)
  next
    case 3
    then have "getAccessToken E sign s = (r, s', ev)" using assms(5) Job_call by simp
    from getAccessToken_progress [OF assms(1,2) this, of "en_http E HTTP_OK"] show ?thesis
      using 3 assms(2) Job_call by (auto simp: fcm_rank_def driver_rank_def split: if_splits)
  qed
next
  case Job_connecting
  then show ?thesis
    using assms(2,3,5) by (auto simp: driver_ok_def started_def action_simps progress_def fcm_rank_def driver_rank_def
        lost_connection_def)
next
  case Job_request
  then have "\<not> lost_connection s" using assms(3) by (auto simp: driver_ok_def lost_connection_def)
  then show ?thesis
    using fcm_response_progress [OF assms(1,2)] assms(2,3,5,6) Job_request by (simp add: fcm_rank_def driver_rank_def)
next
  case Job_token
  obtain a where a: "rbind (en_json_decode E t) (jfield_str ''access_token'') = Inr (Some a)"
    using assms(4) by (auto simp: token_answer_def)
  let ?s = "s\<lparr>fc_accessToken := Some a\<rparr>"
  have run: "sendMessage conn ?s = (r, s', ev)"
    using assms(5) Job_token by (simp add: storeAccessToken_def action_simps a)
  have "sender_ok ?s" using assms(1) by (simp add: sender_ok_def configured_def)
  from sendMessage_progress [OF this _ _ run, of "en_http E HTTP_OK"] show ?thesis
    using assms(2) Job_token by (auto simp: progress_def fcm_rank_def driver_rank_def lost_connection_def split: if_splits)
next
  case Job_gone
  then show ?thesis using assms(3) by (simp add: driver_ok_def)
qed

text \<open>A step of any job makes progress.\<close>

lemma serve_progress:
  assumes "fcm_inv (s, j # js)" "token_answer E (en_http E HTTP_OK) (Some t)" "en_http E HTTP_OK \<noteq> en_http E HTTP_NOT_FOUND"
    and "run_job E sign conn (en_http E HTTP_OK) (Some t) j s = (r, s', ev)"
  shows "fcm_rank s' (drivers (js @ concat (map jobs_of ev))) < fcm_rank s (drivers (j # js))
    \<and> filter callback_run ev @ to_run (en_http E HTTP_OK) (fc_queue s') = to_run (en_http E HTTP_OK) (fc_queue s)"
proof (cases "j = Job_gone")
  case True
  have g: "lost_connection s" "goes_on s (drivers js)" "sender_ok s"
    using assms(1) True by (auto simp: fcm_inv_def drivers_def split: if_splits)
  have s': "s' = s\<lparr>fc_active := False, fc_requested := False\<rparr>"
    and ev: "ev = (if fc_requested s then [C_call_out ''startConnection'' 0] else [])"
    using assms(4) True by (simp_all add: fcm_close_run)
  show ?thesis
  proof (cases "fc_queue s = []")
    case True
    then show ?thesis using g by (auto simp: goes_on_def fcm_rank_def s' ev lost_connection_def)
  next
    case False
    then consider d where "drivers js = [d]" "driver_ok s d" | "drivers js = []" "fc_requested s"
      using g(2) by (auto simp: goes_on_def)
    then show ?thesis
    proof cases
      case 1
      then have "\<not> fc_requested s" using driver_ok_lost g(1) by blast
      then show ?thesis
        using 1 g(1) False \<open>j = Job_gone\<close>
        by (cases d) (auto simp: fcm_rank_def driver_rank_def s' ev lost_connection_def drivers_def driver_ok_def)
    next
      case 2
      then show ?thesis
        using g(1) False \<open>j = Job_gone\<close>
        by (auto simp: fcm_rank_def driver_rank_def s' ev lost_connection_def drivers_def)
    qed
  qed
next
  case False
  then have "fc_queue s \<noteq> [] \<and> driver_ok s j \<and> drivers js = [] \<and> sender_ok s"
    using assms(1) by (auto simp: fcm_inv_def goes_on_def drivers_def split: if_splits)
  moreover from this have "stays s s' (concat (map jobs_of ev))"
    using assms(2,4) by (intro driver_stays [where code = "en_http E HTTP_OK" and entity = "Some t"]) simp_all
  moreover have "drivers (j # js) = j # drivers js" using False by (simp add: drivers_def)
  moreover have "progress (en_http E HTTP_OK) (fcm_rank s [j]) (fc_queue s) s' ev"
    using calculation assms(2-4) by (intro driver_progress) simp_all
  ultimately show ?thesis by (simp add: progress_def drivers_append drivers_same stays_def)
qed

lemma fcm_serve_drains:
  assumes "fcm_inv (s, js)" "token_answer E (en_http E HTTP_OK) (Some t)" "en_http E HTTP_OK \<noteq> en_http E HTTP_NOT_FOUND"
    and "fcm_rank s (drivers js) \<le> n"
  shows "\<exists>s' evs. fcm_serve E sign conn t n (s, js) = ((s', []), evs) \<and> fc_queue s' = []
    \<and> filter callback_run evs = to_run (en_http E HTTP_OK) (fc_queue s)"
  using assms(1,4)
proof (induction n arbitrary: s js)
  case 0
  then have q: "fc_queue s = []" "\<not> lost_connection s" by (auto simp: fcm_rank_def split: if_splits list.splits)
  then have "drivers js = []" "filter (\<lambda>j. j = Job_gone) js = []"
    using 0 by (auto simp: fcm_inv_def goes_on_def)
  then have "js = []" by (cases js) (auto simp: drivers_def split: if_splits)
  then show ?case using q by (simp add: to_run_def)
next
  case (Suc n)
  show ?case
  proof (cases js)
    case Nil
    then have "\<not> lost_connection s" using Suc.prems by (auto simp: fcm_inv_def split: if_splits)
    then have "fc_queue s = []" using Suc.prems Nil by (auto simp: fcm_inv_def goes_on_def drivers_def split: if_splits)
    then show ?thesis using Nil by (simp add: to_run_def)
  next
    case (Cons j js')
    obtain r s1 ev where run: "run_job E sign conn (en_http E HTTP_OK) (Some t) j s = (r, s1, ev)" by (metis prod_cases3)
    have "fcm_step E sign (s, js) ev (s1, [] @ js' @ concat (map jobs_of ev))"
      using run assms(2) Cons by (intro fcm_step.job) auto
    then have inv: "fcm_inv (s1, js' @ concat (map jobs_of ev))" using fcm_step_inv Suc.prems(1) by fastforce
    note p = serve_progress [OF Suc.prems(1) [unfolded Cons] assms(2,3) run]
    have "fcm_rank s1 (drivers (js' @ concat (map jobs_of ev))) \<le> n" using p Suc.prems(2) Cons by simp
    from Suc.IH [OF inv this] show ?thesis using p run Cons by auto
  qed
qed

section \<open>Properties\<close>

text \<open>The states in which the sender can be after it was created.\<close>

definition fcm_idle :: "('o, 'k) fcm_sender \<Rightarrow> bool" where
  "fcm_idle s \<longleftrightarrow> configured s \<and> fc_queue s = [] \<and> \<not> fc_requested s \<and> \<not> fc_active s"

inductive fcm_reachable ::
    "env \<Rightarrow> (bytes \<Rightarrow> bytes \<Rightarrow> bytes) \<Rightarrow> ('o, 'k) fcm_sender \<times> fcm_job list \<Rightarrow> bool"
  for E sign where
  start: "fcm_idle s \<Longrightarrow> fcm_reachable E sign (s, [])"
| step: "fcm_reachable E sign x \<Longrightarrow> fcm_step E sign x ev y \<Longrightarrow> fcm_reachable E sign y"

lemma fcm_reachable_inv: "fcm_reachable E sign x \<Longrightarrow> fcm_inv x"
proof (induction rule: fcm_reachable.induct)
  case (start s)
  then show ?case
    by (simp add: fcm_idle_def fcm_inv_def sender_ok_def goes_on_def lost_connection_def drivers_def)
next
  case (step x ev y)
  then show ?case by (blast intro: fcm_step_inv)
qed

lemma drivers_count: "length (drivers js) \<le> 1 \<Longrightarrow> count_list js Job_request \<le> 1"
proof -
  have "count_list js Job_request \<le> length (drivers js)" by (induction js) (auto simp: drivers_def)
  then show "length (drivers js) \<le> 1 \<Longrightarrow> count_list js Job_request \<le> 1" by simp
qed

text \<open>
  C15. However messages come in, services answer and connections are lost, the sender never has more
  than one job that carries on with the queue, so that no message is sent twice at a time; while
  there are messages there is a job that leads on, and when there are none the sender is idle.
\<close>

theorem fcm_one_driver:
  assumes "fcm_reachable E sign (s, js)"
  shows "length (drivers js) \<le> 1 \<and> count_list js Job_request \<le> 1
    \<and> (fc_queue s \<noteq> [] \<longrightarrow> js \<noteq> []) \<and> (fc_queue s = [] \<longrightarrow> drivers js = [] \<and> \<not> fc_requested s)
    \<and> (Job_request \<in> set js \<longrightarrow> fc_requested s)"
proof -
  have inv: "goes_on s (drivers js)" "length (filter (\<lambda>j. j = Job_gone) js) = (if lost_connection s then 1 else 0)"
    using fcm_reachable_inv [OF assms] by (simp_all add: fcm_inv_def)
  have l: "length (drivers js) \<le> 1" using inv(1) by (auto simp: goes_on_def split: if_splits)
  have "js \<noteq> []" if "fc_queue s \<noteq> []"
    using inv that by (auto simp: goes_on_def drivers_def)
  moreover have "fc_requested s" if "Job_request \<in> set js"
  proof -
    have "Job_request \<in> set (drivers js)" using that by (simp add: drivers_def)
    then show ?thesis using inv(1) by (auto simp: goes_on_def driver_ok_def split: if_splits)
  qed
  ultimately show ?thesis using l drivers_count [OF l] inv(1) by (auto simp: goes_on_def split: if_splits)
qed

text \<open>
  C14. From every reachable state the queue is worked off in a bounded number of steps if the services
  accept what they are sent: nothing is left to do, and the continuations have been told of the
  success in the order of the queue, each once.
\<close>

theorem fcm_drains:
  assumes "fcm_reachable E sign (s, js)" "token_answer E (en_http E HTTP_OK) (Some t)"
    and "en_http E HTTP_OK \<noteq> en_http E HTTP_NOT_FOUND" "2 * length (fc_queue s) + 5 \<le> n"
  shows "\<exists>s' evs. fcm_serve E sign conn t n (s, js) = ((s', []), evs) \<and> fc_queue s' = []
    \<and> filter callback_run evs = to_run (en_http E HTTP_OK) (fc_queue s)"
proof -
  have "fcm_rank s (drivers js) \<le> 2 * length (fc_queue s) + 5"
  proof (cases "fc_queue s")
    case (Cons m q)
    have "driver_rank s j + (if lost_connection s then 2 else 0) \<le> 7" for j
      using driver_rank_le [of s j] by simp
    then show ?thesis using Cons by (auto simp: fcm_rank_def split: list.split)
  qed (simp add: fcm_rank_def)
  then show ?thesis using fcm_serve_drains [OF fcm_reachable_inv [OF assms(1)] assms(2,3)] assms(4) le_trans by blast
qed

text \<open>
  C17. A notification for a device that registered no identifier stops the sender for good: the error
  leaves the message at the head of the queue with no job that would go on, and whatever is appended
  afterwards, and whether or not the connection is lost, nothing is sent any more.
\<close>

theorem no_target_stops:
  assumes "fc_queue s = []" "fc_active s" "fc_accessToken s \<noteq> None" "\<not> fc_requested s"
  shows "\<exists>s'. enqueue E sign conn (sendNotification None urgent) s = (Inl Bad_argument, s', [])
    \<and> fc_queue s' = [sendNotification None urgent]
    \<and> (\<forall>ms. foldl (\<lambda>(s, ev) m. case enqueue E sign conn m s of (r, s1, ev1) \<Rightarrow> (s1, ev @ ev1)) (s', []) ms
         = (s'\<lparr>fc_queue := sendNotification None urgent # ms\<rparr>, []))
    \<and> (\<forall>q. fcm_close (s'\<lparr>fc_queue := q\<rparr>) = (Inr (), s'\<lparr>fc_queue := q, fc_active := False\<rparr>, []))"
proof -
  let ?m = "sendNotification None urgent"
  obtain tok where "fc_accessToken s = Some tok" using assms(3) by blast
  let ?s = "s\<lparr>fc_queue := [?m]\<rparr>"
  have run: "enqueue E sign conn ?m s = (Inl Bad_argument, ?s, [])"
    using assms \<open>fc_accessToken s = Some tok\<close> by (simp add: enqueue_def action_simps aif_def sendMessage_def fcm_text_def sendNotification_def fcm_notify_def)
  have step: "enqueue E sign conn m (s\<lparr>fc_queue := ?m # q\<rparr>) = (Inr (), s\<lparr>fc_queue := ?m # q @ [m]\<rparr>, [])" for m q
    by (simp add: enqueue_def action_simps aif_def)
  have "foldl (\<lambda>(s, ev) m. case enqueue E sign conn m s of (r, s1, ev1) \<Rightarrow> (s1, ev @ ev1)) (?s, []) ms
      = (s\<lparr>fc_queue := ?m # ms\<rparr>, [])" for ms
    by (induction ms rule: rev_induct) (simp_all add: step)
  moreover have "fcm_close (?s\<lparr>fc_queue := q\<rparr>) = (Inr (), ?s\<lparr>fc_queue := q, fc_active := False\<rparr>, [])" for q
    using assms(4) by (simp add: fcm_close_run)
  ultimately show ?thesis using run by (intro exI [of _ ?s]) simp
qed

section \<open>Sample runs\<close>

definition sample_sender :: "(nat, nat) fcm_sender" where
  "sample_sender =
     \<lparr>cl_connection = None, cl_response = None, cl_handle = None, cl_chunks = None, cl_websocket = None, cl_opcode = None,
      cl_out = \<lparr>closing = False, ws_sent = []\<rparr>, cl_outgoing = Map.empty,
      fc_accessToken = None, fc_queue = [], fc_active = False, fc_requested = False, fc_projectId = Some [], fc_keyId = Some [],
      fc_clientEmail = Some [], fc_tokenUri = Some [], fc_key = []\<rparr>"

definition sample_fcm_env :: env where
  "sample_fcm_env = (sample_env (Api None []) (\<lambda>_. None))\<lparr>en_json_decode := \<lambda>s. Inr (jobj [(''access_token'', JStr s)])\<rparr>"

definition sample_push :: "nat fcm_message" where
  "sample_push = sendChallenge (Some [1]) (Some [2]) (Some 7)"

lemma sample_reachable:
  "fcm_reachable sample_fcm_env (\<lambda>_ _. []) (sample_sender\<lparr>fc_queue := [sample_push]\<rparr>, [Job_token])"
proof -
  have start: "fcm_reachable sample_fcm_env (\<lambda>_ _. []) (sample_sender, [])"
    by (rule fcm_reachable.start) (simp add: fcm_idle_def sample_sender_def configured_def)
  obtain t where "getAccessToken sample_fcm_env (\<lambda>_ _. []) (sample_sender\<lparr>fc_queue := [sample_push]\<rparr>)
      = (Inr (), sample_sender\<lparr>fc_queue := [sample_push]\<rparr>, [C_token t])"
    using getAccessToken_run [of "sample_sender\<lparr>fc_queue := [sample_push]\<rparr>"] by (auto simp: sample_sender_def configured_def)
  then have "enqueue sample_fcm_env (\<lambda>_ _. []) 3 sample_push sample_sender
      = (Inr (), sample_sender\<lparr>fc_queue := [sample_push]\<rparr>, [C_token t])"
    by (simp add: enqueue_def action_simps aif_def sample_sender_def)
  moreover have "complete sample_push" by (simp add: sample_push_def sendChallenge_def fcm_notify_def complete_def)
  ultimately have "fcm_step sample_fcm_env (\<lambda>_ _. []) (sample_sender, []) [C_token t]
      (sample_sender\<lparr>fc_queue := [sample_push]\<rparr>, [] @ concat (map jobs_of [C_token t :: (nat, nat) client_event]))"
    by (intro fcm_step.append)
  from fcm_reachable.step [OF start this] show ?thesis by simp
qed

theorem fcm_one_driver_witness: "length (drivers [Job_token]) \<le> 1 \<and> count_list [Job_token] Job_request \<le> 1"
  using fcm_one_driver [OF sample_reachable] by blast

theorem fcm_drains_witness:
  "\<exists>s' evs. fcm_serve sample_fcm_env (\<lambda>_ _. []) 3 [9] 7 (sample_sender\<lparr>fc_queue := [sample_push]\<rparr>, [Job_token]) = ((s', []), evs)
    \<and> fc_queue s' = [] \<and> filter callback_run evs = [C_run 7 200 None]"
proof -
  have "token_answer sample_fcm_env (en_http sample_fcm_env HTTP_OK) (Some [9])"
    by (simp add: token_answer_def sample_fcm_env_def jobj_def jfield_str_def jfield_def jstr_def)
  moreover have "en_http sample_fcm_env HTTP_OK = 200" "en_http sample_fcm_env HTTP_OK \<noteq> en_http sample_fcm_env HTTP_NOT_FOUND"
    by (simp_all add: sample_fcm_env_def sample_env_def sample_http_def)
  moreover have "to_run 200 [sample_push] = [C_run 7 200 None :: (nat, nat) client_event]"
    by (simp add: to_run_def sample_push_def sendChallenge_def fcm_notify_def)
  ultimately show ?thesis
    using fcm_drains [OF sample_reachable, of "[9]" 7 3] by simp
qed

theorem no_target_stops_witness:
  "\<exists>s'. enqueue sample_fcm_env (\<lambda>_ _. []) 3 (sendNotification None 1)
      (sample_sender\<lparr>fc_active := True, fc_accessToken := Some [], cl_connection := Some 3\<rparr>) = (Inl Bad_argument, s', [])
    \<and> fc_queue s' = [sendNotification None 1]"
  using no_target_stops [of "sample_sender\<lparr>fc_active := True, fc_accessToken := Some [], cl_connection := Some 3\<rparr>"]
  by (simp add: sample_sender_def) blast

end
