(* ===== verification/PreKeys.thy ===== *)
theory PreKeys
  imports Handlers KeyServer
begin

text \<open>
  Publishing and fetching keys (\<^verbatim>\<open>src/services/lib/chat/Keys.c\<close>): an account publishes its identity key
  and, for a device, a signed key and one-time keys, which the server of one-time keys holds; who
  wants to send it a message fetches one for every device or for one.

  A one-time key is handed to the key server as a pair of its ID and the key.  IDs that are not
  integers are refused here; the code does not take such a key out again, either.
\<close>

section \<open>Publishing\<close>

definition read_signed_key :: "json \<Rightarrow> signed_key result" where
  "read_signed_key m =
     rbind (jfield_int ''keyId'' m) (\<lambda>keyId.
     rbind (jfield_str ''publicKey'' m) (\<lambda>key.
     rbind (jfield_str ''signature'' m) (\<lambda>signature. Inr (keyId, key, signature))))"

definition putKeysAci ::
    "('a, account, account) kvlib \<Rightarrow> bytes option \<Rightarrow> account \<Rightarrow> device \<Rightarrow> json \<Rightarrow> ('a, 'i, 'o, 'z, unit) account_action" where
  "putKeysAci KA ctxt account device entity =
     abind (alift (jfield_str ''identityKey'' entity)) (\<lambda>identityKey.
     athen (on_account KA account (updateIdentityKey identityKey))
     (abind (alift (rbind (jfield ''signedPreKey'' entity) read_signed_key)) (\<lambda>(keyId, key, signature).
      athen (on_device KA account device (updateSignedPreKey keyId key signature))
      (abind (alift (jfield ''preKeys'' entity)) (\<lambda>preKeys.
       on_connection (aemit (Call_out ''putKeys2'' ctxt [V (jopt (ac_id account)), V (JInt (dv_id device)), V preKeys])))))))"

definition putKeysPni ::
    "('a, account, account) kvlib \<Rightarrow> bytes option \<Rightarrow> account \<Rightarrow> device \<Rightarrow> json \<Rightarrow> ('a, 'i, 'o, 'z, unit) account_action" where
  "putKeysPni KA ctxt account device entity =
     abind (alift (jfield_str ''identityKey'' entity)) (\<lambda>identityKey.
     athen (on_account KA account (updatePniKey identityKey))
     (abind (alift (rbind (jfield ''signedPreKey'' entity) read_signed_key)) (\<lambda>(keyId, key, signature).
      athen (on_device KA account device (updateSignedPniPreKey keyId key signature))
      (abind (alift (jfield ''preKeys'' entity)) (\<lambda>preKeys.
       on_connection (aemit (Call_out ''putKeys2'' ctxt [V (jopt (ac_pni account)), V (JInt (dv_id device)), V preKeys])))))))"

definition read_preKeys :: "json \<Rightarrow> (lpcint \<times> bytes option) list result" where
  "read_preKeys preKeys =
     rbind (jarr preKeys) (rmapM (\<lambda>pk.
       rbind (jfield_int ''keyId'' pk) (\<lambda>keyId. rmap (Pair keyId) (jfield_str ''publicKey'' pk))))"

definition putKeys2 ::
    "('k, device_map, device_map) kvlib \<Rightarrow> bytes option \<Rightarrow> lpcint \<Rightarrow> json \<Rightarrow> ('k, 'e, unit) action" where
  "putKeys2 KK i deviceId preKeys =
     abind (alift (need i)) (\<lambda>i.
     abind (alift (read_preKeys preKeys)) (\<lambda>pks. amod (keys_store KK i deviceId pks)))"

definition putKeysSignedAci ::
    "env \<Rightarrow> ('a, account, account) kvlib \<Rightarrow> bytes option \<Rightarrow> account \<Rightarrow> device \<Rightarrow> json
      \<Rightarrow> ('a, 'i, 'o, 'z, unit) account_action" where
  "putKeysSignedAci E KA ctxt account device entity =
     abind (alift (read_signed_key entity)) (\<lambda>(keyId, key, signature).
     athen (on_device KA account device (updateSignedPreKey keyId key signature))
       (on_connection (answer_plain E ctxt HTTP_OK)))"

section \<open>Fetching\<close>

definition getKeys ::
    "env \<Rightarrow> bytes option \<Rightarrow> bytes option \<Rightarrow> bytes \<Rightarrow> account \<Rightarrow> device \<Rightarrow> bytes option
      \<Rightarrow> (('o, 'z) rest_server_scheme, 'o server_event, unit) action" where
  "getKeys E ctxt uuid deviceId account device accessKey =
     abind (alift (uuid_decode (en_hex E) uuid)) (\<lambda>i.
       aemit (Call_out ''getKeys2'' ctxt [V (JStr i), V (JStr deviceId)]))"

definition device_keys :: "account \<Rightarrow> lpcint \<times> lpcint \<times> bytes \<Rightarrow> json result" where
  "device_keys account = (\<lambda>(d, keyId, pubKey).
     rbind (need (account_device d account)) (\<lambda>device.
     let (spkId, spk, signature) = signedPreKey device in
       Inr (jobj [(''deviceId'', JInt (dv_id device)),
                  (''registrationId'', JInt (dv_registrationId device)),
                  (''signedPreKey'', jobj [(''keyId'', JInt spkId), (''publicKey'', jopt spk), (''signature'', jopt signature)]),
                  (''preKey'', jobj [(''keyId'', JInt keyId), (''publicKey'', JStr pubKey)])])))"

text \<open>The keys that are asked for, of all devices or of one; \<open>({ i }) + nil\<close> is an error.\<close>

definition fetch_keys ::
    "('k, device_map, device_map) kvlib \<Rightarrow> bytes \<Rightarrow> bytes \<Rightarrow> ('k, 'e, (lpcint \<times> lpcint \<times> bytes) list) action" where
  "fetch_keys KK i deviceId =
     (if deviceId = str ''*'' then on_store (takeKeys KK i)
      else
        abind (alift (cast_int deviceId)) (\<lambda>d.
        abind (on_store (takeKey KK i d)) (\<lambda>k.
        abind (alift (need k)) (\<lambda>k. aret [(d, k)]))))"

definition getKeys2 ::
    "('a, account, account) kvlib \<Rightarrow> ('k, device_map, device_map) kvlib \<Rightarrow> ('a, 'i) account_server \<Rightarrow> bytes \<Rightarrow> bytes
      \<Rightarrow> ('k, 'e, json) action" where
  "getKeys2 KA KK srv i deviceId =
     abind (alift (need (accounts_get KA i srv))) (\<lambda>account.
     abind (fetch_keys KK i deviceId) (\<lambda>keys.
     abind (alift (rmapM (device_keys account) keys)) (\<lambda>devices.
       aret (jobj [(''identityKey'', jopt (ac_identityKey account)), (''devices'', JArr devices)]))))"

section \<open>Lemmas\<close>

text \<open>A request that publishes keys.\<close>

definition signed_json :: "signed_key \<Rightarrow> json" where
  "signed_json k = jobj [(''keyId'', JInt (fst k)), (''publicKey'', jopt (fst (snd k))), (''signature'', jopt (snd (snd k)))]"

definition preKeys_json :: "(lpcint \<times> bytes) list \<Rightarrow> json" where
  "preKeys_json pks = JArr (map (\<lambda>(k, p). jobj [(''keyId'', JInt k), (''publicKey'', JStr p)]) pks)"

definition keys_entity :: "bytes option \<Rightarrow> signed_key \<Rightarrow> (lpcint \<times> bytes) list \<Rightarrow> json" where
  "keys_entity ik spk pks =
     jobj [(''identityKey'', jopt ik), (''signedPreKey'', signed_json spk), (''preKeys'', preKeys_json pks)]"

lemma jfield_keys_entity:
  "jfield_str ''identityKey'' (keys_entity ik spk pks) = Inr ik"
  "rbind (jfield ''signedPreKey'' (keys_entity ik spk pks)) read_signed_key = Inr spk"
  "jfield ''preKeys'' (keys_entity ik spk pks) = Inr (preKeys_json pks)"
  by (simp_all add: keys_entity_def jfield_def jfield_str_def jfield_int_def jobj_def read_signed_key_def signed_json_def)

lemma read_preKeys_json: "read_preKeys (preKeys_json pks) = Inr (map (\<lambda>(k, p). (k, Some p)) pks)"
proof (induction pks)
  case (Cons x pks)
  then show ?case
    by (cases x) (simp add: read_preKeys_def preKeys_json_def jarr_def jfield_def jfield_str_def jfield_int_def jobj_def jstr_def)
qed (simp add: read_preKeys_def preKeys_json_def jarr_def)

lemma putKeysAci_run:
  assumes "ac_id account = Some i"
  shows "putKeysAci KA ctxt account device (keys_entity ik (kid, pub, sig) pks) (srv, s) =
    (Inr (), (accounts_modify KA i (change_device (dv_id device) (updateSignedPreKey kid pub sig))
       (accounts_modify KA i (updateIdentityKey ik) srv), s),
     [Call_out ''putKeys2'' ctxt [V (JStr i), V (JInt (dv_id device)), V (preKeys_json pks)]])"
  using assms by (simp add: putKeysAci_def jfield_keys_entity action_simps abind_on_account abind_on_device jopt_def)

lemma putKeys2_run:
  "putKeys2 KK (Some i) d (preKeys_json pks) keys = (Inr (), keys_store KK i d (map (\<lambda>(k, p). (k, Some p)) pks) keys, [])"
  by (simp add: putKeys2_def read_preKeys_json action_simps)

lemma updateSignedPreKey_simps [simp]:
  "dv_id (updateSignedPreKey kid pub sig d) = dv_id d"
  "dv_registrationId (updateSignedPreKey kid pub sig d) = dv_registrationId d"
  "signedPreKey (updateSignedPreKey kid pub sig d) = (kid, pub, sig)"
  by (simp_all add: updateSignedPreKey_def signedPreKey_def Let_def)

lemma updateIdentityKey_simps [simp]:
  "ac_identityKey (updateIdentityKey key ac) = key" "ac_id (updateIdentityKey key ac) = ac_id ac"
  "account_device d (updateIdentityKey key ac) = account_device d ac"
  by (simp_all add: updateIdentityKey_def account_device_def)

text \<open>What the key server holds after keys were stored, and after one of them was taken.\<close>

lemma keys_store_kv:
  assumes "kvstore KK kv"
  shows "\<exists>dm. kv (keys_store KK i d pks keys) i = Some dm \<and> map_of dm d = Some (store_loop (rev pks) [])"
  by (cases "kv keys i")
    (auto simp: keys_store_def kvstore.get [OF assms] kvstore.set [OF assms] kvstore.modify [OF assms] AList.update_conv')

lemma takeKey_kv:
  assumes "kvstore KK kv" "kv keys i = Some dm" "map_of dm d = Some ((k, p) # rest)"
  shows "\<exists>keys'. takeKey KK i d keys = Inr (Some (k, p), keys') \<and> (i, d, k) \<notin> left kv keys'"
  using assms(2,3)
  by (auto simp: takeKey_def kvstore.get [OF assms(1)] kvstore.modify [OF assms(1)] left_def
        AList.map_of_map_entry AList.delete_conv')

definition keys_reply :: "bytes option \<Rightarrow> device \<Rightarrow> signed_key \<Rightarrow> lpcint \<Rightarrow> bytes \<Rightarrow> json" where
  "keys_reply ik device spk k p =
     jobj [(''identityKey'', jopt ik),
           (''devices'', JArr [jobj [(''deviceId'', JInt (dv_id device)), (''registrationId'', JInt (dv_registrationId device)),
              (''signedPreKey'', signed_json spk),
              (''preKey'', jobj [(''keyId'', JInt k), (''publicKey'', JStr p)])]])]"

lemma int_str_not_star: "int_str d \<noteq> str ''*''"
proof
  assume a: "int_str d = str ''*''"
  show False using scan_int_str [of "[]" d] unfolding a by (simp add: scan_int_def str_def is_digit_def)
qed

lemma fetch_keys_one:
  "takeKey KK i d keys = Inr (Some k, keys') \<Longrightarrow> fetch_keys KK i (int_str d) keys = (Inr [(d, k)], keys', [])"
  by (simp add: fetch_keys_def int_str_not_star action_simps)

lemma fetch_keys_none:
  "takeKey KK i d keys = Inr (None, keys') \<Longrightarrow> fetch_keys KK i (int_str d) keys = (Inl Bad_argument, keys', [])"
  by (simp add: fetch_keys_def int_str_not_star action_simps)

lemma getKeys2_run:
  assumes "accounts_get KA i srv = Some account" "account_device d account = Some device"
    and "takeKey KK i d keys = Inr (Some (k, p), keys')"
  shows "getKeys2 KA KK srv i (int_str d) keys =
    (Inr (jobj [(''identityKey'', jopt (ac_identityKey account)), (''devices'', JArr
       [jobj [(''deviceId'', JInt (dv_id device)), (''registrationId'', JInt (dv_registrationId device)),
          (''signedPreKey'', signed_json (signedPreKey device)),
          (''preKey'', jobj [(''keyId'', JInt k), (''publicKey'', JStr p)])]])]), keys', [])"
proof -
  obtain a b c where sp: "signedPreKey device = (a, b, c)" by (cases "signedPreKey device")
  show ?thesis
    using assms(1,2)
    by (simp add: getKeys2_def abind_def alift_def aret_def device_keys_def sp signed_json_def fetch_keys_one [OF assms(3)])
qed

lemma take_each_devices: "x \<in> set (fst (take_each dm)) \<Longrightarrow> \<exists>pk. (fst x, pk) \<in> set dm \<and> pk \<noteq> []"
  by (induction dm rule: take_each.induct) (fastforce split: list.splits prod.splits)+

lemma take_each_empty:
  assumes "map_of dm d = Some []" "distinct (map fst dm)"
  shows "d \<notin> fst ` set (fst (take_each dm))"
proof
  assume "d \<in> fst ` set (fst (take_each dm))"
  then obtain pk where "(d, pk) \<in> set dm" "pk \<noteq> []" using take_each_devices by fastforce
  then show False using assms by (simp add: map_of_is_SomeI)
qed

section \<open>Properties\<close>

text \<open>
  C5.  What a device publishes is what others fetch: after its request, and the storing of its one-time
  keys, a request for the keys of that device is answered with the identity key, the signed key and
  one of the one-time keys, which the key server does not hold any longer.
\<close>

theorem published_keys_fetched:
  assumes "kvstore KA kva" "kvstore KK kvk" "kva (as_accounts srv) i = Some account" "ac_id account = Some i"
    and "account_device (dv_id device) account = Some device" "pks \<noteq> []"
  shows "\<exists>srv' keys' keys'' k p.
     putKeysAci KA ctxt account device (keys_entity ik spk pks) (srv, s) =
       (Inr (), (srv', s), [Call_out ''putKeys2'' ctxt [V (JStr i), V (JInt (dv_id device)), V (preKeys_json pks)]])
   \<and> putKeys2 KK (Some i) (dv_id device) (preKeys_json pks) keys = (Inr (), keys', [])
   \<and> getKeys2 KA KK srv' i (int_str (dv_id device)) keys' = (Inr (keys_reply ik device spk k p), keys'', [])
   \<and> map_of pks k = Some p \<and> (i, dv_id device, k) \<notin> left kvk keys''"
proof -
  obtain kid pub sig where spk: "spk = (kid, pub, sig)" by (cases spk)
  define d where "d = dv_id device"
  define keys' where "keys' = keys_store KK i d (map (\<lambda>(k, p). (k, Some p)) pks) keys"
  define srv' where "srv' = accounts_modify KA i (change_device d (updateSignedPreKey kid pub sig))
    (accounts_modify KA i (updateIdentityKey ik) srv)"
  define pkMap where "pkMap = store_loop (rev (map (\<lambda>(k, p). (k, Some p)) pks)) []"
  have m: "map_of pkMap = map_of pks" unfolding pkMap_def by (rule store_loop_map)
  have "pkMap \<noteq> []" using m assms(6) by (metis list.exhaust map_of.simps(1) map_upd_nonempty map_of_Cons_code(2) surj_pair option.distinct(1))
  then obtain k p rest where pkMap: "pkMap = (k, p) # rest" by (metis list.exhaust surj_pair)
  obtain dm where dm: "kvk keys' i = Some dm" "map_of dm d = Some ((k, p) # rest)"
    using keys_store_kv [OF assms(2)] unfolding keys'_def pkMap [symmetric] pkMap_def by blast
  obtain keys'' where t: "takeKey KK i d keys' = Inr (Some (k, p), keys'')" "(i, d, k) \<notin> left kvk keys''"
    using takeKey_kv [OF assms(2) dm] by blast
  define account' where "account' = change_device d (updateSignedPreKey kid pub sig) (updateIdentityKey ik account)"
  have "accounts_get KA i srv = Some account" using assms(3) by (simp add: accounts_get_def kvstore.get [OF assms(1)])
  then have a: "accounts_get KA i srv' = Some account'"
    by (simp add: srv'_def account'_def accounts_get_modify [OF assms(1)])
  have dev: "account_device d account' = Some (updateSignedPreKey kid pub sig device)"
    unfolding account'_def using assms(5) by (intro change_device_same) (simp_all add: d_def)
  have ik: "ac_identityKey account' = ik" by (simp add: account'_def)
  have "map_of pks k = Some p" unfolding m [symmetric] pkMap by simp
  note r1 = putKeysAci_run [OF assms(4), of KA ctxt device ik kid pub sig pks srv s, folded d_def, folded srv'_def]
  note r2 = putKeys2_run [of KK i d pks keys, folded keys'_def]
  show ?thesis
    unfolding d_def [symmetric] spk
    by (rule exI [of _ srv'], rule exI [of _ keys'], rule exI [of _ keys''], rule exI [of _ k], rule exI [of _ p])
      (simp add: r1 r2 getKeys2_run [OF a dev t(1)] t(2) \<open>map_of pks k = Some p\<close> keys_reply_def ik d_def [symmetric])
qed

theorem published_keys_fetched_witness:
  "\<exists>srv' keys' keys'' k p.
     putKeysAci std_kv None sample_owner sample_device (keys_entity (Some [5]) (7, Some [8], Some [9]) [(3, [4]), (2, [6])])
         (sample_accounts, sample_conn) =
       (Inr (), (srv', sample_conn),
        [Call_out ''putKeys2'' None [V (JStr [1]), V (JInt (dv_id sample_device)), V (preKeys_json [(3, [4]), (2, [6])])]])
   \<and> putKeys2 std_kv (Some [1]) (dv_id sample_device) (preKeys_json [(3, [4]), (2, [6])]) (keys_create std_kv) =
       (Inr (), keys', [] :: nat server_event list)
   \<and> getKeys2 std_kv std_kv srv' [1] (int_str (dv_id sample_device)) keys' =
       (Inr (keys_reply (Some [5]) sample_device (7, Some [8], Some [9]) k p), keys'', [] :: nat server_event list)
   \<and> map_of [(3, [4]), (2, [6])] k = Some p \<and> ([1], dv_id sample_device, k) \<notin> left id keys''"
  by (rule published_keys_fetched [OF std_kv.kvstore_axioms std_kv.kvstore_axioms]) simp_all

text \<open>
  C30.  A device that has no one-time key left cannot be sent a message: a request for its keys raises an
  error, whatever its signed key is, and is not answered, and a request for the keys of all devices of
  the account gets an answer that names only devices with keys.
\<close>

theorem no_key_left_fails:
  assumes "kvstore KK kvk" "kvk keys i = Some dm" "map_of dm (dv_id device) = Some []" "distinct (map fst dm)"
  shows "(\<exists>e. getKeys2 KA KK srv i (int_str (dv_id device)) keys = (Inl e, keys, []))
    \<and> (\<forall>ks keys'. takeKeys KK i keys = Inr (ks, keys') \<longrightarrow> dv_id device \<notin> fst ` set ks)"
proof (intro conjI allI impI)
  have "takeKey KK i (dv_id device) keys = Inr (None, keys)"
    by (simp add: takeKey_def kvstore.get [OF assms(1)] assms(2,3))
  then show "\<exists>e. getKeys2 KA KK srv i (int_str (dv_id device)) keys = (Inl e, keys, [])"
    by (cases "accounts_get KA i srv")
      (simp_all add: getKeys2_def abind_def alift_def fetch_keys_none)
next
  fix ks keys'
  assume "takeKeys KK i keys = Inr (ks, keys')"
  then have "ks = fst (take_each dm)" by (simp add: takeKeys_def kvstore.get [OF assms(1)] assms(2))
  then show "dv_id device \<notin> fst ` set ks" using take_each_empty [OF assms(3,4)] by simp
qed

theorem no_key_left_fails_witness:
  "(\<exists>e. getKeys2 std_kv std_kv sample_accounts [1] (int_str (dv_id sample_device)) [[1] \<mapsto> [(1, [])]] =
      (Inl e, [[1] \<mapsto> [(1, [])]], [] :: nat server_event list))
    \<and> (case takeKeys std_kv [1] [[1] \<mapsto> [(1, [])]] of Inl e \<Rightarrow> False | Inr (ks, keys') \<Rightarrow> dv_id sample_device \<notin> fst ` set ks)"
proof -
  obtain ks keys' where t: "takeKeys std_kv [1] [[1] \<mapsto> [(1, [])]] = Inr (ks, keys')"
    by (simp add: takeKeys_def std_kv_def)
  have "\<exists>e. getKeys2 std_kv std_kv sample_accounts [1] (int_str (dv_id sample_device)) [[1] \<mapsto> [(1, [])]] =
      (Inl e, [[1] \<mapsto> [(1, [])]], [] :: nat server_event list)"
    by (rule conjunct1 [OF no_key_left_fails [OF std_kv.kvstore_axioms, where dm = "[(1, [])]"]]) simp_all
  moreover have "dv_id sample_device \<notin> fst ` set ks"
    by (rule conjunct2 [OF no_key_left_fails [OF std_kv.kvstore_axioms, where dm = "[(1, [])]"], rule_format, OF _ _ _ t]) simp_all
  ultimately show ?thesis by (simp only: t sum.case prod.case) blast
qed

end
