(* ===== verification/Devices.thy ===== *)
theory Devices
  imports Handlers
begin

text \<open>
  The attributes of an account (\<^verbatim>\<open>src/services/lib/chat/Accounts.c\<close>), its devices
  (\<^verbatim>\<open>src/services/lib/chat/Devices.c\<close>) and the linking of a new one: the first device asks for a
  code, shows it to the new one in a message to its provisioning address
  (\<^verbatim>\<open>src/services/lib/chat/Provisioning.c\<close>), and the new one presents it with the number of the account.

  \<open>KC\<close> is the tree of the codes, \<open>KA\<close> and \<open>KI\<close> those of the account server.
\<close>

section \<open>Attributes\<close>

definition putAccountsGcm ::
    "('a, account, account) kvlib \<Rightarrow> bytes option \<Rightarrow> account \<Rightarrow> device \<Rightarrow> json \<Rightarrow> ('a, 'i, 'o, 'z, unit) account_action" where
  "putAccountsGcm KA ctxt account device entity =
     abind (alift (jfield_str ''gcmRegistrationId'' entity)) (\<lambda>gcmId.
     athen (on_device KA account device
         (\<lambda>d. if gcmId \<noteq> dv_gcmId d then setFetchesMessages 0 (setGcmId gcmId d) else d))
       (on_connection (aemit (Call_out ''respondJsonOK'' ctxt []))))"

text \<open>An object after a change that depends on attributes, if they could be read.\<close>

definition changed :: "('x \<Rightarrow> 'x result) \<Rightarrow> 'x \<Rightarrow> 'x" where
  "changed f x = (case f x of Inl e \<Rightarrow> x | Inr y \<Rightarrow> y)"

definition putAccountsAttributes ::
    "env \<Rightarrow> ('a, account, account) kvlib \<Rightarrow> bytes option \<Rightarrow> account \<Rightarrow> device \<Rightarrow> bytes option \<Rightarrow> json
      \<Rightarrow> ('a, 'i, 'o, 'z, unit) account_action" where
  "putAccountsAttributes E KA ctxt account device agent entity =
     abind (alift (update_device agent entity device)) (\<lambda>_.
     athen (on_device KA account device (changed (update_device agent entity)))
     (abind (alift (update_account (en_base64 E) entity account)) (\<lambda>_.
      athen (on_account KA account (changed (update_account (en_base64 E) entity)))
        (on_connection (aemit (Call_out ''respondJsonOK'' ctxt []))))))"

section \<open>Devices\<close>

definition jtime :: "timestamp option \<Rightarrow> json" where
  "jtime t = (case t of None \<Rightarrow> JNil | Some t \<Rightarrow> JEncoded (ts_transport t))"

definition device_info :: "device \<Rightarrow> json" where
  "device_info d =
     jobj [(''id'', JInt (dv_id d)), (''name'', jopt (dv_name d)), (''lastSeen'', jtime (dv_lastSeen d)),
           (''created'', jtime (dv_created d))]"

definition getDevices ::
    "env \<Rightarrow> bytes option \<Rightarrow> account \<Rightarrow> device \<Rightarrow> (('o, 'z) rest_server_scheme, 'o server_event, lpcint) action" where
  "getDevices E ctxt account device =
     respondJson E ctxt (en_http E HTTP_OK) (jobj [(''devices'', JArr (map device_info (account_devices account)))]) None"

text \<open>The capabilities of a device that is linked; the others are off.\<close>

definition link_capabilities :: "json \<Rightarrow> capabilities result" where
  "link_capabilities cap =
     rbind (jfield_int ''announcementGroup'' cap) (\<lambda>announcementGroup.
     rbind (jfield_int ''changeNumber'' cap) (\<lambda>changeNumber.
     rbind (jfield_int ''giftBadges'' cap) (\<lambda>giftBadges.
     rbind (jfield_int ''pni'' cap) (\<lambda>pni.
     rbind (jfield_int ''senderKey'' cap) (\<lambda>senderKey.
     rbind (jfield_int ''stories'' cap) (\<lambda>stories.
       Inr \<lparr>c_announcementGroup = announcementGroup, c_changeNumber = changeNumber, c_giftBadges = giftBadges,
            c_paymentActivation = 0, c_pni = pni, c_senderKey = senderKey, c_storage = 0, c_stories = stories,
            c_uuid = 0\<rparr>))))))"

definition putDevicesUnauthenticatedDelivery ::
    "env \<Rightarrow> bytes option \<Rightarrow> account \<Rightarrow> device \<Rightarrow> (('o, 'z) rest_server_scheme, 'o server_event, lpcint) action" where
  "putDevicesUnauthenticatedDelivery E ctxt account device = respond (en_http E) ctxt (en_http E HTTP_OK) None None None"

definition putDevicesCapabilities ::
    "env \<Rightarrow> ('a, account, account) kvlib \<Rightarrow> bytes option \<Rightarrow> account \<Rightarrow> device \<Rightarrow> json
      \<Rightarrow> ('a, 'i, 'o, 'z, lpcint) account_action" where
  "putDevicesCapabilities E KA ctxt account device entity =
     abind (alift (link_capabilities entity)) (\<lambda>c.
     athen (on_device KA account device (updateCapabilities c))
       (on_connection (respond (en_http E) ctxt (en_http E HTTP_OK) None None None)))"

section \<open>Linking a device\<close>

type_synonym ('c, 'o, 'z, 'r) provisioning_action =
  "(('c, 'o) provisioning \<times> ('o, 'z) rest_server_scheme, 'o server_event, 'r) action"

text \<open>\<open>random\<close> is the value of \<open>random(900000)\<close>.\<close>

definition getDevicesProvisioningCode ::
    "env \<Rightarrow> ('c, bytes timed, bytes timed) kvlib \<Rightarrow> lpcint \<Rightarrow> bytes option \<Rightarrow> account \<Rightarrow> device
      \<Rightarrow> ('c, 'o, 'z, lpcint) provisioning_action" where
  "getDevicesProvisioningCode E KC random ctxt account device =
     (let verificationCode = int_str (100000 + random) in
      athen (on_server (\<lambda>p. rmap (Pair ())
          (storeVerificationCode (en_asn E) KC (fst (en_clock E)) (ac_phoneNumber account) verificationCode p)))
        (on_connection (respondJson E ctxt (en_http E HTTP_OK)
          (jobj [(''verificationCode'', JStr verificationCode)]) None)))"

definition putDevicesCode ::
    "env \<Rightarrow> ('c, bytes timed, bytes timed) kvlib \<Rightarrow> bytes option \<Rightarrow> bytes \<Rightarrow> (bytes \<times> bytes) option \<Rightarrow> bytes option
      \<Rightarrow> json \<Rightarrow> ('c, 'o, 'z, lpcint) provisioning_action" where
  "putDevicesCode E KC ctxt code authorization agent entity =
     (let answer = (\<lambda>status. on_connection (respond (en_http E) ctxt (en_http E status) None None None));
          now = fst (en_clock E)
      in case authorization of
           None \<Rightarrow> answer HTTP_BAD_REQUEST
         | Some (scheme, text) \<Rightarrow>
             if lower_case scheme \<noteq> str ''basic'' then answer HTTP_BAD_REQUEST
             else
               abind (alift (b64_decode (en_base64 E) text)) (\<lambda>cred.
               let (phoneNumber, password) = scan_credentials cred in
               abind (on_server (\<lambda>p. rmap (\<lambda>c. (c, p)) (getVerificationCode (en_asn E) KC now phoneNumber p))) (\<lambda>stored.
               if stored \<noteq> Some code then answer HTTP_FORBIDDEN
               else
                 athen (on_server (\<lambda>p. rmap (Pair ()) (removeVerificationCode (en_asn E) KC now phoneNumber p)))
                 (athen (on_connection (aemit (Call_out ''putDevicesCode2'' ctxt
                     [V (jopt phoneNumber), V (jopt password), V (jopt agent), V entity])))
                   (aret 0)))))"

definition link_device :: "bytes option \<Rightarrow> json \<Rightarrow> device \<Rightarrow> device result" where
  "link_device agent entity d =
     rbind (jfield_str ''name'' entity) (\<lambda>name.
     rbind (jfield_int ''registrationId'' entity) (\<lambda>registrationId.
     rbind (jfield_int ''fetchesMessages'' entity) (\<lambda>fetchesMessages.
     rbind (rbind (jfield ''capabilities'' entity) link_capabilities) (\<lambda>c.
       Inr (device_update name registrationId agent fetchesMessages c d)))))"

text \<open>\<open>random\<close> is the salt of the new device.\<close>

definition putDevicesCode2 ::
    "env \<Rightarrow> ('a, account, account) kvlib \<Rightarrow> ('i, bytes, bytes) kvlib \<Rightarrow> bytes \<Rightarrow> bytes option \<Rightarrow> bytes option
      \<Rightarrow> bytes option \<Rightarrow> bytes option \<Rightarrow> json \<Rightarrow> ('a, 'i, 'o, 'z, unit) account_action" where
  "putDevicesCode2 E KA KI random ctxt phoneNumber password agent entity =
     abind (on_server (\<lambda>srv. rmap (\<lambda>a. (a, srv)) (accounts_getByNumber (en_asn E) KA KI phoneNumber srv))) (\<lambda>account.
     abind (alift (need account)) (\<lambda>account.
     abind (alift (uuid_encode (en_hex E) (ac_id account))) (\<lambda>uuid.
     let deviceId = nextDeviceId account in
     athen (on_connection (authenticate (Some (uuid @ str ''.'' @ int_str deviceId)) password))
     (abind (alift (need password)) (\<lambda>password.
      abind (alift (link_device agent entity (Device (en_hex E) (en_hkdf E) random (en_clock E) deviceId password))) (\<lambda>device.
      athen (on_account KA account (addDevice device))
      (abind (alift (uuid_encode (en_hex E) (ac_pni account))) (\<lambda>pni.
       abind (on_connection (respondJson E ctxt (en_http E HTTP_OK)
         (jobj [(''uuid'', JStr uuid), (''pni'', JStr pni), (''deviceId'', JInt deviceId)]) None)) (\<lambda>_. aret ())))))))))"

text \<open>\<open>alive\<close> tells the objects that are not destructed.\<close>

definition putProvisioning ::
    "env \<Rightarrow> ('o \<Rightarrow> bool) \<Rightarrow> bytes option \<Rightarrow> bytes \<Rightarrow> account \<Rightarrow> device \<Rightarrow> json \<Rightarrow> ('c, 'o, 'z, lpcint) provisioning_action" where
  "putProvisioning E alive ctxt address account device entity =
     abind (alift (jfield_str ''body'' entity)) (\<lambda>body.
     abind (aget (\<lambda>(p, s). getEndpoint alive address p)) (\<lambda>endpoint.
       case (body, endpoint) of
         (Some body, Some endpoint) \<Rightarrow>
           abind (alift (b64_decode (en_base64 E) body)) (\<lambda>message.
           athen (on_connection (aemit (Provisioning_message endpoint (Some message))))
             (on_connection (respondJsonOK E ctxt None)))
       | _ \<Rightarrow> on_connection (respond (en_http E) ctxt (en_http E HTTP_NOT_FOUND) None None None)))"

end
