(* ===== verification/DevicesSpec.thy ===== *)
theory DevicesSpec
  imports Devices "HOL-Library.Multiset"
begin

text \<open>
  Linking a device: a code that was issued is accepted once, and a device that was linked can log in.
\<close>

section \<open>Codes\<close>

text \<open>The requests for a code and those that present one, each at a time and on a connection of its own.\<close>

datatype 'o link_op =
    Issue clock "'o rest_server" lpcint "bytes option" account device
  | Link clock "'o rest_server" "bytes option" bytes "(bytes \<times> bytes) option" "bytes option" json

fun link_step ::
    "env \<Rightarrow> ('c, bytes timed, bytes timed) kvlib \<Rightarrow> 'o link_op \<Rightarrow> ('c, 'o) provisioning
      \<Rightarrow> ('c, 'o) provisioning \<times> 'o server_event list" where
  "link_step E KC (Issue clk conn random ctxt account device) p =
     (case getDevicesProvisioningCode (E\<lparr>en_clock := clk\<rparr>) KC random ctxt account device (p, conn) of
        (r, (p', conn'), ev) \<Rightarrow> (p', ev))"
| "link_step E KC (Link clk conn ctxt code authorization agent entity) p =
     (case putDevicesCode (E\<lparr>en_clock := clk\<rparr>) KC ctxt code authorization agent entity (p, conn) of
        (r, (p', conn'), ev) \<Rightarrow> (p', ev))"

text \<open>The codes issued for the number with the key \<open>num\<close>, and those with which its account was linked.\<close>

fun links :: "asn_lib \<Rightarrow> bytes \<Rightarrow> 'o server_event \<Rightarrow> bool" where
  "links A num (Call_out f ctxt (V j # vs)) \<longleftrightarrow> f = ''putDevicesCode2'' \<and> rbind (jstr j) (phoneToNum A) = Inr num"
| "links A num _ \<longleftrightarrow> False"

fun issued :: "asn_lib \<Rightarrow> bytes \<Rightarrow> 'o link_op \<Rightarrow> bytes list" where
  "issued A num (Issue clk conn random ctxt account device) =
     (if phoneToNum A (ac_phoneNumber account) = Inr num then [int_str (100000 + random)] else [])"
| "issued A num _ = []"

fun accepted :: "asn_lib \<Rightarrow> bytes \<Rightarrow> 'o link_op \<Rightarrow> 'o server_event list \<Rightarrow> bytes list" where
  "accepted A num (Link clk conn ctxt code authorization agent entity) ev =
     (if \<exists>x\<in>set ev. links A num x then [code] else [])"
| "accepted A num _ ev = []"

fun link_run ::
    "env \<Rightarrow> ('c, bytes timed, bytes timed) kvlib \<Rightarrow> bytes \<Rightarrow> 'o link_op list \<Rightarrow> ('c, 'o) provisioning
      \<Rightarrow> bytes list \<times> bytes list" where
  "link_run E KC num [] p = ([], [])"
| "link_run E KC num (op # ops) p =
     (let (p', ev) = link_step E KC op p;
          (is, as) = link_run E KC num ops p'
      in (issued (en_asn E) num op @ is, accepted (en_asn E) num op ev @ as))"

definition pending :: "('c \<Rightarrow> bytes \<Rightarrow> bytes timed option) \<Rightarrow> ('c, 'o) provisioning \<Rightarrow> bytes \<Rightarrow> bytes multiset" where
  "pending kv p num = (case kv (pv_codes p) num of Some (t, Some c) \<Rightarrow> {#c#} | _ \<Rightarrow> {#})"

lemma respond_links:
  assumes "respond H ctxt code type entity extra s = (r, t, ev)"
  shows "\<forall>x\<in>set ev. \<not> links A num x"
proof -
  have "ensures (logged (\<lambda>_. True) (sv_login s) (sv_password s)) (\<lambda>x. \<not> links A num x) (\<lambda>_. True)
      (respond H ctxt code type entity extra)"
    by (rule ensures_respond) (simp_all add: answers_def)
  from ensuresD(2) [OF this _ assms] show ?thesis by (simp add: logged_def)
qed

lemma on_respond:
  assumes "on_connection (respond H ctxt code type entity extra) (p, s) = (r, (p', s'), ev)"
  shows "p' = p \<and> (\<forall>x\<in>set ev. \<not> links A num x)"
  using assms respond_links [of H ctxt code type entity extra s]
  by (auto simp: on_connection_def split: prod.splits)

lemma getVerificationCode_Inr:
  assumes "expiring_store KC kv" "getVerificationCode A KC now phone p = Inr (Some c)"
  shows "\<exists>num t. phoneToNum A phone = Inr num \<and> kv (pv_codes p) num = Some (t, Some c)"
  using assms(2)
  by (cases "phoneToNum A phone") (auto simp: getVerificationCode_def expiring_store.exp_get [OF assms(1)] seen_def fresh_value_def
      bind_eq_Some_conv split: if_splits)

lemma putDevicesCode_cases:
  assumes "expiring_store KC kv"
    and "putDevicesCode E KC ctxt code authorization agent entity (p, s) = (r, (p', s'), ev)"
  shows "(p' = p \<and> (\<forall>num. \<forall>x\<in>set ev. \<not> links (en_asn E) num x))
    \<or> (\<exists>phone num t t' password. phoneToNum (en_asn E) phone = Inr num \<and> kv (pv_codes p) num = Some (t, Some code)
        \<and> kv (pv_codes p') = (kv (pv_codes p))(num \<mapsto> (t', None))
        \<and> ev = [Call_out ''putDevicesCode2'' ctxt [V (jopt phone), V (jopt password), V (jopt agent), V entity]])"
proof -
  note st = expiring_store.exp_set [OF assms(1)]
  define now where "now = fst (en_clock E)"
  let ?A = "en_asn E"
  let ?answer = "\<lambda>status. on_connection (respond (en_http E) ctxt (en_http E status) None None None)"
  have answer: "?thesis" if "?answer status (p, s) = (r, (p', s'), ev)" for status
    using on_respond [OF that] by blast
  show ?thesis
  proof (cases authorization)
    case None
    then show ?thesis using answer assms(2) by (auto simp: putDevicesCode_def Let_def)
  next
    case (Some a)
    obtain scheme cred0 where a: "authorization = Some (scheme, cred0)" using Some by (cases a) auto
    show ?thesis
    proof (cases "lower_case scheme = str ''basic''")
      case True
      show ?thesis
      proof (cases "b64_decode (en_base64 E) cred0")
        case (Inl e)
        then show ?thesis using assms(2) by (auto simp: putDevicesCode_def a True action_simps Let_def)
      next
        case (Inr cred)
        obtain phone password where sc: "scan_credentials cred = (phone, password)" by (cases "scan_credentials cred")
        show ?thesis
        proof (cases "getVerificationCode ?A KC now phone p")
          case (Inl e)
          then show ?thesis
            using assms(2) by (auto simp: putDevicesCode_def a True Inr sc action_simps now_def Let_def)
        next
          case g: (Inr stored)
          show ?thesis
          proof (cases "stored = Some code")
            case False
            then have "?answer HTTP_FORBIDDEN (p, s) = (r, (p', s'), ev)"
              using assms(2) g by (auto simp: putDevicesCode_def a True Inr sc action_simps now_def Let_def)
            then show ?thesis by (rule answer)
          next
            case c: True
            obtain num t where n: "phoneToNum ?A phone = Inr num" "kv (pv_codes p) num = Some (t, Some code)"
              using getVerificationCode_Inr [OF assms(1) g [unfolded c]] by blast
            have "p' = p\<lparr>pv_codes := exp_set KC PROV_DURATION now (pv_codes p) num None\<rparr>
              \<and> ev = [Call_out ''putDevicesCode2'' ctxt [V (jopt phone), V (jopt password), V (jopt agent), V entity]]"
              using assms(2) g c n(1)
              by (auto simp: putDevicesCode_def a True Inr sc action_simps now_def Let_def removeVerificationCode_def)
            then show ?thesis using n by (auto simp: st)
          qed
        qed
      qed
    next
      case False
      then show ?thesis using answer assms(2) by (auto simp: putDevicesCode_def a Let_def)
    qed
  qed
qed

lemma link_step_ok:
  assumes "expiring_store KC kv" "link_step E KC op p = (p', ev)"
  shows "mset (accepted (en_asn E) num op ev) + pending kv p' num \<subseteq># mset (issued (en_asn E) num op) + pending kv p num"
proof (cases op)
  case (Issue clk conn random ctxt account device)
  have "p' = p \<and> (\<forall>num. phoneToNum (en_asn E) (ac_phoneNumber account) \<noteq> Inr num)
    \<or> (\<exists>n. phoneToNum (en_asn E) (ac_phoneNumber account) = Inr n
        \<and> p' = p\<lparr>pv_codes := exp_set KC PROV_DURATION (fst clk) (pv_codes p) n (Some (int_str (100000 + random)))\<rparr>)"
    using assms(2) Issue
    by (cases "phoneToNum (en_asn E) (ac_phoneNumber account)")
      (auto simp: getDevicesProvisioningCode_def storeVerificationCode_def action_simps Let_def split: prod.splits)
  then show ?thesis
    by (auto simp: Issue pending_def expiring_store.exp_set [OF assms(1)])
next
  case (Link clk conn ctxt code authorization agent entity)
  obtain r s' where l: "putDevicesCode (E\<lparr>en_clock := clk\<rparr>) KC ctxt code authorization agent entity (p, conn) = (r, (p', s'), ev)"
    using assms(2) Link by (auto split: prod.splits)
  show ?thesis
    using putDevicesCode_cases [OF assms(1) l]
    by (auto simp: Link pending_def)
qed

lemma link_run_ok:
  assumes "expiring_store KC kv" "link_run E KC num ops p = (is, as)"
  shows "mset as \<subseteq># mset is + pending kv p num"
  using assms(2)
proof (induction ops arbitrary: p "is" as)
  case (Cons op ops)
  obtain p' ev where st: "link_step E KC op p = (p', ev)" by (cases "link_step E KC op p")
  obtain is' as' where r: "link_run E KC num ops p' = (is', as')" by (cases "link_run E KC num ops p'")
  have e: "is = issued (en_asn E) num op @ is'" "as = accepted (en_asn E) num op ev @ as'"
    using Cons.prems st r by simp_all
  have "mset as \<subseteq># mset (accepted (en_asn E) num op ev) + (mset is' + pending kv p' num)"
    unfolding e(2) mset_append using Cons.IH [OF r] by (rule subset_mset.add_left_mono)
  also have "\<dots> = mset is' + (mset (accepted (en_asn E) num op ev) + pending kv p' num)" by simp
  also have "\<dots> \<subseteq># mset is' + (mset (issued (en_asn E) num op) + pending kv p num)"
    using link_step_ok [OF assms(1) st] by (rule subset_mset.add_left_mono)
  finally show ?case by (simp add: e(1) ac_simps)
qed simp

section \<open>Devices that were linked\<close>

lemma link_device_keeps:
  "link_device agent entity d = Inr d' \<Longrightarrow> dv_id d' = dv_id d \<and> dv_authToken d' = dv_authToken d \<and> dv_salt d' = dv_salt d"
  by (auto simp: link_device_def device_update_def updateCapabilities_def Let_def)

lemma putDevicesCode2_Inr:
  assumes "putDevicesCode2 E KA KI random ctxt (Some phone) (Some pw) agent entity (srv, s) = (Inr u, (srv', s'), ev)"
    and "accounts_getByNumber (en_asn E) KA KI (Some phone) srv = Inr (Some account)" "ac_id account = Some i"
  obtains d where "link_device agent entity (Device (en_hex E) (en_hkdf E) random (en_clock E) (nextDeviceId account) pw) = Inr d"
    "srv' = accounts_modify KA i (addDevice d) srv"
proof -
  let ?d0 = "Device (en_hex E) (en_hkdf E) random (en_clock E) (nextDeviceId account) pw"
  show thesis
  proof (cases "link_device agent entity ?d0")
    case (Inl e)
    then show ?thesis
      using assms
      by (cases "uuid_encode (en_hex E) (Some i)")
        (auto simp: putDevicesCode2_def action_simps Let_def authenticate_def abind_def on_connection_def split: prod.splits sum.splits)
  next
    case (Inr d)
    have "srv' = accounts_modify KA i (addDevice d) srv"
      using assms Inr
      by (cases "uuid_encode (en_hex E) (Some i)")
        (auto simp: putDevicesCode2_def action_simps Let_def authenticate_def abind_def on_connection_def on_account_run
          split: prod.splits sum.splits)
    then show ?thesis using Inr by (rule that [rotated])
  qed
qed

section \<open>Properties\<close>

text \<open>
  C3. A code links at most one device: in any run of requests for codes and requests that present one,
  the requests for an account that were let through presented codes issued for its number, each no more
  often than it was issued.
\<close>

theorem link_code_once:
  assumes "kvstore KC kv" "link_run E KC num ops (provisioning_create KC) = (is, as)"
  shows "mset as \<subseteq># mset is"
proof -
  have st: "expiring_store KC kv" by (rule expiring_store.intro) (rule assms(1))
  show ?thesis
    using link_run_ok [OF st assms(2)] by (simp add: pending_def provisioning_create_def kvstore.new [OF assms(1)])
qed

text \<open>
  C4. A device that was linked gets the next unused ID of its account, leaves all other devices as they
  are, and can log in with the password that was sent with the code: a request with these credentials
  reaches its handler.
\<close>

theorem linked_device_logs_in:
  assumes "kvstore KA kva" "accounts_getByNumber (en_asn E) KA KI (Some phone) srv = Inr (Some account)"
    and "accounts_get KA i srv = Some account" "ac_id account = Some i"
    and "distinct (map fst (ac_devices account))" "length (ac_devices account) < 2 ^ 31"
    and "putDevicesCode2 E KA KI random ctxt (Some phone) (Some pw) agent entity (srv, s) = (Inr u, (srv', s'), ev)"
  shows "\<exists>account' d. accounts_get KA i srv' = Some account'
    \<and> account_device (nextDeviceId account) account = None
    \<and> (\<forall>e. e \<noteq> nextDeviceId account \<longrightarrow> account_device e account' = account_device e account)
    \<and> (\<forall>invoke ctxt args h. authCall (E\<lparr>en_accounts := \<lambda>i. accounts_get KA i srv'\<rparr>) invoke ctxt i (nextDeviceId account) (Some pw) args h
        = athen (aemit (Device_seen (set_device d account') d))
            (invoke (h_function h) ctxt (params h @ [V_account (set_device d account'), V_device d] @ args)))"
proof -
  let ?id = "nextDeviceId account"
  let ?d0 = "Device (en_hex E) (en_hkdf E) random (en_clock E) ?id pw"
  obtain d where d: "link_device agent entity ?d0 = Inr d" "srv' = accounts_modify KA i (addDevice d) srv"
    using putDevicesCode2_Inr [OF assms(7,2,4)] by blast
  note k = link_device_keeps [OF d(1)]
  have i: "dv_id d = ?id" using k by (simp add: Device_def Let_def hash_token_def setLastSeen_def)
  have "fst (verifyPassword (en_hex E) (en_hkdf E) (en_clock E) pw d)"
    using verify_same_token [of d ?d0] k verify_own_password by metis
  then obtain d' where v: "verifyPassword (en_hex E) (en_hkdf E) (en_clock E) pw d = (True, d')"
    by (cases "verifyPassword (en_hex E) (en_hkdf E) (en_clock E) pw d") simp
  let ?account = "addDevice d account"
  have a: "accounts_get KA i srv' = Some ?account"
    by (simp add: d(2) accounts_get_modify [OF assms(1)] assms(3))
  have dev: "account_device ?id ?account = Some d" "\<And>e. e \<noteq> ?id \<Longrightarrow> account_device e ?account = account_device e account"
    by (simp_all add: addDevice_def account_device_def AList.update_conv' i)
  have "authCall (E\<lparr>en_accounts := \<lambda>i. accounts_get KA i srv'\<rparr>) invoke ctxt i ?id (Some pw) args h
      = athen (aemit (Device_seen (set_device d' ?account) d'))
          (invoke (h_function h) ctxt (params h @ [V_account (set_device d' ?account), V_device d'] @ args))"
    for invoke ctxt args h
    by (subst authCall_def) (simp add: a dev(1) v Let_def)
  moreover have "account_device ?id account = None"
    using nextDeviceId_least_free [OF assms(5,6)] by blast
  ultimately show ?thesis using a dev(2) by blast
qed

section \<open>Sample runs\<close>

definition sample_basic :: "(bytes \<times> bytes) option" where
  "sample_basic = Some (str ''Basic'', sample_phone @ str '':'' @ [7])"

definition sample_linked :: account where
  "sample_linked = (Account (Some sample_phone) (Some (replicate 16 2)) sample_device)\<lparr>ac_id := Some (replicate 16 1)\<rparr>"

text \<open>A code is issued for the number of an account, accepted once, and refused the second time.\<close>

definition sample_code :: bytes where "sample_code = int_str (100000 + 23456)"

lemma sample_issue:
  assumes "phoneToNum std_asn_lib (Some sample_phone) = Inr num"
  shows "fst (link_step (sample_env (Api None []) (\<lambda>_. None)) std_kv
      (Issue (0, (0, 0)) sample_conn 23456 None sample_linked sample_device) (provisioning_create std_kv))
    = (provisioning_create std_kv)\<lparr>pv_codes := [num \<mapsto> (PROV_DURATION, Some sample_code)]\<rparr>"
  using assms unfolding link_step.simps getDevicesProvisioningCode_def sample_code_def [symmetric] Let_def
  by (simp add: sample_linked_def Account_def sample_env_def storeVerificationCode_def action_simps provisioning_create_def
      exp_set_def std_kv_def split: prod.split)

definition sample_link :: "nat link_op" where
  "sample_link = Link (9, (9, 0)) sample_conn None sample_code sample_basic None sample_attributes"

lemma sample_credentials:
  "lower_case (str ''Basic'') = str ''basic''" "scan_credentials (sample_phone @ str '':'' @ [7]) = (Some sample_phone, Some [7])"
  by code_simp+

lemma sample_accept:
  assumes "phoneToNum std_asn_lib (Some sample_phone) = Inr num" "pv_codes p = [num \<mapsto> (PROV_DURATION, Some sample_code)]"
  shows "\<exists>ev. link_step (sample_env (Api None []) (\<lambda>_. None)) std_kv sample_link p
      = (p\<lparr>pv_codes := [num \<mapsto> (9 + PROV_DURATION, None)]\<rparr>, ev)
    \<and> accepted std_asn_lib num sample_link ev = [sample_code]"
  using assms unfolding sample_link_def link_step.simps putDevicesCode_def sample_basic_def
  by (simp add: sample_credentials sample_env_def getVerificationCode_def removeVerificationCode_def
      action_simps Let_def exp_get_def exp_set_def exp_keyValue_def std_kv_def PROV_DURATION_def jopt_def jstr_def)

lemma sample_refuse:
  assumes "phoneToNum std_asn_lib (Some sample_phone) = Inr num" "pv_codes p = [num \<mapsto> (9 + PROV_DURATION, None)]"
  shows "\<exists>ev. link_step (sample_env (Api None []) (\<lambda>_. None)) std_kv sample_link p = (p, ev)
    \<and> accepted std_asn_lib num sample_link ev = []"
proof -
  let ?answer = "on_connection (respond (en_http (sample_env (Api None []) (\<lambda>_. None))) None
    (en_http (sample_env (Api None []) (\<lambda>_. None)) HTTP_FORBIDDEN) None None None) (p, sample_conn)"
  obtain r p' s' ev where a: "?answer = (r, (p', s'), ev)" by (cases ?answer) auto
  note on = on_respond [OF a, of std_asn_lib num]
  have "link_step (sample_env (Api None []) (\<lambda>_. None)) std_kv sample_link p = (p', ev)"
    using assms a unfolding sample_link_def link_step.simps putDevicesCode_def sample_basic_def
    by (simp add: sample_credentials sample_env_def getVerificationCode_def action_simps Let_def exp_get_def exp_keyValue_def
        std_kv_def PROV_DURATION_def)
  then show ?thesis using on by (auto simp: sample_link_def)
qed

definition sample_links :: "nat link_op list" where
  "sample_links = [Issue (0, (0, 0)) sample_conn 23456 None sample_linked sample_device, sample_link, sample_link]"

lemma sample_links_run:
  assumes num: "phoneToNum std_asn_lib (Some sample_phone) = Inr num"
  shows "link_run (sample_env (Api None []) (\<lambda>_. None)) std_kv num sample_links (provisioning_create std_kv)
    = ([sample_code], [sample_code])"
proof -
  let ?E = "sample_env (Api None []) (\<lambda>_. None)" and ?p = "provisioning_create std_kv"
  let ?issue = "Issue (0, (0, 0)) sample_conn 23456 None sample_linked sample_device"
  let ?p1 = "?p\<lparr>pv_codes := [num \<mapsto> (PROV_DURATION, Some sample_code)]\<rparr>"
  obtain ev1 where 1: "link_step ?E std_kv ?issue ?p = (?p1, ev1)"
    using sample_issue [OF num] by (metis prod.collapse)
  obtain ev2 where 2: "link_step ?E std_kv sample_link ?p1 = (?p1\<lparr>pv_codes := [num \<mapsto> (9 + PROV_DURATION, None)]\<rparr>, ev2)"
    "accepted std_asn_lib num sample_link ev2 = [sample_code]"
    using sample_accept [OF num, of ?p1] by auto
  obtain ev3 where 3: "link_step ?E std_kv sample_link (?p1\<lparr>pv_codes := [num \<mapsto> (9 + PROV_DURATION, None)]\<rparr>)
      = (?p1\<lparr>pv_codes := [num \<mapsto> (9 + PROV_DURATION, None)]\<rparr>, ev3)" "accepted std_asn_lib num sample_link ev3 = []"
    using sample_refuse [OF num, of "?p1\<lparr>pv_codes := [num \<mapsto> (9 + PROV_DURATION, None)]\<rparr>"] by auto
  have A: "en_asn ?E = std_asn_lib" by (simp add: sample_env_def)
  have "issued std_asn_lib num ?issue = [sample_code]" "issued std_asn_lib num sample_link = []"
    unfolding issued.simps sample_link_def sample_code_def [symmetric] by (simp_all add: sample_linked_def Account_def num)
  then show ?thesis
    unfolding sample_links_def link_run.simps 1 2(1) 3(1) Let_def prod.case A accepted.simps(2) 2(2) 3(2) by simp
qed

theorem link_code_once_witness:
  "\<exists>num. phoneToNum std_asn_lib (Some sample_phone) = Inr num
    \<and> link_run (sample_env (Api None []) (\<lambda>_. None)) std_kv num sample_links (provisioning_create std_kv)
        = ([sample_code], [sample_code])
    \<and> mset [sample_code] \<subseteq># mset [sample_code]"
proof -
  obtain num where num: "phoneToNum std_asn_lib (Some sample_phone) = Inr num" using sample_num by blast
  show ?thesis
    by (rule exI [of _ num], intro conjI num sample_links_run [OF num]
        link_code_once [OF std_kv.kvstore_axioms sample_links_run [OF num]])
qed

theorem linked_device_logs_in_witness:
  "\<exists>srv srv' s' ev account'.
     accounts_getByNumber std_asn_lib std_kv std_kv (Some sample_phone) srv = Inr (Some sample_linked)
   \<and> putDevicesCode2 (sample_env (Api None []) (\<lambda>_. None)) std_kv std_kv [] None (Some sample_phone) (Some [7]) None sample_attributes
       (srv, sample_conn) = (Inr (), (srv', s'), ev)
   \<and> accounts_get std_kv (replicate 16 1) srv' = Some account'
   \<and> account_device 1 account' = Some sample_device"
proof -
  let ?E = "sample_env (Api None []) (\<lambda>_. None)"
  obtain num where num: "phoneToNum std_asn_lib (Some sample_phone) = Inr num" using sample_num by blast
  define srv :: "(bytes \<rightharpoonup> account, bytes \<rightharpoonup> bytes) account_server" where "srv = \<lparr>as_accounts = [replicate 16 1 \<mapsto> sample_linked], as_phoneIndex = [num \<mapsto> replicate 16 1],
    as_usernameIndex = Map.empty, as_version = 1\<rparr>"
  have i: "ac_id sample_linked = Some (replicate 16 1)" and d: "ac_devices sample_linked = [(1, sample_device)]"
    by (simp_all add: sample_linked_def Account_def)
  have by_number: "accounts_getByNumber (en_asn ?E) std_kv std_kv (Some sample_phone) srv = Inr (Some sample_linked)"
    by (simp add: srv_def accounts_getByNumber_def sample_env_def num accounts_get_def std_get)
  have by_id: "accounts_get std_kv (replicate 16 1) srv = Some sample_linked"
    by (simp add: srv_def accounts_get_def std_get)
  have "\<exists>srv' s' ev. putDevicesCode2 ?E std_kv std_kv [] None (Some sample_phone) (Some [7]) None sample_attributes
       (srv, sample_conn) = (Inr (), (srv', s'), ev)"
  proof -
    obtain u1 u2 where u: "uuid_encode std_hex (Some (replicate 16 1)) = Inr u1" "uuid_encode std_hex (Some (replicate 16 2)) = Inr u2"
      using uuid_decode_encode [OF std_hex.hex_library_axioms] by (metis length_replicate)
    have E: "en_hex ?E = std_hex" by (simp add: sample_env_def)
    have pni: "ac_pni sample_linked = Some (replicate 16 2)" by (simp add: sample_linked_def Account_def)
    have "\<exists>d'. link_device None sample_attributes d = Inr d'" for d
      by (simp add: link_device_def link_capabilities_def sample_attributes_def jobj_def jfield_int_def jfield_str_def
          jfield_def jint_def jstr_def Let_def)
    then obtain d' where link: "link_device None sample_attributes
      (Device (en_hex ?E) (en_hkdf ?E) [] (en_clock ?E) (nextDeviceId sample_linked) [7]) = Inr d'" by blast
    have "\<exists>t ev. respondJson ?E None (en_http ?E HTTP_OK) j None (sample_conn\<lparr>sv_login := l, sv_password := p\<rparr>)
        = (Inr (en_http ?E HTTP_OK), t, ev)" for j l p
      by (simp add: respondJson_def respond_def httpRespond_def connection_call_def action_simps abind_assoc sample_conn_def)
    then obtain t ev where answer: "respondJson ?E None (en_http ?E HTTP_OK) (jobj [(''uuid'', JStr u1), (''pni'', JStr u2),
        (''deviceId'', JInt (nextDeviceId sample_linked))]) None
        (sample_conn\<lparr>sv_login := Some (u1 @ str ''.'' @ int_str (nextDeviceId sample_linked)), sv_password := Some [7]\<rparr>)
        = (Inr (en_http ?E HTTP_OK), t, ev)" by blast
    show ?thesis
      using link answer
      by (simp add: putDevicesCode2_def by_number action_simps i E u Let_def authenticate_def abind_on_connection
          abind_on_account pni)
  qed
  then obtain srv' s' ev where run: "putDevicesCode2 ?E std_kv std_kv [] None (Some sample_phone) (Some [7]) None sample_attributes
       (srv, sample_conn) = (Inr (), (srv', s'), ev)" by blast
  have two: "nextDeviceId sample_linked \<noteq> 1"
    by (simp add: nextDeviceId_def d account_device_def)
  show ?thesis
    using linked_device_logs_in [OF std_kv.kvstore_axioms by_number by_id i _ _ run] by_number run two
    by (auto simp: d account_device_def sample_env_def)
qed

end
