(* ===== verification/Profiles.thy ===== *)
theory Profiles
  imports Handlers CredentialServer
begin

text \<open>
  Profiles (\<^verbatim>\<open>src/services/lib/chat/Profile.c\<close>): an account uploads a profile under a version, and others
  fetch what the account shows to everybody, the profile of a version, and a credential for its key.

  \<open>KP\<close> is the tree of the profiles, which are objects that the server makes when they are first asked for.
\<close>

definition B32 :: bytes where
  "B32 = replicate 32 0"

section \<open>Responses\<close>

definition base_fields :: "env \<Rightarrow> zlib \<Rightarrow> account \<Rightarrow> bytes option \<Rightarrow> (string \<times> json) list result" where
  "base_fields E Z account uuid =
     rbind (need (account_device 1 account)) (\<lambda>device.
       let ua = map_option (\<lambda>k. b64_encode (en_base64 E) (z_hmac Z k B32 ''SHA256'')) (ac_unidentifiedAccessKey account)
       in Inr [(''identityKey'', jopt (ac_identityKey account)),
               (''unidentifiedAccess'', jopt ua),
               (''unrestrictedUnidentifiedAccess'', JInt (account_flag UNRESTRICTED_ACCESS account)),
               (''capabilities'', jobj
                  [(''gv1-migration'', JInt 1),
                   (''senderKey'', JInt (capability SENDER_KEY device)),
                   (''announcementGroup'', JInt (capability ANNOUNCEMENT_GROUP device)),
                   (''changeNumber'', JInt (capability CHANGE_NUMBER device)),
                   (''stories'', JInt (capability STORIES device)),
                   (''giftBadges'', JInt (capability GIFT_BADGES device)),
                   (''paymentActivation'', JInt 0),
                   (''pni'', JInt (capability PNI device))]),
               (''badges'', JArr []),
               (''uuid'', jopt uuid)])"

definition versioned_fields :: "profile \<Rightarrow> (string \<times> json) list" where
  "versioned_fields p =
     [(''name'', jopt (pf_name p)), (''about'', jopt (pf_about p)), (''aboutEmoji'', jopt (pf_aboutEmoji p)),
      (''avatar'', jopt (pf_avatar p)), (''paymentAddress'', jopt (pf_paymentAddress p))]"

section \<open>Upload\<close>

definition putProfile ::
    "bytes option \<Rightarrow> account \<Rightarrow> device \<Rightarrow> json \<Rightarrow> (('o, 'z) rest_server_scheme, 'o server_event, unit) action" where
  "putProfile ctxt account device entity =
     aemit (Call_out ''putProfile2'' ctxt [V (jopt (ac_id account)), V entity])"

definition read_profile :: "base64_lib \<Rightarrow> json \<Rightarrow> (profile \<Rightarrow> profile) result" where
  "read_profile B entity =
     rbind (jfield_str ''name'' entity) (\<lambda>name.
     rbind (jfield_str ''aboutEmoji'' entity) (\<lambda>aboutEmoji.
     rbind (jfield_str ''about'' entity) (\<lambda>about.
     rbind (jfield_str ''paymentAddress'' entity) (\<lambda>paymentAddress.
     rbind (rbind (rbind (jfield_str ''commitment'' entity) need) (b64_decode B)) (\<lambda>commitment.
       Inr (profile_update name None aboutEmoji about paymentAddress (Some commitment)))))))"

definition putProfile2 ::
    "env \<Rightarrow> ('p, profile, profile) kvlib \<Rightarrow> bytes option \<Rightarrow> json \<Rightarrow> ('p, 'e, unit) action" where
  "putProfile2 E KP accountId entity =
     abind (alift (rbind (rbind (jfield_str ''version'' entity) need) (hex_decode (en_hex E)))) (\<lambda>version.
     abind (alift (need accountId)) (\<lambda>accountId.
     abind (on_store (\<lambda>profiles. Inr (profiles_get KP accountId version profiles))) (\<lambda>profile.
     abind (alift (read_profile (en_base64 E) entity)) (\<lambda>update.
       amod (\<lambda>profiles. kv_modify KP profiles (version @ accountId) update)))))"

section \<open>What everybody sees\<close>

definition getProfile ::
    "bytes option \<Rightarrow> bytes option \<Rightarrow> account option \<Rightarrow> device option \<Rightarrow> bytes option
      \<Rightarrow> (('o, 'z) rest_server_scheme, 'o server_event, lpcint) action" where
  "getProfile ctxt uuid account device accessKey =
     athen (aemit (Call_out ''getProfile2'' ctxt [V (jopt uuid)])) (aret 0)"

definition getProfile2 ::
    "env \<Rightarrow> zlib \<Rightarrow> ('a, account, account) kvlib \<Rightarrow> ('a, 'i) account_server \<Rightarrow> bytes option \<Rightarrow> json result" where
  "getProfile2 E Z KA srv uuid =
     rbind (uuid_decode (en_hex E) uuid) (\<lambda>accountId.
     rbind (need (accounts_get KA accountId srv)) (\<lambda>account.
       rmap jobj (base_fields E Z account uuid)))"

section \<open>The profile of a version\<close>

definition getVersionedProfile ::
    "bytes option \<Rightarrow> bytes option \<Rightarrow> bytes option \<Rightarrow> account option \<Rightarrow> device option \<Rightarrow> bytes option
      \<Rightarrow> (('o, 'z) rest_server_scheme, 'o server_event, lpcint) action" where
  "getVersionedProfile ctxt uuid version account device accessKey =
     athen (aemit (Call_out ''getVersionedProfile2'' ctxt [V (jopt uuid), V (jopt version)])) (aret 0)"

text \<open>The account, its ID and the profile of a version, as two handlers start.\<close>

definition profile_of ::
    "env \<Rightarrow> ('a, account, account) kvlib \<Rightarrow> ('p, profile, profile) kvlib \<Rightarrow> ('a, 'i) account_server
      \<Rightarrow> bytes option \<Rightarrow> bytes option \<Rightarrow> ('p, 'e, bytes \<times> account option \<times> profile) action" where
  "profile_of E KA KP srv uuid version =
     abind (alift (uuid_decode (en_hex E) uuid)) (\<lambda>accountId.
     abind (alift (rbind (need version) (hex_decode (en_hex E)))) (\<lambda>version.
     abind (on_store (\<lambda>profiles. Inr (profiles_get KP accountId version profiles))) (\<lambda>profile.
       aret (accountId, accounts_get KA accountId srv, profile))))"

definition getVersionedProfile2 ::
    "env \<Rightarrow> zlib \<Rightarrow> ('a, account, account) kvlib \<Rightarrow> ('p, profile, profile) kvlib \<Rightarrow> ('a, 'i) account_server
      \<Rightarrow> bytes option \<Rightarrow> bytes option \<Rightarrow> ('p, 'e, json) action" where
  "getVersionedProfile2 E Z KA KP srv uuid version =
     abind (profile_of E KA KP srv uuid version) (\<lambda>(accountId, account, profile).
     abind (alift (rbind (need account) (\<lambda>account. base_fields E Z account uuid))) (\<lambda>fields.
       aret (jobj (fields @ versioned_fields profile))))"

section \<open>Credentials\<close>

definition EXPIRING :: bytes where
  "EXPIRING = str ''?credentialType=expiringProfileKey''"

definition getProfileKeyCredential ::
    "env \<Rightarrow> bytes option \<Rightarrow> bytes option \<Rightarrow> bytes option \<Rightarrow> bytes \<Rightarrow> account option \<Rightarrow> device option \<Rightarrow> bytes option
      \<Rightarrow> (('o, 'z) rest_server_scheme, 'o server_event, lpcint) action" where
  "getProfileKeyCredential E ctxt uuid version credentialRequest account device accessKey =
     (case scan_upto EXPIRING credentialRequest of
        None \<Rightarrow> respond (en_http E) ctxt (en_http E HTTP_BAD_REQUEST) None None None
      | Some (credentialRequest, r) \<Rightarrow>
          abind (alift (hex_decode (en_hex E) credentialRequest)) (\<lambda>credentialRequest.
          athen (aemit (Call_out ''getProfileKeyCredential2'' ctxt [V (jopt uuid), V (jopt version), V (JStr credentialRequest)]))
            (aret 0)))"

text \<open>\<open>random\<close> is the value of \<open>secure_random(32)\<close>, \<open>key\<close> the key of the credentials server for these credentials.\<close>

definition getProfileKeyCredential2 ::
    "env \<Rightarrow> zlib \<Rightarrow> key_pair \<Rightarrow> bytes \<Rightarrow> ('a, account, account) kvlib \<Rightarrow> ('p, profile, profile) kvlib
      \<Rightarrow> ('a, 'i) account_server \<Rightarrow> bytes option \<Rightarrow> bytes option \<Rightarrow> bytes \<Rightarrow> ('p, 'e, json) action" where
  "getProfileKeyCredential2 E Z key random KA KP srv uuid version credentialRequest =
     abind (profile_of E KA KP srv uuid version) (\<lambda>(accountId, account, profile).
     abind (alift (rbind (need (pf_commitment profile)) RemoteProfileKeyCommitment)) (\<lambda>commitment.
     abind (alift (RemoteProfileKeyCredentialRequest Z commitment credentialRequest)) (\<lambda>request.
     abind (alift (ProfileKeyCredentialResponse Z key request accountId (timeDay (fst (en_clock E)) + 7 * 86400) random)) (\<lambda>response.
     abind (alift (rbind (need account) (\<lambda>account. base_fields E Z account uuid))) (\<lambda>fields.
       aret (jobj (fields @ versioned_fields profile
         @ [(''credential'', JStr (b64_encode (en_base64 E) (profile_transport Z response)))])))))))"

section \<open>Properties\<close>

definition profile_entity :: "bytes \<Rightarrow> profile \<Rightarrow> bytes \<Rightarrow> json" where
  "profile_entity version p commitment =
     jobj [(''version'', JStr version), (''name'', jopt (pf_name p)), (''about'', jopt (pf_about p)),
           (''aboutEmoji'', jopt (pf_aboutEmoji p)), (''paymentAddress'', jopt (pf_paymentAddress p)),
           (''commitment'', JStr commitment)]"

lemma read_profile_entity:
  "jfield_str ''version'' (profile_entity v p c) = Inr (Some v)"
  "b64_decode B c = Inr c' \<Longrightarrow> read_profile B (profile_entity v p c) =
     Inr (profile_update (pf_name p) None (pf_aboutEmoji p) (pf_about p) (pf_paymentAddress p) (Some c'))"
  by (simp_all add: profile_entity_def read_profile_def jfield_str_def jfield_def jobj_def)

lemma versioned_fields_update:
  "versioned_fields (profile_update n a e b y c p) =
     [(''name'', jopt n), (''about'', jopt b), (''aboutEmoji'', jopt e), (''avatar'', jopt a), (''paymentAddress'', jopt y)]"
  by (simp add: versioned_fields_def profile_update_def)

text \<open>The profile under a key, as it is or as it would be made.\<close>

lemma profiles_get_kv:
  assumes "kvstore KP kv"
  shows "fst (profiles_get KP i v ps) = (case kv ps (v @ i) of Some p \<Rightarrow> p | None \<Rightarrow> Profile v)"
    "kv (snd (profiles_get KP i v ps)) = (kv ps)(v @ i \<mapsto> fst (profiles_get KP i v ps))"
  by (auto simp: profiles_get_def Let_def kvstore.get [OF assms] kvstore.set [OF assms] split: option.split)

lemma putProfile2_run:
  assumes "hex_decode (en_hex E) v = Inr version" "b64_decode (en_base64 E) c = Inr c'"
  shows "putProfile2 E KP (Some i) (profile_entity v p c) ps = (Inr (), kv_modify KP (snd (profiles_get KP i version ps)) (version @ i)
      (profile_update (pf_name p) None (pf_aboutEmoji p) (pf_about p) (pf_paymentAddress p) (Some c')), [])"
  using assms by (simp add: putProfile2_def read_profile_entity action_simps split: prod.split)

lemma profile_of_run:
  assumes "uuid_decode (en_hex E) uuid = Inr i" "hex_decode (en_hex E) v = Inr version"
  shows "profile_of E KA KP srv uuid (Some v) ps =
    (Inr (i, accounts_get KA i srv, fst (profiles_get KP i version ps)), snd (profiles_get KP i version ps), [])"
  using assms by (simp add: profile_of_def action_simps split: prod.split)

lemma getVersionedProfile2_run:
  assumes "uuid_decode (en_hex E) uuid = Inr i" "hex_decode (en_hex E) v = Inr version"
    and "accounts_get KA i srv = Some account" "base_fields E Z account uuid = Inr base"
    and "profiles_get KP i version ps = (q, ps')"
  shows "getVersionedProfile2 E Z KA KP srv uuid (Some v) ps = (Inr (jobj (base @ versioned_fields q)), ps', [])"
  using assms(3-5) by (simp add: getVersionedProfile2_def abind_def profile_of_run [OF assms(1,2)] alift_def aret_def)

text \<open>
  C26.  A profile that was uploaded under a version is what is returned for that version, next to what
  the account shows to everybody, and the profiles of all other versions and accounts stay as they are.
\<close>

theorem profile_read_back:
  assumes "kvstore KP kv" "uuid_decode (en_hex E) uuid = Inr i" "hex_decode (en_hex E) v = Inr version"
    and "b64_decode (en_base64 E) c = Inr c'" "accounts_get KA i srv = Some account"
    and "account_device 1 account \<noteq> None"
  shows "\<exists>ps' base. putProfile2 E KP (Some i) (profile_entity v p c) ps = (Inr (), ps', [])
    \<and> base_fields E Z account uuid = Inr base
    \<and> getVersionedProfile2 E Z KA KP srv uuid (Some v) ps' = (Inr (jobj (base @
          [(''name'', jopt (pf_name p)), (''about'', jopt (pf_about p)), (''aboutEmoji'', jopt (pf_aboutEmoji p)),
           (''avatar'', JNil), (''paymentAddress'', jopt (pf_paymentAddress p))])), ps', [])
    \<and> pf_commitment (fst (profiles_get KP i version ps')) = Some c'
    \<and> (\<forall>j w. length j = length i \<and> (j, w) \<noteq> (i, version) \<longrightarrow> fst (profiles_get KP j w ps') = fst (profiles_get KP j w ps))"
proof -
  let ?f = "profile_update (pf_name p) None (pf_aboutEmoji p) (pf_about p) (pf_paymentAddress p) (Some c')"
  define ps' where "ps' = kv_modify KP (snd (profiles_get KP i version ps)) (version @ i) ?f"
  define q where "q = fst (profiles_get KP i version ps)"
  have kv': "kv ps' = (kv ps)(version @ i \<mapsto> ?f q)"
    by (simp add: ps'_def q_def kvstore.modify [OF assms(1)] profiles_get_kv(2) [OF assms(1)])
  have get: "profiles_get KP i version ps' = (?f q, ps')"
    by (simp add: profiles_get_def Let_def kvstore.get [OF assms(1)] kv')
  have other: "fst (profiles_get KP j w ps') = fst (profiles_get KP j w ps)"
    if "length j = length i \<and> (j, w) \<noteq> (i, version)" for j w
    using that by (auto simp: profiles_get_kv(1) [OF assms(1)] kv')
  obtain base where base: "base_fields E Z account uuid = Inr base"
    using assms(6) by (auto simp: base_fields_def Let_def)
  have nil: "jopt None = JNil" by (simp add: jopt_def)
  have c: "pf_commitment (?f q) = Some c'" by (simp add: profile_update_def)
  show ?thesis
    by (rule exI [of _ ps'], rule exI [of _ base])
      (use other in \<open>simp add: putProfile2_run [OF assms(3,4)] ps'_def [symmetric] base
         getVersionedProfile2_run [OF assms(2,3,5) base get] versioned_fields_update nil get c\<close>)
qed

theorem profile_read_back_witness:
  "\<exists>u ps' base. putProfile2 (sample_env (Api None []) (\<lambda>_. None)) std_kv (Some (replicate 16 7)) (profile_entity [] (Profile []\<lparr>pf_name := Some [7]\<rparr>) [9])
       (profiles_create std_kv) = (Inr (), ps', [] :: nat server_event list)
    \<and> getVersionedProfile2 (sample_env (Api None []) (\<lambda>_. None)) std_zlib std_kv std_kv
        (sample_accounts\<lparr>as_accounts := [replicate 16 7 \<mapsto> sample_owner]\<rparr>) (Some u) (Some []) ps'
       = (Inr (jobj (base @ [(''name'', JStr [7]), (''about'', JNil), (''aboutEmoji'', JNil), (''avatar'', JNil), (''paymentAddress'', JNil)])),
          ps', [] :: nat server_event list)"
proof -
  let ?E = "sample_env (Api None []) (\<lambda>_. None)"
  obtain u where "uuid_decode std_hex (Some u) = Inr (replicate 16 7)"
    using uuid_decode_encode [OF std_hex.hex_library_axioms] by (metis length_replicate)
  then have u: "uuid_decode (en_hex ?E) (Some u) = Inr (replicate 16 7)" by (simp add: sample_env_def)
  have v: "hex_decode (en_hex ?E) [] = Inr []" by (simp add: sample_env_def std_hex_def)
  have c: "b64_decode (en_base64 ?E) [9] = Inr [9]" by (simp add: sample_env_def)
  have a: "accounts_get std_kv (replicate 16 7) (sample_accounts\<lparr>as_accounts := [replicate 16 7 \<mapsto> sample_owner]\<rparr>) = Some sample_owner"
    by (simp add: accounts_get_def std_get)
  have j: "jopt (Some [7]) = JStr [7]" "jopt None = JNil" by (simp_all add: jopt_def)
  have d: "account_device 1 sample_owner \<noteq> None" by simp
  obtain ps' base where "putProfile2 ?E std_kv (Some (replicate 16 7)) (profile_entity [] (Profile []\<lparr>pf_name := Some [7]\<rparr>) [9])
       (profiles_create std_kv) = (Inr (), ps', [] :: nat server_event list)"
    "getVersionedProfile2 ?E std_zlib std_kv std_kv (sample_accounts\<lparr>as_accounts := [replicate 16 7 \<mapsto> sample_owner]\<rparr>) (Some u) (Some []) ps'
       = (Inr (jobj (base @ [(''name'', JStr [7]), (''about'', JNil), (''aboutEmoji'', JNil), (''avatar'', JNil), (''paymentAddress'', JNil)])),
          ps', [] :: nat server_event list)"
    using profile_read_back [OF std_kv.kvstore_axioms u v c a d, of "Profile []\<lparr>pf_name := Some [7]\<rparr>" "profiles_create std_kv" std_zlib]
    by (auto simp: Profile_def j)
  then show ?thesis by blast
qed

end
