(* ===== verification/CallLink.thy ===== *)
theory CallLink
  imports CredentialsSpec
begin

text \<open>
  The proof of a \<open>CallLinkAuthCredentialResponse\<close> (\<^verbatim>\<open>src/lib/protocol/CallLinkAuthCredentialResponse.c\<close>).
  Its statement has three attributes.  The key of the credentials server (\<^verbatim>\<open>src/sys/credentials.c\<close>) is made
  for seven, so its point \<open>I\<close> is not the one the statement speaks of; a key made for three is.
  What \<open>verify\<close> makes of the proof follows from \<open>verify_of_prove\<close>: it compares two challenges, of commitments
  that differ by what the statement lacks.  \<open>echo_zlib\<close> is an instance in which they are different.
\<close>

definition calllink_eqs :: "equation list" where
  "calllink_eqs =
    [(''C_W'', [(''w'', ''G_w''), (''wprime'', ''G_wprime'')]),
     (''G_V-I'', [(''x0'', ''G_x0''), (''x1'', ''G_x1''), (''y0'', ''G_y0''), (''y1'', ''G_y1''), (''y2'', ''G_y2'')]),
     (''V'', [(''w'', ''G_w''), (''x0'', ''U''), (''x1'', ''tU''), (''y0'', ''M0''), (''y1'', ''M1''), (''y2'', ''M2'')])]"

lemma calllink_build: "add_all calllink_equations Statement = build calllink_eqs Statement"
  by (simp only: add_all_build [symmetric]) (simp add: calllink_equations_def calllink_eqs_def)

lemma calllink_statement:
  obtains st where "build calllink_eqs Statement = Inr st"
    "scalars st = [''w'', ''wprime'', ''x0'', ''x1'', ''y0'', ''y1'', ''y2'']"
    "points st = [''G'', ''C_W'', ''G_w'', ''G_wprime'', ''G_V-I'', ''G_x0'', ''G_x1'', ''G_y0'', ''G_y1'', ''G_y2'',
       ''V'', ''U'', ''tU'', ''M0'', ''M1'', ''M2'']"
proof -
  have "rmap (\<lambda>st. (scalars st, points st)) (build calllink_eqs Statement)
    = Inr ([''w'', ''wprime'', ''x0'', ''x1'', ''y0'', ''y1'', ''y2''],
      [''G'', ''C_W'', ''G_w'', ''G_wprime'', ''G_V-I'', ''G_x0'', ''G_x1'', ''G_y0'', ''G_y1'', ''G_y2'',
       ''V'', ''U'', ''tU'', ''M0'', ''M1'', ''M2''])"
    by code_simp
  then show thesis using that by (cases "build calllink_eqs Statement") auto
qed

text \<open>The arguments, for a key with seven scalars of which \<open>n\<close> are in its point \<open>I\<close>.\<close>

definition link_sargs :: "key_pair \<Rightarrow> scalar_args" where
  "link_sargs key =
     [(''w'', kp_w key), (''wprime'', kp_wprime key), (''x0'', kp_x0 key), (''x1'', kp_x1 key),
      (''y0'', kp_y key ! 0), (''y1'', kp_y key ! 1), (''y2'', kp_y key ! 2)]"

definition link_pargs :: "zlib \<Rightarrow> point list \<Rightarrow> key_pair \<Rightarrow> scalar \<Rightarrow> point \<Rightarrow> point \<Rightarrow> point list \<Rightarrow> point_args" where
  "link_pargs Z params key t U V M =
     [(''C_W'', kp_C_W key), (''G_w'', params ! 0), (''G_wprime'', params ! 1),
      (''G_V-I'', point_sub Z (params ! 15) (kp_I key)),
      (''G_x0'', params ! 2), (''G_x1'', params ! 3), (''G_y0'', params ! 4), (''G_y1'', params ! 5), (''G_y2'', params ! 6),
      (''V'', V), (''U'', U), (''tU'', point_mult Z U t), (''M0'', M ! 0), (''M1'', M ! 1), (''M2'', M ! 2)]"

lemma upt3: "[0..<3] = [0, 1, 2]" and upt7: "[0..<7] = [0, 1, 2, 3, 4, 5, 6]"
  by (simp_all add: upt_rec)

text \<open>The part of \<open>I\<close> that the statement leaves out.\<close>

definition link_rest :: "(point \<Rightarrow> int) \<Rightarrow> point list \<Rightarrow> key_pair \<Rightarrow> int" where
  "link_rest dlog params key = (\<Sum>i\<leftarrow>[3, 4, 5, 6]. dlog (params ! (4 + i)) * asn_val (kp_y key ! i))"

context zkp_library begin

lemma link_args:
  assumes "key_ok params 7 n key" "length params = 17" "length M = 3"
  shows "calllink_scalars key = Inr (link_sargs key)"
    "calllink_points Z params key t U V M = Inr (link_pargs Z params key t U V M)"
  using assms by (simp_all add: key_ok_def calllink_scalars_def calllink_points_def link_sargs_def link_pargs_def cred_defs)

lemma link_args_ok:
  assumes "key_ok params 7 n key" "length params = 17" "\<forall>p\<in>set params. valid p"
    "scalar_ok t" "valid U" "valid V" "length M = 3" "\<forall>m\<in>set M. valid m"
    and st: "scalars st = [''w'', ''wprime'', ''x0'', ''x1'', ''y0'', ''y1'', ''y2'']"
    "points st = [''G'', ''C_W'', ''G_w'', ''G_wprime'', ''G_V-I'', ''G_x0'', ''G_x1'', ''G_y0'', ''G_y1'', ''G_y2'',
       ''V'', ''U'', ''tU'', ''M0'', ''M1'', ''M2'']"
  shows "length (link_sargs key) = length (scalars st)"
    "\<forall>n\<in>set (scalars st). \<exists>a. map_of (link_sargs key) n = Some a \<and> scalar_ok a"
    "length (AList.update ''G'' (r_base Z) (link_pargs Z params key t U V M)) = length (points st)"
    "\<forall>n\<in>set (points st). n \<noteq> ''G'' \<longrightarrow> (\<exists>p. map_of (link_pargs Z params key t U V M) n = Some p \<and> valid p)"
proof -
  note key = assms(1) [unfolded key_ok_def]
  have y: "length (kp_y key) = 7" "\<And>i. i < 7 \<Longrightarrow> scalar_ok (kp_y key ! i)" using key by auto
  have g: "\<And>i. i < 17 \<Longrightarrow> valid (params ! i)" using assms(2,3) by simp
  have m: "\<And>i. i < 3 \<Longrightarrow> valid (M ! i)" using assms(7,8) by simp
  show "length (link_sargs key) = length (scalars st)" by (simp add: link_sargs_def st)
  show "\<forall>n\<in>set (scalars st). \<exists>a. map_of (link_sargs key) n = Some a \<and> scalar_ok a"
    using key y(2) unfolding st(1) by (simp add: link_sargs_def)
  show "length (AList.update ''G'' (r_base Z) (link_pargs Z params key t U V M)) = length (points st)"
    by (simp add: link_pargs_def st)
  show "\<forall>n\<in>set (points st). n \<noteq> ''G'' \<longrightarrow> (\<exists>p. map_of (link_pargs Z params key t U V M) n = Some p \<and> valid p)"
    using key g m assms(4-6) unfolding st(2) by (simp add: link_pargs_def)
qed

lemma link_holds:
  assumes "key_ok params 7 n key" "length params = 17" "\<forall>p\<in>set params. valid p"
    "scalar_ok t" "valid U" "valid V" "length M = 3" "\<forall>m\<in>set M. valid m"
    "dlog V = (dlog (kp_W key) + dlog U * (asn_val (kp_x0 key) + asn_val (kp_x1 key) * asn_val t)
       + (\<Sum>k\<leftarrow>[0..<3]. dlog (M ! k) * asn_val (kp_y key ! k))) mod ell"
  shows "holds (link_sargs key) (link_pargs Z params key t U V M) (calllink_eqs ! 0)"
    "n = 3 \<Longrightarrow> holds (link_sargs key) (link_pargs Z params key t U V M) (calllink_eqs ! 1)"
    "n = 7 \<Longrightarrow> holds (link_sargs key) (link_pargs Z params key t U V M) (calllink_eqs ! 1)
       \<longleftrightarrow> link_rest dlog params key mod ell = 0"
    "n = 7 \<Longrightarrow> gap (link_sargs key) (link_pargs Z params key t U V M) (calllink_eqs ! 1) mod ell
       = - link_rest dlog params key mod ell"
    "holds (link_sargs key) (link_pargs Z params key t U V M) (calllink_eqs ! 2)"
proof -
  note key = assms(1) [unfolded key_ok_def]
  have g: "\<And>i. i < 17 \<Longrightarrow> valid (params ! i)" using assms(2,3) by simp
  have m: "\<And>i. i < 3 \<Longrightarrow> valid (M ! i)" using assms(7,8) by simp
  have eqs: "zof (dlog (kp_W key)) = zof (dlog (params ! 0) * asn_val (kp_w key))"
    "zof (dlog (kp_C_W key)) = zof (dlog (params ! 0) * asn_val (kp_w key) + dlog (params ! 1) * asn_val (kp_wprime key))"
    using key by (simp_all only: cred_defs zof_hom)
  have V: "zof (dlog V) = zof (dlog (kp_W key) + dlog U * (asn_val (kp_x0 key) + asn_val (kp_x1 key) * asn_val t)
       + (\<Sum>k\<leftarrow>[0, 1, 2]. dlog (M ! k) * asn_val (kp_y key ! k)))"
    using assms(9) unfolding upt3 by (rule zof_of_dlog)
  have v: "valid (kp_W key)" "valid (kp_C_W key)" "valid (kp_I key)" using key by simp_all
  show "holds (link_sargs key) (link_pargs Z params key t U V M) (calllink_eqs ! 0)"
    unfolding holds_def calllink_eqs_def
    using eqs v by (simp add: link_sargs_def link_pargs_def point_named_def scalar_named_def)
      (rule dlog_eqI, simp_all add: algebra_simps)
  show "holds (link_sargs key) (link_pargs Z params key t U V M) (calllink_eqs ! 2)"
    unfolding holds_def calllink_eqs_def
    using V eqs v g m assms(4-6) by (simp add: link_sargs_def link_pargs_def point_named_def scalar_named_def)
      (rule dlog_eqI, simp_all add: algebra_simps)
  let ?I = "\<lambda>is. zof (dlog (params ! 15) - dlog (params ! 2) * asn_val (kp_x0 key)
         - dlog (params ! 3) * asn_val (kp_x1 key) - (\<Sum>i\<leftarrow>is. dlog (params ! (4 + i)) * asn_val (kp_y key ! i)))"
  {
    assume "n = 3"
    then have I: "zof (dlog (kp_I key)) = ?I [0, 1, 2]"
      using key by (intro zof_of_dlog) (simp only: cred_defs upt3)
    show "holds (link_sargs key) (link_pargs Z params key t U V M) (calllink_eqs ! 1)"
      unfolding holds_def calllink_eqs_def
      using I v g assms(4-6)
      by (simp add: link_sargs_def link_pargs_def point_named_def scalar_named_def zof_eq [symmetric] algebra_simps)
  next
    assume "n = 7"
    then have I: "zof (dlog (kp_I key)) = ?I [0, 1, 2, 3, 4, 5, 6]"
      using key by (intro zof_of_dlog) (simp only: cred_defs upt7)
    have z: "link_rest dlog params key mod ell = 0 \<longleftrightarrow> zof (link_rest dlog params key) = zof 0"
      by (simp add: zof_eq del: zof_hom)
    define A where "A = zof (dlog (kp_I key)) + zof (dlog (params ! 2)) * zof (asn_val (kp_x0 key))
      + zof (dlog (params ! 3)) * zof (asn_val (kp_x1 key)) + zof (dlog (params ! 4)) * zof (asn_val (kp_y key ! 0))
      + zof (dlog (params ! 5)) * zof (asn_val (kp_y key ! 1)) + zof (dlog (params ! 6)) * zof (asn_val (kp_y key ! 2))"
    define B where "B = zof (dlog (params ! 7)) * zof (asn_val (kp_y key ! 3)) + zof (dlog (params ! 8)) * zof (asn_val (kp_y key ! 4))
      + zof (dlog (params ! 9)) * zof (asn_val (kp_y key ! 5)) + zof (dlog (params ! 10)) * zof (asn_val (kp_y key ! 6))"
    have P: "zof (dlog (params ! 15)) = A + B"
      using I by (simp add: A_def B_def algebra_simps)
    have "holds (link_sargs key) (link_pargs Z params key t U V M) (calllink_eqs ! 1) \<longleftrightarrow> zof (dlog (params ! 15)) = A"
      unfolding holds_def calllink_eqs_def A_def
      using v g assms(4-6)
      by (simp add: link_sargs_def link_pargs_def point_named_def scalar_named_def zof_eq [symmetric] algebra_simps)
    moreover have "zof (link_rest dlog params key) = B" by (simp add: link_rest_def B_def algebra_simps)
    ultimately show "holds (link_sargs key) (link_pargs Z params key t U V M) (calllink_eqs ! 1)
       \<longleftrightarrow> link_rest dlog params key mod ell = 0"
      unfolding z P by simp
    have "zof (gap (link_sargs key) (link_pargs Z params key t U V M) (calllink_eqs ! 1)) = zof (- link_rest dlog params key)"
      unfolding gap_def calllink_eqs_def using P v g assms(4-6)
      by (simp add: link_sargs_def link_pargs_def point_named_def scalar_named_def A_def B_def link_rest_def algebra_simps)
    then show "gap (link_sargs key) (link_pargs Z params key t U V M) (calllink_eqs ! 1) mod ell
       = - link_rest dlog params key mod ell"
      by (simp only: zof_eq)
  }
qed

end

lemma mod_diff_same: "(x - k) mod m mod m = x mod m \<longleftrightarrow> k mod m = (0 :: int)"
  by (simp add: mod_eq_dvd_iff [of "x - k" m x] dvd_eq_mod_eq_0 [symmetric])

text \<open>
  What \<open>create\<close> does with a key for seven scalars, of which \<open>n\<close> are in its point \<open>I\<close>.
\<close>

lemma calllink_response:
  assumes "zkp_library Z valid dlog"
    and "sho_input sho = None" "sho_hash sho = ShoHmacSha256 Z" "KeyPair Z sho 7 n = Inr (key, sho')" "n \<le> 7"
    and "length uuid = 16"
  obtains r params M stmt where
    "CallLinkAuthCredentialResponse Z key uuid time random = Inr r"
    "credentialParams Z = Inr params" "calllink_attributes Z uuid time = Inr M"
    "add_all calllink_equations Statement = Inr stmt"
    "calllink_scalars key = Inr (link_sargs key)"
    "calllink_points Z params key (ar_t r) (ar_U r) (ar_V r) M = Inr (link_pargs Z params key (ar_t r) (ar_U r) (ar_V r) M)"
    "zkp_library.holds Z dlog (link_sargs key) (link_pargs Z params key (ar_t r) (ar_U r) (ar_V r) M) (calllink_eqs ! 0)"
    "zkp_library.holds Z dlog (link_sargs key) (link_pargs Z params key (ar_t r) (ar_U r) (ar_V r) M) (calllink_eqs ! 2)"
    "n = 3 \<Longrightarrow> verify Z stmt (ar_proof r) (link_pargs Z params key (ar_t r) (ar_U r) (ar_V r) M) [] = Inr True"
    "n = 0 \<Longrightarrow> zkp_library.holds Z dlog (link_sargs key) (link_pargs Z params key (ar_t r) (ar_U r) (ar_V r) M) (calllink_eqs ! 1)
       \<longleftrightarrow> link_rest dlog params key mod ell = 0"
    "n = 0 \<Longrightarrow> \<exists>pr ps C C' c'. RemoteProof Z (ar_proof r) = Inr pr
       \<and> getPoints Z stmt (link_pargs Z params key (ar_t r) (ar_U r) (ar_V r) M) = Inr ps
       \<and> challenge_for Z stmt ps [] C = Inr (challenge pr)
       \<and> recomputed Z stmt ps pr = Inr C' \<and> challenge_for Z stmt ps [] C' = Inr c'
       \<and> verify Z stmt (ar_proof r) (link_pargs Z params key (ar_t r) (ar_U r) (ar_V r) M) [] = Inr (challenge pr = c')
       \<and> length C = 3 \<and> list_all valid C \<and> C' = C[1 := C' ! 1] \<and> valid (C' ! 1)
       \<and> (C' = C \<longleftrightarrow> asn_val (challenge pr) * link_rest dlog params key mod ell = 0)
       \<and> dlog (C' ! 1) = (dlog (C ! 1) - asn_val (challenge pr) * link_rest dlog params key) mod ell"
proof -
  note Z = assms(1)
  note hm = zkp_library.known_hash [OF Z]
  obtain params where params: "credentialParams Z = Inr params" "length params = 17" "\<forall>p\<in>set params. valid p"
    by (rule zkp_library.credentialParams_ok [OF Z])
  define n' where "n' = (if n = 0 then 7 else n)"
  have key: "zkp_library.key_ok valid dlog params 7 n' key"
  proof -
    obtain key0 sho0 where "KeyPair Z sho 7 n = Inr (key0, sho0)" "zkp_library.key_ok valid dlog params 7 n' key0"
      by (rule zkp_library.KeyPair_ok [OF Z assms(2) _ params(1) assms(5), of n']) (use hm assms(3) n'_def in simp_all)
    with assms(4) show ?thesis by simp
  qed
  obtain a b where ab: "uuid_points Z uuid = Inr [a, b]" "valid a" "valid b"
    by (rule zkp_library.uuid_points_ok [OF Z assms(6)])
  let ?sho0 = "ratchet (absorb (timeBytes (z_asn Z) time) (callLinkAuthCredentialSho Z))"
  obtain p s0 where p: "getPoint Z ?sho0 = Inr (p, s0)" "valid p"
    by (rule zkp_library.getPoint_known [OF Z, of ?sho0]) (use hm in \<open>simp_all add: callLinkAuthCredentialSho_def\<close>)
  define M where "M = [p, a, b]"
  have M: "calllink_attributes Z uuid time = Inr M" "length M = 3" "\<forall>m\<in>set M. valid m"
    using ab p by (simp_all add: calllink_attributes_def M_def)
  let ?sho = "ratchet (absorb random (credentialSho Z))"
  obtain t U V s2 where prep: "key_prepare Z key ?sho M = Inr ((t, U, V), s2)" "scalar_ok t" "valid U" "valid V"
    "sho_input s2 = None" "sho_hash s2 = sho_hash ?sho"
    "dlog V = (dlog (kp_W key) + dlog U * (asn_val (kp_x0 key) + asn_val (kp_x1 key) * asn_val t)
       + (\<Sum>k\<leftarrow>[0..<length M]. dlog (M ! k) * asn_val (kp_y key ! k))) mod ell"
    by (rule zkp_library.key_prepare_ok [OF Z key, of ?sho M]) (use hm M in \<open>simp_all add: credentialSho_def\<close>)
  obtain rnd cv where rnd: "squeeze Z 32 s2 = Inr (rnd, s2\<lparr>sho_cv := cv, sho_input := None\<rparr>)"
    by (rule zkp_library.squeeze_known [OF Z prep(5), of 32]) (use hm prep(6) in \<open>simp_all add: credentialSho_def\<close>)
  obtain stmt where stmt: "build calllink_eqs Statement = Inr stmt"
    "scalars stmt = [''w'', ''wprime'', ''x0'', ''x1'', ''y0'', ''y1'', ''y2'']"
    "points stmt = [''G'', ''C_W'', ''G_w'', ''G_wprime'', ''G_V-I'', ''G_x0'', ''G_x1'', ''G_y0'', ''G_y1'', ''G_y2'',
       ''V'', ''U'', ''tU'', ''M0'', ''M1'', ''M2'']"
    by (rule calllink_statement)
  have st: "st_ok stmt calllink_eqs" using build_ok [OF stmt(1) Statement_ok] by simp
  let ?sargs = "link_sargs key" and ?pargs = "link_pargs Z params key t U V M"
  note args = zkp_library.link_args [OF Z key params(2) M(2)]
  note ok = zkp_library.link_args_ok [OF Z key params(2,3) prep(2-4) M(2,3) stmt(2,3)]
  note holds = zkp_library.link_holds [OF Z key params(2,3) prep(2-4) M(2,3) prep(7) [unfolded M(2)]]
  obtain pf pr ps C C' c' where pf: "prove Z stmt ?sargs ?pargs [] rnd = Inr pf" and verified:
    "RemoteProof Z pf = Inr pr" "getPoints Z stmt ?pargs = Inr ps" "recomputed Z stmt ps pr = Inr C'"
    "challenge_for Z stmt ps [] C = Inr (challenge pr)" "challenge_for Z stmt ps [] C' = Inr c'"
    "verify Z stmt pf ?pargs [] = Inr (challenge pr = c')"
    and len: "length C = length calllink_eqs" "length C' = length calllink_eqs"
    and moved: "\<And>i. i < length calllink_eqs \<Longrightarrow> valid (C ! i) \<and> valid (C' ! i) \<and> dlog (C' ! i) mod ell
       = (dlog (C ! i) + asn_val (challenge pr) * zkp_library.gap Z dlog ?sargs ?pargs (calllink_eqs ! i)) mod ell"
    by (rule zkp_library.verify_of_prove_named [OF Z st _ _ ok, where msg = "[]" and rnd = rnd])
      (auto simp: calllink_eqs_def stmt(2))
  let ?r = "\<lparr>ar_t = t, ar_U = U, ar_V = V, ar_proof = pf\<rparr>"
  have l3: "length calllink_eqs = 3" by (simp add: calllink_eqs_def)
  note same = zkp_library.same_commitment [OF Z moved zkp_library.holds_gap [OF Z]]
  have "C' ! 0 = C ! 0" "C' ! 2 = C ! 2" using same holds(1,5) l3 by simp_all
  then have ends: "C' = C[1 := C' ! 1]"
    using len l3 by (cases C; cases C'; cases "tl C"; cases "tl C'") (auto simp: length_Suc_conv numeral_3_eq_3)
  have one: "dlog (C' ! 1) = (dlog (C ! 1) - asn_val (challenge pr) * link_rest dlog params key) mod ell" if "n = 0"
  proof -
    have "zkp_library.gap Z dlog ?sargs ?pargs (calllink_eqs ! 1) mod ell = - link_rest dlog params key mod ell"
      using holds(4) that by (simp add: n'_def)
    then have "(asn_val (challenge pr) * zkp_library.gap Z dlog ?sargs ?pargs (calllink_eqs ! 1)) mod ell
        = (asn_val (challenge pr) * - link_rest dlog params key) mod ell"
      by (rule mod_mult_cong [OF refl])
    then have "(dlog (C ! 1) + asn_val (challenge pr) * zkp_library.gap Z dlog ?sargs ?pargs (calllink_eqs ! 1)) mod ell
        = (dlog (C ! 1) + asn_val (challenge pr) * - link_rest dlog params key) mod ell"
      by (rule mod_add_cong [OF refl])
    then show ?thesis
      using moved [of 1] l3 zkp_library.dlog_mod [OF Z, of "C' ! 1"] by simp
  qed
  have all: "list_all valid C" using moved len by (simp add: list_all_length)
  have iff: "C' = C \<longleftrightarrow> asn_val (challenge pr) * link_rest dlog params key mod ell = 0" if "n = 0"
  proof -
    have v: "valid (C ! 1)" "valid (C' ! 1)" using moved [of 1] l3 by simp_all
    have "C' = C \<longleftrightarrow> C' ! 1 = C ! 1" by (subst ends, subst (3) list_update_id [of C 1, symmetric]) (use len l3 in \<open>auto simp: list_update_same_conv\<close>)
    also have "\<dots> \<longleftrightarrow> dlog (C' ! 1) mod ell = dlog (C ! 1) mod ell"
      using v zkp_library.dlog_inj [OF Z v(2,1)] zkp_library.dlog_mod [OF Z v(1)] zkp_library.dlog_mod [OF Z v(2)] by auto
    also have "\<dots> \<longleftrightarrow> asn_val (challenge pr) * link_rest dlog params key mod ell = 0"
      unfolding one [OF that] by (rule mod_diff_same)
    finally show ?thesis .
  qed
  have "verify Z stmt pf ?pargs [] = Inr True" if "n = 3"
  proof -
    have "\<forall>q\<in>set calllink_eqs. zkp_library.holds Z dlog ?sargs ?pargs q"
      using holds(1,2,5) that by (simp add: calllink_eqs_def n'_def)
    then obtain pf' where "prove Z stmt ?sargs ?pargs [] rnd = Inr pf'" "verify Z stmt pf' ?pargs [] = Inr True"
      using zkp_library.verify_prove_named [OF Z st _ _ ok, of "[]" rnd] by (auto simp: calllink_eqs_def stmt(2))
    with pf show ?thesis by simp
  qed
  moreover have "CallLinkAuthCredentialResponse Z key uuid time random = Inr ?r"
    by (simp add: CallLinkAuthCredentialResponse_def params M prep(1) calllink_build stmt(1) args pf rnd)
  moreover have "\<exists>pr ps C C' c'. RemoteProof Z (ar_proof ?r) = Inr pr
       \<and> getPoints Z stmt (link_pargs Z params key (ar_t ?r) (ar_U ?r) (ar_V ?r) M) = Inr ps
       \<and> challenge_for Z stmt ps [] C = Inr (challenge pr)
       \<and> recomputed Z stmt ps pr = Inr C' \<and> challenge_for Z stmt ps [] C' = Inr c'
       \<and> verify Z stmt (ar_proof ?r) (link_pargs Z params key (ar_t ?r) (ar_U ?r) (ar_V ?r) M) [] = Inr (challenge pr = c')
       \<and> length C = 3 \<and> list_all valid C \<and> C' = C[1 := C' ! 1] \<and> valid (C' ! 1)
       \<and> (C' = C \<longleftrightarrow> asn_val (challenge pr) * link_rest dlog params key mod ell = 0)
       \<and> dlog (C' ! 1) = (dlog (C ! 1) - asn_val (challenge pr) * link_rest dlog params key) mod ell" if "n = 0"
    using verified ends one [OF that] iff [OF that] all moved [of 1] len l3
    by (intro exI [of _ pr] exI [of _ ps] exI [of _ C] exI [of _ C'] exI [of _ c']) simp
  ultimately show thesis
    using holds(1,3,5) params(1) M(1) stmt(1) args
    by (intro that [of ?r params M stmt]) (simp_all add: calllink_build n'_def)
qed

section \<open>An instance that refuses\<close>

text \<open>
  The group of \<open>std_zlib\<close> with a hash that can be followed by hand: three commitments hash to the second of
  them (or to 1, if that is 0), the first block squeezed is the state, the next ones are zeros, and
  everything else hashes to 1.
\<close>

definition echo_hmac :: "bytes \<Rightarrow> bytes \<Rightarrow> string \<Rightarrow> bytes" where
  "echo_hmac k m alg =
     (if length m = 97
      then (let c = take 32 (drop 32 m) in if le_val c = 0 then le32 1 else c)
      else if m = replicate 8 0 @ [1] then take 32 (k @ replicate 32 0)
      else if last m = 1 then replicate 32 0
      else le32 1)"

definition echo_zlib :: zlib where
  "echo_zlib = std_zlib\<lparr>z_hmac := echo_hmac\<rparr>"

lemma length_one: "length (le32 1) = 32" "le_val (le32 1) = 1"
  by (rule length_le32) (simp_all add: ell_def le_val_le32)

interpretation echo: zkp_library echo_zlib std_valid le_val
proof
  fix k m
  show "length (z_hmac echo_zlib k m ''SHA256'') = 32"
    by (auto simp: echo_zlib_def echo_hmac_def Let_def length_one)
qed (use std_zkp.zkp_library_axioms in \<open>simp_all add: echo_zlib_def zkp_library_def zkp_library_axioms_def std_zlib_def
      asn_library_def\<close>)

lemma le_val_pad: "le_val (s @ replicate n 0) = le_val s"
  by (simp add: le_val_def)

lemma asn_num_small: "asn_num 0 = [0]" "asn_num 1 = [1]" "asn_num 64 = [64]"
  by (simp_all add: asn_num_def asn_pad_def asn_unum.simps [of 0] asn_unum.simps [of 1] asn_unum.simps [of "Suc 0"] asn_unum.simps [of 64] bit_simps)

lemma echo_int8: "int8 echo_zlib 0 = replicate 8 0" "int8 echo_zlib 1 = replicate 7 0 @ [1]"
  "int8 echo_zlib (Suc 0) = replicate 7 0 @ [1]" "int8 echo_zlib 64 = replicate 7 0 @ [64]"
  by (simp_all add: int8_def echo_zlib_def std_zlib_def std_asn_lib_def asn_num_small bit_simps replicate_app_Cons_same eval_nat_numeral)

lemma echo_blocks:
  "length k = 32 \<Longrightarrow> echo_hmac k (replicate 8 0 @ [1]) alg = k"
  "echo_hmac k (replicate 7 0 @ [1, 1]) alg = replicate 32 0"
  "echo_hmac k (replicate 7 0 @ [64, 2]) alg = le32 1"
  by (simp_all add: echo_hmac_def eval_nat_numeral)

lemma echo_squeeze:
  assumes "sho_input sho = None" "sho_hash sho = ShoHmacSha256 echo_zlib" "length (sho_cv sho) = 32"
  shows "squeeze echo_zlib 64 sho = Inr (sho_cv sho @ replicate 32 0, sho\<lparr>sho_cv := le32 1, sho_input := None\<rparr>)"
proof -
  have z: "z_hmac echo_zlib = echo_hmac" by (simp add: echo_zlib_def)
  have b: "hashSqueeze1 (sho_hash sho) (sho_cv sho) (int8 echo_zlib 0) = sho_cv sho"
    "hashSqueeze1 (sho_hash sho) (sho_cv sho) (int8 echo_zlib 1) = replicate 32 0"
    "hashSqueeze2 (sho_hash sho) (sho_cv sho) (int8 echo_zlib 64) = le32 1"
    using assms(3) by (simp_all only: assms(2) ShoHmacSha256_def sho_hash.simps echo_int8 z append_assoc append.simps echo_blocks)
  have "squeeze_loop echo_zlib (Suc (Suc f)) sho 64 0 [] = Inr (sho_cv sho @ replicate 32 0)" for f
    using assms(3) b by (simp add: squeeze_loop.simps [of _ "Suc _"] squeeze_loop.simps [of _ f] del: replicate.simps)
  from this [of 62] have "squeeze_loop echo_zlib 64 sho 64 0 [] = Inr (sho_cv sho @ replicate 32 0)" by simp
  then show ?thesis using assms(1,3) b(3) by (simp add: squeeze_def lpc_range_def)
qed

text \<open>So the keys of this instance are all ones: its scalars are 1 and its points the element 1.\<close>

definition echo_state :: "sho \<Rightarrow> bool" where
  "echo_state s \<longleftrightarrow> sho_input s = None \<and> sho_hash s = ShoHmacSha256 echo_zlib \<and> sho_cv s = le32 1"

lemma echo_draw:
  assumes "echo_state s"
  shows "getScalar echo_zlib s = Inr ([1], s)" "getPoint echo_zlib s = Inr (le32 1, s)"
proof -
  have s: "s\<lparr>sho_cv := le32 1, sho_input := None\<rparr> = s" using assms by (simp add: echo_state_def)
  have sq: "squeeze echo_zlib 64 s = Inr (le32 1 @ replicate 32 0, s)"
    using assms echo_squeeze [of s] s by (simp add: echo_state_def length_one)
  have "Scalar echo_zlib (le32 1 @ replicate 32 0) = [1]"
    by (simp add: echo.Scalar_num le_val_pad length_one asn_num_small ell_def)
  with sq show "getScalar echo_zlib s = Inr ([1], s)" by (simp add: getScalar_def)
  have "r_add echo_zlib (r_map echo_zlib (le32 1)) (r_map echo_zlib (replicate 32 0)) = le32 1"
    using le_val_pad [of "[]" 32]
    by (simp add: echo_zlib_def std_zlib_def length_one le_val_def [of "[]"] ell_def le_val_le32)
  with sq show "getPoint echo_zlib s = Inr (le32 1, s)"
    by (simp add: getPoint_def lpc_range_def length_one)
qed

lemma echo_draws:
  "echo_state s \<Longrightarrow> get_scalars echo_zlib n s = Inr (replicate n [1], s)"
  "echo_state s \<Longrightarrow> get_points echo_zlib n s = Inr (replicate n (le32 1), s)"
  by (induction n) (simp_all add: echo_draw)

lemma echo_ratchet:
  assumes "sho_hash s = ShoHmacSha256 echo_zlib" "sho_input s = Some i" "length i \<noteq> 96"
  shows "echo_state (ratchet s)"
proof -
  have "echo_hmac k (i @ [0]) alg = le32 1" for k alg
    using assms(3) by (simp add: echo_hmac_def)
  then show ?thesis
    using assms(1,2) by (simp add: echo_state_def ratchet_def ShoHmacSha256_def echo_zlib_def)
qed

lemma echo_params: "credentialParams echo_zlib = Inr (replicate 17 (le32 1))"
proof -
  let ?s = "Sho (ShoHmacSha256 echo_zlib) (str ''Signal_ZKGroup_20200424_Constant_Credentials_SystemParams_Generate'')"
  have "echo_state (ratchet (absorb [] ?s))"
    by (rule echo_ratchet [of _ "[]"]) (simp_all add: absorb_def)
  then have "credentialParams echo_zlib = Inr (replicate 4 (le32 1) @ replicate 4 (le32 1) @ replicate 2 (le32 1)
      @ replicate 4 (le32 1) @ replicate 1 (le32 1) @ replicate 2 (le32 1))"
    by (simp add: credentialParams_def echo_draws lpc_range_def)
  then show ?thesis by (simp only: replicate_add [symmetric]) simp
qed

lemma echo_key:
  assumes "echo_state s" "n \<le> 7"
  obtains key s' where "KeyPair echo_zlib s 7 n = Inr (key, s')" "kp_y key = replicate 7 [1]"
proof -
  obtain key s' where k: "KeyPair echo_zlib s 7 n = Inr (key, s')"
    using assms echo_params by (elim echo.KeyPair_ok [of s _ n 7 "if n = 0 then 7 else n", rotated 2]) (simp_all add: echo_state_def)
  moreover have "kp_y key = replicate 7 [1]"
    using k by (auto simp: KeyPair_def Let_def echo_params echo_draw [OF assms(1)] echo_draws [OF assms(1)] rbind_eq_Inr split: if_splits)
  ultimately show thesis by (rule that)
qed

text \<open>The challenge of three commitments is the second one.\<close>

lemma echo_challenge:
  assumes "challenge_for echo_zlib st ps [] C = Inr c" "length C = 3" "list_all std_valid C"
  shows "asn_val c = (if le_val (C ! 1) = 0 then 1 else le_val (C ! 1))"
proof -
  obtain a b d where C: "C = [a, b, d]" using assms(2) by (auto simp: length_Suc_conv numeral_3_eq_3)
  then have len: "length a = 32" "length b = 32" "length d = 32" and b: "le_val b < ell" using assms(3) by (simp_all add: std_valid_def)
  let ?k = "if le_val b = 0 then le32 1 else b"
  let ?s = "transcript echo_zlib st ps"
  have s: "sho_hash ?s = ShoHmacSha256 echo_zlib" "sho_input ?s = None"
    by (simp_all add: transcript_def)
  have in97: "sho_input (absorb [] (absorb_all C ?s)) = Some (a @ b @ d)"
    by (simp add: C absorb_all_def absorb_def s(2))
  define s' where "s' = ratchet (absorb [] (absorb_all C ?s))"
  have s': "sho_input s' = None" "sho_hash s' = ShoHmacSha256 echo_zlib"
    by (simp_all add: s'_def s(1))
  have "sho_cv s' = echo_hmac (sho_cv (absorb [] (absorb_all C ?s))) ((a @ b @ d) @ [0]) ''SHA256''"
    using s by (simp add: s'_def ratchet_def in97 ShoHmacSha256_def) (simp add: echo_zlib_def)
  then have k: "sho_cv s' = ?k" using len by (simp add: echo_hmac_def)
  have "length ?k = 32" using len by (simp add: length_one)
  then have "c = Scalar echo_zlib (?k @ replicate 32 0)"
    using assms(1) echo_squeeze [OF s'] k by (auto simp: challenge_for_def s'_def)
  then show ?thesis using b by (simp add: C echo.Scalar_num le_val_pad length_one le_val_nonneg ell_def)
qed

text \<open>
  Commitments that differ by four times the challenge have different challenges: a multiple of four that
  the order divides is a multiple of the order.
\<close>

lemma mult4_ell:
  assumes "0 \<le> x" "x < ell" "4 * x mod ell = 0"
  shows "x = 0"
proof -
  have "coprime (2 ^ 2) ell" by (simp only: coprime_power_left_iff coprime_left_2_iff_odd) (simp add: ell_def)
  then have "coprime ell 4" by (simp add: coprime_commute)
  moreover have "ell dvd 4 * x" using assms(3) by (simp add: dvd_eq_mod_eq_0)
  ultimately have "ell dvd x" by (simp only: coprime_dvd_mult_right_iff)
  then show ?thesis using assms(1,2) zdvd_not_zless [of x ell] by (cases "x = 0") simp_all
qed

lemma echo_differs:
  assumes "std_valid p" "std_valid p'" "c = (if le_val p = 0 then 1 else le_val p)"
    and "le_val p' = (le_val p - c * 4) mod ell" "c' = (if le_val p' = 0 then 1 else le_val p')"
  shows "c \<noteq> c'"
proof
  assume eq: "c = c'"
  have r: "0 \<le> le_val p" "le_val p < ell" using assms(1) by (simp_all add: std_valid_def le_val_nonneg)
  consider "le_val p = 0" | "le_val p \<noteq> 0" "le_val p' = 0" | "le_val p \<noteq> 0" "le_val p' \<noteq> 0" by blast
  then show False
  proof cases
    case 1
    then have "c = 1" using assms(3) by simp
    then have "le_val p' = - 4 mod ell" using assms(4) 1 by simp
    then have "le_val p' = ell - 4" by (simp add: ell_def)
    then have "c' = ell - 4" using assms(5) by (simp add: ell_def)
    then show ?thesis using \<open>c = 1\<close> eq by (simp add: ell_def)
  next
    case 2
    then have "c = 1" using assms(5) eq by simp
    then have "le_val p = 1" using assms(3) 2 by simp
    then have "le_val p' = - 3 mod ell" using assms(4) \<open>c = 1\<close> by simp
    then show ?thesis using 2 by (simp add: ell_def)
  next
    case 3
    then have c: "c = le_val p" "c' = le_val p'" using assms(3,5) by simp_all
    have "(le_val p - c * 4) mod ell = c" using eq c(2) assms(4) by metis
    then have "(le_val p - le_val p * 4) mod ell = le_val p" unfolding c(1) .
    then have "(le_val p - le_val p * 4) mod ell mod ell = le_val p mod ell" by (simp only:)
    then have "le_val p * 4 mod ell = 0" by (simp only: mod_diff_same)
    then have "4 * le_val p mod ell = 0" by (simp only: mult.commute)
    then show ?thesis using mult4_ell [OF r] 3 by simp
  qed
qed

section \<open>Properties\<close>

text \<open>
  C29.  For every time and every random value the server issues a \<open>CallLinkAuthCredentialResponse\<close>.  With
  the key it makes, for seven attributes, the second equation of the statement holds only if the four
  attributes that are not in it add up to nothing; the other two hold.  What \<open>verify\<close> makes of the proof:
  the second commitment it recomputes is that of the proof less those four attributes times the
  challenge, and the proof is accepted exactly if the commitments changed in this way hash to the
  challenge of the original ones; they are the original ones only if the product is nothing.  With a key
  for seven scalars and three attributes the proof is accepted.  In the instance of the witness the four
  attributes add up to 4 and the proof made with the server's key is refused.
\<close>

theorem calllink_key_attributes:
  assumes "zkp_library Z valid dlog" "sho_input sho = None" "sho_hash sho = ShoHmacSha256 Z" "length uuid = 16"
    and "KeyPair Z sho 7 0 = Inr (key, sho')" "KeyPair Z sho 7 3 = Inr (key3, sho3)"
  shows "(\<exists>r params M stmt sargs pargs pr ps C C' c'.
      CallLinkAuthCredentialResponse Z key uuid time random = Inr r
    \<and> credentialParams Z = Inr params \<and> calllink_attributes Z uuid time = Inr M
    \<and> add_all calllink_equations Statement = Inr stmt
    \<and> calllink_scalars key = Inr sargs \<and> calllink_points Z params key (ar_t r) (ar_U r) (ar_V r) M = Inr pargs
    \<and> zkp_library.holds Z dlog sargs pargs (calllink_eqs ! 0)
    \<and> (zkp_library.holds Z dlog sargs pargs (calllink_eqs ! 1) \<longleftrightarrow> link_rest dlog params key mod ell = 0)
    \<and> zkp_library.holds Z dlog sargs pargs (calllink_eqs ! 2)
    \<and> RemoteProof Z (ar_proof r) = Inr pr \<and> getPoints Z stmt pargs = Inr ps
    \<and> challenge_for Z stmt ps [] C = Inr (challenge pr)
    \<and> recomputed Z stmt ps pr = Inr C' \<and> challenge_for Z stmt ps [] C' = Inr c'
    \<and> verify Z stmt (ar_proof r) pargs [] = Inr (challenge pr = c')
    \<and> length C = 3 \<and> list_all valid C \<and> C' = C[1 := C' ! 1] \<and> valid (C' ! 1)
    \<and> dlog (C' ! 1) = (dlog (C ! 1) - asn_val (challenge pr) * link_rest dlog params key) mod ell
    \<and> (C' = C \<longleftrightarrow> asn_val (challenge pr) * link_rest dlog params key mod ell = 0))
   \<and> (\<exists>r params M stmt pargs.
      CallLinkAuthCredentialResponse Z key3 uuid time random = Inr r
    \<and> credentialParams Z = Inr params \<and> calllink_attributes Z uuid time = Inr M
    \<and> add_all calllink_equations Statement = Inr stmt
    \<and> calllink_points Z params key3 (ar_t r) (ar_U r) (ar_V r) M = Inr pargs
    \<and> verify Z stmt (ar_proof r) pargs [] = Inr True)"
proof (rule conjI, goal_cases)
  case 1
  show ?case
  proof (rule calllink_response [OF assms(1-3,5) _ assms(4), of time random], goal_cases)
    case (2 r params M stmt)
    from 2(11) [OF refl] obtain pr ps C C' c' where
      "RemoteProof Z (ar_proof r) = Inr pr"
      "getPoints Z stmt (link_pargs Z params key (ar_t r) (ar_U r) (ar_V r) M) = Inr ps"
      "challenge_for Z stmt ps [] C = Inr (challenge pr)"
      "recomputed Z stmt ps pr = Inr C'" "challenge_for Z stmt ps [] C' = Inr c'"
      "verify Z stmt (ar_proof r) (link_pargs Z params key (ar_t r) (ar_U r) (ar_V r) M) [] = Inr (challenge pr = c')"
      "length C = 3" "list_all valid C" "C' = C[1 := C' ! 1]" "valid (C' ! 1)"
      "C' = C \<longleftrightarrow> asn_val (challenge pr) * link_rest dlog params key mod ell = 0"
      "dlog (C' ! 1) = (dlog (C ! 1) - asn_val (challenge pr) * link_rest dlog params key) mod ell"
      by (elim exE conjE) (rule that, assumption+)
    with 2(1-8) 2(10) [OF refl] show ?case
      by (intro exI [of _ r] exI [of _ params] exI [of _ M] exI [of _ stmt] exI [of _ "link_sargs key"]
          exI [of _ "link_pargs Z params key (ar_t r) (ar_U r) (ar_V r) M"] exI [of _ pr] exI [of _ ps]
          exI [of _ C] exI [of _ C'] exI [of _ c'] conjI)
  qed simp
next
  case 2
  show ?case
  proof (rule calllink_response [OF assms(1-3,6) _ assms(4), of time random], goal_cases)
    case (2 r params M stmt)
    then show ?case
      by (intro exI [of _ r] exI [of _ params] exI [of _ M] exI [of _ stmt]
          exI [of _ "link_pargs Z params key3 (ar_t r) (ar_U r) (ar_V r) M"]) simp
  qed simp
qed

theorem calllink_key_attributes_witness:
  "\<exists>key sho' key3 sho3.
     KeyPair echo_zlib (Sho (ShoHmacSha256 echo_zlib) [1]) 7 0 = Inr (key, sho')
   \<and> KeyPair echo_zlib (Sho (ShoHmacSha256 echo_zlib) [1]) 7 3 = Inr (key3, sho3)
   \<and> (\<exists>r params M stmt sargs pargs.
      CallLinkAuthCredentialResponse echo_zlib key (replicate 16 1) 86400 [3] = Inr r
    \<and> credentialParams echo_zlib = Inr params \<and> calllink_attributes echo_zlib (replicate 16 1) 86400 = Inr M
    \<and> add_all calllink_equations Statement = Inr stmt
    \<and> calllink_scalars key = Inr sargs \<and> calllink_points echo_zlib params key (ar_t r) (ar_U r) (ar_V r) M = Inr pargs
    \<and> link_rest le_val params key mod ell = 4 \<and> \<not> echo.holds sargs pargs (calllink_eqs ! 1)
    \<and> verify echo_zlib stmt (ar_proof r) pargs [] = Inr False)
   \<and> (\<exists>r params M stmt pargs.
      CallLinkAuthCredentialResponse echo_zlib key3 (replicate 16 1) 86400 [3] = Inr r
    \<and> credentialParams echo_zlib = Inr params \<and> calllink_attributes echo_zlib (replicate 16 1) 86400 = Inr M
    \<and> add_all calllink_equations Statement = Inr stmt
    \<and> calllink_points echo_zlib params key3 (ar_t r) (ar_U r) (ar_V r) M = Inr pargs
    \<and> verify echo_zlib stmt (ar_proof r) pargs [] = Inr True)"
proof -
  let ?sho = "Sho (ShoHmacSha256 echo_zlib) [1]"
  have s: "echo_state ?sho"
    unfolding Sho_def by (rule echo_ratchet [of _ "[1]"]) (simp_all add: absorb_def)
  obtain key sho' where k: "KeyPair echo_zlib ?sho 7 0 = Inr (key, sho')" "kp_y key = replicate 7 [1]"
    by (rule echo_key [OF s, of 0]) simp_all
  obtain key3 sho3 where k3: "KeyPair echo_zlib ?sho 7 3 = Inr (key3, sho3)"
    by (rule echo_key [OF s, of 3]) simp_all
  have u: "length (replicate 16 (1 :: byte)) = 16" "sho_input ?sho = None" "sho_hash ?sho = ShoHmacSha256 echo_zlib"
    by simp_all
  note both = calllink_key_attributes [OF echo.zkp_library_axioms u(2,3,1) k(1) k3, of 86400 "[3]"]
  have rest: "link_rest le_val (replicate 17 (le32 1)) key = 4"
    by (simp add: link_rest_def k(2) length_one asn_val_def asn_uval_Cons)
  from conjunct1 [OF both] obtain r M stmt sargs pargs pr ps C C' c' where run:
    "CallLinkAuthCredentialResponse echo_zlib key (replicate 16 1) 86400 [3] = Inr r"
    "calllink_attributes echo_zlib (replicate 16 1) 86400 = Inr M" "add_all calllink_equations Statement = Inr stmt"
    "calllink_scalars key = Inr sargs" "calllink_points echo_zlib (replicate 17 (le32 1)) key (ar_t r) (ar_U r) (ar_V r) M = Inr pargs"
    and ans: "echo.holds sargs pargs (calllink_eqs ! 1) \<longleftrightarrow> link_rest le_val (replicate 17 (le32 1)) key mod ell = 0"
    "RemoteProof echo_zlib (ar_proof r) = Inr pr" "recomputed echo_zlib stmt ps pr = Inr C'"
    "challenge_for echo_zlib stmt ps [] C = Inr (challenge pr)" "challenge_for echo_zlib stmt ps [] C' = Inr c'"
    "verify echo_zlib stmt (ar_proof r) pargs [] = Inr (challenge pr = c')"
    and C: "length C = 3" "list_all std_valid C" "C' = C[1 := C' ! 1]" "std_valid (C' ! 1)"
    "le_val (C' ! 1) = (le_val (C ! 1) - asn_val (challenge pr) * link_rest le_val (replicate 17 (le32 1)) key) mod ell"
    unfolding echo_params sum.inject by (elim exE conjE) (hypsubst, rule that, assumption+)
  have "list_all std_valid (C[1 := C' ! 1])"
    using C(1,2,4) by (auto simp: list_all_length nth_list_update split: if_splits)
  then have C': "length C' = 3" "list_all std_valid C'"
    using arg_cong [OF C(3), of length] C(1) by (simp, subst C(3))
  have "asn_val (challenge pr) \<noteq> asn_val c'"
    by (rule echo_differs [OF _ C(4) echo_challenge [OF ans(4) C(1,2)] C(5) [unfolded rest] echo_challenge [OF ans(5) C']])
      (use C(1,2) in \<open>simp add: list_all_length\<close>)
  then have "verify echo_zlib stmt (ar_proof r) pargs [] = Inr False" using ans(6) by auto
  then have "\<exists>r params M stmt sargs pargs.
      CallLinkAuthCredentialResponse echo_zlib key (replicate 16 1) 86400 [3] = Inr r
    \<and> credentialParams echo_zlib = Inr params \<and> calllink_attributes echo_zlib (replicate 16 1) 86400 = Inr M
    \<and> add_all calllink_equations Statement = Inr stmt
    \<and> calllink_scalars key = Inr sargs \<and> calllink_points echo_zlib params key (ar_t r) (ar_U r) (ar_V r) M = Inr pargs
    \<and> link_rest le_val params key mod ell = 4 \<and> \<not> echo.holds sargs pargs (calllink_eqs ! 1)
    \<and> verify echo_zlib stmt (ar_proof r) pargs [] = Inr False"
    using run ans(1) rest echo_params
    by (intro exI [of _ r] exI [of _ "replicate 17 (le32 1)"] exI [of _ M] exI [of _ stmt] exI [of _ sargs] exI [of _ pargs])
      (simp add: ell_def)
  then show ?thesis
    by (intro exI [of _ key] exI [of _ sho'] exI [of _ key3] exI [of _ sho3] conjI k(1) k3 conjunct2 [OF both])
qed

end
