(* ===== verification/Certificates.thy ===== *)
theory Certificates
  imports Handlers CredentialServer CallLink ProtoRead
begin

text \<open>
  The certificate server (\<^verbatim>\<open>src/sys/cert.c\<close>) and the certificates and daily credentials that a device
  asks for (\<^verbatim>\<open>src/services/lib/chat/Certificate.c\<close>).

  \<open>sign key s\<close> is \<open>encrypt("XEd25519 sign", key, s)\<close>, and a pair of keys what \<open>encrypt("X25519 key")\<close>
  returns.
\<close>

section \<open>Sender certificates\<close>

definition CERTIFICATE_DURATION :: lpcint where
  "CERTIFICATE_DURATION = 7 * 24 * 3600"

record cert_server =
  ct_caPubKey :: bytes
  ct_caPrivKey :: bytes
  ct_serverCertificate :: bytes
  ct_serverKey :: bytes

definition cert_create :: "(bytes \<Rightarrow> bytes \<Rightarrow> bytes) \<Rightarrow> bytes \<times> bytes \<Rightarrow> bytes \<times> bytes \<Rightarrow> cert_server" where
  "cert_create sign ca server =
     (let s = str ''UDSC'' @ [5] @ fst server in
      \<lparr>ct_caPubKey = fst ca, ct_caPrivKey = snd ca,
       ct_serverCertificate = [0x0a] @ protoString s @ [0x12] @ protoString (sign (snd ca) s),
       ct_serverKey = snd server\<rparr>)"

definition cert_content ::
    "env \<Rightarrow> cert_server \<Rightarrow> account \<Rightarrow> lpcint \<Rightarrow> bytes option \<Rightarrow> bytes result" where
  "cert_content E srv account deviceId phoneNumber =
     (let (time, ms) = snd (en_clock E); time = time + CERTIFICATE_DURATION in
      rbind (protoFixedTime (en_asn E) time ms) (\<lambda>expires.
      rbind (rbind (need (ac_identityKey account)) (b64_decode (en_base64 E))) (\<lambda>identityKey.
      rbind (uuid_encode (en_hex E) (ac_id account)) (\<lambda>uuid.
      let s = [0x10] @ protoInt deviceId
            @ [0x19] @ expires
            @ [0x22] @ protoString identityKey
            @ [0x2a] @ protoString (ct_serverCertificate srv)
            @ [0x32] @ protoString uuid
      in Inr (case phoneNumber of None \<Rightarrow> s | Some phone \<Rightarrow> [0x0a] @ protoString phone @ s)))))"

definition cert_generate ::
    "env \<Rightarrow> (bytes \<Rightarrow> bytes \<Rightarrow> bytes) \<Rightarrow> cert_server \<Rightarrow> account \<Rightarrow> lpcint \<Rightarrow> bytes option \<Rightarrow> bytes result" where
  "cert_generate E sign srv account deviceId phoneNumber =
     rmap (\<lambda>s. [0x0a] @ protoString s @ [0x12] @ protoString (sign (ct_serverKey srv) s))
       (cert_content E srv account deviceId phoneNumber)"

definition getCertificateDelivery ::
    "bytes option \<Rightarrow> account \<Rightarrow> device \<Rightarrow> (('o, 'z) rest_server_scheme, 'o server_event, unit) action" where
  "getCertificateDelivery ctxt account device =
     aemit (Call_out ''getCertificateDelivery2'' ctxt [V_account account, V (JInt (dv_id device))])"

definition getCertificateDelivery2 ::
    "env \<Rightarrow> (bytes \<Rightarrow> bytes \<Rightarrow> bytes) \<Rightarrow> cert_server \<Rightarrow> bytes option \<Rightarrow> account \<Rightarrow> lpcint
      \<Rightarrow> (('o, 'z) rest_server_scheme, 'o server_event, unit) action" where
  "getCertificateDelivery2 E sign srv ctxt account deviceId =
     abind (alift (cert_generate E sign srv account deviceId (ac_phoneNumber account))) (\<lambda>certificate.
     abind (respondJson E ctxt (en_http E HTTP_OK)
         (jobj [(''certificate'', JStr (b64_encode (en_base64 E) certificate))]) None) (\<lambda>_. aret ()))"

section \<open>Daily credentials\<close>

text \<open>\<open>sscanf\<close>: the number of values that were read, and the variables \<open>start\<close> and \<open>end\<close>.\<close>

definition scan_literal :: "string \<Rightarrow> bytes \<Rightarrow> bytes option" where
  "scan_literal t s = (if take (length t) s = str t then Some (drop (length t) s) else None)"

definition scan_redemption :: "bytes \<Rightarrow> nat \<times> lpcint \<times> lpcint" where
  "scan_redemption param =
     (case Option.bind (scan_literal ''group?redemptionStartSeconds='' param) scan_int of
        None \<Rightarrow> (0, 0, 0)
      | Some (start, r) \<Rightarrow>
          (case Option.bind (scan_literal ''&redemptionEndSeconds='' r) scan_int of
             None \<Rightarrow> (1, start, 0)
           | Some (until, r) \<Rightarrow> (2, start, until)))"

definition redemption :: "base64_lib \<Rightarrow> bytes \<Rightarrow> lpcint \<Rightarrow> json" where
  "redemption B credential time =
     jobj [(''credential'', JStr (b64_encode B credential)), (''redemptionTime'', JInt time)]"

text \<open>
  The loop: \<open>randoms\<close> are the pairs of values of \<open>secure_random(32)\<close> in its rounds.  The time is a 32-bit
  integer and wraps.  A device that is logged in has an account with an ID and a phone number identity.
\<close>

fun redemption_loop ::
    "zlib \<Rightarrow> base64_lib \<Rightarrow> key_pair \<Rightarrow> key_pair \<Rightarrow> bytes \<Rightarrow> bytes \<Rightarrow> lpcint \<Rightarrow> (bytes \<times> bytes) list \<Rightarrow> lpcint
      \<Rightarrow> (json list \<times> json list) result" where
  "redemption_loop Z B key linkKey i pni until [] time = (if time \<le>s until then Inl Not_enough_fuel else Inr ([], []))"
| "redemption_loop Z B key linkKey i pni until ((random1, random2) # randoms) time =
     (if time \<le>s until then
        rbind (AuthCredentialWithPniResponse Z key i pni time random1) (\<lambda>c.
        rbind (CallLinkAuthCredentialResponse Z linkKey i time random2) (\<lambda>l.
        rbind (redemption_loop Z B key linkKey i pni until randoms (time + 86400)) (\<lambda>(cs, ls).
          Inr (redemption B (auth_transport Z c) time # cs, redemption B (calllink_transport Z l) time # ls))))
      else Inr ([], []))"

definition getCertificateAuth ::
    "env \<Rightarrow> zlib \<Rightarrow> credentials_server \<Rightarrow> (bytes \<times> bytes) list \<Rightarrow> bytes option \<Rightarrow> bytes \<Rightarrow> account \<Rightarrow> device
      \<Rightarrow> (('o, 'z) rest_server_scheme, 'o server_event, unit) action" where
  "getCertificateAuth E Z srv randoms ctxt param account device =
     (let (n, start, until) = scan_redemption param in
      athen (if n \<noteq> 2 then answer_plain E ctxt HTTP_NOT_FOUND else aret ())
      (abind (alift (need (ac_id account))) (\<lambda>i.
       abind (alift (need (ac_pni account))) (\<lambda>pni.
       abind (alift (redemption_loop Z (en_base64 E) (cr_authCredentialWithPniKey srv) (cr_credentialKey srv) i pni until randoms start)) (\<lambda>(cs, ls).
       abind (alift (uuid_encode (en_hex E) (Some pni))) (\<lambda>uuid.
       abind (respondJson E ctxt (en_http E HTTP_OK)
         (jobj [(''credentials'', JArr cs), (''callLinkAuthCredentials'', JArr ls), (''pni'', JStr uuid)]) None)
         (\<lambda>_. aret ())))))))"

end
