(* ===== verification/CertificatesSpec.thy ===== *)
theory CertificatesSpec
  imports Certificates DeliverySpec
begin

text \<open>
  A certificate determines what it certifies; the loop over the days of a request ends, except for the
  largest time there is; a request that cannot be parsed is answered twice.
\<close>

section \<open>Certificates\<close>

lemma byte_field: "codec ok enc par \<Longrightarrow> ok v \<Longrightarrow> ok w \<Longrightarrow> [t] @ enc v @ r = [t'] @ enc w @ s \<Longrightarrow> t = t' \<and> v = w \<and> r = s"
  by (simp, drule codec.encoding_injective [of ok enc par v w r s], simp_all)

text \<open>The strings of a certificate are shorter than \<open>2 ^ 31\<close> bytes.\<close>

definition cert_short :: "env \<Rightarrow> cert_server \<Rightarrow> account \<Rightarrow> lpcint \<Rightarrow> bytes option \<Rightarrow> bool" where
  "cert_short E srv account d phoneNumber \<longleftrightarrow>
     short (ct_serverCertificate srv)
   \<and> (\<forall>p. phoneNumber = Some p \<longrightarrow> short p)
   \<and> (\<forall>k. rbind (need (ac_identityKey account)) (b64_decode (en_base64 E)) = Inr k \<longrightarrow> short k)
   \<and> (\<forall>u. uuid_encode (en_hex E) (ac_id account) = Inr u \<longrightarrow> short u)
   \<and> (\<forall>s. cert_content E srv account d phoneNumber = Inr s \<longrightarrow> short s)"

lemma protoFixed64_length: "protoFixed64 s = Inr x \<Longrightarrow> length x = 8"
  by (cases s) (auto simp: protoFixed64_def lpc_range_def split: if_splits)

lemma protoFixedTime_length: "protoFixedTime A t ms = Inr x \<Longrightarrow> length x = 8"
  unfolding protoFixedTime_def by (rule protoFixed64_length)

definition cert_body :: "lpcint \<Rightarrow> bytes \<Rightarrow> bytes \<Rightarrow> bytes \<Rightarrow> bytes \<Rightarrow> bytes" where
  "cert_body d x k c u = [0x10] @ protoInt d @ [0x19] @ x @ [0x22] @ protoString k @ [0x2a] @ protoString c @ [0x32] @ protoString u"

lemma cert_content_form:
  assumes "cert_content E srv a d phone = Inr s"
  obtains x k u where "length x = 8" "rbind (need (ac_identityKey a)) (b64_decode (en_base64 E)) = Inr k"
    "uuid_encode (en_hex E) (ac_id a) = Inr u"
    "s = (case phone of None \<Rightarrow> cert_body d x k (ct_serverCertificate srv) u
        | Some p \<Rightarrow> [0x0a] @ protoString p @ cert_body d x k (ct_serverCertificate srv) u)"
proof -
  obtain t ms where clk: "snd (en_clock E) = (t, ms)" by (cases "snd (en_clock E)")
  obtain x where x: "protoFixedTime (en_asn E) (t + CERTIFICATE_DURATION) ms = Inr x"
    using assms by (cases "protoFixedTime (en_asn E) (t + CERTIFICATE_DURATION) ms") (simp_all add: cert_content_def clk Let_def)
  obtain k where k: "rbind (need (ac_identityKey a)) (b64_decode (en_base64 E)) = Inr k"
    using assms by (cases "rbind (need (ac_identityKey a)) (b64_decode (en_base64 E))") (simp_all only: cert_content_def clk x Let_def prod.case rbind_simps sum.distinct)
  obtain u where u: "uuid_encode (en_hex E) (ac_id a) = Inr u"
    using assms by (cases "uuid_encode (en_hex E) (ac_id a)") (simp_all only: cert_content_def clk x k Let_def prod.case rbind_simps sum.distinct)
  show thesis
    by (rule that [OF protoFixedTime_length [OF x] k u])
      (use assms in \<open>simp only: cert_content_def clk x k u Let_def prod.case rbind_simps cert_body_def sum.inject\<close>)
qed

lemma cert_content_injective:
  assumes "cert_content E srv a d phone = Inr s" "cert_content E' srv' a' d' phone' = Inr s"
    and "cert_short E srv a d phone" "cert_short E' srv' a' d' phone'"
  shows "phone = phone' \<and> d = d'
    \<and> rbind (need (ac_identityKey a)) (b64_decode (en_base64 E)) = rbind (need (ac_identityKey a')) (b64_decode (en_base64 E'))
    \<and> ct_serverCertificate srv = ct_serverCertificate srv'
    \<and> uuid_encode (en_hex E) (ac_id a) = uuid_encode (en_hex E') (ac_id a')"
proof -
  let ?id = "\<lambda>E a. rbind (need (ac_identityKey a)) (b64_decode (en_base64 E))"
  let ?mk = cert_body
  obtain x k u where 1: "length x = 8" "?id E a = Inr k" "uuid_encode (en_hex E) (ac_id a) = Inr u"
    "s = (case phone of None \<Rightarrow> ?mk d x k (ct_serverCertificate srv) u
        | Some p \<Rightarrow> [0x0a] @ protoString p @ ?mk d x k (ct_serverCertificate srv) u)"
    using assms(1) by (rule cert_content_form)
  obtain x' k' u' where 2: "length x' = 8" "?id E' a' = Inr k'" "uuid_encode (en_hex E') (ac_id a') = Inr u'"
    "s = (case phone' of None \<Rightarrow> ?mk d' x' k' (ct_serverCertificate srv') u'
        | Some p \<Rightarrow> [0x0a] @ protoString p @ ?mk d' x' k' (ct_serverCertificate srv') u')"
    using assms(2) by (rule cert_content_form)
  have sh: "short k" "short k'" "short u" "short u'" "short (ct_serverCertificate srv)" "short (ct_serverCertificate srv')"
    using assms(3,4) 1(2,3) 2(2,3) by (auto simp: cert_short_def)
  have mk: "d = d' \<and> k = k' \<and> c = c' \<and> u = u'" if "cert_body d x k c u = cert_body d' x' k' c' u'" "short c" "short c'" for c c'
  proof -
    let ?r1 = "\<lambda>k c u. [0x22] @ protoString k @ [0x2a] @ protoString c @ [0x32] @ protoString u"
    let ?r2 = "\<lambda>c u. [0x2a] @ protoString c @ [0x32] @ protoString u"
    have "(0x10 :: byte) = 0x10 \<and> d = d' \<and> [0x19] @ x @ ?r1 k c u = [0x19] @ x' @ ?r1 k' c' u'"
      by (rule byte_field [OF intc.codec_axioms TrueI TrueI that(1) [unfolded cert_body_def]])
    then have d: "d = d'" "?r1 k c u = ?r1 k' c' u'" using 1(1) 2(1) by simp_all
    have "(0x22 :: byte) = 0x22 \<and> k = k' \<and> ?r2 c u = ?r2 c' u'"
      by (rule byte_field [OF stringc.codec_axioms sh(1,2) d(2)])
    then have k: "k = k'" "?r2 c u = ?r2 c' u'" by simp_all
    have "(0x2a :: byte) = 0x2a \<and> c = c' \<and> [0x32] @ protoString u = [0x32] @ protoString u'"
      by (rule byte_field [OF stringc.codec_axioms that(2,3) k(2)])
    then have c: "c = c'" "[0x32] @ protoString u @ [] = [0x32] @ protoString u' @ []" by simp_all
    have "(0x32 :: byte) = 0x32 \<and> u = u' \<and> ([] :: bytes) = []"
      by (rule byte_field [OF stringc.codec_axioms sh(3,4) c(2)])
    then show ?thesis using d k c by simp
  qed
  have tag: "cert_body d x k c u \<noteq> 10 # r" "10 # r \<noteq> cert_body d x k c u" for d x k c u r
    by (simp_all add: cert_body_def)
  show ?thesis
  proof (cases phone)
    case None
    then have n: "phone' = None" using 1(4) 2(4) tag by (cases phone') auto
    have "cert_body d x k (ct_serverCertificate srv) u = cert_body d' x' k' (ct_serverCertificate srv') u'"
      using 1(4) 2(4) None n by simp
    from mk [OF this sh(5,6)] show ?thesis unfolding 1(2,3) 2(2,3) None n by simp
  next
    case (Some p)
    then obtain p' where p': "phone' = Some p'" using 1(4) 2(4) tag by (cases phone') auto
    have p: "short p" "short p'" using assms(3,4) Some p' by (auto simp: cert_short_def)
    have "[0x0a] @ protoString p @ cert_body d x k (ct_serverCertificate srv) u
        = [0x0a] @ protoString p' @ cert_body d' x' k' (ct_serverCertificate srv') u'"
      using 1(4) 2(4) Some p' by simp
    then have e: "p = p' \<and> cert_body d x k (ct_serverCertificate srv) u = cert_body d' x' k' (ct_serverCertificate srv') u'"
      by (rule conjunct2 [OF byte_field [OF stringc.codec_axioms p]])
    from mk [OF conjunct2 [OF e] sh(5,6)] e show ?thesis unfolding 1(2,3) 2(2,3) Some p' by simp
  qed
qed

section \<open>The days of a request\<close>

definition days :: "lpcint \<Rightarrow> lpcint \<Rightarrow> nat" where
  "days start until = (if sint start \<le> sint until then nat ((sint until - sint start) div 86400) + 1 else 0)"

lemma days_step:
  assumes "sint start \<le> sint until" "sint until + 86400 < 2 ^ 31"
  shows "sint (start + 86400) = sint start + 86400" "days start until = Suc (days (start + 86400) until)"
proof -
  have "- (2 ^ 31) \<le> sint start" using sint_ge [of start] by simp
  then show s: "sint (start + 86400) = sint start + 86400"
    using assms by (simp add: sint_word_ariths signed_take_bit_int_eq_self)
  have "(sint until - sint start) div 86400 = (sint until - (sint start + 86400)) div 86400 + 1"
    by (simp add: algebra_simps)
  then show "days start until = Suc (days (start + 86400) until)"
    using assms(1) by (auto simp: days_def s nat_add_distrib pos_imp_zdiv_nonneg_iff)
qed

text \<open>The two responses of a day, in the form in which they are sent.\<close>

definition day_ok :: "zlib \<Rightarrow> base64_lib \<Rightarrow> key_pair \<Rightarrow> key_pair \<Rightarrow> bytes \<Rightarrow> bytes \<Rightarrow> lpcint \<Rightarrow> json \<Rightarrow> json \<Rightarrow> bool" where
  "day_ok Z B key linkKey i pni time x y \<longleftrightarrow>
     (\<exists>c l random1 random2. AuthCredentialWithPniResponse Z key i pni time random1 = Inr c
        \<and> CallLinkAuthCredentialResponse Z linkKey i time random2 = Inr l
        \<and> x = redemption B (auth_transport Z c) time \<and> y = redemption B (calllink_transport Z l) time)"

lemma redemption_loop_ok:
  assumes auth: "\<And>time random. \<exists>c. AuthCredentialWithPniResponse Z key i pni time random = Inr c"
    and link: "\<And>time random. \<exists>l. CallLinkAuthCredentialResponse Z linkKey i time random = Inr l"
    and "sint until + 86400 < 2 ^ 31" "days start until \<le> length randoms"
  shows "\<exists>cs ls. redemption_loop Z B key linkKey i pni until randoms start = Inr (cs, ls)
    \<and> length cs = days start until \<and> length ls = days start until
    \<and> (\<forall>k < days start until. day_ok Z B key linkKey i pni (start + of_nat k * 86400) (cs ! k) (ls ! k))"
  using assms(4)
proof (induction randoms arbitrary: start)
  case Nil
  then have "days start until = 0" "\<not> start \<le>s until" by (auto simp: days_def word_sle_eq split: if_splits)
  then show ?case by simp
next
  case (Cons r randoms)
  obtain r1 r2 where r: "r = (r1, r2)" by (cases r)
  show ?case
  proof (cases "start \<le>s until")
    case False
    then have "days start until = 0" by (simp add: days_def word_sle_eq)
    then show ?thesis using False by (simp add: r)
  next
    case True
    then have le: "sint start \<le> sint until" by (simp add: word_sle_eq)
    note step = days_step [OF le assms(3)]
    obtain c l where cl: "AuthCredentialWithPniResponse Z key i pni start r1 = Inr c"
      "CallLinkAuthCredentialResponse Z linkKey i start r2 = Inr l"
      using auth link by blast
    obtain cs ls where IH: "redemption_loop Z B key linkKey i pni until randoms (start + 86400) = Inr (cs, ls)"
      "length cs = days (start + 86400) until" "length ls = days (start + 86400) until"
      "\<forall>k < days (start + 86400) until. day_ok Z B key linkKey i pni (start + 86400 + of_nat k * 86400) (cs ! k) (ls ! k)"
      using Cons.IH [of "start + 86400"] Cons.prems step(2) by auto
    let ?x = "redemption B (auth_transport Z c) start" and ?y = "redemption B (calllink_transport Z l) start"
    have "day_ok Z B key linkKey i pni (start + of_nat k * 86400) ((?x # cs) ! k) ((?y # ls) ! k)" if "k < days start until" for k
    proof (cases k)
      case 0
      then show ?thesis using cl by (auto simp: day_ok_def)
    next
      case (Suc m)
      then show ?thesis using IH(4) that step(2) by (simp add: algebra_simps)
    qed
    then show ?thesis using True IH(1-3) cl step(2) by (simp add: r)
  qed
qed

lemma redemption_loop_never:
  "\<exists>e. redemption_loop Z B key linkKey i pni 0x7fffffff randoms start = Inl e"
proof (induction randoms arbitrary: start)
  have le: "start \<le>s 0x7fffffff" for start :: lpcint
    using sint_less [of start] by (simp add: word_sle_eq)
  case Nil
  show ?case using le by simp
  case (Cons r randoms)
  show ?case
    using Cons.IH [of "start + 86400"] le
    by (cases r; cases "AuthCredentialWithPniResponse Z key i pni start (fst r)";
        cases "CallLinkAuthCredentialResponse Z linkKey i start (snd r)") auto
qed

section \<open>Properties\<close>

text \<open>
  C27. Two certificates are equal only if they certify the same phone number, device, identity key and
  account; the parts they consist of cannot be cut differently.
\<close>

theorem certificate_injective:
  assumes "cert_generate E sign srv a d phone = Inr c" "cert_generate E' sign srv a' d' phone' = Inr c"
    and "cert_short E srv a d phone" "cert_short E' srv a' d' phone'"
  shows "phone = phone' \<and> d = d'
    \<and> rbind (need (ac_identityKey a)) (b64_decode (en_base64 E)) = rbind (need (ac_identityKey a')) (b64_decode (en_base64 E'))
    \<and> uuid_encode (en_hex E) (ac_id a) = uuid_encode (en_hex E') (ac_id a')"
proof -
  obtain s where s: "cert_content E srv a d phone = Inr s"
    "c = [0x0a] @ protoString s @ [0x12] @ protoString (sign (ct_serverKey srv) s)"
    using assms(1) by (cases "cert_content E srv a d phone") (simp_all add: cert_generate_def)
  obtain s' where s': "cert_content E' srv a' d' phone' = Inr s'"
    "c = [0x0a] @ protoString s' @ [0x12] @ protoString (sign (ct_serverKey srv) s')"
    using assms(2) by (cases "cert_content E' srv a' d' phone'") (simp_all add: cert_generate_def)
  have sh: "short s" "short s'" using assms(3,4) s(1) s'(1) by (auto simp: cert_short_def)
  have "s = s'"
    using byte_field [OF stringc.codec_axioms sh s'(2) [unfolded s(2)]] by blast
  from cert_content_injective [OF s(1) s'(1) [folded this] assms(3,4)] show ?thesis by blast
qed

text \<open>
  C28. The loop over the days of a request ends, with one credential of each kind for every day from the
  first to the last, when the last is at least a day away from the largest integer, whatever was
  drawn at random.  When the last is the largest integer it never ends by itself: the time wraps.
\<close>

theorem redemption_loop_ends:
  assumes "zkp_library Z valid dlog" "length i = 16" "length pni = 16"
    and "sho_input sho = None" "sho_hash sho = ShoHmacSha256 Z" "KeyPair Z sho 5 0 = Inr (key, sho')"
    and "sho_input sho2 = None" "sho_hash sho2 = ShoHmacSha256 Z" "KeyPair Z sho2 7 0 = Inr (linkKey, sho2')"
    and "sint until + 86400 < 2 ^ 31" "days start until \<le> length randoms"
  shows "(\<exists>cs ls. redemption_loop Z B key linkKey i pni until randoms start = Inr (cs, ls)
      \<and> length cs = days start until \<and> length ls = days start until
      \<and> (\<forall>k < days start until. day_ok Z B key linkKey i pni (start + of_nat k * 86400) (cs ! k) (ls ! k)))
    \<and> (\<forall>randoms' start'. \<exists>e. redemption_loop Z B key linkKey i pni 0x7fffffff randoms' start' = Inl e)"
proof -
  have auth: "\<exists>c. AuthCredentialWithPniResponse Z key i pni time random = Inr c" for time random
    using auth_credential_ok [OF assms(1,4-6,2,3), of time random] by blast
  have link: "\<exists>l. CallLinkAuthCredentialResponse Z linkKey i time random = Inr l" for time random
    by (rule calllink_response [OF assms(1,7-9) _ assms(2), of time random]) (simp, blast)
  show ?thesis using redemption_loop_ok [OF auth link assms(10,11)] redemption_loop_never by blast
qed

text \<open>
  A request for daily credentials that cannot be parsed is answered twice on the same connection: with
  the status of a path that was not found and, as the function goes on, with credentials for the day 0.
\<close>

theorem unparsed_answered_twice:
  assumes "scan_literal ''group?redemptionStartSeconds='' param = None"
    and "zkp_library Z valid dlog" "ac_id account = Some i" "ac_pni account = Some pni" "length i = 16" "length pni = 16"
    and "sho_input sho = None" "sho_hash sho = ShoHmacSha256 Z" "KeyPair Z sho 5 0 = Inr (cr_authCredentialWithPniKey srv, sho')"
    and "sho_input sho2 = None" "sho_hash sho2 = ShoHmacSha256 Z" "KeyPair Z sho2 7 0 = Inr (cr_credentialKey srv, sho2')"
    and "hex_library (en_hex E)" "sv_websocket s = None" "sv_connection s \<noteq> None" "randoms \<noteq> []"
  shows "\<exists>t first second body. getCertificateAuth E Z srv randoms ctxt param account device s =
      (Inr (), t, [Http_response first, Http_response second, Http_chunk body])
    \<and> ho_code first = en_http E HTTP_NOT_FOUND \<and> ho_code second = en_http E HTTP_OK"
proof -
  have auth: "\<exists>c. AuthCredentialWithPniResponse Z (cr_authCredentialWithPniKey srv) i pni time random = Inr c" for time random
    using auth_credential_ok [OF assms(2,7-9,5,6), of time random] by blast
  have link: "\<exists>l. CallLinkAuthCredentialResponse Z (cr_credentialKey srv) i time random = Inr l" for time random
    by (rule calllink_response [OF assms(2,10-12) _ assms(5), of time random]) (simp, blast)
  have "days 0 0 \<le> length randoms" using assms(16) by (cases randoms) (simp_all add: days_def)
  then obtain cs ls where loop: "redemption_loop Z (en_base64 E) (cr_authCredentialWithPniKey srv) (cr_credentialKey srv) i pni 0 randoms 0
      = Inr (cs, ls)"
    using redemption_loop_ok [OF auth link, of 0 0 randoms "en_base64 E"] by auto
  obtain u where u: "uuid_encode (en_hex E) (Some pni) = Inr u"
    using uuid_decode_encode [OF assms(13,6)] by blast
  have scan: "scan_redemption param = (0, 0, 0)" by (simp add: scan_redemption_def assms(1))
  show ?thesis
    using assms(14,15)
    by (simp add: getCertificateAuth_def scan assms(3,4) loop u answer_plain_def respondJson_def respond_def httpRespond_def
        connection_call_def action_simps abind_assoc Let_def)
qed

section \<open>Sample runs\<close>

definition sample_signer :: account where
  "sample_signer = (Account None (Some (replicate 16 2)) sample_device)\<lparr>ac_id := Some (replicate 16 1), ac_identityKey := Some [5]\<rparr>"

lemma sample_signer_simps [simp]:
  "ac_id sample_signer = Some (replicate 16 1)" "ac_pni sample_signer = Some (replicate 16 2)"
  "ac_identityKey sample_signer = Some [5]"
  by (simp_all add: sample_signer_def Account_def)

definition sample_cert_server :: cert_server where
  "sample_cert_server = \<lparr>ct_caPubKey = [1], ct_caPrivKey = [2], ct_serverCertificate = [3], ct_serverKey = [4]\<rparr>"

lemma sample_cert_server_simps [simp]: "ct_serverCertificate sample_cert_server = [3]"
  by (simp add: sample_cert_server_def)

lemma protoFixedTime_returns: "asn_library A \<Longrightarrow> \<exists>x. protoFixedTime A t ms = Inr x"
  by (auto simp: protoFixedTime_def protoFixed64_def lpc_range_def asn_library.reverse asn_add_def Suc_le_eq)

lemma cert_body_length:
  "length x = 8 \<Longrightarrow> length (cert_body d x k c u) \<le> 33 + length k + length c + length u"
  using length_protoInt [of d] length_protoInt [of "of_nat (length k)"] length_protoInt [of "of_nat (length c)"]
    length_protoInt [of "of_nat (length u)"]
  by (simp add: cert_body_def protoString_def)

lemma sample_certificate:
  "\<exists>c. cert_generate (sample_env (Api None []) (\<lambda>_. None)) (\<lambda>k s. k) sample_cert_server sample_signer 1 None = Inr c"
  "cert_short (sample_env (Api None []) (\<lambda>_. None)) sample_cert_server sample_signer 1 None"
proof -
  let ?E = "sample_env (Api None []) (\<lambda>_. None)"
  obtain u where u: "uuid_encode std_hex (Some (replicate 16 1)) = Inr u" "length u = 36"
    using uuid_decode_encode [OF std_hex.hex_library_axioms] by (metis length_replicate)
  have E: "en_hex ?E = std_hex" "en_asn ?E = std_asn_lib" "b64_decode (en_base64 ?E) = Inr" "en_clock ?E = (0, (0, 0))"
    by (simp_all add: sample_env_def)
  obtain x where x: "protoFixedTime std_asn_lib CERTIFICATE_DURATION 0 = Inr x"
    using protoFixedTime_returns [OF std_asn.asn_library_axioms] by blast
  have c: "cert_content ?E sample_cert_server sample_signer 1 None = Inr (cert_body 1 x [5] [3] u)"
    by (simp add: cert_content_def E x u cert_body_def Let_def)
  then show "\<exists>c. cert_generate ?E (\<lambda>k s. k) sample_cert_server sample_signer 1 None = Inr c"
    by (simp add: cert_generate_def)
  show "cert_short ?E sample_cert_server sample_signer 1 None"
    using cert_body_length [OF protoFixedTime_length [OF x], of 1 "[5]" "[3]" u] u
    by (simp add: cert_short_def c short_def E)
qed

theorem certificate_injective_witness:
  "\<exists>c. cert_generate (sample_env (Api None []) (\<lambda>_. None)) (\<lambda>k s. k) sample_cert_server sample_signer 1 None = Inr c
    \<and> (1 :: lpcint) = 1 \<and> uuid_encode std_hex (Some (replicate 16 1)) = uuid_encode std_hex (Some (replicate 16 1))"
proof -
  obtain c where c: "cert_generate (sample_env (Api None []) (\<lambda>_. None)) (\<lambda>k s. k) sample_cert_server sample_signer 1 None = Inr c"
    using sample_certificate(1) by blast
  show ?thesis
    using certificate_injective [OF c c sample_certificate(2,2)] c by (auto simp: sample_env_def)
qed

theorem redemption_loop_ends_witness:
  "\<exists>key sho' linkKey cs ls.
     KeyPair std_zlib (Sho (ShoHmacSha256 std_zlib) [1]) 5 0 = Inr (key, sho')
   \<and> redemption_loop std_zlib (en_base64 (sample_env (Api None []) (\<lambda>_. None))) key linkKey (replicate 16 1) (replicate 16 2) 86400
       [([1], [2]), ([3], [4])] 0 = Inr (cs, ls) \<and> length cs = 2 \<and> length ls = 2"
proof -
  let ?sho = "Sho (ShoHmacSha256 std_zlib) [1]"
  obtain params where p: "credentialParams std_zlib = Inr params" by (rule std_zkp.credentialParams_ok)
  obtain key sho' where k: "KeyPair std_zlib ?sho 5 0 = Inr (key, sho')"
    using p by (elim std_zkp.KeyPair_ok [of ?sho _ 0 5 5, rotated 2]) simp_all
  obtain key2 sho2 where k2: "KeyPair std_zlib ?sho 7 0 = Inr (key2, sho2)"
    using p by (elim std_zkp.KeyPair_ok [of ?sho _ 0 7 7, rotated 2]) simp_all
  have u: "length (replicate 16 (1 :: byte)) = 16" "length (replicate 16 (2 :: byte)) = 16"
    "sho_input ?sho = None" "sho_hash ?sho = ShoHmacSha256 std_zlib" by simp_all
  have d: "days 0 86400 = 2" "sint (86400 :: lpcint) + 86400 < 2 ^ 31" "days 0 86400 \<le> length [([1 :: byte], [2 :: byte]), ([3], [4])]"
    by (simp_all add: days_def)
  from conjunct1 [OF redemption_loop_ends [OF std_zkp.zkp_library_axioms u(1,2) u(3,4) k u(3,4) k2 d(2,3),
      of "en_base64 (sample_env (Api None []) (\<lambda>_. None))"], unfolded d(1)]
  show ?thesis using k by blast
qed

theorem unparsed_answered_twice_witness:
  "\<exists>srv t first second body. getCertificateAuth (sample_env (Api None []) (\<lambda>_. None)) std_zlib srv [([1], [2])] None [] sample_signer sample_device
      sample_conn = (Inr (), t, [Http_response first, Http_response second, Http_chunk body])
    \<and> ho_code first = 404 \<and> ho_code second = 200"
proof -
  let ?E = "sample_env (Api None []) (\<lambda>_. None)"
  let ?sho = "Sho (ShoHmacSha256 std_zlib) [1]"
  obtain params where p: "credentialParams std_zlib = Inr params" by (rule std_zkp.credentialParams_ok)
  obtain key sho' where k: "KeyPair std_zlib ?sho 5 0 = Inr (key, sho')"
    using p by (elim std_zkp.KeyPair_ok [of ?sho _ 0 5 5, rotated 2]) simp_all
  obtain key2 sho2 where k2: "KeyPair std_zlib ?sho 7 0 = Inr (key2, sho2)"
    using p by (elim std_zkp.KeyPair_ok [of ?sho _ 0 7 7, rotated 2]) simp_all
  define srv where "srv = sample_credentials\<lparr>cr_authCredentialWithPniKey := key, cr_credentialKey := key2\<rparr>"
  have "\<exists>t first second body. getCertificateAuth ?E std_zlib srv [([1], [2])] None [] sample_signer sample_device
      sample_conn = (Inr (), t, [Http_response first, Http_response second, Http_chunk body])
    \<and> ho_code first = en_http ?E HTTP_NOT_FOUND \<and> ho_code second = en_http ?E HTTP_OK"
    by (rule unparsed_answered_twice [where sho = ?sho and ?sho2.0 = ?sho and i = "replicate 16 1" and pni = "replicate 16 2",
          OF _ std_zkp.zkp_library_axioms])
      (simp_all add: srv_def k k2 scan_literal_def str_def sample_env_def std_hex.hex_library_axioms sample_conn_def)
  moreover have "en_http ?E HTTP_NOT_FOUND = 404" "en_http ?E HTTP_OK = 200" by (simp_all add: sample_env_def sample_http_def)
  ultimately show ?thesis by (simp only:) blast
qed

end
