(* ===== verification/Rs256.thy ===== *)
theory Rs256
  imports Uuid
begin

text \<open>
  RS256 signatures (\<^verbatim>\<open>src/lib/rs256.c\<close>), with which the server asks for access tokens: the padded hash of
  a text, raised to the private exponent by the two primes of the key.

  The key is an \<open>X509Key\<close> of the TLS library, of which the numbers are used; \<open>sha256\<close> is the hash
  function, \<open>oid\<close> its object identifier, and \<open>bits\<close> the number of bits of a number (\<open>asn::bits\<close>).
\<close>

record rsa_key =
  kx_modulus :: bytes
  kx_prime1 :: bytes
  kx_prime2 :: bytes
  kx_exponent1 :: bytes
  kx_exponent2 :: bytes
  kx_coefficient :: bytes

text \<open>The built-in power; the exponent is not negative.\<close>

definition asn_pow :: "bytes \<Rightarrow> bytes \<Rightarrow> bytes \<Rightarrow> bytes" where
  "asn_pow a e m = asn_num (asn_val a ^ nat (asn_val e) mod asn_val m)"

text \<open>The string is doubled until it is long enough; it is not empty.\<close>

function ps_grow :: "int \<Rightarrow> bytes \<Rightarrow> bytes" where
  "ps_grow n s = (if s \<noteq> [] \<and> int (length s) < n then ps_grow n (s @ s) else s)"
  by auto
termination by (relation "measure (\<lambda>(n, s). nat (n - int (length s)))") auto

declare ps_grow.simps [simp del]

definition ps :: "int \<Rightarrow> bytes result" where
  "ps n = lpc_range (ps_grow n (replicate 16 0xff)) 0 (n - 1)"

definition emsa_pkcs1_v15 :: "(bytes \<Rightarrow> bytes) \<Rightarrow> bytes \<Rightarrow> bytes \<Rightarrow> nat \<Rightarrow> bytes result" where
  "emsa_pkcs1_v15 sha256 oid message len =
     (let t = [0x30, 0x31, 0x30, 0x0d, 0x06, 0x09] @ oid @ [0x05, 0x00, 0x04, 0x20] @ sha256 message
      in rmap (\<lambda>p. [0, 1] @ p @ [0] @ t) (ps (int len - 3 - int (length t))))"

definition rs256Sign ::
    "asn_lib \<Rightarrow> (bytes \<Rightarrow> nat) \<Rightarrow> (bytes \<Rightarrow> bytes) \<Rightarrow> bytes \<Rightarrow> bytes \<Rightarrow> rsa_key \<Rightarrow> bytes result" where
  "rs256Sign A bits sha256 oid message key =
     (let modulus = 0 # kx_modulus key;
          p = 0 # kx_prime1 key;
          q = 0 # kx_prime2 key;
          len = (bits modulus + 7) div 8
      in rbind (emsa_pkcs1_v15 sha256 oid message len) (\<lambda>message.
         let m = asn_pow message (0 # kx_exponent2 key) q;
             d = asn_sub (asn_pow message (0 # kx_exponent1 key) p) m p;
             d = (if bit (hd d) 7 then asn_add d p p else d);
             m = asn_add (asn_mult (asn_mult (0 # kx_coefficient key) d p) q modulus) m modulus
         in Inr (if length m > len then tl m else lib_unsigned_extend A m len)))"

section \<open>The padding\<close>

lemma ps_grow_same: "\<exists>k. ps_grow n (replicate m c) = replicate (Suc k * m) c \<and> (m \<noteq> 0 \<longrightarrow> n \<le> int (Suc k * m))"
proof (induction "nat (n - int m)" arbitrary: m rule: less_induct)
  case less
  show ?case
  proof (cases "m \<noteq> 0 \<and> int m < n")
    case True
    have two: "replicate m c @ replicate m c = replicate (2 * m) c" by (simp add: replicate_add [symmetric] mult_2)
    have "ps_grow n (replicate m c) = ps_grow n (replicate (2 * m) c)"
      using True two by (subst ps_grow.simps) simp
    moreover obtain k where "ps_grow n (replicate (2 * m) c) = replicate (Suc k * (2 * m)) c"
      "2 * m \<noteq> 0 \<longrightarrow> n \<le> int (Suc k * (2 * m))"
      using less [of "2 * m"] True by auto
    ultimately show ?thesis using True by (intro exI [of _ "2 * k + 1"]) (simp add: algebra_simps)
  next
    case False
    then show ?thesis by (intro exI [of _ 0]) (subst ps_grow.simps, auto)
  qed
qed

lemma ps_Inr:
  assumes "0 \<le> n"
  shows "ps n = Inr (replicate (nat n) 0xff)"
proof -
  obtain k where "ps_grow n (replicate 16 (0xff :: byte)) = replicate (Suc k * 16) 0xff" "n \<le> int (Suc k * 16)"
    using ps_grow_same [where n = n and m = 16 and c = "0xff :: byte"] by auto
  then show ?thesis using assms by (simp add: ps_def lpc_range_def nat_le_iff min_absorb1)
qed

section \<open>The two primes\<close>

lemma trunc_into_range:
  assumes "0 < P"
  shows "(if asn_trunc v P < 0 then asn_trunc (asn_trunc v P + P) P else asn_trunc v P) = v mod P"
proof (cases "0 \<le> v")
  case True
  then show ?thesis using assms by (simp add: asn_trunc_nonneg)
next
  case False
  define w where "w = - v"
  have w: "0 < w" "v = - w" using False by (simp_all add: w_def)
  have t: "asn_trunc v P = - (w mod P)" using w assms by (simp add: asn_trunc_def)
  have m: "0 \<le> w mod P" "w mod P < P" using assms by simp_all
  have n: "v mod P = (if w mod P = 0 then 0 else P - w mod P)" unfolding w(2) by (rule zmod_zminus1_eq_if)
  show ?thesis
  proof (cases "w mod P = 0")
    case True
    then show ?thesis unfolding t n by simp
  next
    case False
    with m have "0 \<le> P - w mod P" "P - w mod P < P" by simp_all
    then have "asn_trunc (P - w mod P) P = P - w mod P" by (subst asn_trunc_nonneg) (simp_all only: mod_pos_pos_trivial assms)
    then show ?thesis unfolding t n using False m by simp
  qed
qed

lemma recombine:
  fixes P Q c x y :: int
  assumes "c * Q mod P = 1 mod P"
  shows "(c * ((x - y) mod P) mod P * Q + y) mod P = x mod P"
    "(c * ((x - y) mod P) mod P * Q + y) mod Q = y mod Q"
proof -
  have "(c * ((x - y) mod P) mod P * Q) mod P = (c * (x - y) * Q) mod P"
    by (simp only: mod_mult_left_eq mod_mult_right_eq flip: mult.assoc)
  also have "\<dots> = (c * Q * (x - y)) mod P" by (simp only: mult.assoc mult.commute [of Q])
  also have "\<dots> = (c * Q mod P * (x - y)) mod P" by (simp only: mod_mult_left_eq)
  also have "\<dots> = (x - y) mod P" unfolding assms by (simp add: mod_mult_left_eq)
  finally have "(c * ((x - y) mod P) mod P * Q + y) mod P = (x - y + y) mod P" by (rule mod_add_cong) simp
  then show "(c * ((x - y) mod P) mod P * Q + y) mod P = x mod P" by simp
qed (simp add: mod_simps)

lemma crt_unique:
  fixes P Q a b :: int
  assumes "coprime P Q" "a mod P = b mod P" "a mod Q = b mod Q"
  shows "a mod (P * Q) = b mod (P * Q)"
  using assms by (simp add: mod_eq_dvd_iff divides_mult)

lemma length_asn_num_bound:
  assumes "0 \<le> v" "v < 256 ^ k"
  shows "length (asn_num v) \<le> Suc k" "k < length (asn_num v) \<Longrightarrow> hd (asn_num v) = 0 \<and> length (asn_num v) = Suc k"
proof -
  obtain n where v: "v = int n" using assms(1) nonneg_int_cases by blast
  then have n: "n < 256 ^ k" using assms(2) by (metis of_nat_less_iff of_nat_numeral of_nat_power)
  then have "length (asn_unum n) \<le> k" by (simp only: length_asn_unum_le_iff)
  then show "length (asn_num v) \<le> Suc k" "k < length (asn_num v) \<Longrightarrow> hd (asn_num v) = 0 \<and> length (asn_num v) = Suc k"
    by (auto simp: v asn_num_def asn_pad_def split: if_splits)
qed

text \<open>The number as exactly \<open>len\<close> bytes.\<close>

lemma fitted:
  assumes "asn_library A" "0 \<le> v" "v < 256 ^ len"
  defines "s \<equiv> (if length (asn_num v) > len then tl (asn_num v) else lib_unsigned_extend A (asn_num v) len)"
  shows "length s = len" "int (asn_uval s) = v"
proof -
  note A = asn_library.unsigned_extend [OF assms(1)]
  obtain n where v: "v = int n" using assms(2) nonneg_int_cases by blast
  have u: "asn_uval (asn_num v) = n" by (simp add: v asn_num_def)
  show "length s = len" unfolding s_def using length_asn_num_bound(2) [OF assms(2,3)] by (auto simp: A)
  show "int (asn_uval s) = v"
  proof (cases "length (asn_num v) > len")
    case True
    then have "hd (asn_num v) = 0" using length_asn_num_bound(2) [OF assms(2,3)] by blast
    then have "asn_num v = 0 # tl (asn_num v)" by (metis asn_num_ne list.collapse)
    then have "asn_uval (tl (asn_num v)) = n" using u by (metis asn_uval_Cons add_0 mult_zero_left unsigned_0 unat_0)
    then show ?thesis using True by (simp add: s_def v)
  next
    case False
    then show ?thesis using u by (simp add: s_def asn_library.uval_unsigned_extend [OF assms(1)] v)
  qed
qed

section \<open>The signature\<close>

text \<open>
  A key: \<open>e\<close> is the public exponent; the private exponents undo it, each modulo its prime.
\<close>

definition rsa_law :: "rsa_key \<Rightarrow> nat \<Rightarrow> bool" where
  "rsa_law key e \<longleftrightarrow>
     (let P = int (asn_uval (kx_prime1 key)); Q = int (asn_uval (kx_prime2 key)) in
       0 < P \<and> 0 < Q \<and> coprime P Q \<and> int (asn_uval (kx_modulus key)) = P * Q
     \<and> int (asn_uval (kx_coefficient key)) * Q mod P = 1 mod P
     \<and> (\<forall>x. (x ^ asn_uval (kx_exponent1 key)) ^ e mod P = x mod P)
     \<and> (\<forall>x. (x ^ asn_uval (kx_exponent2 key)) ^ e mod Q = x mod Q))"

text \<open>
  The verification of RFC 8017, section 8.2.2, written from the standard and not from the code.  A value
  is encoded in ASN.1 DER as its tag, its length and its contents; the \<open>DigestInfo\<close> of section 9.2
  holds the algorithm, with its object identifier and no parameters, and the hash.  It is refused if
  there is no room for eight bytes of padding.
\<close>

definition der :: "byte \<Rightarrow> bytes \<Rightarrow> bytes" where
  "der tag contents = [tag, of_nat (length contents)] @ contents"

definition digest_info :: "bytes \<Rightarrow> bytes \<Rightarrow> bytes" where
  "digest_info oid hash = der 0x30 (der 0x30 (der 0x06 oid @ der 0x05 []) @ der 0x04 hash)"

definition rfc_emsa :: "bytes \<Rightarrow> bytes \<Rightarrow> nat \<Rightarrow> bytes option" where
  "rfc_emsa oid hash emLen =
     (let T = digest_info oid hash in
      if emLen < length T + 11 then None
      else Some ([0x00, 0x01] @ replicate (emLen - length T - 3) 0xff @ [0x00] @ T))"

text \<open>\<open>n\<close> and \<open>e\<close> are the public key; the length of the modulus in bytes is that of its shortest encoding.\<close>

definition rs256_accepts :: "(bytes \<Rightarrow> bytes) \<Rightarrow> bytes \<Rightarrow> bytes \<Rightarrow> nat \<Rightarrow> nat \<Rightarrow> bytes \<Rightarrow> bool" where
  "rs256_accepts sha256 oid message n e s =
     (let k = length (asn_unum n) in
      length s = k \<and> asn_uval s < n
    \<and> (case rfc_emsa oid (sha256 message) k of
         None \<Rightarrow> False
       | Some em \<Rightarrow> length em = k \<and> asn_uval em = asn_uval s ^ e mod n))"

text \<open>For an identifier of nine bytes and a hash of 32 the code makes the same string.\<close>

lemma emsa_is_rfc:
  assumes "length oid = 9" "length (sha256 message) = 32" "62 \<le> len"
  shows "emsa_pkcs1_v15 sha256 oid message len = Inr (the (rfc_emsa oid (sha256 message) len))"
    "rfc_emsa oid (sha256 message) len \<noteq> None" "length (the (rfc_emsa oid (sha256 message) len)) = len"
    "hd (the (rfc_emsa oid (sha256 message) len)) = 0"
proof -
  have T: "digest_info oid (sha256 message) = [0x30, 0x31, 0x30, 0x0d, 0x06, 0x09] @ oid @ [0x05, 0x00, 0x04, 0x20] @ sha256 message"
    using assms(1,2) by (simp add: digest_info_def der_def)
  have "ps (int len - 54) = Inr (replicate (len - 54) 0xff)" using assms(3) by (subst ps_Inr) (simp_all add: nat_diff_distrib)
  then show "emsa_pkcs1_v15 sha256 oid message len = Inr (the (rfc_emsa oid (sha256 message) len))"
    using assms by (simp add: emsa_pkcs1_v15_def rfc_emsa_def T Let_def)
qed (use assms in \<open>simp_all add: rfc_emsa_def digest_info_def der_def Let_def\<close>)

lemma octets:
  assumes "2 ^ (b - 1) \<le> n" "n < 2 ^ b" "0 < b"
  shows "length (asn_unum n) = (b + 7) div 8"
proof (rule antisym)
  have "n < 256 ^ ((b + 7) div 8)"
  proof -
    have "(2 :: nat) ^ b \<le> 2 ^ (8 * ((b + 7) div 8))" by (rule power_increasing) simp_all
    then show ?thesis using assms(2) by (simp add: power_mult)
  qed
  then show "length (asn_unum n) \<le> (b + 7) div 8" by (simp only: length_asn_unum_le_iff)
  have "\<not> length (asn_unum n) \<le> (b + 7) div 8 - 1"
  proof -
    have "(2 :: nat) ^ (8 * ((b + 7) div 8 - 1)) \<le> 2 ^ (b - 1)" using assms(3) by (intro power_increasing) simp_all
    then have "\<not> n < 256 ^ ((b + 7) div 8 - 1)" using assms(1) by (simp add: power_mult)
    then show ?thesis by (simp only: length_asn_unum_le_iff not_False_eq_True)
  qed
  then show "(b + 7) div 8 \<le> length (asn_unum n)" by simp
qed

definition signed_value :: "rsa_key \<Rightarrow> int \<Rightarrow> int" where
  "signed_value key x =
     (let P = int (asn_uval (kx_prime1 key)); Q = int (asn_uval (kx_prime2 key));
          a = x ^ asn_uval (kx_exponent1 key) mod P;
          m = x ^ asn_uval (kx_exponent2 key) mod Q
      in (int (asn_uval (kx_coefficient key)) * ((a - m) mod P) mod P * Q + m) mod (P * Q))"

lemma signed_value_power:
  assumes "rsa_law key e"
  shows "signed_value key x ^ e mod int (asn_uval (kx_modulus key)) = x mod int (asn_uval (kx_modulus key))"
proof -
  define P Q where "P = int (asn_uval (kx_prime1 key))" and "Q = int (asn_uval (kx_prime2 key))"
  define c where "c = int (asn_uval (kx_coefficient key))"
  define a m where "a = x ^ asn_uval (kx_exponent1 key) mod P" and "m = x ^ asn_uval (kx_exponent2 key) mod Q"
  have k: "coprime P Q" "int (asn_uval (kx_modulus key)) = P * Q" "c * Q mod P = 1 mod P"
    and ex: "(x ^ asn_uval (kx_exponent1 key)) ^ e mod P = x mod P" "(x ^ asn_uval (kx_exponent2 key)) ^ e mod Q = x mod Q"
    using assms by (simp_all add: rsa_law_def Let_def P_def Q_def c_def)
  define v where "v = c * ((a - m) mod P) mod P * Q + m"
  have sv: "signed_value key x = v mod (P * Q)"
    by (simp add: signed_value_def Let_def v_def a_def m_def c_def P_def Q_def)
  have v: "v mod P = a" "v mod Q = m" using recombine [OF k(3), of a m] by (simp_all add: v_def a_def m_def)
  have "v ^ e mod P = a ^ e mod P" "v ^ e mod Q = m ^ e mod Q" by (simp_all add: power_mod flip: v)
  then have "v ^ e mod P = x mod P" "v ^ e mod Q = x mod Q"
    using ex by (simp_all add: a_def m_def power_mod)
  then have "v ^ e mod (P * Q) = x mod (P * Q)" using crt_unique [OF k(1)] by blast
  then show ?thesis by (simp add: sv k(2) power_mod)
qed

lemma rs256Sign_value:
  assumes "asn_library A" "rsa_law key e" "asn_uval (kx_modulus key) < 2 ^ bits (0 # kx_modulus key)"
    and "len = (bits (0 # kx_modulus key) + 7) div 8" "emsa_pkcs1_v15 sha256 oid message len = Inr em" "em \<noteq> []" "hd em = 0"
  shows "\<exists>s. rs256Sign A bits sha256 oid message key = Inr s \<and> length s = len
    \<and> int (asn_uval s) = signed_value key (int (asn_uval em))"
proof -
  define P Q where "P = int (asn_uval (kx_prime1 key))" and "Q = int (asn_uval (kx_prime2 key))"
  define c where "c = int (asn_uval (kx_coefficient key))"
  define x where "x = int (asn_uval em)"
  define a m where "a = x ^ asn_uval (kx_exponent1 key) mod P" and "m = x ^ asn_uval (kx_exponent2 key) mod Q"
  have k: "0 < P" "0 < Q" "int (asn_uval (kx_modulus key)) = P * Q" "0 \<le> c"
    using assms(2) by (simp_all add: rsa_law_def Let_def P_def Q_def c_def)
  have x: "asn_val em = x" using assms(6,7) by (cases em) (simp_all add: x_def asn_val_nonneg)
  have vals: "asn_val (0 # kx_modulus key) = P * Q" "asn_val (0 # kx_prime1 key) = P" "asn_val (0 # kx_prime2 key) = Q"
    "asn_val (0 # kx_coefficient key) = c"
    by (simp_all add: asn_val_nonneg k(3) P_def Q_def c_def)
  have pow: "asn_pow em (0 # kx_exponent1 key) (0 # kx_prime1 key) = asn_num a"
    "asn_pow em (0 # kx_exponent2 key) (0 # kx_prime2 key) = asn_num m"
    by (simp_all add: asn_pow_def vals x a_def m_def asn_val_nonneg P_def Q_def)
  have d: "(let d = asn_sub (asn_num a) (asn_num m) (0 # kx_prime1 key)
      in if bit (hd d) 7 then asn_add d (0 # kx_prime1 key) (0 # kx_prime1 key) else d) = asn_num ((a - m) mod P)"
    using trunc_into_range [OF k(1), of "a - m"] by (auto simp: Let_def asn_sub_def asn_add_def vals hd_asn_num)
  have am: "0 \<le> m" "0 \<le> (a - m) mod P" using k by (simp_all add: m_def)
  define v where "v = signed_value key x"
  have mul: "asn_add (asn_mult (asn_mult (0 # kx_coefficient key) (asn_num ((a - m) mod P)) (0 # kx_prime1 key)) (0 # kx_prime2 key)
      (0 # kx_modulus key)) (asn_num m) (0 # kx_modulus key) = asn_num v"
    using k am by (simp add: asn_add_def asn_mult_def vals asn_trunc_nonneg v_def signed_value_def Let_def mod_add_left_eq
        a_def [symmetric] m_def [symmetric] c_def [symmetric] P_def [symmetric] Q_def [symmetric])
  have v0: "0 \<le> v" using k by (simp add: v_def signed_value_def Let_def P_def [symmetric] Q_def [symmetric])
  have "v < P * Q" using k by (simp add: v_def signed_value_def Let_def P_def [symmetric] Q_def [symmetric])
  moreover have "P * Q < 2 ^ bits (0 # kx_modulus key)"
    using assms(3) unfolding k(3) [symmetric] by (metis of_nat_less_iff of_nat_numeral of_nat_power)
  moreover have "(2 :: int) ^ bits (0 # kx_modulus key) \<le> 2 ^ (8 * len)"
    by (rule power_increasing) (simp_all add: assms(4))
  moreover have "(2 :: int) ^ (8 * len) = 256 ^ len" by (simp add: power_mult)
  ultimately have v1: "v < 256 ^ len" by linarith
  have "rs256Sign A bits sha256 oid message key =
      Inr (if length (asn_num v) > len then tl (asn_num v) else lib_unsigned_extend A (asn_num v) len)"
    by (simp only: rs256Sign_def Let_def assms(4) [symmetric] assms(5) rbind_simps pow d [unfolded Let_def] mul)
  then show ?thesis using fitted [OF assms(1) v0 v1] by (simp only: v_def x_def) blast
qed

section \<open>Properties\<close>

text \<open>
  C24. For every key that is long enough, signing ends without an error, and the signature, computed modulo
  the two primes and put together, is one that the verification of RFC 8017 accepts for that text and
  the public key: it is as long as the modulus and smaller, and its power is the number of the padded
  \<open>DigestInfo\<close>, which the standard gives in DER.
\<close>

theorem rs256_signature:
  assumes "asn_library A" "rsa_law key e"
    and "2 ^ (bits (0 # kx_modulus key) - 1) \<le> asn_uval (kx_modulus key)"
    and "asn_uval (kx_modulus key) < 2 ^ bits (0 # kx_modulus key)"
    and "length oid = 9" "length (sha256 message) = 32" "62 \<le> (bits (0 # kx_modulus key) + 7) div 8"
  shows "\<exists>s. rs256Sign A bits sha256 oid message key = Inr s
    \<and> rs256_accepts sha256 oid message (asn_uval (kx_modulus key)) e s"
proof -
  define b N where "b = bits (0 # kx_modulus key)" and "N = asn_uval (kx_modulus key)"
  define k where "k = (b + 7) div 8"
  have k: "length (asn_unum N) = k" using octets [of b N] assms(3,4,7) by (simp add: b_def N_def k_def)
  obtain em where em: "rfc_emsa oid (sha256 message) k = Some em" "emsa_pkcs1_v15 sha256 oid message k = Inr em"
    "length em = k" "hd em = 0" "em \<noteq> []"
    using emsa_is_rfc [of oid sha256 message k] assms(5-7) by (force simp: b_def k_def)
  obtain s where s: "rs256Sign A bits sha256 oid message key = Inr s" "length s = k"
    "int (asn_uval s) = signed_value key (int (asn_uval em))"
    using rs256Sign_value [of A key e bits k sha256 oid message em] assms(1,2,4) em by (auto simp: b_def k_def)
  have "asn_uval em = asn_uval (tl em)" using em(4,5) by (cases em) (simp_all add: asn_uval_Cons)
  also have "\<dots> < 2 ^ (8 * (length em - 1))" using asn_uval_lt [of "tl em"] by (simp add: power_mult)
  also have "\<dots> \<le> 2 ^ (b - 1)" using em(3) by (intro power_increasing) (simp_all add: k_def)
  also have "\<dots> \<le> N" using assms(3) by (simp add: b_def N_def)
  finally have lt: "asn_uval em < N" .
  have "int (asn_uval s) ^ e mod int N = int (asn_uval em) mod int N"
    unfolding s(3) N_def by (rule signed_value_power [OF assms(2)])
  then have "asn_uval s ^ e mod N = asn_uval em" using lt by (metis mod_less of_nat_eq_iff of_nat_mod of_nat_power)
  moreover have "asn_uval s < N"
  proof -
    have "0 < N" using lt by simp
    then have "int (asn_uval s) < int N"
      unfolding s(3) using assms(2) by (simp add: signed_value_def rsa_law_def Let_def N_def)
    then show ?thesis by simp
  qed
  ultimately show ?thesis using s em by (simp add: rs256_accepts_def Let_def k N_def [symmetric])
qed

definition sample_key :: rsa_key where
  "sample_key = \<lparr>kx_modulus = replicate 32 255 @ replicate 32 0, kx_prime1 = 1 # replicate 32 0, kx_prime2 = replicate 32 255,
     kx_exponent1 = [1], kx_exponent2 = [1], kx_coefficient = replicate 32 255\<rparr>"

lemma asn_uval_ones: "asn_uval (replicate n 255) = 256 ^ n - 1"
  by (induction n) (simp_all add: asn_uval_Cons)

lemma next_to:
  fixes B :: int
  assumes "1 < B"
  shows "coprime B (B - 1)" "(B - 1) * (B - 1) mod B = 1 mod B"
proof -
  show "coprime B (B - 1)" by simp
  have "(B - 1) * (B - 1) = 1 + B * (B - 2)" by (simp add: algebra_simps)
  then show "(B - 1) * (B - 1) mod B = 1 mod B" by simp
qed

lemma sample_key_law: "rsa_law sample_key 1"
  "2 ^ 511 \<le> asn_uval (kx_modulus sample_key)" "asn_uval (kx_modulus sample_key) < 2 ^ 512"
proof -
  have u: "asn_uval (kx_prime1 sample_key) = 256 ^ 32" "asn_uval (kx_prime2 sample_key) = 256 ^ 32 - 1"
    "asn_uval (kx_coefficient sample_key) = 256 ^ 32 - 1" "asn_uval (kx_modulus sample_key) = (256 ^ 32 - 1) * 256 ^ 32"
    "asn_uval (kx_exponent1 sample_key) = 1" "asn_uval (kx_exponent2 sample_key) = 1"
    by (simp_all add: sample_key_def asn_uval_Cons asn_uval_append asn_uval_zeros asn_uval_ones)
  define B :: int where "B = 256 ^ 32"
  have B: "1 < B" "int (256 ^ 32) = B" "int (256 ^ 32 - 1) = B - 1" "int ((256 ^ 32 - 1) * 256 ^ 32) = (B - 1) * B"
    by (simp_all add: B_def)
  show "rsa_law sample_key 1"
    unfolding rsa_law_def u Let_def B(2-4) using B(1) next_to [OF B(1)] by (simp add: mult.commute)
  show "2 ^ 511 \<le> asn_uval (kx_modulus sample_key)" "asn_uval (kx_modulus sample_key) < 2 ^ 512"
    unfolding u by simp_all
qed

text \<open>The identifier of SHA-256.\<close>

definition sample_oid :: bytes where
  "sample_oid = [0x60, 0x86, 0x48, 0x01, 0x65, 0x03, 0x04, 0x02, 0x01]"

theorem rs256_signature_witness:
  "\<exists>s. rs256Sign std_asn_lib (\<lambda>s. 512) (\<lambda>m. replicate 32 7) sample_oid [1, 2] sample_key = Inr s
    \<and> rs256_accepts (\<lambda>m. replicate 32 7) sample_oid [1, 2] (asn_uval (kx_modulus sample_key)) 1 s"
  by (rule rs256_signature [OF std_asn.asn_library_axioms sample_key_law(1)])
    (use sample_key_law(2,3) in \<open>simp_all add: sample_oid_def\<close>)

end
