(* ===== verification/Spec2Isabelle.thy ===== *)
theory Spec2Isabelle
  imports KeyServer EndToEnd Startup RegistrationSpec DiscoverySpec FcmSpec PreKeys DevicesSpec Profiles CertificatesSpec Rs256
begin

text \<open>
  A model of the Signal server in LPC (\<^verbatim>\<open>src/\<close>), component by component.

  \<^bold>\<open>The program.\<close>  A client connects by HTTPS.  \<^verbatim>\<open>lib/rest/Server.c\<close> reads a request, finds the
  function for its path in \<^verbatim>\<open>sys/rest_api.c\<close>, authenticates the device, decodes the arguments and
  calls a function of the service (\<^verbatim>\<open>services/lib/chat/*.c\<close>), which uses the registries of
  \<^verbatim>\<open>sys/*.c\<close>: accounts, phone number identities, profiles, one-time keys, messages, endpoints that are
  online.  These keep their objects in key-value stores.  A connection can be upgraded to a WebSocket,
  on which both sides send requests in protobuf messages (\<^verbatim>\<open>lib/websocket.c\<close>, \<^verbatim>\<open>lib/proto.c\<close>) and
  the server delivers envelopes one by one.  Credentials are issued with zero-knowledge proofs
  (\<^verbatim>\<open>lib/zkp/*.c\<close>, \<^verbatim>\<open>lib/protocol/*.c\<close>).

  \<^bold>\<open>Theories.\<close>
  \<^item> \<^verbatim>\<open>Lpc\<close>, \<^verbatim>\<open>Text\<close>, \<^verbatim>\<open>Action\<close>: the prelude.  Strings are byte lists, integers 32-bit words
    (\<open>lpcint\<close>), errors values of a sum (\<open>result\<close>).  A function of an object with state is an
    \<open>action\<close>: it returns a result, the new state and the events, that is, what it asked
    others to do; an error keeps the changes made before it.  \<open>ensures\<close> is the program logic for actions.
  \<^item> \<^verbatim>\<open>Asn\<close>, \<^verbatim>\<open>Proto\<close>, \<^verbatim>\<open>ProtoSpec\<close>, \<^verbatim>\<open>ProtoRead\<close>: the wire format (\<^verbatim>\<open>lib/proto.c\<close>): encoders,
    parsers that read a chunked buffer, and that the parsers undo the encoders from any chunking.
  \<^item> \<^verbatim>\<open>Websocket\<close>, \<^verbatim>\<open>WebsocketSpec\<close>: the messages of \<^verbatim>\<open>lib/websocket.c\<close>: what is sent is received.
  \<^item> \<^verbatim>\<open>Zkp\<close>, \<^verbatim>\<open>ZkpSpec\<close>: scalars, points, the sponge, statements and proofs (\<^verbatim>\<open>lib/zkp\<close>,
    \<^verbatim>\<open>lib/Sho*.c\<close>): a proof that was made is accepted if its equations hold, and what \<open>verify\<close>
    compares if they do not.
  \<^item> \<^verbatim>\<open>Uuid\<close>, \<^verbatim>\<open>Credentials\<close>, \<^verbatim>\<open>CredentialsSpec\<close>: UUIDs, days, token hashes, parameters, key pairs
    and the responses of \<^verbatim>\<open>lib/protocol\<close>: an issued credential verifies.
  \<^item> \<^verbatim>\<open>Stores\<close>: the contract of a key-value store (locales \<open>kvstore\<close> and \<open>expiring_store\<close>) and
    the stores with expiration and of objects (\<^verbatim>\<open>lib/KVstoreExp.c\<close>, \<^verbatim>\<open>lib/KVstoreObj.c\<close>).
  \<^item> \<^verbatim>\<open>Phone\<close>, \<^verbatim>\<open>Account\<close>: phone numbers as keys, timestamps, devices, accounts, profiles, envelopes
    (\<^verbatim>\<open>lib/phone.c\<close>, \<^verbatim>\<open>lib/Timestamp.c\<close>, \<^verbatim>\<open>lib/Device.c\<close>, \<^verbatim>\<open>lib/Account.c\<close>, \<^verbatim>\<open>lib/Profile.c\<close>,
    \<^verbatim>\<open>lib/Envelope.c\<close>).
  \<^item> \<^verbatim>\<open>Servers\<close>, \<^verbatim>\<open>KeyServer\<close>, \<^verbatim>\<open>Mailbox\<close>: the registries (\<^verbatim>\<open>sys/accounts.c\<close>, \<^verbatim>\<open>sys/pni.c\<close>,
    \<^verbatim>\<open>sys/profiles.c\<close>, \<^verbatim>\<open>sys/online.c\<close>, \<^verbatim>\<open>sys/provisioning.c\<close>, \<^verbatim>\<open>sys/keys.c\<close>, \<^verbatim>\<open>sys/messages.c\<close>)
    with their invariants; the message server implements a queue of envelopes per device.
  \<^item> \<^verbatim>\<open>RestApi\<close>: the paths (\<^verbatim>\<open>sys/rest_api.c\<close> and the \<^verbatim>\<open>REGISTER\<close> parts of the services); the tree
    implements a map of paths.
  \<^item> \<^verbatim>\<open>Json\<close>, \<^verbatim>\<open>Rest\<close>, \<^verbatim>\<open>RestSpec\<close>: a connection (\<^verbatim>\<open>lib/rest/Server.c\<close>): which handlers a request
    can reach without login, and that all others run for a verified device.
  \<^item> \<^verbatim>\<open>ChatSocket\<close>, \<^verbatim>\<open>Delivery\<close>, \<^verbatim>\<open>DeliverySpec\<close>: WebSocket connections of the chat service
    (\<^verbatim>\<open>services/lib/chat/Websocket.c\<close>, \<^verbatim>\<open>services/lib/chat/Messages.c\<close>): no envelope is lost or
    delivered twice, and the queue of a client that answers is drained.
  \<^item> \<^verbatim>\<open>OfflineSpec\<close>: the messages for devices that are not connected, across the chat service and the
    message server: which mail box they end up in.
  \<^item> \<^verbatim>\<open>EndToEnd\<close>: a message from the request of its sender to the client of its recipient and the
    receipt back, across the services and the wire format.
  \<^item> \<^verbatim>\<open>EventLoop\<close>, \<^verbatim>\<open>Flow\<close>: the functions by which a connection calls its object
    (\<^verbatim>\<open>receiveRequest\<close>, \<^verbatim>\<open>receiveWsChunk\<close>, ... of \<^verbatim>\<open>lib/rest/Server.c\<close> and \<^verbatim>\<open>lib/rest/Client.c\<close>) defer
    the work with \<^verbatim>\<open>call_out\<close>.  \<open>loop\<close> is what happens to such an object: the functions are called,
    each puts a deferred call into the queue, and the queue is run at any time.  The locale
    \<open>event_loop\<close>, interpreted for the server and the client, shows that it is the same as running the
    calls of its own connection directly, in order.  Only the calls of these functions are in the queue: what
    the object defers itself (the stages of continuations, the delivery of envelopes) is an event
    of the components above.
  \<^item> \<^verbatim>\<open>CredentialServer\<close>: the keys and signed times of \<^verbatim>\<open>sys/credentials.c\<close> and the services that hand
    them out (\<^verbatim>\<open>chat/Backup.c\<close>, \<^verbatim>\<open>chat/Storage.c\<close>, \<^verbatim>\<open>chat/Directory.c\<close>, \<^verbatim>\<open>chat/Config.c\<close>,
    \<^verbatim>\<open>storage/Storage.c\<close>).
  \<^item> \<^verbatim>\<open>Registration\<close>, \<^verbatim>\<open>RegistrationSpec\<close>: verification sessions and new accounts
    (\<^verbatim>\<open>sys/registration.c\<close>, \<^verbatim>\<open>chat/Registration.c\<close>): when a session reads as allowed to request a
    code (the handlers do not look at that mark, so that its order of steps is not enforced), and that a
    new account can be used.
  \<^item> \<^verbatim>\<open>Handlers\<close>: changes of the account and device a handler is given; \<^verbatim>\<open>PreKeys\<close> (\<^verbatim>\<open>chat/Keys.c\<close>):
    publishing and fetching keys; \<^verbatim>\<open>Devices\<close>, \<^verbatim>\<open>DevicesSpec\<close> (\<^verbatim>\<open>chat/Accounts.c\<close>, \<^verbatim>\<open>chat/Devices.c\<close>,
    \<^verbatim>\<open>chat/Provisioning.c\<close>): attributes and the linking of devices; \<^verbatim>\<open>Profiles\<close> (\<^verbatim>\<open>chat/Profile.c\<close>):
    profiles and their credentials.
  \<^item> \<^verbatim>\<open>CallLink\<close>, \<^verbatim>\<open>Certificates\<close>, \<^verbatim>\<open>CertificatesSpec\<close>: sender certificates and daily credentials
    (\<^verbatim>\<open>sys/cert.c\<close>, \<^verbatim>\<open>chat/Certificate.c\<close>), and what a client's verification makes of the proof of a
    call link credential, whose key is made for another number of attributes; \<open>echo_zlib\<close> is an instance
    of the library in which the proof is refused.
  \<^item> \<^verbatim>\<open>Discovery\<close>, \<^verbatim>\<open>DiscoverySpec\<close>: contact discovery (\<^verbatim>\<open>services/lib/cdsi/Discovery.c\<close>): the dialogue
    answers with the rows of the numbers that were asked for.
  \<^item> \<^verbatim>\<open>Client\<close>, \<^verbatim>\<open>Fcm\<close>, \<^verbatim>\<open>FcmSpec\<close>, \<^verbatim>\<open>Rs256\<close>: connections to other servers (\<^verbatim>\<open>lib/rest/Client.c\<close>,
    \<^verbatim>\<open>obj/oneshot.c\<close>), push notifications (\<^verbatim>\<open>obj/fcm_sender.c\<close>, \<^verbatim>\<open>sys/fcm_relay.c\<close>), whose queue is
    worked off by one job at a time, and the signature of the request for an access token
    (\<^verbatim>\<open>lib/rs256.c\<close>), which the verification of RFC 8017 accepts; that is written from the RFC and
    shares no definition with the code.
  \<^item> \<^verbatim>\<open>Params\<close>: the object with the system parameters (\<^verbatim>\<open>sys/params.c\<close>), whose hash objects are
    references into a store: what is done with the clones it hands out does not change the next ones.
  \<^item> \<^verbatim>\<open>Startup\<close>: the start and the upgrade of the system (\<^verbatim>\<open>initd.c\<close>), the manager of TLS connections
    (\<^verbatim>\<open>sys/tls_server.c\<close>), the object of a connection (\<^verbatim>\<open>services/obj/server.c\<close>) and the choices of a
    TLS client (\<^verbatim>\<open>lib/TlsClientSession.c\<close>): the start makes every object, the upgrade makes the credentials again
    from their seed and writes the public parameters for the clients, and both last from then on.

  \<^bold>\<open>Shared objects.\<close>  An object that a store and a handler both hold is changed in the store, under its
  key.  A stage of a continuation, and a function that is called by \<^verbatim>\<open>call_out\<close>, is a definition of its
  own; the call is an event, and the theorems about several stages run them one after the other, with
  other steps between them where the theorem is about an order of steps.

  \<^bold>\<open>Not modelled.\<close>  \<^verbatim>\<open>benchmark/\<close> is a load test that runs beside the server.  Of the platform, compiling
  and destructing an object is modelled as far as the start needs it: which objects there are, and the
  state of those whose \<open>create\<close> reads files or calls others.
  Functions that only return a variable are the selectors of the records.  The numbers of a JSON text
  are integers: one that decodes to a float is not modelled.  A modification time is a whole number of
  milliseconds.  The keys of a mapping are listed in the order of their insertion, where the platform
  has an order of its own; which of the one-time keys is handed out first depends on that, and no theorem does.

  \<^bold>\<open>Code that is not under src.\<close>  The cloud library and the HTTP library are parameters: big integers in
  the ASN format (\<open>asn_lib\<close>, law \<open>asn_library\<close>), hexadecimal and base64 text, JSON, hash
  functions and ristretto255 (\<open>zlib\<close>), key-value stores (\<open>kvlib\<close>), HTTP status numbers
  (\<open>http_codes\<close>).  Their laws are locales, interpreted on concrete instances.  The time and random
  strings are arguments; a loop that draws random strings takes them from a list.

  \<^bold>\<open>Recursion.\<close>  Every loop of the code is a recursion on a list or a function with a termination proof;
  the only fuel is the list of random strings, and the theorems state how many of them are enough: one
  that is unused for an identifier, one pair per day for daily credentials.
\<close>

end
